(* ===== verification/Prelude.thy ===== *)
theory Prelude
  imports Main "HOL-Library.Word"
begin

text \<open>
  Shared vocabulary of the development: machine integers, the three-valued outcome of a
  Rust call, the list and option functions of the Rust standard library the sources use,
  and a generic theory of polynomials given by their coefficient lists.

  A Rust function that returns \<open>Result<T, E>\<close> and may also panic has type
  \<open>('a, 'e) res\<close>: \<open>Ok\<close> and \<open>Err\<close> are the constructors of \<open>Result\<close>, \<open>Panic\<close> is
  a panic (a failed \<open>assert!\<close>, \<open>expect\<close>, \<open>unwrap\<close> or index). The collections
  \<open>res_simps\<close>, \<open>len_simps\<close> and \<open>poly_simps\<close> gather the rewrite rules of the
  component theories.
\<close>

named_theorems res_simps "rewriting of outcomes"
named_theorems len_simps "lengths of arrays"
named_theorems poly_simps "evaluation of coefficient lists"

subsection \<open>Machine integers\<close>

type_synonym u8 = "8 word"
type_synonym u16 = "16 word"
type_synonym u32 = "32 word"
type_synonym u64 = "64 word"
type_synonym bytes = "8 word list"

lemma unat_u8_less: "unat (x :: u8) < 256"
proof -
  have "unat x < 2 ^ 8" using unsigned_less [of x] by simp
  then show ?thesis by simp
qed

lemma unat_u8_u16: "unat (ucast (x :: u8) :: u16) = unat x"
  using unat_u8_less [of x] by (simp add: unsigned_ucast_eq take_bit_nat_eq_self)

subsection \<open>Outcomes\<close>

datatype ('a, 'e) res = Ok 'a | Err 'e | Panic

fun and_then :: "('a, 'e) res \<Rightarrow> ('a \<Rightarrow> ('b, 'e) res) \<Rightarrow> ('b, 'e) res" where
  "and_then (Ok x) f = f x"
| "and_then (Err e) f = Err e"
| "and_then Panic f = Panic"

fun map_err :: "('e \<Rightarrow> 'f) \<Rightarrow> ('a, 'e) res \<Rightarrow> ('a, 'f) res" where
  "map_err f (Ok x) = Ok x"
| "map_err f (Err e) = Err (f e)"
| "map_err f Panic = Panic"

fun is_ok :: "('a, 'e) res \<Rightarrow> bool" where
  "is_ok (Ok _) = True"
| "is_ok _ = False"

text \<open>What a panic does is a choice of the build: it unwinds the stack of its thread, or it aborts the process. The
  release profile of the workspace, from which the container images and the released binaries are built, has
  \<open>panic = 'abort'\<close>; the development and test profiles unwind.\<close>

datatype panic_strategy = PanicUnwind | PanicAbort

text \<open>\<open>expect\<close> and \<open>unwrap\<close>: an error becomes a panic.\<close>

fun expect :: "('a, 'e) res \<Rightarrow> ('a, 'f) res" where
  "expect (Ok x) = Ok x"
| "expect _ = Panic"

fun ok_or :: "'e \<Rightarrow> 'a option \<Rightarrow> ('a, 'e) res" where
  "ok_or e None = Err e"
| "ok_or e (Some x) = Ok x"

text \<open>\<open>iter().map(f).collect::<Result<Vec<_>, _>>()\<close>: stops at the first failure.\<close>

fun collect_res :: "('a \<Rightarrow> ('b, 'e) res) \<Rightarrow> 'a list \<Rightarrow> ('b list, 'e) res" where
  "collect_res f [] = Ok []"
| "collect_res f (x # xs) =
     and_then (f x) (\<lambda>y. and_then (collect_res f xs) (\<lambda>ys. Ok (y # ys)))"

lemma and_then_Ok_iff [res_simps]:
  "and_then r f = Ok y \<longleftrightarrow> (\<exists>x. r = Ok x \<and> f x = Ok y)"
  by (cases r) auto

lemma and_then_Ok_right [simp]: "and_then r Ok = r"
  by (cases r) auto

lemma and_then_assoc: "and_then (and_then r f) g = and_then r (\<lambda>x. and_then (f x) g)"
  by (cases r) auto

lemma and_then_Panic_iff:
  "and_then r f = Panic \<longleftrightarrow> r = Panic \<or> (\<exists>x. r = Ok x \<and> f x = Panic)"
  by (cases r) auto

lemma and_then_ErrD: "and_then r f = Err e \<Longrightarrow> r = Err e \<or> (\<exists>x. r = Ok x \<and> f x = Err e)"
  by (cases r) auto

lemma map_err_Ok_iff [res_simps]: "map_err f r = Ok x \<longleftrightarrow> r = Ok x"
  by (cases r) auto

lemma expect_Ok_iff [res_simps]: "expect r = Ok x \<longleftrightarrow> r = Ok x"
  by (cases r) auto

lemma ok_or_Ok_iff [res_simps]: "ok_or e o' = Ok x \<longleftrightarrow> o' = Some x"
  by (cases o') auto

lemma ok_or_simps [simp]: "ok_or e o' \<noteq> Panic" "Panic \<noteq> ok_or e o'" "ok_or e o' = Err e' \<longleftrightarrow> o' = None \<and> e' = e"
  by (cases o'; auto)+

lemma is_ok_iff: "is_ok r \<longleftrightarrow> (\<exists>x. r = Ok x)"
  by (cases r) simp_all

lemma collect_res_Ok:
  "(\<And>x. x \<in> set xs \<Longrightarrow> f x = Ok (g x)) \<Longrightarrow> collect_res f xs = Ok (map g xs)"
  by (induction xs) auto

lemma collect_res_map: "collect_res f (map g xs) = collect_res (\<lambda>x. f (g x)) xs"
  by (induction xs) simp_all

lemma collect_res_all_Ok:
  "collect_res f xs = Ok ys \<Longrightarrow> length ys = length xs \<and> (\<forall>i < length xs. f (xs ! i) = Ok (ys ! i))"
proof (induction xs arbitrary: ys)
  case Nil
  then show ?case by simp
next
  case (Cons x xs)
  then obtain y zs where "f x = Ok y" "collect_res f xs = Ok zs" "ys = y # zs"
    by (auto simp: res_simps)
  with Cons.IH show ?case by (auto simp: nth_Cons split: nat.split)
qed

lemma collect_res_is_okD:
  "collect_res f xs = Ok ys \<Longrightarrow> x \<in> set xs \<Longrightarrow> \<exists>y \<in> set ys. f x = Ok y"
proof -
  assume c: "collect_res f xs = Ok ys" and "x \<in> set xs"
  then obtain i where "i < length xs" "xs ! i = x" by (auto simp: in_set_conv_nth)
  with collect_res_all_Ok [OF c] show ?thesis by (metis nth_mem)
qed

lemma collect_res_cong [fundef_cong]:
  "xs = ys \<Longrightarrow> (\<And>x. x \<in> set ys \<Longrightarrow> f x = g x) \<Longrightarrow> collect_res f xs = collect_res g ys"
  by (induction xs arbitrary: ys) auto

lemma collect_res_Panic:
  assumes "\<And>x. x \<in> set xs \<Longrightarrow> f x = Panic \<or> (\<exists>y. f x = Ok y)" and "\<exists>x \<in> set xs. f x = Panic"
  shows "collect_res f xs = Panic"
  using assms
proof (induction xs)
  case Nil
  then show ?case by simp
next
  case (Cons x xs)
  show ?case
  proof (cases "f x")
    case (Ok y)
    with Cons have "collect_res f xs = Panic" by auto
    with Ok show ?thesis by simp
  next
    case (Err e)
    with Cons.prems(1) [of x] show ?thesis by simp
  qed simp
qed

lemma collect_res_exists:
  "(\<And>x. x \<in> set xs \<Longrightarrow> \<exists>y. f x = Ok y) \<Longrightarrow> \<exists>ys. collect_res f xs = Ok ys"
proof (induction xs)
  case (Cons x xs)
  from Cons.prems [of x] obtain y where "f x = Ok y" by auto
  with Cons show ?case by auto
qed simp

lemma collect_res_Err: "collect_res f xs = Err e \<Longrightarrow> \<exists>x \<in> set xs. f x = Err e"
proof (induction xs)
  case (Cons x xs)
  then show ?case by (cases "f x"; cases "collect_res f xs") auto
qed simp

lemma collect_unit_Ok: "(\<exists>us. collect_res f xs = Ok us) \<longleftrightarrow> (\<forall>x \<in> set xs. f x = Ok ())"
proof (induction xs)
  case (Cons x xs)
  then show ?case by (cases "f x"; cases "collect_res f xs") auto
qed simp

lemma collect_res_not_Panic:
  "(\<And>x. x \<in> set xs \<Longrightarrow> f x \<noteq> Panic) \<Longrightarrow> collect_res f xs \<noteq> Panic"
  by (induction xs) (auto simp: and_then_Panic_iff)

lemma and_then_not_Panic:
  "r \<noteq> Panic \<Longrightarrow> (\<And>x. r = Ok x \<Longrightarrow> f x \<noteq> Panic) \<Longrightarrow> and_then r f \<noteq> Panic"
  by (auto simp: and_then_Panic_iff)

subsection \<open>Lists\<close>

lemma distinct_map_fst_nth:
  "distinct (map fst ps) \<Longrightarrow> i < length ps \<Longrightarrow> j < length ps \<Longrightarrow> i \<noteq> j \<Longrightarrow>
   fst (ps ! i) \<noteq> fst (ps ! j)"
  by (metis length_map nth_eq_iff_index_eq nth_map)

lemma filter_fst_upt: "filter P (map f xs) = map f (filter (P \<circ> f) xs)"
  by (simp add: filter_map)

subsection \<open>Decimal numbers\<close>

text \<open>The rendering of an unsigned integer by \<open>format!("{n}")\<close>.\<close>

fun decimal :: "nat \<Rightarrow> string" where
  "decimal n = (if n < 10 then [char_of (48 + n)] else decimal (n div 10) @ [char_of (48 + n mod 10)])"

declare decimal.simps [simp del]

fun undecimal :: "string \<Rightarrow> nat" where
  "undecimal s = foldl (\<lambda>a c. a * 10 + (of_char c - 48)) 0 s"

lemma undecimal_decimal: "undecimal (decimal n) = n"
proof (induction n rule: decimal.induct)
  case (1 n)
  then show ?case by (subst decimal.simps) (simp add: of_char_of)
qed

lemma decimal_inject: "decimal m = decimal n \<longleftrightarrow> m = n"
  by (metis undecimal_decimal)

subsection \<open>State machines\<close>

text \<open>
  The interface of a state machine with an invariant, and of one whose steps also keep a
  predicate that was established before (a check made earlier stays valid).
\<close>

locale invariant_system =
  fixes init :: "'s \<Rightarrow> bool" and step :: "'s \<Rightarrow> 's \<Rightarrow> bool" and invar :: "'s \<Rightarrow> bool"
  assumes init_invar: "init s \<Longrightarrow> invar s"
    and step_invar: "invar s \<Longrightarrow> step s t \<Longrightarrow> invar t"
begin

lemma steps_invar: "step\<^sup>*\<^sup>* s t \<Longrightarrow> invar s \<Longrightarrow> invar t"
  by (induction rule: rtranclp_induct) (auto intro: step_invar)

lemma reachable_invar: "init s \<Longrightarrow> step\<^sup>*\<^sup>* s t \<Longrightarrow> invar t"
  by (blast intro: steps_invar init_invar)

end

locale stable_system = invariant_system +
  fixes good :: "'s \<Rightarrow> bool"
  assumes step_good: "invar s \<Longrightarrow> step s t \<Longrightarrow> good s \<Longrightarrow> good t"
begin

lemma steps_good: "step\<^sup>*\<^sup>* s t \<Longrightarrow> invar s \<Longrightarrow> good s \<Longrightarrow> good t"
proof (induction rule: rtranclp_induct)
  case (step t u)
  then show ?case using steps_invar step_good by blast
qed

end

subsection \<open>Polynomials as coefficient lists over a field\<close>

text \<open>
  The value at \<open>x\<close> of the polynomial with coefficients \<open>c\<^sub>0, c\<^sub>1, \<dots>\<close>. It is the
  specification against which the Horner loop, the products and the Lagrange
  interpolation of the sources are proved.
\<close>

fun peval :: "'a::comm_ring_1 list \<Rightarrow> 'a \<Rightarrow> 'a" where
  "peval [] x = 0"
| "peval (c # cs) x = c + x * peval cs x"

lemma peval_append [poly_simps]: "peval (p @ q) x = peval p x + x ^ length p * peval q x"
  by (induction p) (simp_all add: algebra_simps)

lemma peval_replicate_0 [poly_simps]: "peval (replicate n 0) x = 0"
  by (induction n) simp_all

lemma peval_map_mult [poly_simps]: "peval (map (\<lambda>a. a * s) p) x = peval p x * s"
  by (induction p) (simp_all add: algebra_simps)

lemma peval_0: "p \<noteq> [] \<Longrightarrow> peval p 0 = hd p"
  by (cases p) simp_all

lemma peval_sum: "peval p x = (\<Sum>i < length p. p ! i * x ^ i)"
proof (induction p)
  case Nil
  then show ?case by simp
next
  case (Cons c p)
  have "(\<Sum>i < length (c # p). (c # p) ! i * x ^ i) = c + (\<Sum>i < length p. p ! i * x ^ Suc i)"
    by (simp add: sum.lessThan_Suc_shift del: sum.lessThan_Suc power_Suc)
  also have "(\<Sum>i < length p. p ! i * x ^ Suc i) = x * (\<Sum>i < length p. p ! i * x ^ i)"
    by (simp add: sum_distrib_left algebra_simps)
  finally show ?case by (simp add: Cons.IH)
qed

text \<open>Pointwise difference of two coefficient lists, the shorter padded with zeros.\<close>

fun pminus :: "'a::comm_ring_1 list \<Rightarrow> 'a list \<Rightarrow> 'a list" where
  "pminus [] q = map uminus q"
| "pminus p [] = p"
| "pminus (a # p) (b # q) = (a - b) # pminus p q"

lemma peval_map_uminus: "peval (map uminus q) x = - peval q x"
  by (induction q) (simp_all add: algebra_simps)

lemma peval_pminus: "peval (pminus p q) x = peval p x - peval q x"
  by (induction p q rule: pminus.induct)
    (simp_all add: peval_map_uminus right_diff_distrib)

lemma length_pminus: "length (pminus p q) = max (length p) (length q)"
  by (induction p q rule: pminus.induct) simp_all

text \<open>Synthetic division by \<open>x - a\<close>: the quotient, with remainder \<open>peval p a\<close>.\<close>

fun pquot :: "'a::comm_ring_1 \<Rightarrow> 'a list \<Rightarrow> 'a list" where
  "pquot a [] = []"
| "pquot a (c # cs) = (if cs = [] then [] else peval cs a # pquot a cs)"

lemma length_pquot [len_simps]: "length (pquot a p) = length p - 1"
proof (induction p)
  case Nil
  then show ?case by simp
next
  case (Cons c p)
  then show ?case by (cases p) simp_all
qed

lemma peval_pquot: "peval p x = peval p a + (x - a) * peval (pquot a p) x"
proof (induction p)
  case Nil
  then show ?case by simp
next
  case (Cons c p)
  let ?q = "peval (pquot a p) x"
  have "peval (c # p) x = c + x * (peval p a + (x - a) * ?q)"
    by (simp flip: Cons.IH)
  also have "\<dots> = c + a * peval p a + (x - a) * (peval p a + x * ?q)"
    by (simp add: algebra_simps)
  finally show ?case by (cases "p = []") simp_all
qed

text \<open>
  A polynomial that vanishes at as many distinct points as it has coefficients vanishes
  everywhere.
\<close>

lemma peval_roots_zero:
  fixes p :: "'a::idom list"
  assumes "finite S" and "length p \<le> card S" and "\<And>a. a \<in> S \<Longrightarrow> peval p a = 0"
  shows "peval p x = 0"
  using assms
proof (induction "length p" arbitrary: p S x)
  case 0
  then show ?case by simp
next
  case (Suc n)
  then have "card S \<noteq> 0" by linarith
  with Suc.prems(1) obtain a where a: "a \<in> S" by (metis card.empty all_not_in_conv)
  have "peval (pquot a p) y = 0" for y
  proof (rule Suc.hyps(1))
    show "n = length (pquot a p)" using Suc.hyps(2) by (simp add: len_simps)
    show "finite (S - {a})" using Suc.prems(1) by simp
    show "length (pquot a p) \<le> card (S - {a})"
      using Suc.prems a by (simp add: len_simps)
    show "peval (pquot a p) b = 0" if "b \<in> S - {a}" for b
    proof -
      have "(b - a) * peval (pquot a p) b = 0"
        using peval_pquot [of p b a] Suc.prems(3) that a by auto
      with that show ?thesis by auto
    qed
  qed
  then show ?case using peval_pquot [of p x a] Suc.prems(3) [OF a] by simp
qed

lemma peval_unique:
  fixes p q :: "'a::idom list"
  assumes "finite S" and "length p \<le> card S" and "length q \<le> card S"
    and "\<And>a. a \<in> S \<Longrightarrow> peval p a = peval q a"
  shows "peval p x = peval q x"
proof -
  have "peval (pminus p q) x = 0"
    by (rule peval_roots_zero [of S]) (use assms in \<open>auto simp: length_pminus peval_pminus\<close>)
  then show ?thesis by (simp add: peval_pminus)
qed

text \<open>Two coefficient lists of one length with the same values at enough points are equal.\<close>

lemma peval_pquot_zero_coeffs:
  fixes p :: "'a::idom list"
  assumes "finite S" and "length p \<le> card S" and "\<And>a. a \<in> S \<Longrightarrow> peval p a = 0"
  shows "set p \<subseteq> {0}"
  using assms
proof (induction "length p" arbitrary: p S)
  case 0
  then show ?case by simp
next
  case (Suc n)
  have vanish: "peval p x = 0" for x by (rule peval_roots_zero [OF Suc.prems])
  obtain c cs where p: "p = c # cs" using Suc.hyps(2) by (cases p) auto
  have c: "c = 0" using vanish [of 0] by (simp add: p)
  have "set cs \<subseteq> {0}"
  proof (rule Suc.hyps(1))
    show "n = length cs" using Suc.hyps(2) by (simp add: p)
    show "finite (S - {0})" using Suc.prems(1) by simp
    show "length cs \<le> card (S - {0})"
      using Suc.prems(1,2) by (auto simp: p card_Diff_singleton_if)
    show "peval cs a = 0" if "a \<in> S - {0}" for a
      using vanish [of a] that by (simp add: p c)
  qed
  with c show ?case by (simp add: p)
qed

lemma peval_coeffs_unique:
  fixes p q :: "'a::idom list"
  assumes "finite S" and "length p = length q" and "length p \<le> card S"
    and "\<And>a. a \<in> S \<Longrightarrow> peval p a = peval q a"
  shows "p = q"
proof -
  have "set (pminus p q) \<subseteq> {0}"
    by (rule peval_pquot_zero_coeffs [of S]) (use assms in \<open>auto simp: length_pminus peval_pminus\<close>)
  with assms(2) show ?thesis by (induction p q rule: pminus.induct) auto
qed

end
