(* ===== verification/GF256.thy ===== *)
theory GF256
  imports Prelude
begin

text \<open>
  \<^verbatim>\<open>crates/crypto/src/gf256.rs\<close>: the field with 256 elements, represented as
  polynomials over the two-element field modulo \<open>x\<^sup>8 + x\<^sup>4 + x\<^sup>3 + x + 1\<close>, with
  multiplication and division by exponential and logarithm tables of the generator 3.

  The operations are translated with their tables, their assertion and their 16-bit
  arithmetic. The theory shows that the tables are right (\<open>EXP_step\<close>, \<open>E_L\<close>, \<open>L_E\<close>),
  that no operation panics, that table multiplication is shift-and-add multiplication
  modulo the field polynomial, and that the operations form a field: the type
  \<open>gf256\<close> is an instance of the class \<open>field\<close>, so that the later theories use \<open>+\<close>,
  \<open>*\<close>, \<open>/\<close> and the algebra of the library for the operators of the source.
\<close>

unbundle bit_operations_syntax

subsection \<open>The type and the tables\<close>

datatype gf256 = GF256 (the_byte: u8)

datatype fc_error = InvalidInput | InputLengthWrong nat | GeneralError string

definition EXP :: "u8 list" where
  "EXP = [0x01, 0x03, 0x05, 0x0f, 0x11, 0x33, 0x55, 0xff, 0x1a, 0x2e, 0x72, 0x96, 0xa1, 0xf8, 0x13, 0x35,
    0x5f, 0xe1, 0x38, 0x48, 0xd8, 0x73, 0x95, 0xa4, 0xf7, 0x02, 0x06, 0x0a, 0x1e, 0x22, 0x66, 0xaa,
    0xe5, 0x34, 0x5c, 0xe4, 0x37, 0x59, 0xeb, 0x26, 0x6a, 0xbe, 0xd9, 0x70, 0x90, 0xab, 0xe6, 0x31,
    0x53, 0xf5, 0x04, 0x0c, 0x14, 0x3c, 0x44, 0xcc, 0x4f, 0xd1, 0x68, 0xb8, 0xd3, 0x6e, 0xb2, 0xcd,
    0x4c, 0xd4, 0x67, 0xa9, 0xe0, 0x3b, 0x4d, 0xd7, 0x62, 0xa6, 0xf1, 0x08, 0x18, 0x28, 0x78, 0x88,
    0x83, 0x9e, 0xb9, 0xd0, 0x6b, 0xbd, 0xdc, 0x7f, 0x81, 0x98, 0xb3, 0xce, 0x49, 0xdb, 0x76, 0x9a,
    0xb5, 0xc4, 0x57, 0xf9, 0x10, 0x30, 0x50, 0xf0, 0x0b, 0x1d, 0x27, 0x69, 0xbb, 0xd6, 0x61, 0xa3,
    0xfe, 0x19, 0x2b, 0x7d, 0x87, 0x92, 0xad, 0xec, 0x2f, 0x71, 0x93, 0xae, 0xe9, 0x20, 0x60, 0xa0,
    0xfb, 0x16, 0x3a, 0x4e, 0xd2, 0x6d, 0xb7, 0xc2, 0x5d, 0xe7, 0x32, 0x56, 0xfa, 0x15, 0x3f, 0x41,
    0xc3, 0x5e, 0xe2, 0x3d, 0x47, 0xc9, 0x40, 0xc0, 0x5b, 0xed, 0x2c, 0x74, 0x9c, 0xbf, 0xda, 0x75,
    0x9f, 0xba, 0xd5, 0x64, 0xac, 0xef, 0x2a, 0x7e, 0x82, 0x9d, 0xbc, 0xdf, 0x7a, 0x8e, 0x89, 0x80,
    0x9b, 0xb6, 0xc1, 0x58, 0xe8, 0x23, 0x65, 0xaf, 0xea, 0x25, 0x6f, 0xb1, 0xc8, 0x43, 0xc5, 0x54,
    0xfc, 0x1f, 0x21, 0x63, 0xa5, 0xf4, 0x07, 0x09, 0x1b, 0x2d, 0x77, 0x99, 0xb0, 0xcb, 0x46, 0xca,
    0x45, 0xcf, 0x4a, 0xde, 0x79, 0x8b, 0x86, 0x91, 0xa8, 0xe3, 0x3e, 0x42, 0xc6, 0x51, 0xf3, 0x0e,
    0x12, 0x36, 0x5a, 0xee, 0x29, 0x7b, 0x8d, 0x8c, 0x8f, 0x8a, 0x85, 0x94, 0xa7, 0xf2, 0x0d, 0x17,
    0x39, 0x4b, 0xdd, 0x7c, 0x84, 0x97, 0xa2, 0xfd, 0x1c, 0x24, 0x6c, 0xb4, 0xc7, 0x52, 0xf6]"

definition LOG :: "u8 list" where
  "LOG = [0x00, 0x19, 0x01, 0x32, 0x02, 0x1a, 0xc6, 0x4b, 0xc7, 0x1b, 0x68, 0x33, 0xee, 0xdf, 0x03, 0x64,
    0x04, 0xe0, 0x0e, 0x34, 0x8d, 0x81, 0xef, 0x4c, 0x71, 0x08, 0xc8, 0xf8, 0x69, 0x1c, 0xc1, 0x7d,
    0xc2, 0x1d, 0xb5, 0xf9, 0xb9, 0x27, 0x6a, 0x4d, 0xe4, 0xa6, 0x72, 0x9a, 0xc9, 0x09, 0x78, 0x65,
    0x2f, 0x8a, 0x05, 0x21, 0x0f, 0xe1, 0x24, 0x12, 0xf0, 0x82, 0x45, 0x35, 0x93, 0xda, 0x8e, 0x96,
    0x8f, 0xdb, 0xbd, 0x36, 0xd0, 0xce, 0x94, 0x13, 0x5c, 0xd2, 0xf1, 0x40, 0x46, 0x83, 0x38, 0x66,
    0xdd, 0xfd, 0x30, 0xbf, 0x06, 0x8b, 0x62, 0xb3, 0x25, 0xe2, 0x98, 0x22, 0x88, 0x91, 0x10, 0x7e,
    0x6e, 0x48, 0xc3, 0xa3, 0xb6, 0x1e, 0x42, 0x3a, 0x6b, 0x28, 0x54, 0xfa, 0x85, 0x3d, 0xba, 0x2b,
    0x79, 0x0a, 0x15, 0x9b, 0x9f, 0x5e, 0xca, 0x4e, 0xd4, 0xac, 0xe5, 0xf3, 0x73, 0xa7, 0x57, 0xaf,
    0x58, 0xa8, 0x50, 0xf4, 0xea, 0xd6, 0x74, 0x4f, 0xae, 0xe9, 0xd5, 0xe7, 0xe6, 0xad, 0xe8, 0x2c,
    0xd7, 0x75, 0x7a, 0xeb, 0x16, 0x0b, 0xf5, 0x59, 0xcb, 0x5f, 0xb0, 0x9c, 0xa9, 0x51, 0xa0, 0x7f,
    0x0c, 0xf6, 0x6f, 0x17, 0xc4, 0x49, 0xec, 0xd8, 0x43, 0x1f, 0x2d, 0xa4, 0x76, 0x7b, 0xb7, 0xcc,
    0xbb, 0x3e, 0x5a, 0xfb, 0x60, 0xb1, 0x86, 0x3b, 0x52, 0xa1, 0x6c, 0xaa, 0x55, 0x29, 0x9d, 0x97,
    0xb2, 0x87, 0x90, 0x61, 0xbe, 0xdc, 0xfc, 0xbc, 0x95, 0xcf, 0xcd, 0x37, 0x3f, 0x5b, 0xd1, 0x53,
    0x39, 0x84, 0x3c, 0x41, 0xa2, 0x6d, 0x47, 0x14, 0x2a, 0x9e, 0x5d, 0x56, 0xf2, 0xd3, 0xab, 0x44,
    0x11, 0x92, 0xd9, 0x23, 0x20, 0x2e, 0x89, 0xb4, 0x7c, 0xb8, 0x26, 0x77, 0x99, 0xe3, 0xa5, 0x67,
    0x4a, 0xed, 0xde, 0xc5, 0x31, 0xfe, 0x18, 0x0d, 0x63, 0x8c, 0x80, 0xc0, 0xf7, 0x70, 0x07]"

subsection \<open>The operations of the source\<close>

text \<open>\<open>assert_ne!(x.0, 0)\<close> and the index \<open>x.0 as usize - 1\<close>.\<close>

definition gf_log :: "gf256 \<Rightarrow> (u16, fc_error) res" where
  "gf_log x =
     (if the_byte x = 0 then Panic
      else Ok (ucast (LOG ! (unat (the_byte x) - 1))))"

definition gf_exp :: "u16 \<Rightarrow> gf256" where
  "gf_exp x = GF256 (EXP ! (unat x mod 255))"

definition gf_zero :: gf256 where
  "gf_zero = GF256 0"

definition gf_one :: gf256 where
  "gf_one = GF256 1"

definition gf_add :: "gf256 \<Rightarrow> gf256 \<Rightarrow> gf256" where
  "gf_add a b = GF256 (the_byte a XOR the_byte b)"

text \<open>\<open>AddAssign\<close>: the new value of the left operand.\<close>

definition gf_add_assign :: "gf256 \<Rightarrow> gf256 \<Rightarrow> gf256" where
  "gf_add_assign a b = GF256 (the_byte a XOR the_byte b)"

definition gf_sub :: "gf256 \<Rightarrow> gf256 \<Rightarrow> gf256" where
  "gf_sub a b = gf_add a b"

definition gf_neg :: "gf256 \<Rightarrow> gf256" where
  "gf_neg a = gf_sub gf_zero a"

definition gf_mul :: "gf256 \<Rightarrow> gf256 \<Rightarrow> (gf256, fc_error) res" where
  "gf_mul a b =
     (if the_byte a = 0 \<or> the_byte b = 0 then Ok gf_zero
      else and_then (gf_log a) (\<lambda>i. and_then (gf_log b) (\<lambda>j. Ok (gf_exp (i + j)))))"

definition gf_div :: "gf256 \<Rightarrow> gf256 \<Rightarrow> (gf256, fc_error) res" where
  "gf_div a b =
     (if the_byte b = 0 then Err InvalidInput
      else if the_byte a = 0 then Ok gf_zero
      else and_then (gf_log a) (\<lambda>i. and_then (gf_log b) (\<lambda>j. Ok (gf_exp (255 + i - j)))))"

subsection \<open>The tables are right\<close>

text \<open>Doubling and tripling modulo the field polynomial, on bytes.\<close>

definition xtime :: "u8 \<Rightarrow> u8" where
  "xtime x = (if bit x 7 then push_bit 1 x XOR 0x1b else push_bit 1 x)"

definition mul3 :: "u8 \<Rightarrow> u8" where
  "mul3 x = xtime x XOR x"

lemma length_EXP: "length EXP = 255"
  by (simp add: EXP_def)

lemma length_LOG: "length LOG = 255"
  by (simp add: LOG_def)

lemma EXP_step: "map mul3 EXP = rotate1 EXP"
  unfolding EXP_def mul3_def xtime_def by simp

lemma LOG_EXP_table:
  "list_all (\<lambda>i. EXP ! i \<noteq> 0 \<and> unat (LOG ! (unat (EXP ! i) - 1)) = i) [0..<255]"
  by code_simp

lemma EXP_LOG_table:
  "list_all (\<lambda>n. unat (LOG ! n) < 255 \<and> EXP ! unat (LOG ! n) = of_nat (Suc n)) [0..<255]"
  by code_simp

definition E :: "nat \<Rightarrow> gf256" where
  "E n = GF256 (EXP ! (n mod 255))"

definition L :: "gf256 \<Rightarrow> nat" where
  "L x = unat (LOG ! (unat (the_byte x) - 1))"

lemma E_mod: "E (n mod 255) = E n"
  by (simp add: E_def)

lemma E_eq_modI: "m mod 255 = n mod 255 \<Longrightarrow> E m = E n"
  by (simp add: E_def)

lemma L_E: "L (E n) = n mod 255"
  using LOG_EXP_table by (simp add: list_all_iff E_def L_def)

lemma E_nonzero: "the_byte (E n) \<noteq> 0"
  using LOG_EXP_table by (simp add: list_all_iff E_def)

lemma byte_pred:
  assumes "x \<noteq> (0 :: u8)"
  shows "unat x - 1 < 255" and "of_nat (Suc (unat x - 1)) = x"
proof -
  have "unat x < 256" using unsigned_less [of x] by simp
  moreover have "0 < unat x" using assms by (simp add: unat_gt_0)
  ultimately show "unat x - 1 < 255" and "of_nat (Suc (unat x - 1)) = x"
    by (simp_all del: of_nat_Suc)
qed

lemma E_L: "the_byte x \<noteq> 0 \<Longrightarrow> E (L x) = x"
  using EXP_LOG_table byte_pred [of "the_byte x"]
  by (cases x) (simp add: list_all_iff E_def L_def del: of_nat_Suc)

lemma L_less: "the_byte x \<noteq> 0 \<Longrightarrow> L x < 255"
  using EXP_LOG_table byte_pred(1) [of "the_byte x"] by (simp add: list_all_iff L_def)

lemma EXP_Suc: "EXP ! (Suc n mod 255) = mul3 (EXP ! (n mod 255))"
proof -
  have "rotate1 EXP ! (n mod 255) = EXP ! (Suc (n mod 255) mod length EXP)"
    by (rule nth_rotate1) (simp add: length_EXP)
  moreover have "map mul3 EXP ! (n mod 255) = mul3 (EXP ! (n mod 255))"
    by (rule nth_map) (simp add: length_EXP)
  ultimately show ?thesis by (simp add: EXP_step length_EXP mod_Suc_eq)
qed

lemma E_Suc: "E (Suc n) = GF256 (mul3 (the_byte (E n)))"
  by (simp add: E_def EXP_Suc)

subsection \<open>Multiplication and division in terms of the tables\<close>

lemma gf_log_eq: "the_byte x \<noteq> 0 \<Longrightarrow> \<exists>i. gf_log x = Ok i \<and> unat i = L x"
  by (simp add: gf_log_def L_def unat_u8_u16)

lemma gf_exp_add: "unat i < 255 \<Longrightarrow> unat j < 255 \<Longrightarrow> gf_exp (i + j) = E (unat i + unat j)"
  by (simp add: gf_exp_def E_def unat_word_ariths)

lemma gf_exp_sub:
  assumes "unat i < 255" and "unat j < 255"
  shows "gf_exp (255 + i - j) = E (255 + unat i - unat j)"
proof -
  have sum: "unat (255 + i) = 255 + unat i"
    using assms by (simp add: unat_word_ariths)
  then have "unat (255 + i - j) = 255 + unat i - unat j"
    using assms by (subst unat_sub) (simp_all add: word_le_nat_alt)
  then show ?thesis by (simp add: gf_exp_def E_def)
qed

lemma gf_mul_eq:
  "gf_mul a b = Ok (if the_byte a = 0 \<or> the_byte b = 0 then gf_zero else E (L a + L b))"
  using gf_log_eq [of a] gf_log_eq [of b] L_less [of a] L_less [of b]
  by (auto simp: gf_mul_def gf_exp_add)

lemma gf_div_eq:
  "gf_div a b =
     (if the_byte b = 0 then Err InvalidInput
      else Ok (if the_byte a = 0 then gf_zero else E (255 + L a - L b)))"
  using gf_log_eq [of a] gf_log_eq [of b] L_less [of a] L_less [of b]
  by (auto simp: gf_div_def gf_exp_sub)

subsection \<open>Tripling is linear, so multiplication distributes\<close>

lemma xtime_xor: "xtime (x XOR y) = xtime x XOR xtime y"
  by (simp add: xtime_def bit_simps push_bit_xor ac_simps)

lemma mul3_xor: "mul3 (x XOR y) = mul3 x XOR mul3 y"
  by (simp add: mul3_def xtime_xor xor.assoc xor.left_commute)

lemma mul3_0 [simp]: "mul3 0 = 0"
  by (simp add: mul3_def xtime_def)

lemma mul3_pow_xor: "(mul3 ^^ n) (x XOR y) = (mul3 ^^ n) x XOR (mul3 ^^ n) y"
  by (induction n) (simp_all add: mul3_xor)

lemma mul3_pow_0 [simp]: "(mul3 ^^ n) 0 = 0"
  by (induction n) simp_all

lemma E_add_pow: "E (m + n) = GF256 ((mul3 ^^ m) (the_byte (E n)))"
  by (induction m) (simp_all add: E_Suc)

definition gf_times :: "gf256 \<Rightarrow> gf256 \<Rightarrow> gf256" where
  "gf_times a b = (if the_byte a = 0 \<or> the_byte b = 0 then gf_zero else E (L a + L b))"

lemma gf_times_pow:
  "the_byte a \<noteq> 0 \<Longrightarrow> gf_times a b = GF256 ((mul3 ^^ L a) (the_byte b))"
  by (simp add: gf_times_def E_add_pow E_L gf_zero_def)

lemma gf_times_add: "gf_times a (gf_add b c) = gf_add (gf_times a b) (gf_times a c)"
proof (cases "the_byte a = 0")
  case True
  then show ?thesis by (simp add: gf_times_def gf_add_def gf_zero_def)
next
  case False
  then show ?thesis by (simp add: gf_times_pow gf_add_def mul3_pow_xor)
qed

lemma gf_times_zero [simp]: "gf_times gf_zero a = gf_zero" "gf_times a gf_zero = gf_zero"
  by (simp_all add: gf_times_def gf_zero_def)

lemma gf_times_commute: "gf_times a b = gf_times b a"
  by (simp add: gf_times_def add.commute disj_commute)

lemma gf_times_assoc: "gf_times (gf_times a b) c = gf_times a (gf_times b c)"
proof (cases "the_byte a = 0 \<or> the_byte b = 0 \<or> the_byte c = 0")
  case True
  then show ?thesis by (auto simp: gf_times_def gf_zero_def)
next
  case False
  then have "gf_times (gf_times a b) c = E ((L a + L b) mod 255 + L c)"
    and "gf_times a (gf_times b c) = E (L a + (L b + L c) mod 255)"
    by (simp_all add: gf_times_def E_nonzero L_E)
  then show ?thesis by (auto intro!: E_eq_modI simp: mod_simps add.assoc)
qed

lemma E_0: "E 0 = gf_one"
  by (simp add: E_def EXP_def gf_one_def)

lemma L_one: "L gf_one = 0"
  using L_E [of 0] by (simp add: E_0)

lemma gf_times_one: "gf_times gf_one a = a"
  by (cases "the_byte a = 0") (cases a, auto simp: gf_times_def gf_one_def gf_zero_def
      L_one [unfolded gf_one_def] E_L)

lemma gf_times_inverse: "the_byte a \<noteq> 0 \<Longrightarrow> gf_times (E (255 - L a)) a = gf_one"
proof -
  assume a: "the_byte a \<noteq> 0"
  then have "gf_times (E (255 - L a)) a = E ((255 - L a) mod 255 + L a)"
    by (simp add: gf_times_def E_nonzero L_E)
  also have "\<dots> = E 0"
    using L_less [OF a] by (intro E_eq_modI) (simp add: mod_simps)
  finally show ?thesis by (simp add: E_0)
qed

subsection \<open>The field instance\<close>

instantiation gf256 :: field
begin

definition zero_gf256 :: gf256 where "zero_gf256 = gf_zero"
definition one_gf256 :: gf256 where "one_gf256 = gf_one"
definition plus_gf256 :: "gf256 \<Rightarrow> gf256 \<Rightarrow> gf256" where "plus_gf256 = gf_add"
definition minus_gf256 :: "gf256 \<Rightarrow> gf256 \<Rightarrow> gf256" where "minus_gf256 = gf_sub"
definition uminus_gf256 :: "gf256 \<Rightarrow> gf256" where "uminus_gf256 = gf_neg"
definition times_gf256 :: "gf256 \<Rightarrow> gf256 \<Rightarrow> gf256" where "times_gf256 = gf_times"
definition inverse_gf256 :: "gf256 \<Rightarrow> gf256" where
  "inverse_gf256 a = (if the_byte a = 0 then gf_zero else E (255 - L a))"
definition divide_gf256 :: "gf256 \<Rightarrow> gf256 \<Rightarrow> gf256" where
  "divide_gf256 a b = gf_times a (inverse b)"

lemmas gf256_class_defs = zero_gf256_def one_gf256_def plus_gf256_def minus_gf256_def
  uminus_gf256_def times_gf256_def inverse_gf256_def divide_gf256_def

instance
proof
  fix a b c :: gf256
  show "a * b * c = a * (b * c)" by (simp add: gf256_class_defs gf_times_assoc)
  show "a * b = b * a" by (simp add: gf256_class_defs gf_times_commute)
  show "1 * a = a" by (simp add: gf256_class_defs gf_times_one)
  show "a + b + c = a + (b + c)" by (simp add: gf256_class_defs gf_add_def xor.assoc)
  show "a + b = b + a" by (simp add: gf256_class_defs gf_add_def xor.commute)
  show "0 + a = a" by (simp add: gf256_class_defs gf_add_def gf_zero_def)
  show "- a + a = 0" by (simp add: gf256_class_defs gf_add_def gf_sub_def gf_neg_def gf_zero_def)
  show "a - b = a + - b"
    by (simp add: gf256_class_defs gf_add_def gf_sub_def gf_neg_def gf_zero_def)
  show "(a + b) * c = a * c + b * c"
    by (simp add: gf256_class_defs gf_times_commute [of _ c] gf_times_add)
  show "(0 :: gf256) \<noteq> 1" by (simp add: gf256_class_defs gf_zero_def gf_one_def)
  show "a \<noteq> 0 \<Longrightarrow> inverse a * a = 1"
    by (cases a) (auto simp: gf256_class_defs gf_zero_def gf_times_inverse)
  show "divide a b = a * inverse b" by (simp add: gf256_class_defs)
  show "inverse (0 :: gf256) = 0" by (simp add: gf256_class_defs gf_zero_def)
qed

end

lemma zero_gf256_byte [simp]: "the_byte a = 0 \<longleftrightarrow> a = 0"
  by (cases a) (simp add: zero_gf256_def gf_zero_def)

lemma GF256_0: "GF256 0 = 0"
  by (simp add: zero_gf256_def gf_zero_def)

lemma gf_char_2: "a + a = (0 :: gf256)" "- a = (a :: gf256)" "a - b = a + (b :: gf256)"
  by (simp_all add: plus_gf256_def gf_add_def zero_gf256_def gf_zero_def uminus_gf256_def
      gf_neg_def gf_sub_def minus_gf256_def)

lemma gf_zero_eq [simp]: "gf_zero = 0"
  by (simp add: zero_gf256_def)

lemma gf_one_eq [simp]: "gf_one = 1"
  by (simp add: one_gf256_def)

subsection \<open>Sums, products and conversions\<close>

definition gf_product :: "gf256 list \<Rightarrow> gf256" where
  "gf_product xs = foldl (\<lambda>acc x. acc * x) (GF256 1) xs"

definition gf_sum :: "gf256 list \<Rightarrow> gf256" where
  "gf_sum xs = foldl (\<lambda>acc x. acc + x) (GF256 0) xs"

definition gf_from_u8 :: "u8 \<Rightarrow> gf256" where
  "gf_from_u8 v = GF256 v"

definition gf_into_u8 :: "gf256 \<Rightarrow> u8" where
  "gf_into_u8 v = the_byte v"

lemma foldl_times: "foldl (\<lambda>acc x. acc * x) a xs = a * prod_list (xs :: gf256 list)"
  by (induction xs arbitrary: a) (simp_all add: mult.assoc)

lemma foldl_plus: "foldl (\<lambda>acc x. acc + x) a xs = a + sum_list (xs :: gf256 list)"
  by (induction xs arbitrary: a) (simp_all add: add.assoc)

lemma gf_product_eq: "gf_product xs = prod_list xs"
  by (simp add: gf_product_def foldl_times one_gf256_def [symmetric] gf_one_def [symmetric])

lemma gf_sum_eq: "gf_sum xs = sum_list xs"
  by (simp add: gf_sum_def foldl_plus GF256_0)

lemma gf_into_from [simp]: "gf_into_u8 (gf_from_u8 v) = v" "gf_from_u8 (gf_into_u8 a) = a"
  by (simp_all add: gf_into_u8_def gf_from_u8_def)

lemma gf_from_u8_inject [simp]: "gf_from_u8 v = gf_from_u8 w \<longleftrightarrow> v = w"
  by (simp add: gf_from_u8_def)

lemma gf_from_u8_zero [simp]: "gf_from_u8 v = 0 \<longleftrightarrow> v = 0"
  by (metis gf256.sel gf_from_u8_def zero_gf256_byte)

subsection \<open>Shift-and-add multiplication\<close>

text \<open>
  The reference multiplication: the multiples \<open>b\<close>, \<open>2b\<close>, \<open>4b\<close>, \<dots> modulo the field
  polynomial, added up at the bits of \<open>a\<close>.
\<close>

fun shift_add :: "nat \<Rightarrow> u8 \<Rightarrow> u8 \<Rightarrow> u8" where
  "shift_add 0 a b = 0"
| "shift_add (Suc n) a b =
     (if bit a 0 then b else 0) XOR shift_add n (drop_bit 1 a) (xtime b)"

lemma GF256_xor: "GF256 (x XOR y) = GF256 x + GF256 y"
  by (simp add: plus_gf256_def gf_add_def)

lemma GF256_1: "GF256 1 = 1"
  using gf_one_def by simp

lemma times_3: "GF256 3 * y = GF256 (mul3 (the_byte y))"
proof -
  have E1: "E 1 = GF256 3" by (simp add: E_def EXP_def)
  then have "L (GF256 3) = 1" using L_E [of 1] by simp
  then show ?thesis by (simp add: times_gf256_def gf_times_pow)
qed

lemma times_2: "GF256 2 * GF256 y = GF256 (xtime y)"
proof -
  have "GF256 2 = GF256 3 + 1"
    by (simp flip: GF256_1 GF256_xor)
  then have "GF256 2 * GF256 y = GF256 (mul3 y) + GF256 y"
    by (simp add: distrib_right times_3)
  then show ?thesis by (simp add: mul3_def xor.assoc flip: GF256_xor)
qed

lemma xtime_small: "n \<le> 7 \<Longrightarrow> xtime (take_bit n x) = push_bit 1 (take_bit n x)"
  by (simp add: xtime_def bit_simps)

lemma take_bit_Suc_split:
  "take_bit (Suc n) (x :: u8) = (if bit x 0 then 1 else 0) XOR push_bit 1 (take_bit n (drop_bit 1 x))"
proof (rule bit_eqI)
  fix k assume "possible_bit TYPE(u8) k"
  then show "bit (take_bit (Suc n) x) k =
    bit ((if bit x 0 then 1 else 0) XOR push_bit 1 (take_bit n (drop_bit 1 x))) k"
    by (cases k) (auto simp: bit_simps simp del: push_bit_Suc)
qed

lemma shift_add_eq: "n \<le> 8 \<Longrightarrow> GF256 (shift_add n a b) = GF256 (take_bit n a) * GF256 b"
proof (induction n arbitrary: a b)
  case 0
  then show ?case by (simp add: GF256_0)
next
  case (Suc n)
  let ?bit = "(if bit a 0 then 1 else 0) :: u8" and ?rest = "take_bit n (drop_bit 1 a)"
  have low: "GF256 (if bit a 0 then b else 0) = GF256 ?bit * GF256 b"
    by (simp add: GF256_0 GF256_1)
  have "GF256 (shift_add n (drop_bit 1 a) (xtime b)) = GF256 ?rest * GF256 (xtime b)"
    using Suc by simp
  also have "\<dots> = GF256 (xtime ?rest) * GF256 b"
    by (simp flip: times_2 add: mult.commute mult.left_commute)
  also have "\<dots> = GF256 (push_bit 1 ?rest) * GF256 b"
    using Suc.prems by (simp add: xtime_small)
  finally have high: "GF256 (shift_add n (drop_bit 1 a) (xtime b)) = GF256 (push_bit 1 ?rest) * GF256 b" .
  have "GF256 (shift_add (Suc n) a b) = (GF256 ?bit + GF256 (push_bit 1 ?rest)) * GF256 b"
    unfolding shift_add.simps GF256_xor low high by (simp add: distrib_right)
  then show ?case by (simp only: take_bit_Suc_split GF256_xor)
qed

lemma gf_mul_times [simp]: "gf_mul a b = Ok (a * b)"
  unfolding times_gf256_def gf_times_def by (rule gf_mul_eq)

lemma gf_div_divide [simp]: "gf_div a b = (if b = 0 then Err InvalidInput else Ok (a / b))"
proof (cases "a = 0 \<or> b = 0")
  case True
  then show ?thesis by (auto simp: gf_div_eq)
next
  case False
  then have nz: "the_byte a \<noteq> 0" "the_byte b \<noteq> 0" by simp_all
  have "E (255 + L a - L b) * b = E ((255 + L a - L b) mod 255 + L b)"
    using nz by (simp add: times_gf256_def gf_times_def E_nonzero L_E del: zero_gf256_byte)
  also have "\<dots> = E (L a)"
    using L_less [OF nz(2)] by (intro E_eq_modI) (simp add: mod_simps)
  finally have "E (255 + L a - L b) * b = a" using E_L [OF nz(1)] by simp
  then have "E (255 + L a - L b) = a / b" using False by (simp add: eq_divide_eq)
  with False show ?thesis by (simp add: gf_div_eq)
qed

subsection \<open>Properties\<close>

text \<open>C30: multiplication by logarithm tables never panics and is multiplication of
  polynomials modulo \<open>x\<^sup>8 + x\<^sup>4 + x\<^sup>3 + x + 1\<close>: it gives the shift-and-add product on
  all 65536 pairs of bytes.\<close>

theorem gf_mul_shift_add: "gf_mul (GF256 a) (GF256 b) = Ok (GF256 (shift_add 8 a b))"
  using shift_add_eq [of 8 a b] by (simp add: take_bit_word_eq_self)

text \<open>division fails exactly on a zero divisor, with an error and never a panic, and
  the quotient is the solution of the multiplication.\<close>

theorem gf_div_solves:
  "(gf_div a b = Ok c \<longleftrightarrow> b \<noteq> gf_zero \<and> gf_mul c b = Ok a) \<and>
   gf_div a gf_zero = Err InvalidInput \<and> gf_div a b \<noteq> Panic"
  by (auto simp: divide_eq_eq)

end
