(* ===== verification/Polynomials.thy ===== *)
theory Polynomials
  imports GF256
begin

text \<open>
  \<^verbatim>\<open>crates/crypto/src/polynomial.rs\<close>: polynomials over the field of 256 elements as
  vectors of coefficients, constant term first, with Horner evaluation, sums and products
  and Lagrange interpolation.

  \<open>degree\<close> subtracts one from a \<open>usize\<close> length, so it has no value on the empty vector.
  In a product with an empty factor the subtraction either panics or, where overflow
  checks are off, wraps to the largest \<open>usize\<close>, and the first coefficient then indexes
  an empty vector: the product panics in both builds. Interpolation is proved never to
  reach such a product.
\<close>

type_synonym polynomial = "gf256 list"

subsection \<open>The operations\<close>

definition degree :: "polynomial \<Rightarrow> (nat, fc_error) res" where
  "degree p = (if p = [] then Panic else Ok (length p - 1))"

definition evaluate :: "polynomial \<Rightarrow> gf256 \<Rightarrow> gf256" where
  "evaluate p x = foldl (\<lambda>sum coefficient. sum * x + coefficient) gf_zero (rev p)"

definition poly_zero :: polynomial where
  "poly_zero = []"

definition poly_one :: polynomial where
  "poly_one = [gf_one]"

function strip_trailing_zeros :: "polynomial \<Rightarrow> polynomial" where
  "strip_trailing_zeros p =
     (if p \<noteq> [] \<and> last p = gf_zero then strip_trailing_zeros (butlast p) else p)"
  by pat_completeness auto
termination
  by (relation "measure length") auto

declare strip_trailing_zeros.simps [simp del]

definition monic_linear :: "gf256 \<Rightarrow> polynomial" where
  "monic_linear constant = [constant, gf_one]"

text \<open>\<open>zip_longest\<close> followed by the match on \<open>left_and_right\<close>.\<close>

fun zip_longest_add :: "gf256 list \<Rightarrow> gf256 list \<Rightarrow> gf256 list" where
  "zip_longest_add (a # p) (b # q) = (a + b) # zip_longest_add p q"
| "zip_longest_add p [] = p"
| "zip_longest_add [] q = q"

definition poly_add :: "polynomial \<Rightarrow> polynomial \<Rightarrow> polynomial" where
  "poly_add p q = strip_trailing_zeros (zip_longest_add p q)"

definition poly_sum :: "polynomial list \<Rightarrow> polynomial" where
  "poly_sum ps = foldl (\<lambda>sum term. poly_add sum term) poly_zero ps"

definition poly_scale :: "polynomial \<Rightarrow> gf256 \<Rightarrow> polynomial" where
  "poly_scale p s = strip_trailing_zeros (map (\<lambda>a. a * s) p)"

definition poly_mul_coeff :: "polynomial \<Rightarrow> polynomial \<Rightarrow> nat \<Rightarrow> nat \<Rightarrow> nat \<Rightarrow> gf256" where
  "poly_mul_coeff p q dp dq i =
     gf_sum (map (\<lambda>j. p ! j * q ! (i - j)) (filter (\<lambda>j. j \<le> dp \<and> i - j \<le> dq) [0..<Suc i]))"

definition poly_mul :: "polynomial \<Rightarrow> polynomial \<Rightarrow> (polynomial, fc_error) res" where
  "poly_mul p q =
     and_then (degree p) (\<lambda>dp. and_then (degree q) (\<lambda>dq.
       Ok (map (poly_mul_coeff p q dp dq) [0..<Suc (dp + dq)])))"

definition poly_div :: "polynomial \<Rightarrow> gf256 \<Rightarrow> (polynomial, fc_error) res" where
  "poly_div p divisor =
     and_then (gf_div gf_one divisor) (\<lambda>inverse.
       Ok (strip_trailing_zeros (map (\<lambda>a. a * inverse) p)))"

definition poly_product :: "polynomial list \<Rightarrow> (polynomial, fc_error) res" where
  "poly_product ps =
     foldl (\<lambda>product factor. and_then product (\<lambda>p. poly_mul p factor)) (Ok poly_one) ps"

text \<open>
  The factors and the \<open>j\<close>-th term of the Lagrange sum; \<open>expect\<close> turns a zero divisor
  into a panic.
\<close>

definition lagrange_factor :: "gf256 \<Rightarrow> gf256 \<Rightarrow> (polynomial, fc_error) res" where
  "lagrange_factor x_j x_i = expect (poly_div (monic_linear (- x_i)) (x_j - x_i))"

definition lagrange_term ::
  "(gf256 \<times> gf256) list \<Rightarrow> nat \<times> gf256 \<times> gf256 \<Rightarrow> (polynomial, fc_error) res" where
  "lagrange_term points = (\<lambda>(j, x_j, y_j).
     and_then
       (collect_res (\<lambda>(_, x_i, _). lagrange_factor x_j x_i)
         (filter (\<lambda>(i, _). i \<noteq> j) (enumerate 0 points)))
       (\<lambda>factors. and_then (poly_product factors) (\<lambda>p. Ok (poly_scale p y_j))))"

definition poly_interpolate :: "(gf256 \<times> gf256) list \<Rightarrow> (polynomial, fc_error) res" where
  "poly_interpolate points =
     and_then (collect_res (lagrange_term points) (enumerate 0 points)) (\<lambda>ts. Ok (poly_sum ts))"

subsection \<open>Evaluation\<close>

lemma evaluate_peval [poly_simps]: "evaluate p x = peval p x"
proof -
  have "foldl (\<lambda>sum c. sum * x + c) a (rev p) = a * x ^ length p + peval p x" for a
    by (induction p) (simp_all add: algebra_simps)
  then show ?thesis by (simp add: evaluate_def)
qed

lemma peval_strip [poly_simps]: "peval (strip_trailing_zeros p) x = peval p x"
proof (induction p rule: strip_trailing_zeros.induct)
  case (1 p)
  show ?case
  proof (cases "p \<noteq> [] \<and> last p = 0")
    case True
    then have "peval p x = peval (butlast p @ [0]) x" by (metis append_butlast_last_id)
    also have "\<dots> = peval (butlast p) x" by (simp add: poly_simps)
    finally show ?thesis using 1 True by (simp add: strip_trailing_zeros.simps [of p])
  next
    case False
    then show ?thesis by (auto simp: strip_trailing_zeros.simps [of p])
  qed
qed

lemma length_strip: "length (strip_trailing_zeros p) \<le> length p"
proof (induction p rule: strip_trailing_zeros.induct)
  case (1 p)
  then show ?case
    by (cases "p \<noteq> [] \<and> last p = 0") (auto simp: strip_trailing_zeros.simps [of p])
qed

lemma strip_canonical: "strip_trailing_zeros p = [] \<or> last (strip_trailing_zeros p) \<noteq> 0"
proof (induction p rule: strip_trailing_zeros.induct)
  case (1 p)
  then show ?case
    by (cases "p \<noteq> [] \<and> last p = 0") (auto simp: strip_trailing_zeros.simps [of p])
qed

lemma strip_id: "last p \<noteq> 0 \<Longrightarrow> strip_trailing_zeros p = p"
  by (simp add: strip_trailing_zeros.simps)

lemma peval_zip_longest [poly_simps]: "peval (zip_longest_add p q) x = peval p x + peval q x"
  by (induction p q rule: zip_longest_add.induct) (simp_all add: algebra_simps)

lemma length_zip_longest: "length (zip_longest_add p q) = max (length p) (length q)"
  by (induction p q rule: zip_longest_add.induct) simp_all

lemma peval_add [poly_simps]: "peval (poly_add p q) x = peval p x + peval q x"
  by (simp add: poly_add_def poly_simps)

lemma length_add: "length (poly_add p q) \<le> max (length p) (length q)"
  unfolding poly_add_def using length_strip [of "zip_longest_add p q"]
  by (simp add: length_zip_longest)

lemma peval_scale [poly_simps]: "peval (poly_scale p s) x = peval p x * s"
  by (simp add: poly_scale_def poly_simps)

lemma length_scale: "length (poly_scale p s) \<le> length p"
  unfolding poly_scale_def by (metis length_map length_strip)

lemma peval_poly_sum [poly_simps]: "peval (poly_sum ps) x = (\<Sum>p \<leftarrow> ps. peval p x)"
proof -
  have "peval (foldl poly_add a ps) x = peval a x + (\<Sum>p \<leftarrow> ps. peval p x)" for a
    by (induction ps arbitrary: a) (simp_all add: poly_simps add.assoc)
  then show ?thesis by (simp add: poly_sum_def poly_zero_def)
qed

lemma length_poly_sum: "(\<And>p. p \<in> set ps \<Longrightarrow> length p \<le> n) \<Longrightarrow> length (poly_sum ps) \<le> n"
proof -
  assume ps: "\<And>p. p \<in> set ps \<Longrightarrow> length p \<le> n"
  have "length a \<le> n \<Longrightarrow> length (foldl poly_add a ps) \<le> n" for a
    using ps
  proof (induction ps arbitrary: a)
    case (Cons p ps)
    have "length (poly_add a p) \<le> n" using length_add [of a p] Cons.prems by force
    with Cons show ?case by simp
  qed simp
  then show ?thesis by (simp add: poly_sum_def poly_zero_def)
qed

subsection \<open>Products\<close>

lemma sum_list_filter_upt:
  "(\<Sum>j \<leftarrow> filter P [0..<n]. f j) = (\<Sum>j \<in> {j. j < n \<and> P j}. f j :: gf256)"
  by (simp add: sum_list_distinct_conv_sum_set conj_commute)

lemma convolution:
  fixes p q :: polynomial
  assumes "p \<noteq> []" and "q \<noteq> []"
  shows "(\<Sum>i < length p + length q - 1.
            (\<Sum>j \<in> {j. j < Suc i \<and> j < length p \<and> i - j < length q}. p ! j * q ! (i - j)) * x ^ i) =
         peval p x * peval q x"
    (is "?lhs = _")
proof -
  let ?B = "\<lambda>i. {j. j < Suc i \<and> j < length p \<and> i - j < length q}"
  have "?lhs = (\<Sum>i < length p + length q - 1. \<Sum>j \<in> ?B i. p ! j * q ! (i - j) * x ^ i)"
    by (simp add: sum_distrib_right)
  also have "\<dots> = (\<Sum>(i, j) \<in> Sigma {..<length p + length q - 1} ?B. p ! j * q ! (i - j) * x ^ i)"
    by (rule sum.Sigma) auto
  also have "\<dots> = (\<Sum>(j, k) \<in> {..<length p} \<times> {..<length q}. (p ! j * x ^ j) * (q ! k * x ^ k))"
    by (rule sum.reindex_bij_witness [where i = "\<lambda>(j, k). (j + k, j)" and j = "\<lambda>(i, j). (j, i - j)"])
      (auto simp: algebra_simps simp flip: power_add)
  also have "\<dots> = (\<Sum>j < length p. p ! j * x ^ j) * (\<Sum>k < length q. q ! k * x ^ k)"
    by (simp add: sum_product sum.cartesian_product)
  finally show ?thesis by (simp add: peval_sum)
qed

lemma poly_mul_Ok:
  assumes "p \<noteq> []" and "q \<noteq> []"
  shows "\<exists>r. poly_mul p q = Ok r \<and> length r = length p + length q - 1 \<and>
             (\<forall>x. peval r x = peval p x * peval q x)"
proof -
  let ?r = "map (poly_mul_coeff p q (length p - 1) (length q - 1)) [0..<length p + length q - 1]"
  have idx: "(j \<le> length p - 1 \<and> k \<le> length q - 1) = (j < length p \<and> k < length q)" for j k
    using assms by (cases p; cases q) auto
  have coeff: "poly_mul_coeff p q (length p - 1) (length q - 1) i =
      (\<Sum>j \<in> {j. j < Suc i \<and> j < length p \<and> i - j < length q}. p ! j * q ! (i - j))" for i
    by (simp only: poly_mul_coeff_def gf_sum_eq idx sum_list_filter_upt)
  have "peval ?r x = peval p x * peval q x" for x
    unfolding convolution [OF assms, symmetric] peval_sum [of ?r]
    by (intro sum.cong) (simp_all add: coeff [simplified])
  moreover have "poly_mul p q = Ok ?r"
  proof -
    have "Suc (length p - 1 + (length q - 1)) = length p + length q - 1"
      using assms by (cases p; cases q) auto
    then show ?thesis using assms by (simp add: poly_mul_def degree_def del: upt_Suc)
  qed
  ultimately show ?thesis by auto
qed

lemma poly_product_Ok:
  assumes "\<And>p. p \<in> set ps \<Longrightarrow> length p = 2"
  shows "\<exists>r. poly_product ps = Ok r \<and> length r = Suc (length ps) \<and>
             (\<forall>x. peval r x = (\<Prod>p \<leftarrow> ps. peval p x))"
proof -
  have "\<exists>r. foldl (\<lambda>product factor. and_then product (\<lambda>p. poly_mul p factor)) (Ok a) ps = Ok r \<and>
            length r = length a + length ps \<and> (\<forall>x. peval r x = peval a x * (\<Prod>p \<leftarrow> ps. peval p x))"
    if "a \<noteq> []" for a
    using assms that
  proof (induction ps arbitrary: a)
    case Nil
    then show ?case by simp
  next
    case (Cons p ps)
    then have "p \<noteq> []" by fastforce
    with Cons.prems(2) obtain r where r: "poly_mul a p = Ok r" "length r = length a + length p - 1"
      "\<And>x. peval r x = peval a x * peval p x"
      using poly_mul_Ok by blast
    moreover have "length p = 2" using Cons.prems(1) by simp
    moreover have "r \<noteq> []" using r(2) \<open>length p = 2\<close> by auto
    ultimately show ?case using Cons.IH [of r] Cons.prems(1) by (auto simp: mult.assoc)
  qed
  from this [of poly_one] show ?thesis by (auto simp: poly_product_def poly_one_def)
qed

subsection \<open>Interpolation\<close>

definition linear_basis :: "gf256 \<Rightarrow> gf256 \<Rightarrow> polynomial" where
  "linear_basis b a = [- a / (b - a), 1 / (b - a)]"

lemma length_linear_basis [simp]: "length (linear_basis b a) = 2"
  by (simp add: linear_basis_def)

lemma lagrange_factor_eq: "lagrange_factor b a = (if a = b then Panic else Ok (linear_basis b a))"
  by (auto simp: lagrange_factor_def poly_div_def monic_linear_def strip_id linear_basis_def)

lemma peval_linear_basis: "peval (linear_basis b a) x = (x - a) / (b - a)"
  by (simp add: linear_basis_def diff_divide_distrib)

text \<open>The points other than the \<open>j\<close>-th.\<close>

definition others :: "nat \<Rightarrow> 'a list \<Rightarrow> 'a list" where
  "others j xs = map snd (filter (\<lambda>(i, _). i \<noteq> j) (enumerate 0 xs))"

lemma set_others: "set (others j xs) = {xs ! i |i. i < length xs \<and> i \<noteq> j}"
  unfolding others_def by (force simp: in_set_enumerate_eq)

lemma length_others: "j < length xs \<Longrightarrow> length (others j xs) = length xs - 1"
proof -
  assume j: "j < length xs"
  have "length (others j xs) = length (filter (\<lambda>i. i \<noteq> j) (map fst (enumerate 0 xs)))"
    by (simp add: others_def filter_map comp_def case_prod_unfold del: map_fst_enumerate)
  also have "\<dots> = card ({0..<length xs} - {j})"
    by (simp add: distinct_length_filter Int_def set_diff_eq conj_commute)
  finally show ?thesis using j by simp
qed

lemma lagrange_term_eq:
  "lagrange_term pts (j, b, y) =
     and_then (collect_res (lagrange_factor b) (map fst (others j pts)))
       (\<lambda>fs. and_then (poly_product fs) (\<lambda>p. Ok (poly_scale p y)))"
  by (simp add: lagrange_term_def others_def case_prod_unfold collect_res_map del: map_map)

lemma lagrange_term_Ok:
  assumes ne: "b \<notin> fst ` set (others j pts)" and j: "j < length pts"
  shows "\<exists>p. lagrange_term pts (j, b, y) = Ok p \<and> length p \<le> length pts \<and>
             (\<forall>x. peval p x = (\<Prod>a \<leftarrow> map fst (others j pts). (x - a) / (b - a)) * y)"
proof -
  let ?fs = "map (linear_basis b) (map fst (others j pts))"
  have "collect_res (lagrange_factor b) (map fst (others j pts)) = Ok ?fs"
    by (rule collect_res_Ok) (use ne in \<open>auto simp: lagrange_factor_eq\<close>)
  moreover obtain r where r: "poly_product ?fs = Ok r" "length r = Suc (length ?fs)"
    "\<forall>x. peval r x = (\<Prod>p \<leftarrow> ?fs. peval p x)"
    using poly_product_Ok [of ?fs] by fastforce
  moreover have "length (poly_scale r y) \<le> length pts"
    using length_scale [of r y] r(2) j by (simp add: length_others)
  ultimately show ?thesis by (simp add: lagrange_term_eq poly_simps comp_def peval_linear_basis)
qed

lemma lagrange_term_Panic: "b \<in> fst ` set (others j pts) \<Longrightarrow> lagrange_term pts (j, b, y) = Panic"
proof -
  assume "b \<in> fst ` set (others j pts)"
  then have "collect_res (lagrange_factor b) (map fst (others j pts)) = Panic"
    by (intro collect_res_Panic) (auto simp: lagrange_factor_eq)
  then show ?thesis by (simp add: lagrange_term_eq)
qed

lemma not_in_others:
  "distinct (map fst pts) \<Longrightarrow> j < length pts \<Longrightarrow> fst (pts ! j) \<notin> fst ` set (others j pts)"
  by (auto simp: set_others dest: distinct_map_fst_nth)

definition lagrange_basis :: "(gf256 \<times> gf256) list \<Rightarrow> nat \<Rightarrow> gf256 \<Rightarrow> gf256" where
  "lagrange_basis pts j x = (\<Prod>a \<leftarrow> map fst (others j pts). (x - a) / (fst (pts ! j) - a))"

lemma prod_list_quotients:
  "b \<notin> set as \<Longrightarrow> (\<Prod>a \<leftarrow> as. (b - a) / (b - a)) = (1 :: gf256)"
  by (induction as) auto

lemma lagrange_basis_value:
  assumes "distinct (map fst pts)" and j: "j < length pts" and m: "m < length pts"
  shows "lagrange_basis pts j (fst (pts ! m)) = (if m = j then 1 else 0)"
proof (cases "m = j")
  case True
  then show ?thesis
    unfolding lagrange_basis_def using prod_list_quotients not_in_others [OF assms(1) j]
    by (metis set_map)
next
  case False
  then have "fst (pts ! m) \<in> set (map fst (others j pts))" using m by (auto simp: set_others)
  then have "0 \<in> set (map (\<lambda>a. (fst (pts ! m) - a) / (fst (pts ! j) - a)) (map fst (others j pts)))"
    by (force simp: image_iff)
  then show ?thesis using False by (simp add: prod_list_zero_iff lagrange_basis_def)
qed

lemma enumerate_elem:
  "e \<in> set (enumerate 0 pts) \<Longrightarrow> \<exists>j < length pts. e = (j, fst (pts ! j), snd (pts ! j))"
  by (cases e) (auto simp: in_set_enumerate_eq)

lemma poly_interpolate_correct:
  assumes d: "distinct (map fst pts)"
  shows "\<exists>p. poly_interpolate pts = Ok p \<and> length p \<le> length pts \<and>
             (\<forall>(x, y) \<in> set pts. peval p x = y) \<and>
             (\<forall>x. peval p x = (\<Sum>j < length pts. lagrange_basis pts j x * snd (pts ! j)))"
proof -
  have "\<forall>j \<in> {..<length pts}. \<exists>p.
      lagrange_term pts (j, fst (pts ! j), snd (pts ! j)) = Ok p \<and> length p \<le> length pts \<and>
      (\<forall>x. peval p x = lagrange_basis pts j x * snd (pts ! j))"
    using lagrange_term_Ok [OF not_in_others [OF d]] unfolding lagrange_basis_def by blast
  from bchoice [OF this] obtain t where t: "\<forall>j \<in> {..<length pts}.
      lagrange_term pts (j, fst (pts ! j), snd (pts ! j)) = Ok (t j) \<and> length (t j) \<le> length pts \<and>
      (\<forall>x. peval (t j) x = lagrange_basis pts j x * snd (pts ! j))"
    by blast
  let ?ts = "map t [0..<length pts]"
  have "collect_res (lagrange_term pts) (enumerate 0 pts) = Ok (map (\<lambda>e. t (fst e)) (enumerate 0 pts))"
    by (rule collect_res_Ok) (use t enumerate_elem in fastforce)
  moreover have "map (\<lambda>e. t (fst e)) (enumerate 0 pts) = map t (map fst (enumerate 0 pts))"
    by (simp only: map_map comp_def)
  moreover have "map t (map fst (enumerate 0 pts)) = ?ts" by simp
  ultimately have ok: "poly_interpolate pts = Ok (poly_sum ?ts)"
    by (simp add: poly_interpolate_def)
  have "length (poly_sum ?ts) \<le> length pts"
    by (rule length_poly_sum) (use t in auto)
  moreover have val: "peval (poly_sum ?ts) x = (\<Sum>j < length pts. lagrange_basis pts j x * snd (pts ! j))" for x
    using t by (simp add: poly_simps comp_def interv_sum_list_conv_sum_set_nat atLeast0LessThan)
  moreover have "peval (poly_sum ?ts) (fst (pts ! m)) = snd (pts ! m)" if m: "m < length pts" for m
  proof -
    have "peval (poly_sum ?ts) (fst (pts ! m)) = (\<Sum>j < length pts. if j = m then snd (pts ! m) else 0)"
      unfolding val by (rule sum.cong) (auto simp: lagrange_basis_value [OF d _ m])
    then show ?thesis using m by simp
  qed
  ultimately show ?thesis using ok by (fastforce simp: in_set_conv_nth)
qed

lemma poly_interpolate_Panic:
  assumes "\<not> distinct (map fst pts)"
  shows "poly_interpolate pts = Panic"
proof -
  obtain i j where ij: "i < length pts" "j < length pts" "i \<noteq> j" "fst (pts ! i) = fst (pts ! j)"
    using assms by (auto simp: distinct_conv_nth)
  then have "fst (pts ! j) \<in> fst ` set (others j pts)"
    by (intro rev_image_eqI [of "pts ! i"]) (auto simp: set_others)
  then have "lagrange_term pts (j, pts ! j) = Panic"
    using lagrange_term_Panic [of "fst (pts ! j)" j pts "snd (pts ! j)"] by simp
  moreover have "(j, pts ! j) \<in> set (enumerate 0 pts)" using ij by (simp add: in_set_enumerate_eq)
  moreover have "lagrange_term pts e = Panic \<or> (\<exists>p. lagrange_term pts e = Ok p)"
    if "e \<in> set (enumerate 0 pts)" for e
    using enumerate_elem [OF that] lagrange_term_Ok lagrange_term_Panic by metis
  ultimately have "collect_res (lagrange_term pts) (enumerate 0 pts) = Panic"
    by (intro collect_res_Panic) auto
  then show ?thesis by (simp add: poly_interpolate_def)
qed

lemma map_fst_others:
  assumes "distinct (map fst pts)" and "j < length pts"
  shows "map fst (others j pts) = filter (\<lambda>a. a \<noteq> fst (pts ! j)) (map fst pts)"
proof -
  have "filter (\<lambda>a. a \<noteq> fst (pts ! j)) (map fst pts) =
      filter (\<lambda>a. a \<noteq> fst (pts ! j)) (map (\<lambda>e. fst (snd e)) (enumerate 0 pts))"
    by (metis (no_types, lifting) map_snd_enumerate map_map comp_apply map_cong)
  also have "\<dots> = map (\<lambda>e. fst (snd e)) (filter (\<lambda>e. fst (snd e) \<noteq> fst (pts ! j)) (enumerate 0 pts))"
    by (simp add: filter_map comp_def)
  also have "filter (\<lambda>e. fst (snd e) \<noteq> fst (pts ! j)) (enumerate 0 pts) =
      filter (\<lambda>(i, _). i \<noteq> j) (enumerate 0 pts)"
    by (rule filter_cong) (use assms distinct_map_fst_nth in \<open>fastforce dest: enumerate_elem\<close>)+
  finally show ?thesis by (simp add: others_def comp_def)
qed

subsection \<open>Properties\<close>

text \<open>the polynomial operations compute what their names say at every point: sums and
  products add and multiply the values, a product panics exactly on an empty factor, and
  sums are in canonical form (no trailing zero coefficient).\<close>

theorem poly_operations_evaluate:
  "evaluate (poly_add p q) x = evaluate p x + evaluate q x \<and>
   (if poly_add p q = [] then True else last (poly_add p q) \<noteq> gf_zero) \<and>
   evaluate (poly_scale p s) x = evaluate p x * s \<and>
   (if p = [] \<or> q = [] then poly_mul p q = Panic
    else \<exists>r. poly_mul p q = Ok r \<and> length r = length p + length q - 1 \<and>
             evaluate r x = evaluate p x * evaluate q x)"
proof -
  have "poly_mul p q = Panic" if "p = [] \<or> q = []"
    using that by (auto simp: poly_mul_def degree_def)
  then show ?thesis
    using poly_mul_Ok [of p q] strip_canonical [of "zip_longest_add p q"]
    by (auto simp: poly_simps simp flip: poly_add_def)
qed

text \<open>Lagrange interpolation panics exactly when two points share an \<open>x\<close>-value;
  otherwise it returns a polynomial with at most one coefficient per point that passes
  through every point.\<close>

theorem poly_interpolate_points:
  "if distinct (map fst points)
   then \<exists>p. poly_interpolate points = Ok p \<and> length p \<le> length points \<and>
            list_all (\<lambda>(x, y). evaluate p x = y) points
   else poly_interpolate points = Panic"
  using poly_interpolate_correct [of points] poly_interpolate_Panic [of points]
  by (auto simp: list_all_iff poly_simps)

text \<open>the interpolated polynomial is the only one of its size: every polynomial with at
  most as many coefficients as there are points, and the same values there, takes the
  same values everywhere.\<close>

theorem poly_interpolate_unique:
  assumes "distinct (map fst points)"
    and "length q \<le> length points" and "list_all (\<lambda>(x, y). evaluate q x = y) points"
  shows "\<exists>p. poly_interpolate points = Ok p \<and> evaluate p z = evaluate q z"
proof -
  obtain p where p: "poly_interpolate points = Ok p" "length p \<le> length points"
    "\<forall>(x, y) \<in> set points. peval p x = y"
    using poly_interpolate_correct [OF assms(1)] by blast
  have c: "card (fst ` set points) = length points"
    using distinct_card [OF assms(1)] by simp
  have "peval p z = peval q z"
  proof (rule peval_unique [of "fst ` set points"])
    show "peval p a = peval q a" if "a \<in> fst ` set points" for a
      using that p(3) assms(3) by (fastforce simp: list_all_iff poly_simps)
  qed (use c p(2) assms(2) in simp_all)
  with p(1) show ?thesis by (simp add: poly_simps)
qed

text \<open>A line through two points: the witness evaluates the code on the test vector
  \<open>(1, 7), (2, 11)\<close>.\<close>

theorem poly_interpolate_unique_witness:
  "\<exists>p. poly_interpolate [(GF256 1, GF256 7), (GF256 2, GF256 11)] = Ok p \<and>
       evaluate p (GF256 3) = evaluate [GF256 3, GF256 4] (GF256 3)"
  by (rule poly_interpolate_unique) code_simp+

end
