(* ===== verification/Utils.thy ===== *)
theory Utils
  imports GF256
begin

text \<open>
  \<^verbatim>\<open>crates/crypto/src/utils.rs\<close>: XOR of byte strings, random byte arrays and the transposition
  of a byte matrix.

  The random number generator is a third-party object: its operations are the record
  \<open>rng_ops\<close>, a parameter of every definition that draws randomness, and its state is
  threaded explicitly. \<open>rng_fills\<close> is the documented behaviour that \<open>fill_bytes\<close> fills the
  whole buffer. A fixed-size array \<open>[u8; N]\<close> is a list of length \<open>N\<close>; \<open>array_of\<close> is the
  \<open>try_into().expect(..)\<close> that turns a vector into one, \<open>vec_index\<close> the checked \<open>v[i]\<close>.
\<close>

unbundle bit_operations_syntax

record 'r rng_ops =
  gen_u8 :: "'r \<Rightarrow> u8 \<times> 'r"
  fill_bytes :: "nat \<Rightarrow> 'r \<Rightarrow> bytes \<times> 'r"

definition rng_fills :: "'r rng_ops \<Rightarrow> bool" where
  "rng_fills R \<longleftrightarrow> (\<forall>n r. length (fst (fill_bytes R n r)) = n)"

text \<open>A generator that replays a tape of bytes (zeros once the tape is used up).\<close>

definition tape_rng :: "bytes rng_ops" where
  "tape_rng = \<lparr>gen_u8 = (\<lambda>t. case t of [] \<Rightarrow> (0, []) | b # t' \<Rightarrow> (b, t')),
               fill_bytes = (\<lambda>n t. (take n t @ replicate (n - length t) 0, drop n t))\<rparr>"

lemma tape_rng_fills: "rng_fills tape_rng"
  by (auto simp: rng_fills_def tape_rng_def min_def)

subsection \<open>Arrays and vectors\<close>

definition array_of :: "nat \<Rightarrow> 'a list \<Rightarrow> ('a list, 'e) res" where
  "array_of N v = (if length v = N then Ok v else Panic)"

definition vec_index :: "'a list \<Rightarrow> nat \<Rightarrow> ('a, 'e) res" where
  "vec_index v i = (if i < length v then Ok (v ! i) else Panic)"

text \<open>\<open>all_equal_value\<close> of itertools: the common value of a non-empty iterator.\<close>

fun all_equal_value :: "'a list \<Rightarrow> 'a option" where
  "all_equal_value [] = None"
| "all_equal_value (x # xs) = (if list_all (\<lambda>y. y = x) xs then Some x else None)"

lemma array_of_Ok [simp]: "length v = N \<Longrightarrow> array_of N v = Ok v"
  by (simp add: array_of_def)

lemma array_of_Ok_iff [res_simps]: "array_of N v = Ok w \<longleftrightarrow> w = v \<and> length v = N"
  by (auto simp: array_of_def)

lemma vec_index_Ok [simp]: "i < length v \<Longrightarrow> vec_index v i = Ok (v ! i)"
  by (simp add: vec_index_def)

lemma all_equal_value_Some:
  "all_equal_value xs = Some m \<longleftrightarrow> xs \<noteq> [] \<and> (\<forall>x \<in> set xs. x = m)"
  by (cases xs) (auto simp: list_all_iff)

subsection \<open>The operations\<close>

definition xor_unchecked :: "bytes \<Rightarrow> bytes \<Rightarrow> bytes" where
  "xor_unchecked a b = map (\<lambda>(x, y). x XOR y) (zip a b)"

definition xor_arrays :: "nat \<Rightarrow> bytes \<Rightarrow> bytes \<Rightarrow> (bytes, 'e) res" where
  "xor_arrays N a b = array_of N (xor_unchecked a b)"

definition generate_random_bytes :: "'r rng_ops \<Rightarrow> nat \<Rightarrow> 'r \<Rightarrow> bytes \<times> 'r" where
  "generate_random_bytes R N rng = fill_bytes R N rng"

definition transpose_matrix :: "nat \<Rightarrow> bytes list \<Rightarrow> (bytes list, fc_error) res" where
  "transpose_matrix N matrix =
     (if length matrix \<noteq> N \<or> matrix = [] then Err InvalidInput
      else case all_equal_value (map length matrix) of
        None \<Rightarrow> Err InvalidInput
      | Some m \<Rightarrow>
          collect_res (\<lambda>i. and_then (collect_res (\<lambda>row. vec_index row i) matrix) (array_of N)) [0..<m])"

subsection \<open>Lemmas\<close>

lemma length_xor_unchecked [simp]: "length (xor_unchecked a b) = min (length a) (length b)"
  by (simp add: xor_unchecked_def)

lemma nth_xor_unchecked:
  "i < length a \<Longrightarrow> i < length b \<Longrightarrow> xor_unchecked a b ! i = a ! i XOR b ! i"
  by (simp add: xor_unchecked_def)

lemma xor_unchecked_cancel:
  "length a \<le> length b \<Longrightarrow> xor_unchecked (xor_unchecked a b) b = a"
  by (rule nth_equalityI) (simp_all add: nth_xor_unchecked xor.assoc)

lemma xor_unchecked_cancel_left:
  "length a = length b \<Longrightarrow> xor_unchecked a (xor_unchecked a b) = b"
  by (rule nth_equalityI) (simp_all add: nth_xor_unchecked flip: xor.assoc)

lemma xor_unchecked_commute: "xor_unchecked a b = xor_unchecked b a"
  by (rule nth_equalityI) (auto simp: nth_xor_unchecked xor.commute)

lemma xor_arrays_Ok: "length a = N \<Longrightarrow> length b = N \<Longrightarrow> xor_arrays N a b = Ok (xor_unchecked a b)"
  by (simp add: xor_arrays_def)

lemma generate_random_bytes_length:
  "rng_fills R \<Longrightarrow> generate_random_bytes R N r = (b, r') \<Longrightarrow> length b = N"
  by (metis fst_conv generate_random_bytes_def rng_fills_def)

lemma transpose_matrix_Ok:
  assumes "length matrix = N" and "N > 0" and "\<forall>row \<in> set matrix. length row = m"
  shows "transpose_matrix N matrix = Ok (map (\<lambda>i. map (\<lambda>row. row ! i) matrix) [0..<m])"
proof -
  have "all_equal_value (map length matrix) = Some m"
    using assms by (auto simp: all_equal_value_Some)
  moreover have "and_then (collect_res (\<lambda>row. vec_index row i) matrix) (array_of N) =
      (Ok (map (\<lambda>row. row ! i) matrix) :: (bytes, fc_error) res)" if "i \<in> set [0..<m]" for i
  proof -
    have "collect_res (\<lambda>row. vec_index row i) matrix =
        (Ok (map (\<lambda>row. row ! i) matrix) :: (bytes, fc_error) res)"
      using that assms by (intro collect_res_Ok) simp
    with assms(1) show ?thesis by simp
  qed
  then have "collect_res (\<lambda>i. and_then (collect_res (\<lambda>row. vec_index row i) matrix) (array_of N)) [0..<m] =
      (Ok (map (\<lambda>i. map (\<lambda>row. row ! i) matrix) [0..<m]) :: (bytes list, fc_error) res)"
    by (rule collect_res_Ok)
  ultimately show ?thesis
    using assms by (auto simp: transpose_matrix_def)
qed

lemma transpose_matrix_Err:
  assumes "length matrix \<noteq> N \<or> N = 0 \<or> \<not> (\<exists>m. \<forall>row \<in> set matrix. length row = m)"
  shows "transpose_matrix N matrix = Err InvalidInput"
  using assms by (auto simp: transpose_matrix_def all_equal_value_Some split: option.split)

text \<open>\<open>transpose\<close> returns the transposed matrix exactly on a non-empty matrix of \<open>N\<close> rows
  of one length, and \<open>InvalidInput\<close> on every other input; it never panics.\<close>

lemma transpose_spec:
  "case transpose_matrix N matrix of
     Ok t \<Rightarrow> length matrix = N \<and> 0 < N \<and>
             list_all (\<lambda>row. length row = length t) matrix \<and>
             list_all (\<lambda>col. length col = N) t \<and>
             list_all (\<lambda>i. list_all (\<lambda>j. t ! j ! i = matrix ! i ! j) [0..<length t]) [0..<N]
   | Err e \<Rightarrow> e = InvalidInput \<and>
             (length matrix \<noteq> N \<or> N = 0 \<or> \<not> (\<exists>m. list_all (\<lambda>row. length row = m) matrix))
   | Panic \<Rightarrow> False"
proof (cases "length matrix \<noteq> N \<or> N = 0 \<or> \<not> (\<exists>m. \<forall>row \<in> set matrix. length row = m)")
  case True
  then show ?thesis by (simp add: transpose_matrix_Err list_all_iff)
next
  case False
  then obtain m where "length matrix = N" "N > 0" "\<forall>row \<in> set matrix. length row = m" by blast
  then show ?thesis by (simp add: transpose_matrix_Ok [of _ _ m] list_all_iff)
qed

end
