(* ===== verification/Tss.thy ===== *)
theory Tss
  imports Polynomials Utils
begin

text \<open>
  \<^verbatim>\<open>crates/crypto/src/tss.rs\<close>: Shamir's secret sharing of byte arrays, one polynomial over the
  field of 256 elements per byte. \<open>split\<close> deals the shares, \<open>combine\<close> reconstructs the
  secret with Lagrange's formula at zero and \<open>interpolate\<close> returns the closure that evaluates
  the interpolated polynomials at any index.

  The interface of a reconstruction procedure is the locale \<open>reconstruction\<close>; it is
  interpreted on \<open>combine\<close> and on \<open>interpolate\<close> followed by the evaluation at zero, for the
  key size of the library.
\<close>

subsection \<open>Dealing\<close>

record secret_sharing =
  ss_secret :: bytes
  ss_indices :: bytes
  ss_shares :: "bytes list"

definition gf_rand :: "'r rng_ops \<Rightarrow> 'r \<Rightarrow> gf256 \<times> 'r" where
  "gf_rand R rng = (let (b, rng') = gen_u8 R rng in (GF256 b, rng'))"

text \<open>\<open>repeat_with(|| GF256::rand(rng)).take(n)\<close>\<close>

fun rand_coefficients :: "'r rng_ops \<Rightarrow> nat \<Rightarrow> 'r \<Rightarrow> gf256 list \<times> 'r" where
  "rand_coefficients R 0 rng = ([], rng)"
| "rand_coefficients R (Suc n) rng =
     (let (c, rng') = gf_rand R rng; (cs, rng'') = rand_coefficients R n rng' in (c # cs, rng''))"

definition split_byte ::
  "'r rng_ops \<Rightarrow> 'r \<Rightarrow> u8 \<Rightarrow> u8 \<Rightarrow> u8 list \<Rightarrow> (bytes, fc_error) res \<times> 'r" where
  "split_byte R rng secret threshold indices =
     (let number_of_shares = (of_nat (length indices) :: u8) in
      if threshold = 0 \<or> number_of_shares = 0 \<or> threshold > number_of_shares \<or>
         0 \<in> set indices \<or> \<not> distinct indices
      then (Err InvalidInput, rng)
      else
        let (rest, rng') = rand_coefficients R (unat (threshold - 1)) rng;
            polynomial = gf_from_u8 secret # rest
        in (Ok (map (\<lambda>i. gf_into_u8 (evaluate polynomial (gf_from_u8 i))) indices), rng'))"

text \<open>The bytes of the secret are shared one after the other; the first error ends the loop.\<close>

fun split_bytes ::
  "'r rng_ops \<Rightarrow> 'r \<Rightarrow> bytes \<Rightarrow> u8 \<Rightarrow> u8 list \<Rightarrow> (bytes list, fc_error) res \<times> 'r" where
  "split_bytes R rng [] threshold indices = (Ok [], rng)"
| "split_bytes R rng (b # bs) threshold indices =
     (case split_byte R rng b threshold indices of
        (Ok s, rng') \<Rightarrow>
          (let (r, rng'') = split_bytes R rng' bs threshold indices
           in (and_then r (\<lambda>ss. Ok (s # ss)), rng''))
      | (Err e, rng') \<Rightarrow> (Err e, rng')
      | (Panic, rng') \<Rightarrow> (Panic, rng'))"

definition split ::
  "'r rng_ops \<Rightarrow> nat \<Rightarrow> 'r \<Rightarrow> bytes \<Rightarrow> u8 \<Rightarrow> u8 \<Rightarrow> (secret_sharing, fc_error) res \<times> 'r" where
  "split R N rng secret threshold number_of_shares =
     (if threshold > number_of_shares \<or> threshold = 0 then (Err InvalidInput, rng)
      else
        let indices = map of_nat [1..<Suc (unat number_of_shares)];
            (byte_shares, rng') = split_bytes R rng secret threshold indices
        in (and_then byte_shares (\<lambda>byte_shares. and_then (transpose_matrix N byte_shares) (\<lambda>shares.
              Ok \<lparr>ss_secret = secret, ss_indices = indices, ss_shares = shares\<rparr>)), rng'))"

subsection \<open>Reconstruction\<close>

definition interpolate ::
  "nat \<Rightarrow> (u8 \<times> bytes) list \<Rightarrow> (u8 \<Rightarrow> (bytes, fc_error) res, fc_error) res" where
  "interpolate N shares =
     (if shares = [] \<or> list_ex (\<lambda>(i, _). i = 0) shares \<or> \<not> distinct (map fst shares)
      then Err InvalidInput
      else and_then
        (collect_res (\<lambda>i. poly_interpolate (map (\<lambda>(k, share). (GF256 k, GF256 (share ! i))) shares)) [0..<N])
        (\<lambda>polynomials.
           Ok (\<lambda>x. array_of N (map (\<lambda>p. gf_into_u8 (evaluate p (GF256 x))) polynomials))))"

definition combine_byte :: "(u8 \<times> u8) list \<Rightarrow> (u8, fc_error) res" where
  "combine_byte shares =
     (if shares = [] \<or> \<not> distinct (map fst shares) \<or> list_ex (\<lambda>(i, _). i = 0) shares
      then Err InvalidInput
      else
        let product = gf_product (map (\<lambda>(i, _). gf_from_u8 i) shares) in
        and_then
          (collect_res (\<lambda>(i, share_i).
             let denominator = gf_from_u8 i *
               gf_product (map (\<lambda>j. gf_from_u8 j - gf_from_u8 i) (filter (\<lambda>j. j \<noteq> i) (map fst shares)))
             in expect (gf_div (gf_from_u8 share_i) denominator)) shares)
          (\<lambda>quotients. Ok (gf_into_u8 (product * gf_sum quotients))))"

definition combine :: "nat \<Rightarrow> (u8 \<times> bytes) list \<Rightarrow> (bytes, fc_error) res" where
  "combine N shares =
     and_then (collect_res (\<lambda>i. combine_byte (map (\<lambda>(k, share). (k, share ! i)) shares)) [0..<N])
       (array_of N)"

subsection \<open>Lagrange's formula at zero\<close>

lemma prod_list_quotient:
  "prod_list (map (\<lambda>a. f a / g a) xs) = prod_list (map f xs) / (prod_list (map g xs) :: gf256)"
  by (induction xs) simp_all

lemma prod_list_remove:
  "distinct xs \<Longrightarrow> x \<in> set xs \<Longrightarrow> prod_list xs = x * (prod_list (filter (\<lambda>y. y \<noteq> x) xs) :: gf256)"
proof (induction xs)
  case Nil
  then show ?case by simp
next
  case (Cons y ys)
  show ?case
  proof (cases "x = y")
    case True
    with Cons.prems have "filter (\<lambda>z. z \<noteq> x) ys = ys" by (auto intro: filter_True)
    with True show ?thesis by simp
  next
    case False
    with Cons show ?thesis by (simp add: mult.left_commute)
  qed
qed

text \<open>The denominator of the code for the share with index \<open>i\<close>.\<close>

definition denominator :: "u8 list \<Rightarrow> u8 \<Rightarrow> gf256" where
  "denominator js i =
     gf_from_u8 i * prod_list (map (\<lambda>j. gf_from_u8 j - gf_from_u8 i) (filter (\<lambda>j. j \<noteq> i) js))"

lemma denominator_nonzero: "i \<noteq> 0 \<Longrightarrow> denominator js i \<noteq> 0"
  by (auto simp: denominator_def prod_list_zero_iff)

definition points_of :: "(u8 \<times> u8) list \<Rightarrow> (gf256 \<times> gf256) list" where
  "points_of shares = map (\<lambda>(k, v). (gf_from_u8 k, gf_from_u8 v)) shares"

lemma map_fst_points: "map fst (points_of shares) = map gf_from_u8 (map fst shares)"
  by (simp add: points_of_def comp_def case_prod_unfold)

lemma distinct_points: "distinct (map fst (points_of shares)) \<longleftrightarrow> distinct (map fst shares)"
  unfolding map_fst_points by (simp add: distinct_map inj_on_def)

lemma lagrange_at_zero:
  assumes d: "distinct (map fst shares)" and j: "j < length shares" and z: "0 \<notin> set (map fst shares)"
  shows "lagrange_basis (points_of shares) j 0 =
         prod_list (map gf_from_u8 (map fst shares)) / denominator (map fst shares) (fst (shares ! j))"
proof -
  let ?i = "fst (shares ! j)" and ?js = "map fst shares"
  let ?o = "filter (\<lambda>k. k \<noteq> ?i) ?js"
  have i: "?i \<in> set ?js" "?i \<noteq> 0" using j z by (auto simp: image_iff)
  have len: "length (points_of shares) = length shares" by (simp add: points_of_def)
  have fst_pt: "fst (points_of shares ! j) = gf_from_u8 ?i"
    using j by (simp add: points_of_def case_prod_unfold)
  have "map fst (others j (points_of shares)) = filter (\<lambda>a. a \<noteq> gf_from_u8 ?i) (map gf_from_u8 ?js)"
    using map_fst_others [of "points_of shares" j] d j unfolding distinct_points fst_pt
    by (simp add: map_fst_points len)
  also have "\<dots> = map gf_from_u8 ?o" by (simp add: filter_map comp_def)
  finally have "lagrange_basis (points_of shares) j 0 =
      prod_list (map (\<lambda>k. (0 - gf_from_u8 k) / (gf_from_u8 ?i - gf_from_u8 k)) ?o)"
    unfolding lagrange_basis_def fst_pt by (simp add: comp_def)
  also have "\<dots> = prod_list (map gf_from_u8 ?o) / prod_list (map (\<lambda>k. gf_from_u8 k - gf_from_u8 ?i) ?o)"
    by (simp add: gf_char_2 add.commute flip: prod_list_quotient)
  also have "\<dots> = (gf_from_u8 ?i * prod_list (map gf_from_u8 ?o)) / denominator ?js ?i"
    using i(2) by (simp add: denominator_def)
  also have "gf_from_u8 ?i * prod_list (map gf_from_u8 ?o) = prod_list (map gf_from_u8 ?js)"
    using prod_list_remove [of "map gf_from_u8 ?js" "gf_from_u8 ?i"] d j
    by (simp add: distinct_map inj_on_def filter_map comp_def)
  finally show ?thesis .
qed

lemma combine_byte_interpolates:
  assumes ne: "shares \<noteq> []" and d: "distinct (map fst shares)" and z: "0 \<notin> set (map fst shares)"
  obtains p where "poly_interpolate (points_of shares) = Ok p" "length p \<le> length shares"
    "\<And>k v. (k, v) \<in> set shares \<Longrightarrow> gf_into_u8 (peval p (gf_from_u8 k)) = v"
    "combine_byte shares = Ok (gf_into_u8 (peval p 0))"
proof -
  let ?P = "prod_list (map gf_from_u8 (map fst shares))"
  let ?q = "\<lambda>(i, v). gf_from_u8 v / denominator (map fst shares) i"
  obtain p where p: "poly_interpolate (points_of shares) = Ok p" "length p \<le> length (points_of shares)"
    "\<forall>(x, y) \<in> set (points_of shares). peval p x = y"
    "\<forall>x. peval p x = (\<Sum>j < length (points_of shares).
                        lagrange_basis (points_of shares) j x * snd (points_of shares ! j))"
    using poly_interpolate_correct [of "points_of shares"] d by (auto simp: distinct_points)
  have len: "length (points_of shares) = length shares" by (simp add: points_of_def)
  have snd_pt: "snd (points_of shares ! j) = gf_from_u8 (snd (shares ! j))" if "j < length shares" for j
    using that by (simp add: points_of_def case_prod_unfold)
  have "peval p 0 = (\<Sum>j < length shares. ?P * ?q (shares ! j))"
    using p(4) d z by (simp add: len snd_pt lagrange_at_zero case_prod_unfold)
  also have "\<dots> = ?P * sum_list (map ?q shares)"
    by (simp add: sum_distrib_left [symmetric] sum_list_sum_nth atLeast0LessThan)
  finally have v: "peval p 0 = ?P * sum_list (map ?q shares)" .
  have "denominator (map fst shares) k \<noteq> 0" if "(k, v) \<in> set shares" for k v
    using that z by (intro denominator_nonzero) (force simp: image_iff)
  then have "collect_res (\<lambda>(i, v). expect (gf_div (gf_from_u8 v) (denominator (map fst shares) i))) shares =
      (Ok (map ?q shares) :: (gf256 list, fc_error) res)"
    by (intro collect_res_Ok) auto
  then have "combine_byte shares = Ok (gf_into_u8 (peval p 0))"
    using ne d z
    by (auto simp: combine_byte_def Let_def v gf_product_eq gf_sum_eq list_ex_iff case_prod_unfold comp_def
        simp flip: denominator_def)
  moreover have "gf_into_u8 (peval p (gf_from_u8 k)) = v" if "(k, v) \<in> set shares" for k v
  proof -
    have "(gf_from_u8 k, gf_from_u8 v) \<in> set (points_of shares)"
      using that by (force simp: points_of_def)
    with p(3) have "peval p (gf_from_u8 k) = gf_from_u8 v" by fastforce
    then show ?thesis by simp
  qed
  ultimately show thesis using that p(1,2) len by auto
qed

lemma combine_byte_invalid:
  "shares = [] \<or> \<not> distinct (map fst shares) \<or> 0 \<in> set (map fst shares) \<Longrightarrow>
   combine_byte shares = Err InvalidInput"
  unfolding combine_byte_def by (rule if_P) (force simp: list_ex_iff)

subsection \<open>Arrays of shares\<close>

definition valid_shares :: "(u8 \<times> bytes) list \<Rightarrow> bool" where
  "valid_shares shares \<longleftrightarrow>
     shares \<noteq> [] \<and> distinct (map fst shares) \<and> 0 \<notin> set (map fst shares)"

text \<open>The array of the values at \<open>x\<close> of one polynomial per byte.\<close>

definition deal :: "nat \<Rightarrow> (nat \<Rightarrow> gf256 list) \<Rightarrow> u8 \<Rightarrow> bytes" where
  "deal N Q x = map (\<lambda>i. gf_into_u8 (peval (Q i) (gf_from_u8 x))) [0..<N]"

definition column :: "nat \<Rightarrow> (u8 \<times> bytes) list \<Rightarrow> (u8 \<times> u8) list" where
  "column i shares = map (\<lambda>(k, share). (k, share ! i)) shares"

lemma length_deal [simp]: "length (deal N Q x) = N"
  by (simp add: deal_def)

lemma nth_deal: "i < N \<Longrightarrow> deal N Q x ! i = gf_into_u8 (peval (Q i) (gf_from_u8 x))"
  by (simp add: deal_def)

lemma column_simps [simp]:
  "map fst (column i shares) = map fst shares" "length (column i shares) = length shares"
  "column i shares = [] \<longleftrightarrow> shares = []"
  "fst ` set (column i shares) = fst ` set shares"
  by (simp_all add: column_def comp_def case_prod_unfold image_image)

text \<open>
  On valid shares \<open>interpolate\<close> and \<open>combine\<close> evaluate the same polynomials, which have at
  most as many coefficients as there are shares and pass through all of them.
\<close>

lemma reconstruct_valid:
  assumes v: "valid_shares shares"
  obtains P where "interpolate N shares = Ok (\<lambda>x. Ok (deal N P x))"
    "combine N shares = Ok (deal N P 0)"
    "\<And>i. i < N \<Longrightarrow> length (P i) \<le> length shares"
    "\<And>i k s. i < N \<Longrightarrow> (k, s) \<in> set shares \<Longrightarrow> gf_into_u8 (peval (P i) (gf_from_u8 k)) = s ! i"
proof -
  have "\<exists>p. poly_interpolate (points_of (column i shares)) = Ok p \<and> length p \<le> length shares \<and>
      (\<forall>k w. (k, w) \<in> set (column i shares) \<longrightarrow> gf_into_u8 (peval p (gf_from_u8 k)) = w) \<and>
      combine_byte (column i shares) = Ok (gf_into_u8 (peval p 0))" for i
  proof -
    have "column i shares \<noteq> []" "distinct (map fst (column i shares))"
      "0 \<notin> set (map fst (column i shares))"
      using v by (simp_all add: valid_shares_def)
    then show ?thesis by (rule combine_byte_interpolates) auto
  qed
  then have "\<forall>i. \<exists>p. poly_interpolate (points_of (column i shares)) = Ok p \<and> length p \<le> length shares \<and>
      (\<forall>k w. (k, w) \<in> set (column i shares) \<longrightarrow> gf_into_u8 (peval p (gf_from_u8 k)) = w) \<and>
      combine_byte (column i shares) = Ok (gf_into_u8 (peval p 0))" by blast
  from choice [OF this] obtain P where P: "\<And>i. poly_interpolate (points_of (column i shares)) = Ok (P i)"
    "\<And>i. length (P i) \<le> length shares"
    "\<And>i k w. (k, w) \<in> set (column i shares) \<Longrightarrow> gf_into_u8 (peval (P i) (gf_from_u8 k)) = w"
    "\<And>i. combine_byte (column i shares) = Ok (gf_into_u8 (peval (P i) 0))"
    by blast
  have pts: "map (\<lambda>(k, share). (GF256 k, GF256 (share ! i))) shares = points_of (column i shares)" for i
    by (simp add: points_of_def column_def gf_from_u8_def case_prod_unfold)
  have "collect_res (\<lambda>i. poly_interpolate (points_of (column i shares))) [0..<N] = Ok (map P [0..<N])"
    by (rule collect_res_Ok) (rule P(1))
  then have int: "interpolate N shares = Ok (\<lambda>x. Ok (deal N P x))"
    using v by (force simp: interpolate_def pts valid_shares_def list_ex_iff deal_def comp_def
        evaluate_peval gf_from_u8_def)
  have "collect_res (\<lambda>i. combine_byte (column i shares)) [0..<N] = Ok (deal N P 0)"
    unfolding deal_def by (rule collect_res_Ok) (simp add: P(4) gf_from_u8_def GF256_0)
  then have comb: "combine N shares = Ok (deal N P 0)"
    by (simp add: combine_def flip: column_def)
  show thesis
  proof (rule that [OF int comb P(2)])
    show "gf_into_u8 (peval (P i) (gf_from_u8 k)) = s ! i" if "(k, s) \<in> set shares" for i k s
      using that by (intro P(3)) (force simp: column_def)
  qed
qed

lemma reconstruct_invalid:
  assumes "\<not> valid_shares shares"
  shows "interpolate N shares = Err InvalidInput" and "combine (Suc n) shares = Err InvalidInput"
proof -
  show "interpolate N shares = Err InvalidInput"
    using assms by (auto simp: interpolate_def valid_shares_def list_ex_iff)
  have "combine_byte (column i shares) = Err InvalidInput" for i
    using assms by (intro combine_byte_invalid) (simp add: valid_shares_def)
  then show "combine (Suc n) shares = Err InvalidInput"
    by (simp add: combine_def upt_conv_Cons del: upt_Suc flip: column_def)
qed

text \<open>
  Shares dealt from polynomials with at most as many coefficients as there are shares
  determine every value of those polynomials.
\<close>

lemma reconstruct_dealt:
  assumes v: "valid_shares shares" and s: "\<And>k s. (k, s) \<in> set shares \<Longrightarrow> s = deal N Q k"
    and len: "\<And>i. i < N \<Longrightarrow> length (Q i) \<le> length shares"
  shows "interpolate N shares = Ok (\<lambda>x. Ok (deal N Q x))" and "combine N shares = Ok (deal N Q 0)"
proof -
  obtain P where P: "interpolate N shares = Ok (\<lambda>x. Ok (deal N P x))"
    "combine N shares = Ok (deal N P 0)"
    "\<And>i. i < N \<Longrightarrow> length (P i) \<le> length shares"
    "\<And>i k s. i < N \<Longrightarrow> (k, s) \<in> set shares \<Longrightarrow> gf_into_u8 (peval (P i) (gf_from_u8 k)) = s ! i"
    using reconstruct_valid [OF v] by metis
  let ?S = "gf_from_u8 ` fst ` set shares"
  have card: "card ?S = length shares"
    using v by (metis (no_types, lifting) card_image distinct_card gf_from_u8_inject inj_onI
        length_map set_map valid_shares_def)
  have "peval (P i) x = peval (Q i) x" if i: "i < N" for i x
  proof (rule peval_unique [of ?S])
    fix a assume "a \<in> ?S"
    then obtain k w where kw: "(k, w) \<in> set shares" "a = gf_from_u8 k" by auto
    have "gf_into_u8 (peval (P i) a) = gf_into_u8 (peval (Q i) a)"
      using P(4) [OF i kw(1)] s [OF kw(1)] i by (simp add: kw(2) nth_deal)
    then show "peval (P i) a = peval (Q i) a" by (metis gf_into_from(2))
  qed (use P(3) len i in \<open>simp_all add: card\<close>)
  then have "deal N P x = deal N Q x" for x
    by (auto simp: deal_def)
  with P(1,2) show "interpolate N shares = Ok (\<lambda>x. Ok (deal N Q x))" "combine N shares = Ok (deal N Q 0)"
    by simp_all
qed

subsection \<open>What \<open>split\<close> deals\<close>

lemma length_rand_coefficients:
  "rand_coefficients R n r = (cs, r') \<Longrightarrow> length cs = n"
  by (induction n arbitrary: r cs) (auto simp: Let_def split: prod.splits)

lemma split_byte_Ok:
  assumes "threshold \<noteq> 0" and "unat threshold \<le> length indices" and "length indices < 256"
    and "0 \<notin> set indices" and "distinct indices"
  obtains cs rng' where "rand_coefficients R (unat (threshold - 1)) rng = (cs, rng')"
    "length cs = unat threshold - 1"
    "split_byte R rng b threshold indices =
       (Ok (map (\<lambda>i. gf_into_u8 (peval (gf_from_u8 b # cs) (gf_from_u8 i))) indices), rng')"
proof -
  obtain cs rng' where cs: "rand_coefficients R (unat (threshold - 1)) rng = (cs, rng')"
    by (cases "rand_coefficients R (unat (threshold - 1)) rng") auto
  have n: "unat (of_nat (length indices) :: u8) = length indices"
    using assms(3) by (simp add: unat_of_nat)
  then have "threshold \<le> of_nat (length indices)"
    using assms(2) by (simp add: word_le_nat_alt)
  moreover have "(of_nat (length indices) :: u8) \<noteq> 0"
    using n assms(1,2) by (metis le_zero_eq unat_0 unat_eq_zero)
  moreover have "unat (threshold - 1) = unat threshold - 1"
    using assms(1) by (simp add: unat_sub word_le_nat_alt unat_gt_0 Suc_leI)
  ultimately show thesis
    using that [OF cs] length_rand_coefficients [OF cs] assms
    unfolding split_byte_def Let_def cs by (simp add: poly_simps linorder_not_less)
qed

lemma split_bytes_Ok:
  assumes "threshold \<noteq> 0" and "unat threshold \<le> length indices" and "length indices < 256"
    and "0 \<notin> set indices" and "distinct indices"
  shows "\<exists>Q rng'. split_bytes R rng bs threshold indices =
       (Ok (map (\<lambda>i. map (\<lambda>x. gf_into_u8 (peval (Q i) (gf_from_u8 x))) indices) [0..<length bs]), rng') \<and>
     (\<forall>i < length bs. length (Q i) = unat threshold \<and> hd (Q i) = gf_from_u8 (bs ! i))"
proof (induction bs arbitrary: rng)
  case Nil
  then show ?case by simp
next
  case (Cons b bs)
  obtain cs rng1 where b: "length cs = unat threshold - 1" "split_byte R rng b threshold indices =
      (Ok (map (\<lambda>i. gf_into_u8 (peval (gf_from_u8 b # cs) (gf_from_u8 i))) indices), rng1)"
    using split_byte_Ok [OF assms] by metis
  obtain Q rng2 where Q: "split_bytes R rng1 bs threshold indices =
       (Ok (map (\<lambda>i. map (\<lambda>x. gf_into_u8 (peval (Q i) (gf_from_u8 x))) indices) [0..<length bs]), rng2)"
     "\<forall>i < length bs. length (Q i) = unat threshold \<and> hd (Q i) = gf_from_u8 (bs ! i)"
    using Cons.IH by blast
  let ?Q = "\<lambda>i. case i of 0 \<Rightarrow> gf_from_u8 b # cs | Suc j \<Rightarrow> Q j"
  have "unat threshold > 0" using assms(1) by (simp add: unat_gt_0)
  then have "\<forall>i < length (b # bs). length (?Q i) = unat threshold \<and> hd (?Q i) = gf_from_u8 ((b # bs) ! i)"
    using Q(2) b(1) by (auto simp: nth_Cons split: nat.split)
  moreover have "split_bytes R rng (b # bs) threshold indices =
      (Ok (map (\<lambda>i. map (\<lambda>x. gf_into_u8 (peval (?Q i) (gf_from_u8 x))) indices) [0..<length (b # bs)]), rng2)"
    by (simp add: b(2) Q(1) map_upt_Suc del: upt_Suc)
  ultimately show ?case by blast
qed

lemma share_indices:
  fixes n :: u8
  shows "distinct (map of_nat [1..<Suc (unat n)] :: u8 list)"
    and "0 \<notin> set (map of_nat [1..<Suc (unat n)] :: u8 list)"
proof -
  have u: "unat (of_nat k :: u8) = k" if "k \<le> unat n" for k
    using that unat_u8_less [of n] by (simp add: unat_of_nat)
  have "inj_on (of_nat :: nat \<Rightarrow> u8) (set [1..<Suc (unat n)])"
    by (rule inj_on_inverseI [of _ unat]) (use u in auto)
  then show "distinct (map of_nat [1..<Suc (unat n)] :: u8 list)"
    by (simp add: distinct_map del: upt_Suc)
  have "(of_nat k :: u8) \<noteq> 0" if "k \<in> set [1..<Suc (unat n)]" for k
    using that u [of k] by (auto simp del: upt_Suc)
  then show "0 \<notin> set (map of_nat [1..<Suc (unat n)] :: u8 list)" by force
qed

lemma split_Ok:
  assumes "threshold \<noteq> 0" and "threshold \<le> number_of_shares" and "length secret = N" and "N > 0"
  obtains Q ss rng' where
    "split R N rng secret threshold number_of_shares = (Ok ss, rng')"
    "\<And>i. i < N \<Longrightarrow> length (Q i) = unat threshold" "deal N Q 0 = secret" "ss_secret ss = secret"
    "ss_indices ss = map of_nat [1..<Suc (unat number_of_shares)]"
    "ss_shares ss = map (deal N Q) (ss_indices ss)"
proof -
  define IS where "IS = (map of_nat [1..<Suc (unat number_of_shares)] :: u8 list)"
  have "unat threshold \<le> length IS" "length IS < 256"
    using assms(2) unat_u8_less [of number_of_shares] by (simp_all add: word_le_nat_alt IS_def)
  then obtain Q rng' where Q: "split_bytes R rng secret threshold IS =
       (Ok (map (\<lambda>i. map (\<lambda>x. gf_into_u8 (peval (Q i) (gf_from_u8 x))) IS) [0..<N]), rng')"
     "\<forall>i < N. length (Q i) = unat threshold \<and> hd (Q i) = gf_from_u8 (secret ! i)"
    using split_bytes_Ok [OF assms(1), of IS R rng secret] share_indices [of number_of_shares]
    unfolding assms(3) IS_def by blast
  have "transpose_matrix N (map (\<lambda>i. map (\<lambda>x. gf_into_u8 (peval (Q i) (gf_from_u8 x))) IS) [0..<N]) =
      Ok (map (deal N Q) IS)"
    using assms(4) by (subst transpose_matrix_Ok [of _ _ "length IS"])
      (auto intro!: nth_equalityI simp: deal_def)
  then have eq: "split R N rng secret threshold number_of_shares =
      (Ok \<lparr>ss_secret = secret, ss_indices = IS, ss_shares = map (deal N Q) IS\<rparr>, rng')"
    using assms(1,2) unfolding split_def Let_def IS_def [symmetric] Q(1)
    by (simp add: linorder_not_less)
  have zero: "deal N Q 0 = secret"
  proof (rule nth_equalityI)
    fix i assume i: "i < length (deal N Q 0)"
    then have "length (Q i) > 0" using Q(2) assms(1) by (simp add: unat_gt_0)
    then show "deal N Q 0 ! i = secret ! i"
      using i Q(2) by (simp add: nth_deal peval_0 gf_from_u8_def GF256_0)
        (metis gf_from_u8_def gf_into_from(1))
  qed (simp add: assms(3))
  show thesis by (rule that [OF eq _ zero]) (simp_all add: Q(2) IS_def)
qed

subsection \<open>The interface of a reconstruction procedure\<close>

text \<open>
  A reconstruction procedure for arrays of \<open>N\<close> bytes rejects an empty set of shares, a
  repeated index and the index zero, and returns the value at zero of the polynomials the
  shares were dealt from when there are enough of them.
\<close>

locale reconstruction =
  fixes N :: nat and recon :: "(u8 \<times> bytes) list \<Rightarrow> (bytes, fc_error) res"
  assumes reject: "\<not> valid_shares shares \<Longrightarrow> recon shares = Err InvalidInput"
    and dealt: "valid_shares shares \<Longrightarrow> (\<And>k s. (k, s) \<in> set shares \<Longrightarrow> s = deal N Q k) \<Longrightarrow>
      (\<And>i. i < N \<Longrightarrow> length (Q i) \<le> length shares) \<Longrightarrow> recon shares = Ok (deal N Q 0)"
    and total: "valid_shares shares \<Longrightarrow> is_ok (recon shares)"
begin

lemma accepts_iff: "is_ok (recon shares) \<longleftrightarrow> valid_shares shares"
  using reject total by (cases "valid_shares shares") auto

lemma split_recovers:
  assumes sp: "split R N rng secret threshold n = (Ok ss, rng')" and N: "length secret = N" "N > 0"
    and sel: "distinct sel" "\<forall>j \<in> set sel. j < length (ss_indices ss)" "unat threshold \<le> length sel"
  shows "recon (map (\<lambda>j. (ss_indices ss ! j, ss_shares ss ! j)) sel) = Ok secret"
proof -
  have t: "threshold \<noteq> 0" "threshold \<le> n" using sp by (auto simp: split_def split: if_splits)
  from split_Ok [OF t N, of R rng] sp obtain Q where Q: "\<And>i. i < N \<Longrightarrow> length (Q i) = unat threshold"
    "deal N Q 0 = secret" "ss_indices ss = map of_nat [1..<Suc (unat n)]"
    "ss_shares ss = map (deal N Q) (ss_indices ss)"
    by (metis fst_conv res.inject(1))
  let ?shares = "map (\<lambda>j. (ss_indices ss ! j, ss_shares ss ! j)) sel"
  have idx: "distinct (ss_indices ss)" "0 \<notin> set (ss_indices ss)"
    unfolding Q(3) by (rule share_indices)+
  have "inj_on (\<lambda>j. ss_indices ss ! j) (set sel)"
    using sel(2) idx(1) by (auto simp: inj_on_def nth_eq_iff_index_eq)
  then have "distinct (map fst ?shares)" using sel(1) by (simp add: distinct_map comp_def)
  moreover have "sel \<noteq> []" using sel(3) t(1) by (auto simp: unat_eq_zero)
  moreover have "0 \<notin> set (map fst ?shares)"
    using sel(2) idx(2) by (auto simp: image_iff) (metis nth_mem)
  ultimately have "valid_shares ?shares" by (simp add: valid_shares_def)
  then have "recon ?shares = Ok (deal N Q 0)"
  proof (rule dealt)
    show "s = deal N Q k" if "(k, s) \<in> set ?shares" for k s
      using that sel(2) by (auto simp: Q(4))
  qed (use Q(1) sel(3) in simp)
  with Q(2) show ?thesis by simp
qed

end

interpretation combine_recon: reconstruction "Suc n" "combine (Suc n)" for n
proof
  show "combine (Suc n) shares = Err InvalidInput" if "\<not> valid_shares shares" for shares
    using that by (rule reconstruct_invalid)
  show "combine (Suc n) shares = Ok (deal (Suc n) Q 0)"
    if "valid_shares shares" "\<And>k s. (k, s) \<in> set shares \<Longrightarrow> s = deal (Suc n) Q k"
      "\<And>i. i < Suc n \<Longrightarrow> length (Q i) \<le> length shares" for shares Q
    using reconstruct_dealt(2) [OF that] .
  show "is_ok (combine (Suc n) shares)" if "valid_shares shares" for shares
    by (rule reconstruct_valid [OF that, of "Suc n"]) simp
qed

interpretation interpolate_recon:
  reconstruction "Suc n" "\<lambda>shares. and_then (interpolate (Suc n) shares) (\<lambda>p. p 0)" for n
proof
  show "and_then (interpolate (Suc n) shares) (\<lambda>p. p 0) = Err InvalidInput"
    if "\<not> valid_shares shares" for shares
    using that by (simp add: reconstruct_invalid)
  show "and_then (interpolate (Suc n) shares) (\<lambda>p. p 0) = Ok (deal (Suc n) Q 0)"
    if "valid_shares shares" "\<And>k s. (k, s) \<in> set shares \<Longrightarrow> s = deal (Suc n) Q k"
      "\<And>i. i < Suc n \<Longrightarrow> length (Q i) \<le> length shares" for shares Q
    using reconstruct_dealt(1) [OF that] by simp
  show "is_ok (and_then (interpolate (Suc n) shares) (\<lambda>p. p 0))" if "valid_shares shares" for shares
    by (rule reconstruct_valid [OF that, of "Suc n"]) simp
qed

subsection \<open>Secrecy\<close>

lemma map_into_eq: "map gf_into_u8 zs = vs \<longleftrightarrow> zs = map gf_from_u8 vs"
  by (auto simp: map_idI)

lemma rand_coefficients_tape:
  "rand_coefficients tape_rng (length tape) (tape @ rest) = (map GF256 tape, rest)"
  by (induction tape) (simp_all add: gf_rand_def tape_rng_def)

text \<open>
  Through one fewer point than coefficients there is exactly one polynomial with a given
  constant term.
\<close>

lemma unique_completion:
  fixes xs ys :: "gf256 list"
  assumes d: "distinct xs" and z: "0 \<notin> set xs" and len: "length ys = length xs"
  shows "\<exists>!cs. length cs = length xs \<and> map (peval (s # cs)) xs = ys"
proof (rule ex_ex1I)
  let ?pts = "(0, s) # zip xs ys"
  have fst: "map fst ?pts = 0 # xs" using len by simp
  then have "distinct (map fst ?pts)" using d z by simp
  then obtain p where p: "length p \<le> length ?pts" "\<forall>(x, y) \<in> set ?pts. peval p x = y"
    using poly_interpolate_correct by blast
  define q where "q = p @ replicate (Suc (length xs) - length p) 0"
  have q: "length q = Suc (length xs)" "peval q x = peval p x" for x
    using p(1) len by (simp_all add: q_def poly_simps)
  then obtain c cs where cs: "q = c # cs" by (cases q) auto
  have "c = s" using p(2) q(2) [of 0] by (simp add: cs)
  moreover have "peval q (xs ! i) = ys ! i" if "i < length xs" for i
    using p(2) that len q(2) by (force simp: set_zip)
  ultimately show "\<exists>cs. length cs = length xs \<and> map (peval (s # cs)) xs = ys"
    using q(1) len by (intro exI [of _ cs] conjI nth_equalityI) (simp_all add: cs)
next
  fix cs cs' assume cs: "length cs = length xs \<and> map (peval (s # cs)) xs = ys"
    and cs': "length cs' = length xs \<and> map (peval (s # cs')) xs = ys"
  have "s # cs = s # cs'"
  proof (rule peval_coeffs_unique [of "insert 0 (set xs)"])
    show "peval (s # cs) a = peval (s # cs') a" if "a \<in> insert 0 (set xs)" for a
      using that cs cs' by (metis insertE map_eq_conv peval.simps(2) mult_zero_left)
  qed (use cs cs' d z in \<open>simp_all add: distinct_card\<close>)
  then show "cs = cs'" by simp
qed

subsection \<open>Properties\<close>

lemma interpolate_split:
  assumes sp: "split R N rng secret threshold n = (Ok ss, rng')" and N: "length secret = N" "N > 0"
    and sel: "distinct sel" "\<forall>j \<in> set sel. j < length (ss_indices ss)" "unat threshold \<le> length sel"
  obtains f where "interpolate N (map (\<lambda>j. (ss_indices ss ! j, ss_shares ss ! j)) sel) = Ok f"
    "f 0 = Ok secret" "\<And>j. j < length (ss_indices ss) \<Longrightarrow> f (ss_indices ss ! j) = Ok (ss_shares ss ! j)"
proof -
  let ?shares = "map (\<lambda>j. (ss_indices ss ! j, ss_shares ss ! j)) sel"
  have t: "threshold \<noteq> 0" "threshold \<le> n" using sp by (auto simp: split_def split: if_splits)
  from split_Ok [OF t N, of R rng] sp obtain Q where Q: "\<And>i. i < N \<Longrightarrow> length (Q i) = unat threshold"
    "deal N Q 0 = secret" "ss_shares ss = map (deal N Q) (ss_indices ss)"
    by (metis fst_conv res.inject(1))
  obtain m where m: "N = Suc m" using N(2) by (cases N) auto
  have "is_ok (combine N ?shares)"
    using combine_recon.split_recovers [of R m] assms unfolding m by simp
  then have v: "valid_shares ?shares" unfolding m combine_recon.accepts_iff .
  have "interpolate N ?shares = Ok (\<lambda>x. Ok (deal N Q x))"
  proof (rule reconstruct_dealt(1) [OF v])
    show "s = deal N Q k" if "(k, s) \<in> set ?shares" for k s
      using that sel(2) by (auto simp: Q(3))
  qed (use Q(1) sel(3) in simp)
  then show thesis by (rule that) (simp_all add: Q(2,3))
qed

text \<open>C7: Shamir correctness. Any selection of at least \<open>threshold\<close> different shares of a dealt
  secret reconstructs it, whatever the generator drew: \<open>combine\<close> returns the secret, and the
  closure of \<open>interpolate\<close> returns the secret at 0 and every dealt share, selected or not, at
  its own index.\<close>

theorem split_reconstruct:
  assumes "split R N rng secret threshold number_of_shares = (Ok ss, rng')"
    and "length secret = N" and "0 < N"
    and "distinct sel" and "list_all (\<lambda>j. j < length (ss_indices ss)) sel"
    and "unat threshold \<le> length sel"
  shows "combine N (map (\<lambda>j. (ss_indices ss ! j, ss_shares ss ! j)) sel) = Ok secret \<and>
    (\<exists>f. interpolate N (map (\<lambda>j. (ss_indices ss ! j, ss_shares ss ! j)) sel) = Ok f \<and>
         f 0 = Ok secret \<and>
         list_all (\<lambda>j. f (ss_indices ss ! j) = Ok (ss_shares ss ! j)) [0..<length (ss_indices ss)])"
proof -
  have sel: "\<forall>j \<in> set sel. j < length (ss_indices ss)" using assms(5) by (simp add: list_all_iff)
  obtain m where m: "N = Suc m" using assms(3) by (cases N) auto
  have "combine N (map (\<lambda>j. (ss_indices ss ! j, ss_shares ss ! j)) sel) = Ok secret"
    using combine_recon.split_recovers [of R m] assms(1-4) sel assms(6) unfolding m by simp
  moreover obtain f where
    "interpolate N (map (\<lambda>j. (ss_indices ss ! j, ss_shares ss ! j)) sel) = Ok f" "f 0 = Ok secret"
    "\<And>j. j < length (ss_indices ss) \<Longrightarrow> f (ss_indices ss ! j) = Ok (ss_shares ss ! j)"
    using interpolate_split [OF assms(1-4) sel assms(6)] by blast
  ultimately show ?thesis by (auto simp: list_all_iff)
qed

theorem split_reconstruct_witness:
  "combine 2 (map (\<lambda>j. ([1, 2, 3, 4, 5] ! j, [[9, 19], [0, 2], [3, 5], [46, 88], [45, 95]] ! j)) [4, 0, 2])
     = Ok [10, 20]"
proof -
  have "split tape_rng 2 [1, 2, 3, 4] [10, 20] 3 5 =
      (Ok \<lparr>ss_secret = [10, 20], ss_indices = [1, 2, 3, 4, 5],
           ss_shares = [[9, 19], [0, 2], [3, 5], [46, 88], [45, 95]]\<rparr>, [])"
    by code_simp
  from split_reconstruct [OF this, of "[4, 0, 2]"] show ?thesis by simp
qed

text \<open>\<open>split\<close> fails with \<open>InvalidInput\<close> exactly when the threshold is zero or larger than
  the number of shares, or the secret is empty; otherwise it returns the indices
  \<open>1..=number_of_shares\<close> and as many shares, each of the length of the secret.\<close>

theorem split_spec:
  "if threshold = 0 \<or> threshold > number_of_shares \<or> secret = []
   then fst (split R (length secret) rng secret threshold number_of_shares) = Err InvalidInput
   else \<exists>ss. fst (split R (length secret) rng secret threshold number_of_shares) = Ok ss \<and>
             ss_secret ss = secret \<and>
             ss_indices ss = map of_nat [1..<Suc (unat number_of_shares)] \<and>
             length (ss_shares ss) = unat number_of_shares \<and>
             list_all (\<lambda>s. length s = length secret) (ss_shares ss)"
proof (cases "threshold = 0 \<or> threshold > number_of_shares \<or> secret = []")
  case True
  then show ?thesis by (auto simp: split_def transpose_matrix_def)
next
  case False
  then have "threshold \<noteq> 0" "threshold \<le> number_of_shares" "length secret > 0" by auto
  then obtain Q ss rng' where "split R (length secret) rng secret threshold number_of_shares = (Ok ss, rng')"
    "ss_secret ss = secret" "ss_indices ss = map of_nat [1..<Suc (unat number_of_shares)]"
    "ss_shares ss = map (deal (length secret) Q) (ss_indices ss)"
    using split_Ok [of threshold number_of_shares secret "length secret" R rng] by metis
  then have "\<exists>ss. fst (split R (length secret) rng secret threshold number_of_shares) = Ok ss \<and>
             ss_secret ss = secret \<and>
             ss_indices ss = map of_nat [1..<Suc (unat number_of_shares)] \<and>
             length (ss_shares ss) = unat number_of_shares \<and>
             list_all (\<lambda>s. length s = length secret) (ss_shares ss)"
    by (intro exI [of _ ss]) (simp add: list_all_iff del: upt_Suc)
  then show ?thesis by (simp only: if_not_P [OF False])
qed

text \<open>\<open>combine\<close> is \<open>interpolate\<close> followed by the evaluation at zero, on every input; both
  accept exactly the non-empty sets of shares with different non-zero indices, answer
  \<open>InvalidInput\<close> to every other input and never panic.\<close>

theorem combine_interpolate:
  "combine (Suc n) shares = and_then (interpolate (Suc n) shares) (\<lambda>p. p 0) \<and>
   (if shares \<noteq> [] \<and> distinct (map fst shares) \<and> 0 \<notin> set (map fst shares)
    then \<exists>secret. combine (Suc n) shares = Ok secret \<and> length secret = Suc n
    else combine (Suc n) shares = Err InvalidInput)"
proof (cases "valid_shares shares")
  case True
  then show ?thesis
    by (rule reconstruct_valid [of shares "Suc n"]) (use True in \<open>auto simp: valid_shares_def\<close>)
next
  case False
  then show ?thesis by (auto simp: reconstruct_invalid) (auto simp: valid_shares_def)
qed

text \<open>C8: perfect secrecy of one shared byte. Fix any \<open>threshold - 1\<close> of the share positions
  and any values seen there. For every secret byte there is exactly one sequence of random
  bytes (one per coefficient drawn) with which \<open>split_byte\<close> produces that view, so with
  uniform coefficients the view is equally likely under every secret.\<close>

theorem split_byte_secrecy:
  assumes t: "threshold \<noteq> 0" "unat threshold \<le> length indices" "length indices < 256"
    and ind: "0 \<notin> set indices" "distinct indices"
    and pos: "distinct pos" "list_all (\<lambda>j. j < length indices) pos" "length pos = unat threshold - 1"
    and view: "length view = length pos"
  shows "\<exists>!tape. length tape = length pos \<and>
           (\<exists>shares. split_byte tape_rng tape secret threshold indices = (Ok shares, []) \<and>
                     map (\<lambda>j. shares ! j) pos = view)"
proof -
  let ?x = "\<lambda>j. gf_from_u8 (indices ! j)"
  let ?xs = "map ?x pos" and ?ys = "map gf_from_u8 view"
  let ?C = "\<lambda>cs. length cs = length ?xs \<and> map (peval (gf_from_u8 secret # cs)) ?xs = ?ys"
  have pos': "\<forall>j \<in> set pos. j < length indices" using pos(2) by (simp add: list_all_iff)
  have "inj_on ?x (set pos)"
    using pos' ind(2) by (auto simp: inj_on_def nth_eq_iff_index_eq)
  then have "distinct ?xs" "0 \<notin> set ?xs" "length ?ys = length ?xs"
    using pos(1) ind(1) pos' view by (auto simp: distinct_map) (metis nth_mem)
  then have uniq: "\<exists>!cs. ?C cs" by (rule unique_completion)
  have "(\<exists>shares. split_byte tape_rng tape secret threshold indices = (Ok shares, []) \<and>
                   map (\<lambda>j. shares ! j) pos = view) \<longleftrightarrow> ?C (map gf_from_u8 tape)"
    if len: "length tape = length pos" for tape
  proof -
    have "unat (threshold - 1) = length tape"
      using t(1) len pos(3) by (simp add: unat_sub word_le_nat_alt unat_gt_0 Suc_leI)
    then obtain S where S: "split_byte tape_rng tape secret threshold indices = (Ok S, [])"
      "S = map (\<lambda>i. gf_into_u8 (peval (gf_from_u8 secret # map gf_from_u8 tape) (gf_from_u8 i))) indices"
      using split_byte_Ok [OF t ind, of tape_rng tape secret] rand_coefficients_tape [of tape "[]"]
      by (auto simp: gf_from_u8_def [abs_def])
    have "map (\<lambda>j. S ! j) pos = map gf_into_u8 (map (peval (gf_from_u8 secret # map gf_from_u8 tape)) ?xs)"
      using pos' by (simp add: S(2))
    then have "map (\<lambda>j. S ! j) pos = view \<longleftrightarrow>
        map (peval (gf_from_u8 secret # map gf_from_u8 tape)) ?xs = ?ys"
      by (simp only: map_into_eq)
    then show ?thesis using len by (simp add: S(1))
  qed
  note view_iff = this
  obtain cs where cs: "?C cs" "\<And>cs'. ?C cs' \<Longrightarrow> cs' = cs" using uniq by blast
  have tape: "map gf_from_u8 tape = cs \<longleftrightarrow> tape = map gf_into_u8 cs" for tape
    using map_into_eq [of cs tape] by auto
  show ?thesis
  proof (rule ex1I [of _ "map gf_into_u8 cs"], goal_cases)
    case 1
    then show ?case using cs(1) view_iff [of "map gf_into_u8 cs"] tape [of "map gf_into_u8 cs"] by simp
  next
    case (2 tape)
    then show ?case using view_iff cs(2) tape by blast
  qed
qed

theorem split_byte_secrecy_witness:
  "\<exists>!tape. length tape = length [0 :: nat, 3] \<and>
     (\<exists>shares. split_byte tape_rng tape 42 3 [1, 2, 3, 4, 5] = (Ok shares, []) \<and>
               map (\<lambda>j. shares ! j) [0, 3] = [7, 200])"
  by (rule split_byte_secrecy) simp_all

end
