(* ===== verification/Elgamal.thy ===== *)
theory Elgamal
  imports Complex_Main Utils
begin

text \<open>
  \<^verbatim>\<open>crates/crypto/src/elgamal.rs\<close>: ElGamal encryption in a group and the homomorphic aggregation
  of encrypted key shares.

  The group is a third-party type: the type variable \<open>'g\<close> with its addition, scalars \<open>'s\<close>,
  and the record \<open>group_ops\<close> for the generator, the scalar multiplication and the sampling of
  a scalar. \<open>scalar_action\<close> states the module laws. \<open>Poly::recover_c0\<close> (Lagrange
  interpolation in the group) is the parameter \<open>recover_c0\<close>; \<open>recovers_c0\<close> states that on
  given indices it is a linear combination of the values whose weights reproduce the value at
  zero of every polynomial with at most \<open>threshold\<close> coefficients.
\<close>

record ('s, 'g, 'r) group_ops =
  generator :: 'g
  smul :: "'g \<Rightarrow> 's \<Rightarrow> 'g"
  scalar_rand :: "'r \<Rightarrow> 's \<times> 'r"

definition scalar_action :: "('g::ab_group_add \<Rightarrow> 's::field \<Rightarrow> 'g) \<Rightarrow> bool" where
  "scalar_action m \<longleftrightarrow>
     (\<forall>x y a. m (x + y) a = m x a + m y a) \<and> (\<forall>x a b. m x (a + b) = m x a + m x b) \<and>
     (\<forall>x a b. m (m x a) b = m x (a * b)) \<and> (\<forall>x. m x 1 = x)"

subsection \<open>Keys, encryption and decryption\<close>

datatype 's secret_key = SecretKey 's
datatype 'g public_key = PublicKey 'g
datatype 'g verification_key = VerificationKey (as_element: 'g)
datatype 'g encryption = Encryption (enc_0: 'g) (enc_1: 'g)

definition genkey ::
  "('s, 'g, 'r) group_ops \<Rightarrow> ('s, 'v, 'r) group_ops \<Rightarrow> 'r \<Rightarrow>
   ('s secret_key \<times> 'g public_key \<times> 'v verification_key) \<times> 'r" where
  "genkey G VG rng =
     (let (sk, rng') = scalar_rand G rng in
      ((SecretKey sk, PublicKey (smul G (generator G) sk), VerificationKey (smul VG (generator VG) sk)),
       rng'))"

fun eg_encrypt ::
  "('s, 'g::ab_group_add, 'r) group_ops \<Rightarrow> 'r \<Rightarrow> 'g \<Rightarrow> 'g public_key \<Rightarrow> 'g encryption \<times> 'r" where
  "eg_encrypt G rng msg (PublicKey pk) =
     (let (r, rng') = scalar_rand G rng in
      (Encryption (smul G (generator G) r) (smul G pk r + msg), rng'))"

fun eg_decrypt ::
  "('s, 'g::ab_group_add, 'r) group_ops \<Rightarrow> 's secret_key \<Rightarrow> 'g encryption \<Rightarrow> 'g" where
  "eg_decrypt G (SecretKey sk) (Encryption e0 e1) = e1 - smul G e0 sk"

subsection \<open>Aggregation\<close>

definition U16_MAX :: u16 where
  "U16_MAX = 65535"

definition nonzero_u16 :: "u16 \<Rightarrow> u16 option" where
  "nonzero_u16 n = (if n = 0 then None else Some n)"

text \<open>The validation loop: it stops at the id \<open>u16::MAX\<close> and at the first repeated id.\<close>

fun collect_shares ::
  "(u16 \<times> 'g encryption) list \<Rightarrow> u16 set \<Rightarrow> (u16 \<times> 'g) list \<Rightarrow> (u16 \<times> 'g) list \<Rightarrow>
   ((u16 \<times> 'g) list \<times> (u16 \<times> 'g) list, fc_error) res" where
  "collect_shares [] seen_ids c1_shares c2_shares = Ok (c1_shares, c2_shares)"
| "collect_shares ((party_id, enc) # rest) seen_ids c1_shares c2_shares =
     (if party_id = U16_MAX \<or> party_id \<in> seen_ids then Err InvalidInput
      else case nonzero_u16 (party_id + 1) of
        None \<Rightarrow> Panic
      | Some index \<Rightarrow>
          collect_shares rest (insert party_id seen_ids)
            (c1_shares @ [(index, enc_0 enc)]) (c2_shares @ [(index, enc_1 enc)]))"

definition aggregate_encrypted ::
  "(u16 \<Rightarrow> (u16 \<times> 'g) list \<Rightarrow> ('g, fc_error) res) \<Rightarrow> u16 \<Rightarrow> (u16 \<times> 'g encryption) list \<Rightarrow>
   ('g encryption, fc_error) res" where
  "aggregate_encrypted recover_c0 threshold encrypted_shares =
     (if threshold = 0 \<or> length encrypted_shares > unat U16_MAX \<or>
         (of_nat (length encrypted_shares) :: u16) < threshold
      then Err InvalidInput
      else
        and_then (collect_shares encrypted_shares {} [] []) (\<lambda>(c1_shares, c2_shares).
        and_then (recover_c0 threshold c1_shares) (\<lambda>result_c1.
        and_then (recover_c0 threshold c2_shares) (\<lambda>result_c2.
          Ok (Encryption result_c1 result_c2)))))"

text \<open>Evaluation of a polynomial with coefficients in the group, and the law of \<open>recover_c0\<close>.\<close>

definition geval :: "('g::ab_group_add \<Rightarrow> 's::field \<Rightarrow> 'g) \<Rightarrow> 'g list \<Rightarrow> 's \<Rightarrow> 'g" where
  "geval m cs x = (\<Sum>k < length cs. m (cs ! k) (x ^ k))"

definition recovers_c0 ::
  "('g::ab_group_add \<Rightarrow> 's::field \<Rightarrow> 'g) \<Rightarrow> (u16 \<Rightarrow> (u16 \<times> 'g) list \<Rightarrow> ('g, fc_error) res) \<Rightarrow>
   u16 \<Rightarrow> u16 list \<Rightarrow> (u16 \<Rightarrow> 's) \<Rightarrow> bool" where
  "recovers_c0 m recover_c0 t indices scalar \<longleftrightarrow>
     (\<exists>w. length w = length indices \<and>
          (\<forall>vs. length vs = length indices \<longrightarrow>
             recover_c0 t (zip indices vs) = Ok (\<Sum>i < length indices. m (vs ! i) (w ! i))) \<and>
          (\<forall>k < unat t. (\<Sum>i < length indices. w ! i * scalar (indices ! i) ^ k) = (if k = 0 then 1 else 0)))"

subsection \<open>Lemmas\<close>

lemma scalar_actionD:
  assumes "scalar_action m"
  shows smul_add: "m (x + y) a = m x a + m y a" and smul_add_scalar: "m x (a + b) = m x a + m x b"
    and smul_smul: "m (m x a) b = m x (a * b)" and smul_1: "m x 1 = x"
  using assms by (auto simp: scalar_action_def)

lemma smul_0: "scalar_action m \<Longrightarrow> m x 0 = 0" "scalar_action m \<Longrightarrow> m 0 a = 0"
  using smul_add_scalar [of m x 0 0] smul_add [of m 0 0 a] by simp_all

lemma smul_commute: "scalar_action m \<Longrightarrow> m (m x a) b = m (m x b) a"
  by (simp add: smul_smul mult.commute)

lemma smul_sum:
  "scalar_action m \<Longrightarrow> m (\<Sum>i \<in> A. f i) a = (\<Sum>i \<in> A. m (f i) a)"
  "scalar_action m \<Longrightarrow> m x (\<Sum>i \<in> A. g i) = (\<Sum>i \<in> A. m x (g i))"
  by (induction A rule: infinite_finite_induct) (simp_all add: smul_0 smul_add smul_add_scalar)

lemma smul_diff: "scalar_action m \<Longrightarrow> m (x - y) a = m x a - m y a"
  using smul_add [of m "x - y" y a] by (simp add: eq_diff_eq)

lemma eg_decrypt_encrypt:
  assumes "scalar_action (smul G)" and "genkey G VG rng = ((sk, pk, vk), rng1)"
    and "eg_encrypt G rng2 msg pk = (e, rng3)"
  shows "eg_decrypt G sk e = msg"
  using assms smul_commute [OF assms(1)]
  by (auto simp: genkey_def Let_def split: prod.splits)

lemma collect_shares_result:
  "collect_shares es seen c1 c2 =
     (if list_all (\<lambda>(i, _). i \<noteq> U16_MAX \<and> i \<notin> seen) es \<and> distinct (map fst es)
      then Ok (c1 @ map (\<lambda>(i, e). (i + 1, enc_0 e)) es, c2 @ map (\<lambda>(i, e). (i + 1, enc_1 e)) es)
      else Err InvalidInput)"
proof (induction es arbitrary: seen c1 c2)
  case Nil
  then show ?case by simp
next
  case (Cons p es)
  obtain i e where p: "p = (i, e)" by (cases p)
  show ?case
  proof (cases "i = U16_MAX \<or> i \<in> seen")
    case False
    then have "i + 1 \<noteq> 0" by (auto simp: U16_MAX_def simp flip: eq_neg_iff_add_eq_0)
    then show ?thesis
      using False Cons.IH [of "insert i seen"]
      by (auto simp: p nonzero_u16_def list_all_iff image_iff case_prod_unfold)
  qed (auto simp: p)
qed

definition shares_accepted :: "u16 \<Rightarrow> (u16 \<times> 'a) list \<Rightarrow> bool" where
  "shares_accepted threshold es \<longleftrightarrow>
     threshold \<noteq> 0 \<and> unat threshold \<le> length es \<and> length es \<le> 65535 \<and>
     distinct (map fst es) \<and> list_all (\<lambda>(i, _). i \<noteq> U16_MAX) es"

lemma aggregate_encrypted_eq:
  "aggregate_encrypted recover_c0 threshold es =
     (if shares_accepted threshold es
      then and_then (recover_c0 threshold (map (\<lambda>(i, e). (i + 1, enc_0 e)) es)) (\<lambda>c1.
           and_then (recover_c0 threshold (map (\<lambda>(i, e). (i + 1, enc_1 e)) es)) (\<lambda>c2.
             Ok (Encryption c1 c2)))
      else Err InvalidInput)"
proof (cases "threshold = 0 \<or> length es > 65535")
  case True
  then show ?thesis by (auto simp: aggregate_encrypted_def shares_accepted_def U16_MAX_def)
next
  case False
  then have "(of_nat (length es) :: u16) < threshold \<longleftrightarrow> \<not> unat threshold \<le> length es"
    by (auto simp: word_less_nat_alt unat_of_nat)
  with False show ?thesis
    by (auto simp: aggregate_encrypted_def shares_accepted_def U16_MAX_def collect_shares_result
        list_all_iff case_prod_unfold)
qed

lemma shares_accepted_iff:
  "shares_accepted threshold es \<longleftrightarrow>
     threshold \<noteq> 0 \<and> unat threshold \<le> length es \<and> length es \<le> 65535 \<and>
     distinct (map fst es) \<and> U16_MAX \<notin> set (map fst es)"
  by (auto simp: shares_accepted_def list_all_iff image_iff)

lemma aggregated_index: "i \<noteq> U16_MAX \<Longrightarrow> i + 1 \<noteq> 0"
  by (auto simp: U16_MAX_def simp flip: eq_neg_iff_add_eq_0)

text \<open>The weights of \<open>recover_c0\<close> recover the constant coefficient of a polynomial in the group.\<close>

lemma weights_recover:
  assumes m: "scalar_action m" and cs: "cs \<noteq> []" "length cs \<le> t"
    and w: "\<forall>k < t. (\<Sum>i < n. w ! i * x i ^ k) = (if k = 0 then 1 else 0)"
  shows "(\<Sum>i < n. m (geval m cs (x i)) (w ! i)) = cs ! 0"
proof -
  have "(\<Sum>i < n. m (geval m cs (x i)) (w ! i)) = (\<Sum>i < n. \<Sum>k < length cs. m (cs ! k) (w ! i * x i ^ k))"
    by (simp add: geval_def smul_sum [OF m] smul_smul [OF m] mult.commute)
  also have "\<dots> = (\<Sum>k < length cs. m (cs ! k) (\<Sum>i < n. w ! i * x i ^ k))"
    by (subst sum.swap) (simp add: smul_sum [OF m])
  also have "\<dots> = (\<Sum>k < length cs. if k = 0 then cs ! k else 0)"
    using w cs(2) by (intro sum.cong) (auto simp: smul_0 [OF m] smul_1 [OF m])
  also have "\<dots> = cs ! 0" using cs(1) by (simp add: sum.delta)
  finally show ?thesis .
qed

text \<open>The aggregate of encryptions of the values of one polynomial decrypts to its constant
  coefficient.\<close>

lemma aggregate_shares:
  fixes G :: "('s::field, 'g::ab_group_add, 'r) group_ops"
  assumes m: "scalar_action (smul G)" and ok: "shares_accepted threshold es"
    and cs: "cs \<noteq> []" "length cs \<le> unat threshold"
    and rc: "recovers_c0 (smul G) recover_c0 threshold (map (\<lambda>(i, _). i + 1) es) scalar"
    and dec: "\<And>i e. (i, e) \<in> set es \<Longrightarrow> eg_decrypt G sk e = geval (smul G) cs (scalar (i + 1))"
  shows "\<exists>e. aggregate_encrypted recover_c0 threshold es = Ok e \<and> eg_decrypt G sk e = cs ! 0"
proof -
  let ?n = "length es" and ?x = "\<lambda>i. scalar (fst (es ! i) + 1)"
  let ?e = "\<lambda>i. snd (es ! i)"
  obtain w where w: "length w = ?n"
    "\<And>vs. length vs = ?n \<Longrightarrow>
      recover_c0 threshold (zip (map (\<lambda>(i, _). i + 1) es) vs) = Ok (\<Sum>i < ?n. smul G (vs ! i) (w ! i))"
    "\<forall>k < unat threshold. (\<Sum>i < ?n. w ! i * ?x i ^ k) = (if k = 0 then 1 else 0)"
    using rc by (auto simp: recovers_c0_def case_prod_unfold)
  have zips: "map (\<lambda>(i, e). (i + 1, f e)) es = zip (map (\<lambda>(i, _). i + 1) es) (map (\<lambda>p. f (snd p)) es)"
    for f :: "'g encryption \<Rightarrow> 'g"
    by (rule nth_equalityI) (simp_all add: case_prod_unfold)
  have rec: "recover_c0 threshold (map (\<lambda>(i, e). (i + 1, f e)) es) = Ok (\<Sum>i < ?n. smul G (f (?e i)) (w ! i))"
    for f unfolding zips using w(2) [of "map (\<lambda>p. f (snd p)) es"] by simp
  have agg: "aggregate_encrypted recover_c0 threshold es = Ok (Encryption
      (\<Sum>i < ?n. smul G (enc_0 (?e i)) (w ! i)) (\<Sum>i < ?n. smul G (enc_1 (?e i)) (w ! i)))"
    using ok by (simp add: aggregate_encrypted_eq rec)
  obtain s where s: "sk = SecretKey s" by (cases sk)
  have share: "enc_1 (?e i) - smul G (enc_0 (?e i)) s = geval (smul G) cs (?x i)" if "i < ?n" for i
  proof -
    have "(fst (es ! i), ?e i) \<in> set es" using that by simp
    from dec [OF this] show ?thesis by (cases "?e i") (simp add: s)
  qed
  have "(\<Sum>i < ?n. smul G (enc_1 (?e i)) (w ! i)) - smul G (\<Sum>i < ?n. smul G (enc_0 (?e i)) (w ! i)) s =
      (\<Sum>i < ?n. smul G (enc_1 (?e i) - smul G (enc_0 (?e i)) s) (w ! i))"
    by (simp add: smul_sum [OF m] smul_diff [OF m] sum_subtractf smul_commute [OF m, of _ s])
  also have "\<dots> = (\<Sum>i < ?n. smul G (geval (smul G) cs (?x i)) (w ! i))"
    by (rule sum.cong) (simp_all add: share)
  also have "\<dots> = cs ! 0" by (rule weights_recover [OF m cs w(3)])
  finally show ?thesis using agg by (simp add: s)
qed

lemma geval_map_smul:
  assumes "scalar_action m"
  shows "geval m (map (m h) cs) x = m h (peval cs x)"
  by (simp add: geval_def peval_sum smul_sum [OF assms] smul_smul [OF assms])

subsection \<open>Properties\<close>

text \<open>ElGamal decryption inverts encryption under a generated key pair, whatever randomness
  the generator draws.\<close>

theorem elgamal_roundtrip:
  assumes "scalar_action (smul G)" and "genkey G VG rng = ((sk, pk, vk), rng')"
  shows "eg_decrypt G sk (fst (eg_encrypt G rng'' msg pk)) = msg"
  using eg_decrypt_encrypt [OF assms] by (metis prod.collapse)


text \<open>The rational numbers as a group with scalars in themselves: an instance of the laws.\<close>

definition rat_group :: "(rat, rat, rat) group_ops" where
  "rat_group = \<lparr>generator = 1, smul = (\<lambda>x a. x * a), scalar_rand = (\<lambda>r. (r, r + 1))\<rparr>"

definition rat_index :: "u16 \<Rightarrow> rat" where
  "rat_index i = of_nat (unat i)"

definition rat_recover_c0 :: "u16 \<Rightarrow> (u16 \<times> rat) list \<Rightarrow> (rat, fc_error) res" where
  "rat_recover_c0 t shares = Ok (sum_list (map (\<lambda>(i, v). v * prod_list
     (map (\<lambda>j. rat_index j / (rat_index j - rat_index i)) (filter (\<lambda>j. j \<noteq> i) (map fst shares)))) shares))"

lemma rat_group_action: "scalar_action (smul rat_group)"
  by (simp add: rat_group_def scalar_action_def algebra_simps)

theorem elgamal_roundtrip_witness:
  "eg_decrypt rat_group (SecretKey 7) (fst (eg_encrypt rat_group 3 11 (PublicKey 7))) = 11"
  by (rule elgamal_roundtrip [OF rat_group_action, of rat_group 7 _ _ "VerificationKey 7" 8])
    (simp add: rat_group_def genkey_def)

text \<open>aggregation of encrypted key shares. Parties with distinct ids below \<open>u16::MAX\<close>
  each encrypt, with their own randomness, the value at \<open>id + 1\<close> of a polynomial with at
  most \<open>threshold\<close> coefficients in the group. The aggregate of at least \<open>threshold\<close> of these
  encryptions decrypts to the constant coefficient: the shares are never decrypted one by one.\<close>

theorem aggregate_decrypts:
  fixes G :: "('s::field, 'g::ab_group_add, 'r) group_ops"
  assumes m: "scalar_action (smul G)" and key: "genkey G VG rng = ((sk, pk, vk), rng')"
    and es: "es = map (\<lambda>(i, r). (i, fst (eg_encrypt G r (geval (smul G) cs (scalar (i + 1))) pk))) parties"
    and ok: "shares_accepted threshold parties"
    and cs: "cs \<noteq> []" "length cs \<le> unat threshold"
    and rc: "recovers_c0 (smul G) recover_c0 threshold (map (\<lambda>(i, _). i + 1) parties) scalar"
  shows "\<exists>e. aggregate_encrypted recover_c0 threshold es = Ok e \<and> eg_decrypt G sk e = cs ! 0"
proof (rule aggregate_shares [OF m _ cs])
  show "shares_accepted threshold es"
    using ok by (simp add: shares_accepted_def es list_all_iff case_prod_unfold comp_def)
  show "recovers_c0 (smul G) recover_c0 threshold (map (\<lambda>(i, _). i + 1) es) scalar"
    using rc by (simp add: es case_prod_unfold comp_def)
  show "eg_decrypt G sk e = geval (smul G) cs (scalar (i + 1))" if "(i, e) \<in> set es" for i e
    using that eg_decrypt_encrypt [OF m key] by (auto simp: es prod_eq_iff)
qed

lemma rat_recovers: "recovers_c0 (smul rat_group) rat_recover_c0 2 [1, 2] rat_index"
  unfolding recovers_c0_def
proof (intro exI [of _ "[2, -1]"] conjI allI impI)
  fix vs :: "rat list" assume "length vs = length [1 :: u16, 2]"
  then obtain a b where "vs = [a, b]" by (auto simp: length_Suc_conv)
  then show "rat_recover_c0 2 (zip [1, 2] vs) =
      Ok (\<Sum>i < length [1 :: u16, 2]. smul rat_group (vs ! i) ([2, -1] ! i))"
    by (simp add: rat_recover_c0_def rat_index_def rat_group_def)
next
  fix k assume "k < unat (2 :: u16)"
  then have "k = 0 \<or> k = 1" by auto
  then show "(\<Sum>i < length [1 :: u16, 2]. [2, -1] ! i * rat_index ([1, 2] ! i) ^ k) = (if k = 0 then 1 else 0)"
    by (auto simp: rat_index_def)
qed simp

theorem aggregate_decrypts_witness:
  "\<exists>e. aggregate_encrypted rat_recover_c0 2
         (map (\<lambda>(i, r). (i, fst (eg_encrypt rat_group r (geval (smul rat_group) [5, 3] (rat_index (i + 1)))
            (PublicKey 7)))) [(0, 10), (1, 20)]) = Ok e \<and>
       eg_decrypt rat_group (SecretKey 7) e = [5, 3] ! 0"
proof (rule aggregate_decrypts [OF rat_group_action _ refl, where VG = rat_group])
  show "genkey rat_group rat_group 7 = ((SecretKey 7, PublicKey 7, VerificationKey 7), 8)"
    by (simp add: genkey_def rat_group_def)
  show "shares_accepted 2 [(0, 10), (1, 20 :: rat)]"
    by (simp add: shares_accepted_def U16_MAX_def)
  show "recovers_c0 (smul rat_group) rat_recover_c0 2 (map (\<lambda>(i, _). i + 1) [(0, 10), (1, 20 :: rat)]) rat_index"
    using rat_recovers by simp
qed simp_all

text \<open>\<open>aggregate_encrypted\<close> rejects a zero threshold, too few or more than 65535 shares, a
  repeated id and the id \<open>u16::MAX\<close>, all before interpolating; every other input reaches
  the interpolation with distinct, non-zero indices \<open>id + 1\<close>.\<close>

theorem aggregate_guards:
  "(if threshold \<noteq> 0 \<and> unat threshold \<le> length es \<and> length es \<le> 65535 \<and>
       distinct (map fst es) \<and> U16_MAX \<notin> set (map fst es)
    then distinct (map (\<lambda>(i, _). i + 1) es) \<and> 0 \<notin> set (map (\<lambda>(i, _). i + 1) es) \<and>
         aggregate_encrypted recover_c0 threshold es =
           and_then (recover_c0 threshold (map (\<lambda>(i, e). (i + 1, enc_0 e)) es)) (\<lambda>c1.
           and_then (recover_c0 threshold (map (\<lambda>(i, e). (i + 1, enc_1 e)) es)) (\<lambda>c2.
             Ok (Encryption c1 c2)))
    else aggregate_encrypted recover_c0 threshold es = Err InvalidInput)"
proof (cases "shares_accepted threshold es")
  case True
  then have "0 \<notin> set (map (\<lambda>(i, _). i + 1) es)"
    using aggregated_index by (auto simp: shares_accepted_iff) (metis fst_conv imageI)
  moreover have "map (\<lambda>(i, _). i + 1) es = map (\<lambda>i. i + 1) (map fst es)" by (simp add: case_prod_unfold)
  then have "distinct (map (\<lambda>(i, _). i + 1) es)"
    using True by (simp only: distinct_map [of "\<lambda>i. i + 1"] shares_accepted_iff inj_on_def) simp
  ultimately show ?thesis
    using True by (simp only: aggregate_encrypted_eq shares_accepted_iff) simp
next
  case False
  then show ?thesis by (auto simp: aggregate_encrypted_eq shares_accepted_iff)
qed

end
