(* ===== verification/Dem.thy ===== *)
theory Dem
  imports Utils
begin

text \<open>
  \<^verbatim>\<open>crates/crypto/src/dem.rs\<close>: the data encapsulation. HMAC-SHA3-256, AES-256-GCM and the
  BCS encoding of a \<open>u64\<close> are third-party functions, the fields of the record \<open>dem_prims\<close>.
  What the code relies on is stated by \<open>hmac_len\<close> (a digest has 32 bytes), \<open>bcs_u64_ok\<close>
  (eight bytes, injective) and \<open>aes_correct\<close> (decryption inverts encryption); each theorem
  names the ones it needs.
\<close>

record dem_prims =
  hmac_sha3_256 :: "bytes \<Rightarrow> bytes \<Rightarrow> bytes"
  aes_encrypt :: "bytes \<Rightarrow> bytes \<Rightarrow> bytes \<Rightarrow> bytes \<Rightarrow> bytes"
  aes_decrypt :: "bytes \<Rightarrow> bytes \<Rightarrow> bytes \<Rightarrow> bytes \<Rightarrow> (bytes, fc_error) res"
  bcs_u64 :: "u64 \<Rightarrow> bytes"

definition KEY_SIZE :: nat where
  "KEY_SIZE = 32"

definition hmac_len :: "dem_prims \<Rightarrow> bool" where
  "hmac_len D \<longleftrightarrow> (\<forall>key data. length (hmac_sha3_256 D key data) = KEY_SIZE)"

definition bcs_u64_ok :: "dem_prims \<Rightarrow> bool" where
  "bcs_u64_ok D \<longleftrightarrow> (\<forall>n. length (bcs_u64 D n) = 8) \<and> inj (bcs_u64 D)"

definition aes_correct :: "dem_prims \<Rightarrow> bool" where
  "aes_correct D \<longleftrightarrow>
     (\<forall>key iv aad msg. aes_decrypt D key iv aad (aes_encrypt D key iv aad msg) = Ok msg)"

subsection \<open>Hash-based encryption in counter mode\<close>

datatype purpose = Purpose_Encryption | Purpose_MAC

text \<open>The byte strings \<open>HMAC-CTR-ENC\<close> and \<open>HMAC-CTR-MAC\<close>.\<close>

fun purpose_tag :: "purpose \<Rightarrow> bytes" where
  "purpose_tag Purpose_Encryption = map (of_nat \<circ> of_char) ''HMAC-CTR-ENC''"
| "purpose_tag Purpose_MAC = map (of_nat \<circ> of_char) ''HMAC-CTR-MAC''"

definition hmac :: "dem_prims \<Rightarrow> purpose \<Rightarrow> bytes \<Rightarrow> bytes \<Rightarrow> bytes" where
  "hmac D purpose key data = hmac_sha3_256 D key (purpose_tag purpose @ data)"

definition to_bytes :: "dem_prims \<Rightarrow> u64 \<Rightarrow> bytes" where
  "to_bytes D n = bcs_u64 D n"

text \<open>\<open>slice::chunks\<close> (a chunk size of zero panics; the code only uses \<open>KEY_SIZE\<close>).\<close>

function chunks :: "nat \<Rightarrow> 'a list \<Rightarrow> 'a list list" where
  "chunks n xs = (if xs = [] \<or> n = 0 then [] else take n xs # chunks n (drop n xs))"
  by pat_completeness auto
termination
  by (relation "measure (\<lambda>(n, xs). length xs)") auto

declare chunks.simps [simp del]

definition encrypt_in_ctr_mode :: "dem_prims \<Rightarrow> bytes \<Rightarrow> bytes \<Rightarrow> bytes" where
  "encrypt_in_ctr_mode D key msg =
     concat (map (\<lambda>(i, ci). xor_unchecked ci (hmac D Purpose_Encryption key (to_bytes D (of_nat i))))
       (enumerate 0 (chunks KEY_SIZE msg)))"

definition compute_mac :: "dem_prims \<Rightarrow> bytes \<Rightarrow> bytes \<Rightarrow> bytes \<Rightarrow> bytes" where
  "compute_mac D key aad ciphertext =
     hmac D Purpose_MAC key (concat [to_bytes D (of_nat (length aad)), aad, ciphertext])"

definition hmac256ctr_encrypt :: "dem_prims \<Rightarrow> bytes \<Rightarrow> bytes \<Rightarrow> bytes \<Rightarrow> bytes \<times> bytes" where
  "hmac256ctr_encrypt D msg aad key =
     (let ciphertext = encrypt_in_ctr_mode D key msg;
          mac = compute_mac D key aad ciphertext
      in (ciphertext, mac))"

definition hmac256ctr_decrypt ::
  "dem_prims \<Rightarrow> bytes \<Rightarrow> bytes \<Rightarrow> bytes \<Rightarrow> bytes \<Rightarrow> (bytes, fc_error) res" where
  "hmac256ctr_decrypt D ciphertext mac aad key =
     (let actual_mac = compute_mac D key aad ciphertext in
      if mac \<noteq> actual_mac then Err (GeneralError ''Invalid MAC'')
      else Ok (encrypt_in_ctr_mode D key ciphertext))"

subsection \<open>AES and the choice of the mode\<close>

definition AES_IV :: bytes where
  "AES_IV = [138, 55, 153, 253, 198, 46, 121, 219, 160, 128, 89, 7, 214, 156, 148, 220]"

definition aes256gcm_encrypt :: "dem_prims \<Rightarrow> bytes \<Rightarrow> bytes \<Rightarrow> bytes \<Rightarrow> bytes" where
  "aes256gcm_encrypt D msg aad key = aes_encrypt D key AES_IV aad msg"

definition aes256gcm_decrypt ::
  "dem_prims \<Rightarrow> bytes \<Rightarrow> bytes \<Rightarrow> bytes \<Rightarrow> (bytes, fc_error) res" where
  "aes256gcm_decrypt D ciphertext aad key = aes_decrypt D key AES_IV aad ciphertext"

datatype encryption_input =
    InAes256Gcm bytes "bytes option"
  | InHmac256Ctr bytes "bytes option"
  | InPlain

datatype ciphertext =
    CtAes256Gcm bytes "bytes option"
  | CtHmac256Ctr bytes "bytes option" bytes
  | CtPlain

fun unwrap_or :: "'a option \<Rightarrow> 'a \<Rightarrow> 'a" where
  "unwrap_or None d = d"
| "unwrap_or (Some x) d = x"

fun dem_encrypt :: "dem_prims \<Rightarrow> encryption_input \<Rightarrow> bytes \<Rightarrow> ciphertext" where
  "dem_encrypt D (InAes256Gcm data aad) key =
     CtAes256Gcm (aes256gcm_encrypt D data (unwrap_or aad []) key) aad"
| "dem_encrypt D (InHmac256Ctr data aad) key =
     (let (blob, mac) = hmac256ctr_encrypt D data (unwrap_or aad []) key
      in CtHmac256Ctr blob aad mac)"
| "dem_encrypt D InPlain key = CtPlain"

fun dem_decrypt :: "dem_prims \<Rightarrow> ciphertext \<Rightarrow> bytes \<Rightarrow> (bytes, fc_error) res" where
  "dem_decrypt D (CtAes256Gcm blob aad) key = aes256gcm_decrypt D blob (unwrap_or aad []) key"
| "dem_decrypt D (CtHmac256Ctr blob aad mac) key =
     hmac256ctr_decrypt D blob mac (unwrap_or aad []) key"
| "dem_decrypt D CtPlain key = Ok key"

text \<open>The plaintext an input carries: its data, or the key itself for \<open>Plain\<close>.\<close>

fun plaintext :: "encryption_input \<Rightarrow> bytes \<Rightarrow> bytes" where
  "plaintext (InAes256Gcm data aad) key = data"
| "plaintext (InHmac256Ctr data aad) key = data"
| "plaintext InPlain key = key"

subsection \<open>Counter mode\<close>

lemma length_hmac: "hmac_len D \<Longrightarrow> length (hmac D p key data) = KEY_SIZE"
  by (simp add: hmac_len_def hmac_def)

lemma chunks_Nil [simp]: "chunks n [] = []"
  by (simp add: chunks.simps)

text \<open>The same loop with an arbitrary first counter, for induction.\<close>

definition ctr_from :: "nat \<Rightarrow> (nat \<Rightarrow> bytes) \<Rightarrow> nat \<Rightarrow> bytes \<Rightarrow> bytes" where
  "ctr_from n pad j msg = concat (map (\<lambda>(i, ci). xor_unchecked ci (pad i)) (enumerate j (chunks n msg)))"

lemma ctr_from_Nil [simp]: "ctr_from n pad j [] = []"
  by (simp add: ctr_from_def)

lemma ctr_from_step:
  "n > 0 \<Longrightarrow> msg \<noteq> [] \<Longrightarrow>
   ctr_from n pad j msg = xor_unchecked (take n msg) (pad j) @ ctr_from n pad (Suc j) (drop n msg)"
  by (simp add: ctr_from_def chunks.simps [of n msg])

lemma ctr_from_length:
  "n > 0 \<Longrightarrow> (\<And>i. length (pad i) = n) \<Longrightarrow> length (ctr_from n pad j msg) = length msg"
proof (induction n msg arbitrary: j rule: chunks.induct)
  case (1 n msg)
  then show ?case by (cases "msg = []") (simp_all add: ctr_from_step)
qed

lemma ctr_from_involution:
  "n > 0 \<Longrightarrow> (\<And>i. length (pad i) = n) \<Longrightarrow> ctr_from n pad j (ctr_from n pad j msg) = msg"
proof (induction n msg arbitrary: j rule: chunks.induct)
  case (1 n msg)
  let ?h = "xor_unchecked (take n msg) (pad j)" and ?t = "ctr_from n pad (Suc j) (drop n msg)"
  show ?case
  proof (cases "msg = []")
    case False
    have hh: "xor_unchecked ?h (pad j) = take n msg"
      by (rule xor_unchecked_cancel) (simp add: 1)
    have tt: "ctr_from n pad (Suc j) ?t = drop n msg"
      by (rule "1.IH") (use 1 False in auto)
    have len: "length ?h = min (length msg) n" "length ?t = length msg - n"
      using 1 by (simp_all add: ctr_from_length)
    then have "length (?h @ ?t) = length msg" by simp
    with False have "?h @ ?t \<noteq> []" by (metis length_0_conv)
    moreover have "take n (?h @ ?t) = ?h" "drop n (?h @ ?t) = ?t"
      using len by (auto simp: min_def)
    ultimately have "ctr_from n pad j (?h @ ?t) = xor_unchecked ?h (pad j) @ ctr_from n pad (Suc j) ?t"
      using ctr_from_step [of n "?h @ ?t" pad j] "1.prems"(1) by (simp only: not_False_eq_True)
    then show ?thesis by (simp add: ctr_from_step False 1 hh tt)
  qed simp
qed

lemma ctr_mode_from:
  "encrypt_in_ctr_mode D key msg = ctr_from KEY_SIZE (\<lambda>i. hmac D Purpose_Encryption key (to_bytes D (of_nat i))) 0 msg"
  by (simp add: encrypt_in_ctr_mode_def ctr_from_def)

lemma ctr_mode_involution:
  "hmac_len D \<Longrightarrow> encrypt_in_ctr_mode D key (encrypt_in_ctr_mode D key msg) = msg"
  unfolding ctr_mode_from by (rule ctr_from_involution) (simp_all add: length_hmac KEY_SIZE_def)

lemma ctr_mode_length: "hmac_len D \<Longrightarrow> length (encrypt_in_ctr_mode D key msg) = length msg"
  unfolding ctr_mode_from by (rule ctr_from_length) (simp_all add: length_hmac KEY_SIZE_def)

lemma hmac256ctr_roundtrip:
  "hmac_len D \<Longrightarrow> hmac256ctr_encrypt D msg aad key = (c, m) \<Longrightarrow>
   hmac256ctr_decrypt D c m aad key = Ok msg"
  by (auto simp: hmac256ctr_encrypt_def hmac256ctr_decrypt_def Let_def ctr_mode_involution)

lemma dem_roundtrip:
  assumes "hmac_len D" and "aes_correct D"
  shows "dem_decrypt D (dem_encrypt D input key) key = Ok (plaintext input key)"
  using assms hmac256ctr_roundtrip [OF assms(1)]
  by (cases input) (auto simp: aes256gcm_encrypt_def aes256gcm_decrypt_def aes_correct_def split: prod.split)

lemma ctr_from_nth:
  "n > 0 \<Longrightarrow> (\<And>i. length (pad i) = n) \<Longrightarrow> i < length msg \<Longrightarrow>
   ctr_from n pad j msg ! i = msg ! i XOR pad (j + i div n) ! (i mod n)"
proof (induction n msg arbitrary: i j rule: chunks.induct)
  case (1 n msg)
  then have "msg \<noteq> []" by auto
  note step = ctr_from_step [OF "1.prems"(1) this, of pad j]
  show ?case
  proof (cases "i < n")
    case True
    with 1 show ?thesis by (simp add: step nth_append nth_xor_unchecked)
  next
    case False
    then have "i div n = Suc ((i - n) div n)" "i mod n = (i - n) mod n"
      using 1 by (simp_all add: le_div_geq le_mod_geq)
    moreover have "ctr_from n pad (Suc j) (drop n msg) ! (i - n) =
        drop n msg ! (i - n) XOR pad (Suc j + (i - n) div n) ! ((i - n) mod n)"
      by (rule "1.IH") (use 1 False \<open>msg \<noteq> []\<close> in auto)
    ultimately show ?thesis using 1 False by (simp add: step nth_append min_def)
  qed
qed

lemma len64_unat: "n < 2 ^ 64 \<Longrightarrow> unat (of_nat n :: u64) = n"
  by (simp add: unat_of_nat)

subsection \<open>A concrete instance of the primitives\<close>

text \<open>Little-endian bytes, the last byte as a checksum and the identity cipher: they satisfy the laws.\<close>

definition le_bytes :: "u64 \<Rightarrow> bytes" where
  "le_bytes n = map (\<lambda>i. ucast (drop_bit (8 * i) n)) [0..<8]"

definition demo_prims :: dem_prims where
  "demo_prims = \<lparr>hmac_sha3_256 = (\<lambda>key data. replicate KEY_SIZE (last (0 # data))),
     aes_encrypt = (\<lambda>key iv aad msg. msg), aes_decrypt = (\<lambda>key iv aad c. Ok c), bcs_u64 = le_bytes\<rparr>"

lemma le_bytes_inj: "inj le_bytes"
proof (rule injI, rule bit_word_eqI)
  fix m n :: u64 and j
  assume eq: "le_bytes m = le_bytes n" and j: "j < LENGTH(64)"
  have d: "j div 8 < 8" using j by simp
  have "(ucast (drop_bit (8 * (j div 8)) m) :: u8) = ucast (drop_bit (8 * (j div 8)) n)"
    using arg_cong [OF eq, of "\<lambda>v. v ! (j div 8)"] d by (simp add: le_bytes_def)
  then have "bit (ucast (drop_bit (8 * (j div 8)) m) :: u8) (j mod 8) =
      bit (ucast (drop_bit (8 * (j div 8)) n) :: u8) (j mod 8)" by simp
  then show "bit m j = bit n j" by (simp add: bit_simps)
qed

lemma demo_prims_laws: "hmac_len demo_prims" "bcs_u64_ok demo_prims" "aes_correct demo_prims"
  by (simp_all add: demo_prims_def hmac_len_def bcs_u64_ok_def aes_correct_def le_bytes_inj)
    (simp add: le_bytes_def)

subsection \<open>Properties\<close>

text \<open>encryption with \<open>Hmac256Ctr\<close> is the XOR of byte \<open>i\<close> of the message with byte
  \<open>i mod 32\<close> of the pad for counter \<open>i / 32\<close>; decryption with the same key and associated
  data returns the message for the right tag and the error \<open>Invalid MAC\<close> for every other.\<close>

theorem hmac256ctr_correct:
  assumes "hmac_len D"
  shows "case hmac256ctr_encrypt D msg aad key of (ciphertext, mac) \<Rightarrow>
    length ciphertext = length msg \<and>
    list_all (\<lambda>i. ciphertext ! i = msg ! i XOR
        hmac D Purpose_Encryption key (to_bytes D (of_nat (i div 32))) ! (i mod 32)) [0..<length msg] \<and>
    hmac256ctr_decrypt D ciphertext mac' aad key =
      (if mac' = mac then Ok msg else Err (GeneralError ''Invalid MAC''))"
proof -
  have "encrypt_in_ctr_mode D key msg ! i = msg ! i XOR
      hmac D Purpose_Encryption key (to_bytes D (of_nat (i div 32))) ! (i mod 32)" if "i < length msg" for i
    unfolding ctr_mode_from using that assms
    by (subst ctr_from_nth) (simp_all add: length_hmac KEY_SIZE_def)
  then show ?thesis
    using assms by (auto simp: hmac256ctr_encrypt_def hmac256ctr_decrypt_def Let_def list_all_iff
        ctr_mode_length ctr_mode_involution)
qed

theorem hmac256ctr_correct_witness:
  "case hmac256ctr_encrypt demo_prims [1, 2, 3] [4] (replicate 32 5) of (ciphertext, mac) \<Rightarrow>
    length ciphertext = 3 \<and>
    hmac256ctr_decrypt demo_prims ciphertext mac [4] (replicate 32 5) = Ok [1, 2, 3]"
  using hmac256ctr_correct [OF demo_prims_laws(1), where msg = "[1, 2, 3]" and aad = "[4]" and
      key = "replicate 32 5" and mac' = "snd (hmac256ctr_encrypt demo_prims [1, 2, 3] [4] (replicate 32 5))"]
  by (simp split: prod.splits)

text \<open>a forgery is a collision. If a tag produced by \<open>encrypt\<close> is also accepted with other
  associated data or another ciphertext, the two byte strings the code gives to HMAC under
  the same key are different and have the same digest: the length prefix makes the tagged
  input unambiguous.\<close>

theorem hmac256ctr_forgery_collides:
  assumes "bcs_u64_ok D" and "length aad < 2 ^ 64" and "length aad' < 2 ^ 64"
    and "hmac256ctr_encrypt D msg aad key = (ciphertext, mac)"
    and "hmac256ctr_decrypt D ciphertext' mac aad' key = Ok msg'"
    and "(aad', ciphertext') \<noteq> (aad, ciphertext)"
  shows "\<exists>x y. x \<noteq> y \<and> hmac_sha3_256 D key x = hmac_sha3_256 D key y"
proof -
  let ?in = "\<lambda>a c. purpose_tag Purpose_MAC @ to_bytes D (of_nat (length a)) @ a @ c"
  have "?in aad ciphertext \<noteq> ?in aad' ciphertext'"
  proof
    assume eq: "?in aad ciphertext = ?in aad' ciphertext'"
    have len: "length (to_bytes D n) = 8" for n
      using assms(1) by (simp add: bcs_u64_ok_def to_bytes_def)
    with eq have "to_bytes D (of_nat (length aad)) = to_bytes D (of_nat (length aad'))"
      and rest: "aad @ ciphertext = aad' @ ciphertext'" by simp_all
    then have "(of_nat (length aad) :: u64) = of_nat (length aad')"
      using assms(1) by (simp add: bcs_u64_ok_def to_bytes_def inj_eq)
    then have "length aad = length aad'"
      using assms(2,3) by (metis len64_unat)
    with rest assms(6) show False by simp
  qed
  moreover have "hmac_sha3_256 D key (?in aad ciphertext) = hmac_sha3_256 D key (?in aad' ciphertext')"
    using assms(4,5)
    by (auto simp: hmac256ctr_encrypt_def hmac256ctr_decrypt_def compute_mac_def hmac_def Let_def
        split: if_splits)
  ultimately show ?thesis by blast
qed

theorem hmac256ctr_forgery_collides_witness:
  "\<exists>x y. x \<noteq> y \<and> hmac_sha3_256 demo_prims (replicate 32 5) x = hmac_sha3_256 demo_prims (replicate 32 5) y"
proof (rule hmac256ctr_forgery_collides [OF demo_prims_laws(2)])
  show "hmac256ctr_encrypt demo_prims [1, 2] [] (replicate 32 5) = ([1, 2], replicate 32 2)"
    by code_simp
  show "hmac256ctr_decrypt demo_prims [9, 2] (replicate 32 2) [] (replicate 32 5) = Ok [9, 2]"
    by code_simp
qed simp_all

end
