(* ===== verification/Ibe.thy ===== *)
theory Ibe
  imports Elgamal Dem
begin

text \<open>
  \<^verbatim>\<open>crates/crypto/src/ibe.rs\<close>: Boneh-Franklin identity-based encryption, user secret keys,
  encrypted partial keys and the encryption of the randomness.

  The pairing groups, the hash functions and the encodings are third-party: they are the
  record \<open>bls_ops\<close>. \<open>bls_laws\<close> states what the code relies on (bilinearity, digest and
  scalar lengths, decoding of an encoded scalar) and \<open>pairing_nondegenerate\<close> that the pairing
  with the generator is injective. \<open>xor\<close> returns an array, so its calls are outcomes here and
  are proved not to panic.
\<close>

type_synonym object_id = bytes
type_synonym info = "object_id \<times> u8"

record ('s, 'g1, 'g2, 'gt, 'r) bls_ops =
  g1 :: "('s, 'g1, 'r) group_ops"
  g2 :: "('s, 'g2, 'r) group_ops"
  gt_mul :: "'gt \<Rightarrow> 's \<Rightarrow> 'gt"
  pairing :: "'g1 \<Rightarrow> 'g2 \<Rightarrow> 'gt"
  hash_to_group_element :: "bytes \<Rightarrow> 'g1"
  g1_bytes :: "'g1 \<Rightarrow> bytes"
  g2_bytes :: "'g2 \<Rightarrow> bytes"
  gt_bytes :: "'gt \<Rightarrow> bytes"
  scalar_to_bytes :: "'s \<Rightarrow> bytes"
  scalar_from_bytes :: "bytes \<Rightarrow> ('s, fc_error) res"
  bcs_g2 :: "'g2 \<Rightarrow> bytes"
  sha3_256 :: "bytes \<Rightarrow> bytes"
  hkdf_sha3_256 :: "bytes \<Rightarrow> bytes \<Rightarrow> bytes \<Rightarrow> nat \<Rightarrow> (bytes, fc_error) res"
  buffer_to_scalar_mod_r :: "bytes \<Rightarrow> ('s, fc_error) res"

definition bls_laws ::
  "('s::field, 'g1::ab_group_add, 'g2::ab_group_add, 'gt::ab_group_add, 'r) bls_ops \<Rightarrow> bool" where
  "bls_laws B \<longleftrightarrow>
     scalar_action (smul (g1 B)) \<and> scalar_action (smul (g2 B)) \<and>
     (\<forall>x y z. pairing B (x + y) z = pairing B x z + pairing B y z) \<and>
     (\<forall>x y a. pairing B (smul (g1 B) x a) y = gt_mul B (pairing B x y) a) \<and>
     (\<forall>x y a. pairing B x (smul (g2 B) y a) = gt_mul B (pairing B x y) a) \<and>
     (\<forall>d. length (sha3_256 B d) = KEY_SIZE) \<and>
     (\<forall>s. length (scalar_to_bytes B s) = KEY_SIZE \<and> scalar_from_bytes B (scalar_to_bytes B s) = Ok s)"

definition pairing_nondegenerate :: "('s, 'g1, 'g2, 'gt, 'r) bls_ops \<Rightarrow> bool" where
  "pairing_nondegenerate B \<longleftrightarrow>
     (\<forall>x y. pairing B x (generator (g2 B)) = pairing B y (generator (g2 B)) \<longrightarrow> x = y)"

subsection \<open>Domain separation\<close>

definition ascii :: "string \<Rightarrow> bytes" where
  "ascii s = map (of_nat \<circ> of_char) s"

definition DST_ID :: bytes where "DST_ID = ascii ''SUI-SEAL-IBE-BLS12381-00''"
definition DST_POP :: bytes where "DST_POP = ascii ''SUI-SEAL-IBE-BLS12381-POP-00''"
definition DST_KDF :: bytes where "DST_KDF = ascii ''SUI-SEAL-IBE-BLS12381-H2-00''"
definition DST_DERIVE_KEY :: bytes where "DST_DERIVE_KEY = ascii ''SUI-SEAL-IBE-BLS12381-H3-00''"

subsection \<open>Keys\<close>

definition SEED_LENGTH :: nat where
  "SEED_LENGTH = 32"

definition public_key_from_master_key :: "('s, 'g1, 'g2, 'gt, 'r) bls_ops \<Rightarrow> 's \<Rightarrow> 'g2" where
  "public_key_from_master_key B master_key = smul (g2 B) (generator (g2 B)) master_key"

definition into_key_pair :: "('s, 'g1, 'g2, 'gt, 'r) bls_ops \<Rightarrow> 's \<Rightarrow> 's \<times> 'g2" where
  "into_key_pair B master_key = (master_key, public_key_from_master_key B master_key)"

definition generate_key_pair :: "('s, 'g1, 'g2, 'gt, 'r) bls_ops \<Rightarrow> 'r \<Rightarrow> ('s \<times> 'g2) \<times> 'r" where
  "generate_key_pair B rng = (let (s, rng') = scalar_rand (g2 B) rng in (into_key_pair B s, rng'))"

definition generate_seed :: "'r rng_ops \<Rightarrow> 'r \<Rightarrow> bytes \<times> 'r" where
  "generate_seed R rng = generate_random_bytes R SEED_LENGTH rng"

definition to_be_bytes :: "u64 \<Rightarrow> bytes" where
  "to_be_bytes n = rev (le_bytes n)"

definition derive_master_key ::
  "('s, 'g1, 'g2, 'gt, 'r) bls_ops \<Rightarrow> bytes \<Rightarrow> u64 \<Rightarrow> ('s, fc_error) res" where
  "derive_master_key B seed derivation_index =
     and_then (expect (hkdf_sha3_256 B seed [] (to_be_bytes derivation_index) 64)) (\<lambda>random_bytes.
       expect (buffer_to_scalar_mod_r B random_bytes))"

definition hash_to_g1 :: "('s, 'g1, 'g2, 'gt, 'r) bls_ops \<Rightarrow> bytes \<Rightarrow> 'g1" where
  "hash_to_g1 B identity = hash_to_group_element B (concat [DST_ID, identity])"

definition ibe_extract :: "('s, 'g1, 'g2, 'gt, 'r) bls_ops \<Rightarrow> 's \<Rightarrow> bytes \<Rightarrow> 'g1" where
  "ibe_extract B master_key identity = smul (g1 B) (hash_to_g1 B identity) master_key"

definition verify_user_secret_key ::
  "('s, 'g1, 'g2, 'gt, 'r) bls_ops \<Rightarrow> 'g1 \<Rightarrow> bytes \<Rightarrow> 'g2 \<Rightarrow> (unit, fc_error) res" where
  "verify_user_secret_key B user_secret_key identity public_key =
     (if pairing B user_secret_key (generator (g2 B)) = pairing B (hash_to_g1 B identity) public_key
      then Ok () else Err InvalidInput)"

definition verify_encrypted_signature ::
  "('s, 'g1::ab_group_add, 'g2::ab_group_add, 'gt::ab_group_add, 'r) bls_ops \<Rightarrow> 'g1 encryption \<Rightarrow>
   'g2 verification_key \<Rightarrow> 'g2 \<Rightarrow> bytes \<Rightarrow> (unit, fc_error) res" where
  "verify_encrypted_signature B encrypted_sig ephemeral_vk partial_pk identity =
     (if enc_0 encrypted_sig = 0 \<or> enc_1 encrypted_sig = 0 \<or> as_element ephemeral_vk = 0 \<or> partial_pk = 0
      then Err InvalidInput
      else
        let lhs = pairing B (enc_1 encrypted_sig) (generator (g2 B));
            rhs = pairing B (enc_0 encrypted_sig) (as_element ephemeral_vk) +
                  pairing B (hash_to_g1 B identity) partial_pk
        in if lhs = rhs then Ok () else Err InvalidInput)"

definition create_proof_of_possession :: "('s, 'g1, 'g2, 'gt, 'r) bls_ops \<Rightarrow> 's \<Rightarrow> bytes \<Rightarrow> 'g1" where
  "create_proof_of_possession B master_key message =
     (let public_key = public_key_from_master_key B master_key;
          full_msg = DST_POP @ bcs_g2 B public_key @ message
      in smul (g1 B) (hash_to_group_element B full_msg) master_key)"

subsection \<open>Encryption\<close>

definition kdf :: "('s, 'g1, 'g2, 'gt, 'r) bls_ops \<Rightarrow> 'gt \<Rightarrow> 'g2 \<Rightarrow> 'g1 \<Rightarrow> info \<Rightarrow> bytes" where
  "kdf B inp nonce gid ifo =
     (let (obj, idx) = ifo in
      sha3_256 B (DST_KDF @ gt_bytes B inp @ g2_bytes B nonce @ g1_bytes B gid @ obj @ [idx]))"

definition encrypt_batched_deterministic ::
  "('s, 'g1, 'g2, 'gt, 'r) bls_ops \<Rightarrow> 's \<Rightarrow> bytes list \<Rightarrow> 'g2 list \<Rightarrow> bytes \<Rightarrow> info list \<Rightarrow>
   ('g2 \<times> bytes list, fc_error) res" where
  "encrypt_batched_deterministic B randomness plaintexts public_keys identity infos =
     (let batch_size = length plaintexts in
      if batch_size \<noteq> length public_keys \<or> batch_size \<noteq> length infos then Err InvalidInput
      else
        let gid = hash_to_g1 B identity;
            gid_r = smul (g1 B) gid randomness;
            nonce = smul (g2 B) (generator (g2 B)) randomness
        in and_then
             (collect_res (\<lambda>i. xor_arrays KEY_SIZE
                  (kdf B (pairing B gid_r (public_keys ! i)) nonce gid (infos ! i)) (plaintexts ! i))
                [0..<batch_size])
             (\<lambda>cs. Ok (nonce, cs)))"

definition ibe_decrypt ::
  "('s, 'g1, 'g2, 'gt, 'r) bls_ops \<Rightarrow> 'g2 \<Rightarrow> bytes \<Rightarrow> 'g1 \<Rightarrow> bytes \<Rightarrow> info \<Rightarrow> (bytes, fc_error) res" where
  "ibe_decrypt B nonce ct secret_key identity ifo =
     (let gid = hash_to_g1 B identity in
      xor_arrays KEY_SIZE ct (kdf B (pairing B secret_key nonce) nonce gid ifo))"

definition verify_nonce ::
  "('s, 'g1, 'g2, 'gt, 'r) bls_ops \<Rightarrow> 's \<Rightarrow> 'g2 \<Rightarrow> (unit, fc_error) res" where
  "verify_nonce B randomness nonce =
     (if smul (g2 B) (generator (g2 B)) randomness \<noteq> nonce
      then Err (GeneralError ''Invalid randomness'') else Ok ())"

definition decrypt_deterministic ::
  "('s, 'g1, 'g2, 'gt, 'r) bls_ops \<Rightarrow> 's \<Rightarrow> bytes \<Rightarrow> 'g2 \<Rightarrow> bytes \<Rightarrow> info \<Rightarrow> (bytes, fc_error) res" where
  "decrypt_deterministic B randomness ct public_key identity ifo =
     (let gid = hash_to_g1 B identity;
          gid_r = smul (g1 B) gid randomness;
          nonce = smul (g2 B) (generator (g2 B)) randomness
      in xor_arrays KEY_SIZE ct (kdf B (pairing B gid_r public_key) nonce gid ifo))"

definition encrypt_randomness ::
  "('s, 'g1, 'g2, 'gt, 'r) bls_ops \<Rightarrow> 's \<Rightarrow> bytes \<Rightarrow> (bytes, fc_error) res" where
  "encrypt_randomness B randomness key = xor_arrays KEY_SIZE key (scalar_to_bytes B randomness)"

definition decrypt_randomness ::
  "('s, 'g1, 'g2, 'gt, 'r) bls_ops \<Rightarrow> bytes \<Rightarrow> bytes \<Rightarrow> ('s, fc_error) res" where
  "decrypt_randomness B encrypted_randomness derived_key =
     and_then (xor_arrays KEY_SIZE derived_key encrypted_randomness) (scalar_from_bytes B)"

subsection \<open>Lemmas\<close>

lemma bls_lawsD:
  assumes "bls_laws B"
  shows g1_action: "scalar_action (smul (g1 B))" and g2_action: "scalar_action (smul (g2 B))"
    and pairing_add: "pairing B (x + y) z = pairing B x z + pairing B y z"
    and pairing_smul: "pairing B (smul (g1 B) x a) w = pairing B x (smul (g2 B) w a)"
    and sha3_length: "length (sha3_256 B d) = KEY_SIZE"
    and scalar_bytes_length: "length (scalar_to_bytes B s) = KEY_SIZE"
    and scalar_bytes_inverse: "scalar_from_bytes B (scalar_to_bytes B s) = Ok s"
  using assms by (auto simp: bls_laws_def)

lemma kdf_length: "bls_laws B \<Longrightarrow> length (kdf B x n g i) = KEY_SIZE"
  by (simp add: kdf_def sha3_length split: prod.split)

lemma pairing_minus: "bls_laws B \<Longrightarrow> pairing B (x - y) z = pairing B x z - pairing B y z"
  using pairing_add [of B "x - y" y z] by (simp add: eq_diff_eq)

text \<open>The pairing value that the encryptor computes is the one a user secret key gives.\<close>

lemma encapsulated_key:
  assumes "bls_laws B"
  shows "pairing B (ibe_extract B msk identity) (smul (g2 B) (generator (g2 B)) r) =
         pairing B (smul (g1 B) (hash_to_g1 B identity) r) (public_key_from_master_key B msk)"
  using assms by (simp add: ibe_extract_def public_key_from_master_key_def pairing_smul
      smul_commute [OF g1_action] flip: pairing_smul)

lemma encrypt_batched_Ok:
  assumes B: "bls_laws B" and len: "length plaintexts = length public_keys" "length plaintexts = length infos"
    and pl: "\<forall>p \<in> set plaintexts. length p = KEY_SIZE"
  shows "encrypt_batched_deterministic B r plaintexts public_keys identity infos =
    Ok (smul (g2 B) (generator (g2 B)) r,
        map (\<lambda>i. xor_unchecked (kdf B (pairing B (smul (g1 B) (hash_to_g1 B identity) r) (public_keys ! i))
               (smul (g2 B) (generator (g2 B)) r) (hash_to_g1 B identity) (infos ! i)) (plaintexts ! i))
          [0..<length plaintexts])"
proof -
  let ?k = "\<lambda>i. kdf B (pairing B (smul (g1 B) (hash_to_g1 B identity) r) (public_keys ! i))
               (smul (g2 B) (generator (g2 B)) r) (hash_to_g1 B identity) (infos ! i)"
  have "collect_res (\<lambda>i. xor_arrays KEY_SIZE (?k i) (plaintexts ! i)) [0..<length plaintexts] =
      (Ok (map (\<lambda>i. xor_unchecked (?k i) (plaintexts ! i)) [0..<length plaintexts]) :: (bytes list, fc_error) res)"
    using pl by (intro collect_res_Ok) (simp add: xor_arrays_Ok kdf_length [OF B])
  then show ?thesis using len by (simp add: encrypt_batched_deterministic_def Let_def)
qed

lemma xor_decrypt:
  "length key = KEY_SIZE \<Longrightarrow> length p = KEY_SIZE \<Longrightarrow> xor_arrays KEY_SIZE (xor_unchecked key p) key = Ok p"
  by (simp add: xor_arrays_Ok xor_unchecked_commute [of key p] xor_unchecked_cancel)

lemma encrypt_batched_roundtrip:
  assumes B: "bls_laws B" and len: "length plaintexts = length public_keys" "length plaintexts = length infos"
    and pl: "\<forall>p \<in> set plaintexts. length p = KEY_SIZE"
    and enc: "encrypt_batched_deterministic B r plaintexts public_keys identity infos = Ok (nonce, cs)"
    and i: "i < length plaintexts"
  shows "length (cs ! i) = KEY_SIZE"
    and "decrypt_deterministic B r (cs ! i) (public_keys ! i) identity (infos ! i) = Ok (plaintexts ! i)"
    and "public_keys ! i = public_key_from_master_key B msk \<Longrightarrow>
      ibe_decrypt B nonce (cs ! i) (ibe_extract B msk identity) identity (infos ! i) = Ok (plaintexts ! i)"
proof -
  let ?n = "smul (g2 B) (generator (g2 B)) r"
  let ?k = "kdf B (pairing B (smul (g1 B) (hash_to_g1 B identity) r) (public_keys ! i))
              ?n (hash_to_g1 B identity) (infos ! i)"
  have n: "nonce = ?n" and c: "cs ! i = xor_unchecked ?k (plaintexts ! i)"
    using enc i by (auto simp: encrypt_batched_Ok [OF B len pl])
  have lens: "length ?k = KEY_SIZE" "length (plaintexts ! i) = KEY_SIZE"
    using i pl by (simp_all add: kdf_length [OF B])
  then show "length (cs ! i) = KEY_SIZE" by (simp add: c)
  show "decrypt_deterministic B r (cs ! i) (public_keys ! i) identity (infos ! i) = Ok (plaintexts ! i)"
    by (simp add: decrypt_deterministic_def Let_def c xor_decrypt [OF lens])
  show "ibe_decrypt B nonce (cs ! i) (ibe_extract B msk identity) identity (infos ! i) = Ok (plaintexts ! i)"
    if "public_keys ! i = public_key_from_master_key B msk"
    by (simp add: ibe_decrypt_def Let_def n encapsulated_key [OF B] flip: that)
      (simp add: c xor_decrypt [OF lens])
qed

lemma randomness_roundtrip:
  assumes "bls_laws B" and "length key = KEY_SIZE"
  obtains e where "encrypt_randomness B r key = Ok e" "length e = KEY_SIZE" "decrypt_randomness B e key = Ok r"
proof
  let ?e = "xor_unchecked key (scalar_to_bytes B r)"
  show "encrypt_randomness B r key = Ok ?e" "length ?e = KEY_SIZE"
    using assms by (simp_all add: encrypt_randomness_def xor_arrays_Ok scalar_bytes_length)
  show "decrypt_randomness B ?e key = Ok r"
    using assms by (simp add: decrypt_randomness_def xor_arrays_Ok scalar_bytes_length
        xor_unchecked_cancel_left scalar_bytes_inverse)
qed

lemma verify_user_secret_key_iff:
  assumes "bls_laws B" and "pairing_nondegenerate B"
  shows "verify_user_secret_key B usk identity (public_key_from_master_key B msk) =
    (if usk = ibe_extract B msk identity then Ok () else Err InvalidInput)"
proof -
  have "pairing B (hash_to_g1 B identity) (public_key_from_master_key B msk) =
      pairing B (ibe_extract B msk identity) (generator (g2 B))"
    using assms(1) by (simp add: ibe_extract_def public_key_from_master_key_def pairing_smul)
  with assms(2) show ?thesis
    by (auto simp: verify_user_secret_key_def pairing_nondegenerate_def)
qed

subsection \<open>A concrete instance of the groups\<close>

text \<open>All groups are the field of 256 elements, the pairing is its multiplication.\<close>

definition gf_group :: "(gf256, gf256, bytes) group_ops" where
  "gf_group = \<lparr>generator = 1, smul = (\<lambda>x a. x * a),
     scalar_rand = (\<lambda>t. (GF256 (fst (gen_u8 tape_rng t)), snd (gen_u8 tape_rng t)))\<rparr>"

definition gf_bls :: "(gf256, gf256, gf256, gf256, bytes) bls_ops" where
  "gf_bls = \<lparr>g1 = gf_group, g2 = gf_group, gt_mul = (\<lambda>x a. x * a), pairing = (\<lambda>x y. x * y),
     hash_to_group_element = (\<lambda>d. GF256 (last (1 # d))),
     g1_bytes = (\<lambda>x. [the_byte x]), g2_bytes = (\<lambda>x. [the_byte x]), gt_bytes = (\<lambda>x. [the_byte x]),
     scalar_to_bytes = (\<lambda>s. replicate 31 0 @ [the_byte s]),
     scalar_from_bytes = (\<lambda>b. if length b = 32 then Ok (GF256 (last b)) else Err InvalidInput),
     bcs_g2 = (\<lambda>x. [the_byte x]),
     sha3_256 = (\<lambda>d. replicate 31 0 @ [last (0 # d)]),
     hkdf_sha3_256 = (\<lambda>ikm salt ifo n. Ok (replicate n (last (0 # ikm)))),
     buffer_to_scalar_mod_r = (\<lambda>b. Ok (GF256 (last (0 # b))))\<rparr>"

lemma gf_bls_laws: "bls_laws gf_bls" "pairing_nondegenerate gf_bls"
  by (simp_all add: bls_laws_def pairing_nondegenerate_def scalar_action_def gf_bls_def gf_group_def
      KEY_SIZE_def algebra_simps)

lemma verify_encrypted_signature_iff:
  assumes "bls_laws B" and "pairing_nondegenerate B"
  shows "verify_encrypted_signature B (Encryption c1 c2)
      (VerificationKey (smul (g2 B) (generator (g2 B)) sk)) (public_key_from_master_key B share) identity =
    (if c1 \<noteq> 0 \<and> c2 \<noteq> 0 \<and> smul (g2 B) (generator (g2 B)) sk \<noteq> 0 \<and>
        public_key_from_master_key B share \<noteq> 0 \<and>
        eg_decrypt (g1 B) (SecretKey sk) (Encryption c1 c2) = ibe_extract B share identity
     then Ok () else Err InvalidInput)"
proof -
  let ?g = "generator (g2 B)"
  have "pairing B c1 (smul (g2 B) ?g sk) + pairing B (hash_to_g1 B identity) (public_key_from_master_key B share) =
      pairing B (smul (g1 B) c1 sk + ibe_extract B share identity) ?g"
    using assms(1) by (simp add: ibe_extract_def public_key_from_master_key_def pairing_smul pairing_add)
  moreover have "c2 = smul (g1 B) c1 sk + ibe_extract B share identity \<longleftrightarrow>
      c2 - smul (g1 B) c1 sk = ibe_extract B share identity"
    by (simp add: diff_eq_eq add.commute)
  ultimately show ?thesis
    using assms(2) by (auto simp: verify_encrypted_signature_def Let_def pairing_nondegenerate_def)
qed

subsection \<open>Properties\<close>

text \<open>every ciphertext of a batch is decrypted by the user secret key extracted from the
  matching master key, and also from the randomness and the public key alone; the batch has
  one ciphertext of 32 bytes per plaintext.\<close>

theorem ibe_roundtrip:
  assumes "bls_laws B" and "length plaintexts = length master_keys" and "length infos = length master_keys"
    and "list_all (\<lambda>p. length p = 32) plaintexts"
  shows "\<exists>nonce cs. encrypt_batched_deterministic B randomness plaintexts
        (map (public_key_from_master_key B) master_keys) identity infos = Ok (nonce, cs) \<and>
      verify_nonce B randomness nonce = Ok () \<and> length cs = length plaintexts \<and>
      list_all (\<lambda>i. length (cs ! i) = 32 \<and>
        ibe_decrypt B nonce (cs ! i) (ibe_extract B (master_keys ! i) identity) identity (infos ! i)
          = Ok (plaintexts ! i) \<and>
        decrypt_deterministic B randomness (cs ! i)
          (public_key_from_master_key B (master_keys ! i)) identity (infos ! i) = Ok (plaintexts ! i))
        [0..<length plaintexts]"
proof -
  let ?pks = "map (public_key_from_master_key B) master_keys"
  have len: "length plaintexts = length ?pks" "length plaintexts = length infos"
    and pl: "\<forall>p \<in> set plaintexts. length p = KEY_SIZE"
    using assms by (simp_all add: list_all_iff KEY_SIZE_def)
  obtain nonce cs where enc: "encrypt_batched_deterministic B randomness plaintexts ?pks identity infos =
      Ok (nonce, cs)" and n: "nonce = smul (g2 B) (generator (g2 B)) randomness" "length cs = length plaintexts"
    using encrypt_batched_Ok [OF assms(1) len pl] by simp
  have "i < length plaintexts \<Longrightarrow> ?pks ! i = public_key_from_master_key B (master_keys ! i)" for i
    using assms(2) by simp
  with encrypt_batched_roundtrip [OF assms(1) len pl enc] n enc show ?thesis
    by (auto simp: list_all_iff verify_nonce_def KEY_SIZE_def)
qed

theorem ibe_roundtrip_witness:
  "\<exists>nonce cs. encrypt_batched_deterministic gf_bls (GF256 9) [replicate 32 1, replicate 32 2]
        (map (public_key_from_master_key gf_bls) [GF256 5, GF256 6]) [1, 2] [([7], 1), ([8], 2)] = Ok (nonce, cs) \<and>
      ibe_decrypt gf_bls nonce (cs ! 1) (ibe_extract gf_bls (GF256 6) [1, 2]) [1, 2] ([8], 2)
        = Ok (replicate 32 2)"
  using ibe_roundtrip [OF gf_bls_laws(1), of "[replicate 32 1, replicate 32 2]" "[GF256 5, GF256 6]"
      "[([7], 1), ([8], 2)]" "GF256 9" "[1, 2]"]
  by (auto simp: upt_conv_Cons)

text \<open>key verification is exact. A user secret key is accepted for an identity and a public
  key exactly if it is the one extracted from the master key of that public key.\<close>

theorem verify_user_secret_key_exact:
  assumes "bls_laws B" and "pairing_nondegenerate B"
  shows "verify_user_secret_key B usk identity (public_key_from_master_key B master_key) =
    (if usk = ibe_extract B master_key identity then Ok () else Err InvalidInput)"
  using assms by (rule verify_user_secret_key_iff)

theorem verify_user_secret_key_exact_witness:
  "verify_user_secret_key gf_bls (GF256 3) [4] (public_key_from_master_key gf_bls (GF256 5)) = Err InvalidInput"
  unfolding verify_user_secret_key_exact [OF gf_bls_laws] by code_simp

text \<open>verification of an encrypted partial key is exact. For a verification key of the
  ephemeral secret key and the public key of a share, with no identity element among the
  inputs, it accepts exactly the encryptions that the ephemeral key decrypts to the user
  secret key extracted from the share.\<close>

theorem verify_encrypted_signature_exact:
  assumes "bls_laws B" and "pairing_nondegenerate B"
  shows "verify_encrypted_signature B (Encryption c1 c2)
      (VerificationKey (smul (g2 B) (generator (g2 B)) sk)) (public_key_from_master_key B share) identity =
    (if c1 \<noteq> 0 \<and> c2 \<noteq> 0 \<and> smul (g2 B) (generator (g2 B)) sk \<noteq> 0 \<and>
        public_key_from_master_key B share \<noteq> 0 \<and>
        eg_decrypt (g1 B) (SecretKey sk) (Encryption c1 c2) = ibe_extract B share identity
     then Ok () else Err InvalidInput)"
  by (rule verify_encrypted_signature_iff [OF assms])

theorem verify_encrypted_signature_exact_witness:
  "verify_encrypted_signature gf_bls (Encryption (GF256 2) (GF256 6 + ibe_extract gf_bls (GF256 5) [4]))
     (VerificationKey (smul (g2 gf_bls) (generator (g2 gf_bls)) (GF256 3)))
     (public_key_from_master_key gf_bls (GF256 5)) [4] = Ok ()"
  unfolding verify_encrypted_signature_exact [OF gf_bls_laws] by code_simp

end
