(* ===== verification/SealCrypto.thy ===== *)
theory SealCrypto
  imports Tss Ibe
begin

text \<open>
  \<^verbatim>\<open>crates/crypto/src/lib.rs\<close>: encrypted objects, \<open>seal_encrypt\<close> and \<open>seal_decrypt\<close>.

  A random base key is secret shared between the key servers, each share is encrypted to a
  server's public key for the identity, the encryption randomness is itself encrypted under
  a key derived from the base key, and the message is encrypted under another derived key.
  A user map \<open>HashMap<ObjectID, UserSecretKey>\<close> is a partial map. The operating system's
  random number generator is the parameter \<open>R\<close> with its initial state; the primitives are the
  records \<open>B\<close> and \<open>D\<close> of the component theories.
\<close>

datatype 'g2 ibe_encryptions =
  BonehFranklinEncryptions (ie_nonce: 'g2) (ie_encrypted_shares: "bytes list") (ie_encrypted_randomness: bytes)

datatype 'g2 ibe_public_keys = BonehFranklinPublicKeys "'g2 list"

datatype 'g1 ibe_user_secret_keys = BonehFranklinUserSecretKeys "object_id \<rightharpoonup> 'g1"

record 'g2 encrypted_object =
  eo_version :: u8
  eo_package_id :: object_id
  eo_id :: bytes
  eo_services :: "(object_id \<times> u8) list"
  eo_threshold :: u8
  eo_encrypted_shares :: "'g2 ibe_encryptions"
  eo_ciphertext :: ciphertext

subsection \<open>Key derivation\<close>

definition create_full_id :: "bytes \<Rightarrow> bytes \<Rightarrow> bytes" where
  "create_full_id package_id inner = concat [package_id, inner]"

datatype key_purpose = EncryptedRandomness | DEM

fun key_purpose_tag :: "key_purpose \<Rightarrow> bytes" where
  "key_purpose_tag EncryptedRandomness = [0]"
| "key_purpose_tag DEM = [1]"

definition derive_key ::
  "('s, 'g1, 'g2, 'gt, 'r) bls_ops \<Rightarrow> key_purpose \<Rightarrow> bytes \<Rightarrow> bytes list \<Rightarrow> u8 \<Rightarrow> object_id list \<Rightarrow>
   (bytes, fc_error) res" where
  "derive_key B purpose base_key encrypted_shares threshold key_servers =
     (if length encrypted_shares \<noteq> length key_servers then Panic
      else Ok (sha3_256 B (DST_DERIVE_KEY @ base_key @ key_purpose_tag purpose @ [threshold] @
                 concat encrypted_shares @ concat key_servers)))"

definition ciphertexts :: "'g2 ibe_encryptions \<Rightarrow> bytes list" where
  "ciphertexts e = ie_encrypted_shares e"

subsection \<open>Encryption\<close>

definition seal_encrypt ::
  "('s, 'g1, 'g2, 'gt, 'r) bls_ops \<Rightarrow> dem_prims \<Rightarrow> 'r rng_ops \<Rightarrow> 'r \<Rightarrow>
   object_id \<Rightarrow> bytes \<Rightarrow> object_id list \<Rightarrow> 'g2 ibe_public_keys \<Rightarrow> u8 \<Rightarrow> encryption_input \<Rightarrow>
   ('g2 encrypted_object \<times> bytes, fc_error) res" where
  "seal_encrypt B D R rng package_id inner key_servers public_keys threshold encryption_input =
     (let number_of_shares = (of_nat (length key_servers) :: u8) in
      if threshold > number_of_shares \<or> threshold = 0 then Err InvalidInput
      else
        let full_id = create_full_id package_id inner;
            (base_key, rng) = generate_random_bytes R KEY_SIZE rng;
            (sharing, rng) = split R KEY_SIZE rng base_key threshold number_of_shares
        in and_then sharing (\<lambda>ss.
          let services = zip key_servers (ss_indices ss) in
          and_then
            (case public_keys of BonehFranklinPublicKeys pks \<Rightarrow>
               if length pks \<noteq> unat number_of_shares then Err InvalidInput
               else
                 let (randomness, rng) = scalar_rand (g2 B) rng in
                 and_then (encrypt_batched_deterministic B randomness (ss_shares ss) pks full_id services)
                   (\<lambda>(nonce, encrypted_shares).
                 and_then (derive_key B EncryptedRandomness base_key encrypted_shares threshold key_servers)
                   (\<lambda>randomness_key.
                 and_then (encrypt_randomness B randomness randomness_key) (\<lambda>encrypted_randomness.
                   Ok (BonehFranklinEncryptions nonce encrypted_shares encrypted_randomness)))))
            (\<lambda>encrypted_shares.
          and_then (derive_key B DEM base_key (ciphertexts encrypted_shares) threshold key_servers)
            (\<lambda>dem_key.
               Ok (\<lparr>eo_version = 0, eo_package_id = package_id, eo_id = inner, eo_services = services,
                    eo_threshold = threshold, eo_encrypted_shares = encrypted_shares,
                    eo_ciphertext = dem_encrypt D encryption_input dem_key\<rparr>, dem_key)))))"

subsection \<open>Decryption\<close>

definition combine_and_verify_nonce ::
  "('s, 'g1, 'g2, 'gt, 'r) bls_ops \<Rightarrow> 'g2 ibe_encryptions \<Rightarrow> (u8 \<times> bytes) list \<Rightarrow>
   (object_id \<times> u8) list \<Rightarrow> u8 \<Rightarrow> (bytes, fc_error) res" where
  "combine_and_verify_nonce B self shares services threshold =
     and_then (combine KEY_SIZE shares) (\<lambda>base_key.
     and_then (derive_key B EncryptedRandomness base_key (ie_encrypted_shares self) threshold (map fst services))
       (\<lambda>randomness_key.
     and_then (decrypt_randomness B (ie_encrypted_randomness self) randomness_key) (\<lambda>randomness.
     and_then (verify_nonce B randomness (ie_nonce self)) (\<lambda>_.
       Ok base_key))))"

definition decrypt_all_shares_and_verify_nonce ::
  "('s, 'g1, 'g2, 'gt, 'r) bls_ops \<Rightarrow> 'g2 ibe_encryptions \<Rightarrow> bytes \<Rightarrow> (object_id \<times> u8) list \<Rightarrow>
   'g2 ibe_public_keys \<Rightarrow> bytes \<Rightarrow> u8 \<Rightarrow> ((u8 \<times> bytes) list, fc_error) res" where
  "decrypt_all_shares_and_verify_nonce B self full_id services public_keys base_key threshold =
     and_then (derive_key B EncryptedRandomness base_key (ciphertexts self) threshold (map fst services))
       (\<lambda>randomness_key.
     and_then (decrypt_randomness B (ie_encrypted_randomness self) randomness_key) (\<lambda>randomness.
     and_then (verify_nonce B randomness (ie_nonce self)) (\<lambda>_.
       case public_keys of BonehFranklinPublicKeys pks \<Rightarrow>
         if length pks \<noteq> length (ie_encrypted_shares self) then Err InvalidInput
         else collect_res (\<lambda>((pk, ct), service).
                and_then (decrypt_deterministic B randomness ct pk full_id service)
                  (\<lambda>plain. Ok (snd service, plain)))
              (zip (zip pks (ie_encrypted_shares self)) services))))"

text \<open>\<open>any\<close>: the closure runs on the shares in order until one differs.\<close>

fun any_inconsistent :: "(u8 \<Rightarrow> (bytes, fc_error) res) \<Rightarrow> (u8 \<times> bytes) list \<Rightarrow> (bool, fc_error) res" where
  "any_inconsistent polynomial [] = Ok False"
| "any_inconsistent polynomial ((i, share) # rest) =
     and_then (polynomial i) (\<lambda>v. if v \<noteq> share then Ok True else any_inconsistent polynomial rest)"

definition combine_and_check_share_consistency ::
  "('s, 'g1, 'g2, 'gt, 'r) bls_ops \<Rightarrow> 'g2 ibe_encryptions \<Rightarrow> (u8 \<times> bytes) list \<Rightarrow> bytes \<Rightarrow>
   (object_id \<times> u8) list \<Rightarrow> u8 \<Rightarrow> 'g2 ibe_public_keys \<Rightarrow> (bytes, fc_error) res" where
  "combine_and_check_share_consistency B self shares full_id services threshold public_keys =
     and_then (interpolate KEY_SIZE shares) (\<lambda>polynomial.
     and_then (polynomial 0) (\<lambda>base_key.
     and_then (decrypt_all_shares_and_verify_nonce B self full_id services public_keys base_key threshold)
       (\<lambda>all_shares.
     and_then (any_inconsistent polynomial all_shares) (\<lambda>bad.
       if bad then Err (GeneralError ''Inconsistent shares'') else Ok base_key))))"

text \<open>The positions of the services for which the user has a key, and their decrypted shares.\<close>

definition service_indices :: "(object_id \<times> u8) list \<Rightarrow> (object_id \<rightharpoonup> 'g1) \<Rightarrow> nat list" where
  "service_indices services user_secret_keys =
     filter (\<lambda>i. user_secret_keys (fst (services ! i)) \<noteq> None) [0..<length services]"

definition decrypt_service_share ::
  "('s, 'g1, 'g2, 'gt, 'r) bls_ops \<Rightarrow> 'g2 ibe_encryptions \<Rightarrow> bytes \<Rightarrow> (object_id \<times> u8) list \<Rightarrow>
   (object_id \<rightharpoonup> 'g1) \<Rightarrow> nat \<Rightarrow> (u8 \<times> bytes, fc_error) res" where
  "decrypt_service_share B self full_id services user_secret_keys i =
     (let (obj, idx) = services ! i in
      case user_secret_keys obj of
        None \<Rightarrow> Panic
      | Some usk \<Rightarrow>
          and_then (ibe_decrypt B (ie_nonce self) (ie_encrypted_shares self ! i) usk full_id (obj, idx))
            (\<lambda>plain. Ok (idx, plain)))"

definition seal_decrypt ::
  "('s, 'g1, 'g2, 'gt, 'r) bls_ops \<Rightarrow> dem_prims \<Rightarrow> 'g2 encrypted_object \<Rightarrow>
   'g1 ibe_user_secret_keys \<Rightarrow> 'g2 ibe_public_keys option \<Rightarrow> (bytes, fc_error) res" where
  "seal_decrypt B D encrypted_object user_secret_keys public_keys =
     (let services = eo_services encrypted_object;
          threshold = eo_threshold encrypted_object;
          encrypted_shares = eo_encrypted_shares encrypted_object
      in
      if eo_version encrypted_object \<noteq> 0 then Err InvalidInput
      else
        let full_id = create_full_id (eo_package_id encrypted_object) (eo_id encrypted_object) in
        and_then
          (case user_secret_keys of BonehFranklinUserSecretKeys usks \<Rightarrow>
             if length (ie_encrypted_shares encrypted_shares) \<noteq> length services then Err InvalidInput
             else
               let indices = service_indices services usks in
               if length indices < unat threshold then Err InvalidInput
               else collect_res (decrypt_service_share B encrypted_shares full_id services usks) indices)
          (\<lambda>shares.
        and_then
          (case public_keys of
             Some pks \<Rightarrow>
               combine_and_check_share_consistency B encrypted_shares shares full_id services threshold pks
           | None \<Rightarrow> combine_and_verify_nonce B encrypted_shares shares services threshold)
          (\<lambda>base_key.
        and_then (derive_key B DEM base_key (ciphertexts encrypted_shares) threshold (map fst services))
          (\<lambda>dem_key. dem_decrypt D (eo_ciphertext encrypted_object) dem_key))))"

subsection \<open>What encryption produces\<close>

lemma derive_key_Ok:
  "length encrypted_shares = length key_servers \<Longrightarrow> bls_laws B \<Longrightarrow>
   \<exists>k. derive_key B purpose base_key encrypted_shares threshold key_servers = Ok k \<and> length k = KEY_SIZE"
  by (simp add: derive_key_def sha3_length)

lemma KEY_SIZE_pos: "KEY_SIZE > 0" "KEY_SIZE = Suc 31"
  by (simp_all add: KEY_SIZE_def)

definition share_indices_of :: "object_id list \<Rightarrow> u8 list" where
  "share_indices_of key_servers = map of_nat [1..<Suc (length key_servers)]"

lemma seal_encrypt_parts:
  assumes B: "bls_laws B" and R: "rng_fills R" and n: "length key_servers < 256" "length pks = length key_servers"
    and t: "threshold \<noteq> 0" "unat threshold \<le> length key_servers"
  obtains Q randomness nonce cs rk er dk where
    "\<And>i. i < KEY_SIZE \<Longrightarrow> length (Q i) = unat threshold"
    "encrypt_batched_deterministic B randomness (map (deal KEY_SIZE Q) (share_indices_of key_servers)) pks
       (create_full_id package_id inner) (zip key_servers (share_indices_of key_servers)) = Ok (nonce, cs)"
    "length cs = length key_servers" "nonce = smul (g2 B) (generator (g2 B)) randomness"
    "derive_key B EncryptedRandomness (deal KEY_SIZE Q 0) cs threshold key_servers = Ok rk"
    "decrypt_randomness B er rk = Ok randomness"
    "derive_key B DEM (deal KEY_SIZE Q 0) cs threshold key_servers = Ok dk"
    "seal_encrypt B D R rng package_id inner key_servers (BonehFranklinPublicKeys pks) threshold input =
       Ok (\<lparr>eo_version = 0, eo_package_id = package_id, eo_id = inner,
            eo_services = zip key_servers (share_indices_of key_servers), eo_threshold = threshold,
            eo_encrypted_shares = BonehFranklinEncryptions nonce cs er,
            eo_ciphertext = dem_encrypt D input dk\<rparr>, dk)"
proof -
  let ?n = "of_nat (length key_servers) :: u8" and ?fid = "create_full_id package_id inner"
  let ?is = "share_indices_of key_servers"
  let ?services = "zip key_servers ?is"
  have un: "unat ?n = length key_servers" using n(1) by (simp add: unat_of_nat)
  then have tn: "threshold \<le> ?n" using t(2) by (simp add: word_le_nat_alt)
  obtain base_key rng1 where bk: "generate_random_bytes R KEY_SIZE rng = (base_key, rng1)"
    by (cases "generate_random_bytes R KEY_SIZE rng")
  obtain Q ss rng2 where sp: "split R KEY_SIZE rng1 base_key threshold ?n = (Ok ss, rng2)"
    and Q: "\<And>i. i < KEY_SIZE \<Longrightarrow> length (Q i) = unat threshold" "deal KEY_SIZE Q 0 = base_key"
      "ss_indices ss = ?is" "ss_shares ss = map (deal KEY_SIZE Q) ?is"
    using split_Ok [OF t(1) tn generate_random_bytes_length [OF R bk] KEY_SIZE_pos(1), of R rng1]
    unfolding un share_indices_of_def by metis
  obtain randomness rng3 where rnd: "scalar_rand (g2 B) rng2 = (randomness, rng3)"
    by (cases "scalar_rand (g2 B) rng2")
  let ?enc = "encrypt_batched_deterministic B randomness (map (deal KEY_SIZE Q) ?is) pks ?fid ?services"
  have il: "length ?is = length key_servers" by (simp add: share_indices_of_def del: upt_Suc)
  obtain nonce cs where enc: "?enc = Ok (nonce, cs)" "nonce = smul (g2 B) (generator (g2 B)) randomness"
    "length cs = length key_servers"
    using encrypt_batched_Ok [OF B, of "map (deal KEY_SIZE Q) ?is" pks ?services] n(2) il by simp
  obtain rk where rk: "derive_key B EncryptedRandomness base_key cs threshold key_servers = Ok rk" "length rk = KEY_SIZE"
    using derive_key_Ok enc(3) B by blast
  obtain er where er: "encrypt_randomness B randomness rk = Ok er" "decrypt_randomness B er rk = Ok randomness"
    using randomness_roundtrip [OF B rk(2)] by metis
  obtain dk where dk: "derive_key B DEM base_key cs threshold key_servers = Ok dk"
    using derive_key_Ok enc(3) B by blast
  have "seal_encrypt B D R rng package_id inner key_servers (BonehFranklinPublicKeys pks) threshold input =
       Ok (\<lparr>eo_version = 0, eo_package_id = package_id, eo_id = inner,
            eo_services = zip key_servers ?is, eo_threshold = threshold,
            eo_encrypted_shares = BonehFranklinEncryptions nonce cs er,
            eo_ciphertext = dem_encrypt D input dk\<rparr>, dk)"
    using t(1) tn by (simp add: seal_encrypt_def Let_def bk sp un n(2) rnd Q(3,4) enc(1) rk(1) er(1) dk
        ciphertexts_def linorder_not_less)
  then show thesis
    using Q(1,2) enc rk(1) er(2) dk by (intro that [of Q randomness nonce cs rk er dk]) simp_all
qed

subsection \<open>Decryption from decrypted shares\<close>

lemma service_indices_set:
  "i \<in> set (service_indices services usks) \<longleftrightarrow> i < length services \<and> usks (fst (services ! i)) \<noteq> None"
  "distinct (service_indices services usks)"
  by (auto simp: service_indices_def)

lemma decrypt_shares_eq:
  assumes "\<And>i u. i < length services \<Longrightarrow> usks (fst (services ! i)) = Some u \<Longrightarrow>
      ibe_decrypt B (ie_nonce e) (ie_encrypted_shares e ! i) u full_id (services ! i) = Ok (s i)"
  shows "collect_res (decrypt_service_share B e full_id services usks) (service_indices services usks) =
    Ok (map (\<lambda>i. (snd (services ! i), s i)) (service_indices services usks))"
proof (rule collect_res_Ok)
  fix i assume "i \<in> set (service_indices services usks)"
  then obtain u where "i < length services" "usks (fst (services ! i)) = Some u"
    by (auto simp: service_indices_set)
  with assms [OF this] show "decrypt_service_share B e full_id services usks i = Ok (snd (services ! i), s i)"
    by (cases "services ! i") (simp add: decrypt_service_share_def)
qed

lemma any_inconsistent_False:
  "(\<And>i s. (i, s) \<in> set xs \<Longrightarrow> p i = Ok s) \<Longrightarrow> any_inconsistent p xs = Ok False"
proof (induction xs)
  case (Cons x xs)
  have "p (fst x) = Ok (snd x)" by (rule Cons.prems) simp
  moreover have "any_inconsistent p xs = Ok False" by (rule Cons.IH) (rule Cons.prems, simp)
  ultimately show ?case by (cases x) simp
qed simp

lemma any_inconsistent_FalseD:
  "any_inconsistent p xs = Ok False \<Longrightarrow> (i, s) \<in> set xs \<Longrightarrow> p i = Ok s"
  by (induction xs) (auto simp: res_simps split: if_splits)

lemma valid_service_shares:
  "valid_shares (map (\<lambda>i. (snd (services ! i), s i)) js) \<longleftrightarrow>
     js \<noteq> [] \<and> distinct (map (\<lambda>i. snd (services ! i)) js) \<and> 0 \<notin> set (map (\<lambda>i. snd (services ! i)) js)"
  by (simp add: valid_shares_def comp_def image_image)

text \<open>
  If every decrypted share is the value of polynomials with at most as many coefficients as
  there are shares, both ways of combining return the value at zero, and decryption is the
  decryption of the data with the key derived from it.
\<close>

lemma seal_decrypt_dealt:
  fixes B :: "('s::field, 'g1::ab_group_add, 'g2::ab_group_add, 'gt::ab_group_add, 'r) bls_ops"
  defines "fid \<equiv> \<lambda>obj. create_full_id (eo_package_id obj) (eo_id obj)"
  assumes obj: "eo_version obj = 0" "length (ie_encrypted_shares (eo_encrypted_shares obj)) = length (eo_services obj)"
    and shares: "\<And>i u. i < length (eo_services obj) \<Longrightarrow> usks (fst (eo_services obj ! i)) = Some u \<Longrightarrow>
      ibe_decrypt B (ie_nonce (eo_encrypted_shares obj)) (ie_encrypted_shares (eo_encrypted_shares obj) ! i) u
        (fid obj) (eo_services obj ! i) = Ok (deal KEY_SIZE Q (snd (eo_services obj ! i)))"
    and valid: "valid_shares (map (\<lambda>i. (snd (eo_services obj ! i), deal KEY_SIZE Q (snd (eo_services obj ! i))))
      (service_indices (eo_services obj) usks))"
    and Q: "\<And>i. i < KEY_SIZE \<Longrightarrow> length (Q i) \<le> length (service_indices (eo_services obj) usks)"
    and thr: "unat (eo_threshold obj) \<le> length (service_indices (eo_services obj) usks)"
    and rk: "derive_key B EncryptedRandomness (deal KEY_SIZE Q 0) (ie_encrypted_shares (eo_encrypted_shares obj))
        (eo_threshold obj) (map fst (eo_services obj)) = Ok rk"
      "decrypt_randomness B (ie_encrypted_randomness (eo_encrypted_shares obj)) rk = Ok r"
      "ie_nonce (eo_encrypted_shares obj) = smul (g2 B) (generator (g2 B)) r"
    and dk: "derive_key B DEM (deal KEY_SIZE Q 0) (ie_encrypted_shares (eo_encrypted_shares obj))
        (eo_threshold obj) (map fst (eo_services obj)) = Ok dk"
  shows "seal_decrypt B D obj (BonehFranklinUserSecretKeys usks) None = dem_decrypt D (eo_ciphertext obj) dk"
    and "length pks = length (eo_services obj) \<Longrightarrow>
      (\<And>i. i < length (eo_services obj) \<Longrightarrow>
        decrypt_deterministic B r (ie_encrypted_shares (eo_encrypted_shares obj) ! i) (pks ! i) (fid obj)
          (eo_services obj ! i) = Ok (deal KEY_SIZE Q (snd (eo_services obj ! i)))) \<Longrightarrow>
      seal_decrypt B D obj (BonehFranklinUserSecretKeys usks) (Some (BonehFranklinPublicKeys pks)) =
        dem_decrypt D (eo_ciphertext obj) dk"
proof -
  let ?e = "eo_encrypted_shares obj" and ?sv = "eo_services obj" and ?t = "eo_threshold obj"
  let ?s = "\<lambda>i. deal KEY_SIZE Q (snd (?sv ! i))"
  let ?shares = "map (\<lambda>i. (snd (?sv ! i), ?s i)) (service_indices ?sv usks)"
  have col: "collect_res (decrypt_service_share B ?e (fid obj) ?sv usks) (service_indices ?sv usks) = Ok ?shares"
    by (rule decrypt_shares_eq) (rule shares)
  have int: "interpolate KEY_SIZE ?shares = Ok (\<lambda>x. Ok (deal KEY_SIZE Q x))"
    by (rule reconstruct_dealt(1) [OF valid]) (use Q in auto)
  have comb: "combine KEY_SIZE ?shares = Ok (deal KEY_SIZE Q 0)"
    by (rule reconstruct_dealt(2) [OF valid]) (use Q in auto)
  have nonce: "verify_nonce B r (ie_nonce ?e) = Ok ()" by (simp add: verify_nonce_def rk(3))
  show "seal_decrypt B D obj (BonehFranklinUserSecretKeys usks) None = dem_decrypt D (eo_ciphertext obj) dk"
    using obj thr col [unfolded fid_def] comb nonce rk dk
    by (simp add: seal_decrypt_def Let_def combine_and_verify_nonce_def ciphertexts_def)
  show "seal_decrypt B D obj (BonehFranklinUserSecretKeys usks) (Some (BonehFranklinPublicKeys pks)) =
      dem_decrypt D (eo_ciphertext obj) dk"
    if pks: "length pks = length ?sv" and dd: "\<And>i. i < length ?sv \<Longrightarrow>
        decrypt_deterministic B r (ie_encrypted_shares ?e ! i) (pks ! i) (fid obj) (?sv ! i) = Ok (?s i)"
  proof -
    let ?zip = "zip (zip pks (ie_encrypted_shares ?e)) ?sv"
    have "collect_res (\<lambda>((pk, ct), service).
          and_then (decrypt_deterministic B r ct pk (fid obj) service) (\<lambda>plain. Ok (snd service, plain))) ?zip =
        Ok (map (\<lambda>p. (snd (snd p), deal KEY_SIZE Q (snd (snd p)))) ?zip)"
      using dd pks obj(2) by (intro collect_res_Ok) (auto simp: set_zip)
    then have "decrypt_all_shares_and_verify_nonce B ?e (fid obj) ?sv (BonehFranklinPublicKeys pks)
        (deal KEY_SIZE Q 0) ?t = Ok (map (\<lambda>p. (snd (snd p), deal KEY_SIZE Q (snd (snd p)))) ?zip)"
      using pks obj(2) rk nonce
      by (simp add: decrypt_all_shares_and_verify_nonce_def ciphertexts_def)
    moreover have "any_inconsistent (\<lambda>x. Ok (deal KEY_SIZE Q x))
        (map (\<lambda>p. (snd (snd p), deal KEY_SIZE Q (snd (snd p)))) ?zip) = Ok False"
      by (rule any_inconsistent_False) auto
    ultimately have "combine_and_check_share_consistency B ?e ?shares (fid obj) ?sv ?t
        (BonehFranklinPublicKeys pks) = Ok (deal KEY_SIZE Q 0)"
      by (simp add: combine_and_check_share_consistency_def int)
    then show ?thesis
      using obj thr col dk unfolding fid_def by (simp add: seal_decrypt_def Let_def ciphertexts_def)
  qed
qed

subsection \<open>Outcomes of encryption\<close>

lemma seal_encrypt_rejects:
  assumes R: "rng_fills R"
    and bad: "threshold = 0 \<or> threshold > of_nat (length key_servers) \<or>
      length pks \<noteq> unat (of_nat (length key_servers) :: u8)"
  shows "seal_encrypt B D R rng package_id inner key_servers (BonehFranklinPublicKeys pks) threshold input =
    Err InvalidInput"
proof (cases "threshold = 0 \<or> threshold > of_nat (length key_servers)")
  case True
  then show ?thesis by (auto simp: seal_encrypt_def)
next
  case False
  let ?n = "of_nat (length key_servers) :: u8"
  obtain base_key rng1 where bk: "generate_random_bytes R KEY_SIZE rng = (base_key, rng1)"
    by (cases "generate_random_bytes R KEY_SIZE rng")
  have t: "threshold \<noteq> 0" "threshold \<le> ?n" using False by auto
  obtain ss rng2 where "split R KEY_SIZE rng1 base_key threshold ?n = (Ok ss, rng2)"
    using split_Ok [OF t generate_random_bytes_length [OF R bk] KEY_SIZE_pos(1)] by metis
  then show ?thesis using False bad by (simp add: seal_encrypt_def Let_def bk)
qed

text \<open>With 256 servers or more the truncated share count lets the request pass every check.\<close>

lemma seal_encrypt_truncated:
  assumes B: "bls_laws B" and R: "rng_fills R" and n: "length key_servers \<ge> 256"
    and t: "threshold \<noteq> 0" "threshold \<le> of_nat (length key_servers)"
    and pks: "length pks = unat (of_nat (length key_servers) :: u8)"
  shows "seal_encrypt B D R rng package_id inner key_servers (BonehFranklinPublicKeys pks) threshold input = Panic"
proof -
  let ?n = "of_nat (length key_servers) :: u8" and ?fid = "create_full_id package_id inner"
  have un: "unat ?n < length key_servers" using unat_u8_less [of ?n] n by linarith
  obtain base_key rng1 where bk: "generate_random_bytes R KEY_SIZE rng = (base_key, rng1)"
    by (cases "generate_random_bytes R KEY_SIZE rng")
  obtain Q ss rng2 where sp: "split R KEY_SIZE rng1 base_key threshold ?n = (Ok ss, rng2)"
    and ss: "length (ss_indices ss) = unat ?n" "ss_shares ss = map (deal KEY_SIZE Q) (ss_indices ss)"
    using split_Ok [OF t generate_random_bytes_length [OF R bk] KEY_SIZE_pos(1), of R rng1]
    by (metis (no_types, lifting) diff_Suc_1 length_map length_upt)
  obtain randomness rng3 where rnd: "scalar_rand (g2 B) rng2 = (randomness, rng3)"
    by (cases "scalar_rand (g2 B) rng2")
  obtain nonce cs where enc: "encrypt_batched_deterministic B randomness (ss_shares ss) pks ?fid
      (zip key_servers (ss_indices ss)) = Ok (nonce, cs)" "length cs = unat ?n"
    using encrypt_batched_Ok [OF B, of "ss_shares ss" pks "zip key_servers (ss_indices ss)"] pks ss un by simp
  have "derive_key B EncryptedRandomness base_key cs threshold key_servers = Panic"
    using enc(2) un by (simp add: derive_key_def)
  then show ?thesis
    using t by (simp add: seal_encrypt_def Let_def bk sp pks rnd enc(1) linorder_not_less)
qed

subsection \<open>Honest objects\<close>

text \<open>What a successful encryption establishes about its object, in the terms decryption uses.\<close>

definition honest_object where
  "honest_object B D input obj key pks package_id inner key_servers threshold Q r rk \<longleftrightarrow>
     threshold \<noteq> 0 \<and> length key_servers < 256 \<and> length pks = length key_servers \<and>
     eo_version obj = 0 \<and> eo_package_id obj = package_id \<and> eo_id obj = inner \<and>
     eo_services obj = zip key_servers (share_indices_of key_servers) \<and> eo_threshold obj = threshold \<and>
     length (ie_encrypted_shares (eo_encrypted_shares obj)) = length key_servers \<and>
     eo_ciphertext obj = dem_encrypt D input key \<and>
     (\<forall>i < KEY_SIZE. length (Q i) = unat threshold) \<and>
     ie_nonce (eo_encrypted_shares obj) = smul (g2 B) (generator (g2 B)) r \<and>
     derive_key B EncryptedRandomness (deal KEY_SIZE Q 0) (ie_encrypted_shares (eo_encrypted_shares obj))
       threshold key_servers = Ok rk \<and>
     decrypt_randomness B (ie_encrypted_randomness (eo_encrypted_shares obj)) rk = Ok r \<and>
     derive_key B DEM (deal KEY_SIZE Q 0) (ie_encrypted_shares (eo_encrypted_shares obj)) threshold key_servers = Ok key \<and>
     (\<forall>i < length key_servers.
        decrypt_deterministic B r (ie_encrypted_shares (eo_encrypted_shares obj) ! i) (pks ! i)
          (create_full_id package_id inner) (eo_services obj ! i) = Ok (deal KEY_SIZE Q (snd (eo_services obj ! i))) \<and>
        (\<forall>msk. pks ! i = public_key_from_master_key B msk \<longrightarrow>
          ibe_decrypt B (ie_nonce (eo_encrypted_shares obj)) (ie_encrypted_shares (eo_encrypted_shares obj) ! i)
            (ibe_extract B msk (create_full_id package_id inner)) (create_full_id package_id inner) (eo_services obj ! i)
          = Ok (deal KEY_SIZE Q (snd (eo_services obj ! i)))))"

lemma share_indices_of_valid:
  assumes "length key_servers < 256"
  shows "distinct (share_indices_of key_servers)" and "0 \<notin> set (share_indices_of key_servers)"
    and "length (share_indices_of key_servers) = length key_servers"
proof -
  have "unat (of_nat (length key_servers) :: u8) = length key_servers" using assms by (simp add: unat_of_nat)
  then show "distinct (share_indices_of key_servers)" "0 \<notin> set (share_indices_of key_servers)"
    using share_indices [of "of_nat (length key_servers)"] unfolding share_indices_of_def by simp_all
  show "length (share_indices_of key_servers) = length key_servers"
    by (simp add: share_indices_of_def del: upt_Suc)
qed

lemma seal_encrypt_conditions:
  assumes "bls_laws B" and "rng_fills R"
    and enc: "seal_encrypt B D R rng package_id inner key_servers (BonehFranklinPublicKeys pks) threshold input = Ok res"
  shows "threshold \<noteq> 0" and "length key_servers < 256" and "length pks = length key_servers"
    and "unat threshold \<le> length key_servers"
proof -
  let ?n = "of_nat (length key_servers) :: u8"
  have ok: "threshold \<noteq> 0" "threshold \<le> ?n" "length pks = unat ?n"
    using enc seal_encrypt_rejects [OF assms(2)] by (metis linorder_not_less res.distinct(1))+
  then have n: "length key_servers < 256"
    using enc seal_encrypt_truncated [OF assms(1,2)] by (metis linorder_not_less res.distinct(3))
  then have "unat ?n = length key_servers" by (simp add: unat_of_nat)
  with ok n show "threshold \<noteq> 0" "length key_servers < 256" "length pks = length key_servers"
    "unat threshold \<le> length key_servers" by (simp_all add: word_le_nat_alt)
qed

lemma seal_encrypt_honest:
  assumes B: "bls_laws B" and R: "rng_fills R"
    and enc: "seal_encrypt B D R rng package_id inner key_servers (BonehFranklinPublicKeys pks) threshold input = Ok (obj, key)"
  shows "\<exists>Q r rk. honest_object B D input obj key pks package_id inner key_servers threshold Q r rk"
proof -
  note c = seal_encrypt_conditions [OF B R enc]
  note il = share_indices_of_valid [OF c(2)]
  let ?is = "share_indices_of key_servers" and ?fid = "create_full_id package_id inner"
  obtain Q r nonce cs rk er dk where
    Q: "\<forall>i < KEY_SIZE. length (Q i) = unat threshold"
    and cs: "encrypt_batched_deterministic B r (map (deal KEY_SIZE Q) ?is) pks ?fid (zip key_servers ?is) =
        Ok (nonce, cs)" "length cs = length key_servers" "nonce = smul (g2 B) (generator (g2 B)) r"
    and rk: "derive_key B EncryptedRandomness (deal KEY_SIZE Q 0) cs threshold key_servers = Ok rk"
      "decrypt_randomness B er rk = Ok r"
    and dk: "derive_key B DEM (deal KEY_SIZE Q 0) cs threshold key_servers = Ok dk"
    and o: "seal_encrypt B D R rng package_id inner key_servers (BonehFranklinPublicKeys pks) threshold input =
       Ok (\<lparr>eo_version = 0, eo_package_id = package_id, eo_id = inner,
            eo_services = zip key_servers ?is, eo_threshold = threshold,
            eo_encrypted_shares = BonehFranklinEncryptions nonce cs er,
            eo_ciphertext = dem_encrypt D input dk\<rparr>, dk)"
    using seal_encrypt_parts [OF B R c(2,3,1,4)] by metis
  have batch: "length (map (deal KEY_SIZE Q) ?is) = length pks"
    "length (map (deal KEY_SIZE Q) ?is) = length (zip key_servers ?is)"
    "\<forall>p \<in> set (map (deal KEY_SIZE Q) ?is). length p = KEY_SIZE"
    using il c(3) by auto
  have "honest_object B D input obj key pks package_id inner key_servers threshold Q r rk"
    using enc o c Q cs rk dk il encrypt_batched_roundtrip [OF B batch cs(1)]
    by (auto simp: honest_object_def)
  then show ?thesis by blast
qed

lemma length_service_indices:
  assumes "length sv = length ks" and "\<And>i. i < length sv \<Longrightarrow> fst (sv ! i) = ks ! i"
  shows "length (service_indices sv usks) = length (filter (\<lambda>k. usks k \<noteq> None) ks)"
proof -
  have "service_indices sv usks = filter (\<lambda>i. usks (ks ! i) \<noteq> None) [0..<length ks]"
    unfolding service_indices_def using assms by (intro filter_cong) simp_all
  then have "map ((!) ks) (service_indices sv usks) = filter (\<lambda>k. usks k \<noteq> None) ks"
    using filter_map [of "\<lambda>k. usks k \<noteq> None" "(!) ks" "[0..<length ks]"] by (simp add: comp_def map_nth)
  then show ?thesis by (metis length_map)
qed

lemma honest_decrypt:
  assumes "honest_object B D input obj key pks package_id inner key_servers threshold Q r rk"
    and "i < length key_servers" and "pks ! i = public_key_from_master_key B msk"
    and "u = ibe_extract B msk (package_id @ inner)"
  shows "ibe_decrypt B (ie_nonce (eo_encrypted_shares obj)) (ie_encrypted_shares (eo_encrypted_shares obj) ! i) u
        (create_full_id (eo_package_id obj) (eo_id obj)) (eo_services obj ! i) =
      Ok (deal KEY_SIZE Q (snd (eo_services obj ! i)))"
proof -
  have "package_id @ inner = create_full_id package_id inner" by (simp add: create_full_id_def)
  with assms show ?thesis unfolding honest_object_def by metis
qed

lemma honest_valid:
  assumes h: "honest_object B D input obj key pks package_id inner key_servers threshold Q r rk"
    and "length (service_indices (eo_services obj) usks) > 0"
  shows "valid_shares (map (\<lambda>i. (snd (eo_services obj ! i), deal KEY_SIZE Q (snd (eo_services obj ! i))))
    (service_indices (eo_services obj) usks))"
proof -
  let ?ind = "service_indices (eo_services obj) usks" and ?is = "share_indices_of key_servers"
  have n: "length key_servers < 256" and sv: "eo_services obj = zip key_servers ?is"
    using h by (simp_all add: honest_object_def)
  note il = share_indices_of_valid [OF n]
  have snd: "snd (eo_services obj ! i) = ?is ! i" "i < length ?is" if "i \<in> set ?ind" for i
    using that il(3) by (auto simp: service_indices_set sv)
  have "inj_on (\<lambda>i. snd (eo_services obj ! i)) (set ?ind)"
    using snd il(1) by (auto simp: inj_on_def nth_eq_iff_index_eq)
  moreover have "snd (eo_services obj ! i) \<noteq> 0" if "i \<in> set ?ind" for i
    using snd [OF that] il(2) by (metis nth_mem)
  ultimately show ?thesis
    using assms(2) service_indices_set(2) [of "eo_services obj" usks]
    unfolding valid_service_shares by (auto simp: distinct_map)
qed

subsection \<open>What a checked decryption establishes\<close>

lemma ibe_decrypt_deterministic:
  "bls_laws B \<Longrightarrow> ibe_decrypt B (smul (g2 B) (generator (g2 B)) r) ct (ibe_extract B msk identity) identity ifo =
   decrypt_deterministic B r ct (public_key_from_master_key B msk) identity ifo"
  by (simp add: ibe_decrypt_def decrypt_deterministic_def Let_def encapsulated_key)

lemma verify_nonce_Ok [res_simps]:
  "verify_nonce B r nonce = Ok u \<longleftrightarrow> smul (g2 B) (generator (g2 B)) r = nonce"
  by (simp add: verify_nonce_def)

lemma seal_decrypt_checked_OkD:
  assumes "seal_decrypt B D obj (BonehFranklinUserSecretKeys usks) (Some (BonehFranklinPublicKeys pks)) = Ok m"
  obtains shares f base_key rk r all_shares dk where
    "eo_version obj = 0" "length (ie_encrypted_shares (eo_encrypted_shares obj)) = length (eo_services obj)"
    "unat (eo_threshold obj) \<le> length (service_indices (eo_services obj) usks)"
    "collect_res (decrypt_service_share B (eo_encrypted_shares obj) (create_full_id (eo_package_id obj) (eo_id obj))
       (eo_services obj) usks) (service_indices (eo_services obj) usks) = Ok shares"
    "interpolate KEY_SIZE shares = Ok f" "f 0 = Ok base_key"
    "derive_key B EncryptedRandomness base_key (ie_encrypted_shares (eo_encrypted_shares obj)) (eo_threshold obj)
       (map fst (eo_services obj)) = Ok rk"
    "decrypt_randomness B (ie_encrypted_randomness (eo_encrypted_shares obj)) rk = Ok r"
    "ie_nonce (eo_encrypted_shares obj) = smul (g2 B) (generator (g2 B)) r"
    "length pks = length (ie_encrypted_shares (eo_encrypted_shares obj))"
    "collect_res (\<lambda>((pk, ct), service).
       and_then (decrypt_deterministic B r ct pk (create_full_id (eo_package_id obj) (eo_id obj)) service)
         (\<lambda>plain. Ok (snd service, plain)))
       (zip (zip pks (ie_encrypted_shares (eo_encrypted_shares obj))) (eo_services obj)) = Ok all_shares"
    "any_inconsistent f all_shares = Ok False"
    "derive_key B DEM base_key (ie_encrypted_shares (eo_encrypted_shares obj)) (eo_threshold obj)
       (map fst (eo_services obj)) = Ok dk"
    "dem_decrypt D (eo_ciphertext obj) dk = Ok m"
  using assms
  by (auto simp: seal_decrypt_def Let_def res_simps combine_and_check_share_consistency_def ciphertexts_def
      decrypt_all_shares_and_verify_nonce_def linorder_not_less split: if_splits)

lemma all_shares_on_polynomial:
  assumes all: "collect_res (\<lambda>((pk, ct), service).
       and_then (decrypt_deterministic B r ct pk fid service) (\<lambda>plain. Ok (snd service, plain)))
       (zip (zip pks cts) services) = Ok all_shares"
    and ok: "any_inconsistent f all_shares = Ok False"
    and len: "length pks = length cts" "length cts = length services" and i: "i < length services"
  shows "decrypt_deterministic B r (cts ! i) (pks ! i) fid (services ! i) = f (snd (services ! i))"
proof -
  let ?g = "\<lambda>((pk, ct), service). and_then (decrypt_deterministic B r ct pk fid service)
    (\<lambda>plain. Ok (snd service, plain))"
  let ?z = "zip (zip pks cts) services"
  have nth: "i < length ?z" "?z ! i = ((pks ! i, cts ! i), services ! i)" using i len by simp_all
  have "?g (?z ! i) = Ok (all_shares ! i)" "all_shares ! i \<in> set all_shares"
    using collect_res_all_Ok [OF all] nth(1) by auto
  then obtain p where p: "decrypt_deterministic B r (cts ! i) (pks ! i) fid (services ! i) = Ok p"
    "all_shares ! i = (snd (services ! i), p)"
    unfolding nth(2) by (auto simp: res_simps)
  then have "f (snd (services ! i)) = Ok p"
    using any_inconsistent_FalseD [OF ok] \<open>all_shares ! i \<in> set all_shares\<close> by simp
  with p(1) show ?thesis by simp
qed

definition right_keys ::
  "('s, 'g1, 'g2, 'gt, 'r) bls_ops \<Rightarrow> 'g2 encrypted_object \<Rightarrow> 's list \<Rightarrow> (object_id \<rightharpoonup> 'g1) \<Rightarrow> bool" where
  "right_keys B obj master_keys usks \<longleftrightarrow>
     list_all (\<lambda>i. case usks (fst (eo_services obj ! i)) of None \<Rightarrow> True
       | Some u \<Rightarrow> u = ibe_extract B (master_keys ! i) (create_full_id (eo_package_id obj) (eo_id obj)))
       [0..<length (eo_services obj)]"

lemma right_keysD:
  "right_keys B obj msks usks \<Longrightarrow> i < length (eo_services obj) \<Longrightarrow> usks (fst (eo_services obj ! i)) = Some u \<Longrightarrow>
   u = ibe_extract B (msks ! i) (create_full_id (eo_package_id obj) (eo_id obj))"
  by (auto simp: right_keys_def list_all_iff split: option.splits)

lemma seal_decrypt_invalid:
  assumes "eo_version obj = 0" "length (ie_encrypted_shares (eo_encrypted_shares obj)) = length (eo_services obj)"
    and "collect_res (decrypt_service_share B (eo_encrypted_shares obj) (create_full_id (eo_package_id obj) (eo_id obj))
       (eo_services obj) usks) (service_indices (eo_services obj) usks) = Ok shares"
    and "\<not> valid_shares shares"
  shows "seal_decrypt B D obj (BonehFranklinUserSecretKeys usks) pks = Err InvalidInput"
proof -
  have "combine KEY_SIZE shares = Err InvalidInput"
    using reconstruct_invalid(2) [OF assms(4), of 31] by (simp add: KEY_SIZE_def)
  then show ?thesis
    using assms reconstruct_invalid(1) [OF assms(4), of KEY_SIZE]
    by (cases pks) (simp_all add: seal_decrypt_def Let_def combine_and_check_share_consistency_def
        combine_and_verify_nonce_def)
qed

text \<open>The polynomials a checked decryption reconstructs carry every encrypted share.\<close>

definition checked_polynomial where
  "checked_polynomial B D obj usks pks m Q r rk dk \<longleftrightarrow>
     eo_version obj = 0 \<and> length (ie_encrypted_shares (eo_encrypted_shares obj)) = length (eo_services obj) \<and>
     length pks = length (eo_services obj) \<and>
     unat (eo_threshold obj) \<le> length (service_indices (eo_services obj) usks) \<and>
     service_indices (eo_services obj) usks \<noteq> [] \<and>
     (\<forall>i < KEY_SIZE. length (Q i) \<le> length (service_indices (eo_services obj) usks)) \<and>
     derive_key B EncryptedRandomness (deal KEY_SIZE Q 0) (ie_encrypted_shares (eo_encrypted_shares obj))
       (eo_threshold obj) (map fst (eo_services obj)) = Ok rk \<and>
     decrypt_randomness B (ie_encrypted_randomness (eo_encrypted_shares obj)) rk = Ok r \<and>
     ie_nonce (eo_encrypted_shares obj) = smul (g2 B) (generator (g2 B)) r \<and>
     derive_key B DEM (deal KEY_SIZE Q 0) (ie_encrypted_shares (eo_encrypted_shares obj))
       (eo_threshold obj) (map fst (eo_services obj)) = Ok dk \<and>
     dem_decrypt D (eo_ciphertext obj) dk = Ok m \<and>
     (\<forall>i < length (eo_services obj).
        decrypt_deterministic B r (ie_encrypted_shares (eo_encrypted_shares obj) ! i) (pks ! i)
          (create_full_id (eo_package_id obj) (eo_id obj)) (eo_services obj ! i) =
        Ok (deal KEY_SIZE Q (snd (eo_services obj ! i))))"

lemma seal_decrypt_checked_polynomial:
  assumes "seal_decrypt B D obj (BonehFranklinUserSecretKeys usks) (Some (BonehFranklinPublicKeys pks)) = Ok m"
  shows "\<exists>Q r rk dk. checked_polynomial B D obj usks pks m Q r rk dk"
  using assms
proof (rule seal_decrypt_checked_OkD, goal_cases)
  case (1 shares f bk rk r alls dk)
  have "valid_shares shares" using 1(5) reconstruct_invalid(1) by (metis res.distinct(1))
  then obtain Q where "interpolate KEY_SIZE shares = Ok (\<lambda>x. Ok (deal KEY_SIZE Q x))"
    and Q: "\<And>i. i < KEY_SIZE \<Longrightarrow> length (Q i) \<le> length shares"
    using reconstruct_valid [of shares KEY_SIZE] by metis
  then have f: "f = (\<lambda>x. Ok (deal KEY_SIZE Q x))" using 1(5) by simp
  then have bk: "bk = deal KEY_SIZE Q 0" using 1(6) by simp
  have len: "length shares = length (service_indices (eo_services obj) usks)" "shares \<noteq> []"
    using collect_res_all_Ok [OF 1(4)] \<open>valid_shares shares\<close> by (auto simp: valid_shares_def)
  have "checked_polynomial B D obj usks pks m Q r rk dk"
    using 1 Q len bk all_shares_on_polynomial [OF 1(11,12,10,2)] f
    by (auto simp: checked_polynomial_def)
  then show ?case by blast
qed

lemma seal_decrypt_honest:
  assumes B: "bls_laws B" and R: "rng_fills R" and D: "hmac_len D" "aes_correct D"
    and enc: "seal_encrypt B D R rng package_id inner key_servers
        (BonehFranklinPublicKeys (map (public_key_from_master_key B) master_keys)) threshold input = Ok (obj, key)"
    and keys: "list_all (\<lambda>i. case usks (key_servers ! i) of None \<Rightarrow> True
        | Some u \<Rightarrow> u = ibe_extract B (master_keys ! i) (package_id @ inner)) [0..<length key_servers]"
    and enough: "unat threshold \<le> length (filter (\<lambda>k. usks k \<noteq> None) key_servers)"
  shows "seal_decrypt B D obj (BonehFranklinUserSecretKeys usks) None = Ok (plaintext input key)"
    and "seal_decrypt B D obj (BonehFranklinUserSecretKeys usks)
      (Some (BonehFranklinPublicKeys (map (public_key_from_master_key B) master_keys))) = Ok (plaintext input key)"
proof -
  let ?pks = "map (public_key_from_master_key B) master_keys" and ?sv = "eo_services obj"
  obtain Q r rk where h: "honest_object B D input obj key ?pks package_id inner key_servers threshold Q r rk"
    using seal_encrypt_honest [OF B R enc] by blast
  note h' = h [unfolded honest_object_def]
  have sv: "length ?sv = length key_servers" "i < length ?sv \<Longrightarrow> fst (?sv ! i) = key_servers ! i" for i
    using h' by (auto simp: share_indices_of_def simp del: upt_Suc)
  have fsts: "map fst ?sv = key_servers"
    using h' by (auto simp: share_indices_of_def simp del: upt_Suc)
  have ind: "length (service_indices ?sv usks) = length (filter (\<lambda>k. usks k \<noteq> None) key_servers)"
    using length_service_indices [of ?sv key_servers usks] sv by simp
  have nonempty: "unat threshold > 0" using h' by (simp add: unat_gt_0)
  have valid: "valid_shares (map (\<lambda>i. (snd (?sv ! i), deal KEY_SIZE Q (snd (?sv ! i)))) (service_indices ?sv usks))"
    using honest_valid [OF h, of usks] nonempty ind enough by fastforce
  have dec: "ibe_decrypt B (ie_nonce (eo_encrypted_shares obj)) (ie_encrypted_shares (eo_encrypted_shares obj) ! i) u
        (create_full_id (eo_package_id obj) (eo_id obj)) (?sv ! i) = Ok (deal KEY_SIZE Q (snd (?sv ! i)))"
    if "i < length ?sv" "usks (fst (?sv ! i)) = Some u" for i u
  proof -
    have "u = ibe_extract B (master_keys ! i) (package_id @ inner)"
      using keys that sv by (auto simp: list_all_iff split: option.splits)
    then show ?thesis
      using h' that(1) sv(1) by (intro honest_decrypt [OF h, of _ "master_keys ! i"]) auto
  qed
  have "seal_decrypt B D obj (BonehFranklinUserSecretKeys usks) None = dem_decrypt D (eo_ciphertext obj) key"
    by (rule seal_decrypt_dealt(1) [OF _ _ dec valid]) (use h' ind enough sv fsts in auto)
  moreover have "seal_decrypt B D obj (BonehFranklinUserSecretKeys usks) (Some (BonehFranklinPublicKeys ?pks)) =
      dem_decrypt D (eo_ciphertext obj) key"
    by (rule seal_decrypt_dealt(2) [OF _ _ dec valid]) (use h' ind enough sv fsts in auto)
  moreover have "dem_decrypt D (eo_ciphertext obj) key = Ok (plaintext input key)"
    using h' dem_roundtrip [OF D] by simp
  ultimately show "seal_decrypt B D obj (BonehFranklinUserSecretKeys usks) None = Ok (plaintext input key)"
    "seal_decrypt B D obj (BonehFranklinUserSecretKeys usks) (Some (BonehFranklinPublicKeys ?pks)) = Ok (plaintext input key)"
    by simp_all
qed

subsection \<open>Absence of panics\<close>

text \<open>The third-party decoders return: they report bad input as an error.\<close>

definition decoders_return :: "('s, 'g1, 'g2, 'gt, 'r) bls_ops \<Rightarrow> dem_prims \<Rightarrow> bool" where
  "decoders_return B D \<longleftrightarrow>
     (\<forall>b. scalar_from_bytes B b \<noteq> Panic) \<and> (\<forall>key iv aad c. aes_decrypt D key iv aad c \<noteq> Panic)"

lemma reconstruct_not_Panic:
  "combine KEY_SIZE shares \<noteq> Panic" "interpolate KEY_SIZE shares \<noteq> Panic"
  "interpolate KEY_SIZE shares = Ok f \<Longrightarrow> f x \<noteq> Panic"
proof -
  have "combine KEY_SIZE shares \<noteq> Panic \<and> interpolate KEY_SIZE shares \<noteq> Panic \<and>
      (interpolate KEY_SIZE shares = Ok f \<longrightarrow> f x \<noteq> Panic)"
  proof (cases "valid_shares shares")
    case True
    then obtain P where "interpolate KEY_SIZE shares = Ok (\<lambda>x. Ok (deal KEY_SIZE P x))"
      "combine KEY_SIZE shares = Ok (deal KEY_SIZE P 0)"
      using reconstruct_valid [of shares KEY_SIZE] by metis
    then show ?thesis by auto
  next
    case False
    then show ?thesis using reconstruct_invalid(1) [of shares KEY_SIZE] reconstruct_invalid(2) [of shares 31]
      by (simp add: KEY_SIZE_def)
  qed
  then show "combine KEY_SIZE shares \<noteq> Panic" "interpolate KEY_SIZE shares \<noteq> Panic"
    "interpolate KEY_SIZE shares = Ok f \<Longrightarrow> f x \<noteq> Panic" by blast+
qed

lemma any_inconsistent_not_Panic: "(\<And>i. p i \<noteq> Panic) \<Longrightarrow> any_inconsistent p xs \<noteq> Panic"
  by (induction xs) (auto simp: and_then_Panic_iff split: if_splits)

lemma derive_key_not_Panic:
  "length cs = length ks \<Longrightarrow> derive_key B p k cs t ks \<noteq> Panic"
  by (simp add: derive_key_def)

lemma derive_key_length: "bls_laws B \<Longrightarrow> derive_key B p k cs t ks = Ok d \<Longrightarrow> length d = KEY_SIZE"
  by (auto simp: derive_key_def sha3_length split: if_splits)

lemma decrypt_randomness_not_Panic:
  "decoders_return B D \<Longrightarrow> length e = KEY_SIZE \<Longrightarrow> length k = KEY_SIZE \<Longrightarrow> decrypt_randomness B e k \<noteq> Panic"
  by (simp add: decrypt_randomness_def xor_arrays_Ok decoders_return_def)

lemma ibe_decrypt_not_Panic:
  assumes "bls_laws B" and "length ct = KEY_SIZE"
  shows "ibe_decrypt B nonce ct usk identity ifo \<noteq> Panic"
    and "decrypt_deterministic B r ct pk identity ifo \<noteq> Panic"
  using assms by (simp_all add: ibe_decrypt_def decrypt_deterministic_def Let_def xor_arrays_Ok kdf_length)

lemma dem_decrypt_not_Panic: "decoders_return B D \<Longrightarrow> dem_decrypt D ct key \<noteq> Panic"
  by (cases ct) (simp_all add: decoders_return_def aes256gcm_decrypt_def hmac256ctr_decrypt_def Let_def)

lemma combine_steps_not_Panic:
  assumes B: "bls_laws B" "decoders_return B D"
    and len: "length (ie_encrypted_shares e) = length services" "length (ie_encrypted_randomness e) = KEY_SIZE"
    and cs: "\<forall>c \<in> set (ie_encrypted_shares e). length c = KEY_SIZE"
  shows "combine_and_verify_nonce B e shares services t \<noteq> Panic"
    and "decrypt_all_shares_and_verify_nonce B e fid services pks bk t \<noteq> Panic"
    and "combine_and_check_share_consistency B e shares fid services t pks \<noteq> Panic"
proof -
  have rnd: "and_then (derive_key B EncryptedRandomness k (ie_encrypted_shares e) t (map fst services)) (\<lambda>rk.
      and_then (decrypt_randomness B (ie_encrypted_randomness e) rk) (\<lambda>r.
      and_then (verify_nonce B r (ie_nonce e)) (\<lambda>u. g r u))) \<noteq> Panic"
    if "\<And>r u. g r u \<noteq> Panic" for k :: bytes and g :: "'a \<Rightarrow> unit \<Rightarrow> ('x, fc_error) res"
    using that len derive_key_length [OF B(1)] decrypt_randomness_not_Panic [OF B(2) len(2)]
    by (intro and_then_not_Panic derive_key_not_Panic) (auto simp: verify_nonce_def)
  show "combine_and_verify_nonce B e shares services t \<noteq> Panic"
    unfolding combine_and_verify_nonce_def
    by (rule and_then_not_Panic [OF reconstruct_not_Panic(1)]) (rule rnd, simp)
  show all: "decrypt_all_shares_and_verify_nonce B e fid services pks bk t \<noteq> Panic" for bk
    unfolding decrypt_all_shares_and_verify_nonce_def ciphertexts_def
  proof (rule rnd)
    fix r u
    show "(case pks of BonehFranklinPublicKeys pks \<Rightarrow>
         if length pks \<noteq> length (ie_encrypted_shares e) then Err InvalidInput
         else collect_res (\<lambda>((pk, ct), service).
                and_then (decrypt_deterministic B r ct pk fid service) (\<lambda>plain. Ok (snd service, plain)))
              (zip (zip pks (ie_encrypted_shares e)) services)) \<noteq> Panic"
      using cs ibe_decrypt_not_Panic(2) [OF B(1)]
      by (auto split: ibe_public_keys.split intro!: collect_res_not_Panic simp: and_then_Panic_iff)
        (metis in_set_zipE)
  qed
  show "combine_and_check_share_consistency B e shares fid services t pks \<noteq> Panic"
    unfolding combine_and_check_share_consistency_def
    using reconstruct_not_Panic(2) reconstruct_not_Panic(3) all any_inconsistent_not_Panic
    by (intro and_then_not_Panic) auto
qed

subsection \<open>Properties\<close>

text \<open>C23: the outcome of encryption. A zero threshold, a threshold above the number of servers
  (reduced modulo 256, as the \<open>as u8\<close> cast does) or a wrong number of public keys is
  \<open>InvalidInput\<close>; otherwise encryption succeeds for up to 255 servers, with one service per
  server numbered from 1, and panics in \<open>derive_key\<close> for 256 or more.\<close>

theorem seal_encrypt_outcome:
  assumes "bls_laws B" and "rng_fills R"
  shows "let n = length key_servers;
      out = seal_encrypt B D R rng package_id inner key_servers (BonehFranklinPublicKeys pks) threshold input
    in if threshold = 0 \<or> threshold > of_nat n \<or> length pks \<noteq> n mod 256 then out = Err InvalidInput
       else if 256 \<le> n then out = Panic
       else \<exists>obj key. out = Ok (obj, key) \<and> length key = 32 \<and> eo_version obj = 0 \<and>
              eo_threshold obj = threshold \<and> eo_services obj = zip key_servers (map of_nat [1..<Suc n]) \<and>
              length (ie_encrypted_shares (eo_encrypted_shares obj)) = n"
proof -
  let ?n = "length key_servers"
  let ?out = "seal_encrypt B D R rng package_id inner key_servers (BonehFranklinPublicKeys pks) threshold input"
  have un: "unat (of_nat ?n :: u8) = ?n mod 256" by (simp add: unat_of_nat)
  have "\<exists>obj key. ?out = Ok (obj, key) \<and> length key = 32 \<and> eo_version obj = 0 \<and>
              eo_threshold obj = threshold \<and> eo_services obj = zip key_servers (map of_nat [1..<Suc ?n]) \<and>
              length (ie_encrypted_shares (eo_encrypted_shares obj)) = ?n"
    if ok: "threshold \<noteq> 0" "threshold \<le> of_nat ?n" "length pks = ?n mod 256" "?n < 256"
  proof -
    have "unat threshold \<le> ?n" using ok(2) un ok(4) by (simp add: word_le_nat_alt)
    moreover have "length pks = ?n" using ok by simp
    ultimately show ?thesis
      using seal_encrypt_parts [OF assms ok(4) _ ok(1)] sha3_length [OF assms(1)]
      by (metis (no_types, lifting) KEY_SIZE_def derive_key_def encrypted_object.select_convs(1,4,5,6)
          ibe_encryptions.sel(2) res.distinct(3) res.inject(1) share_indices_of_def)
  qed
  note fits_Ok = this
  consider (bad) "threshold = 0 \<or> threshold > of_nat ?n \<or> length pks \<noteq> ?n mod 256"
    | (truncated) "\<not> (threshold = 0 \<or> threshold > of_nat ?n \<or> length pks \<noteq> ?n mod 256)" "256 \<le> ?n"
    | (fits) "\<not> (threshold = 0 \<or> threshold > of_nat ?n \<or> length pks \<noteq> ?n mod 256)" "\<not> 256 \<le> ?n"
    by blast
  then show ?thesis
  proof cases
    case bad
    then have "?out = Err InvalidInput" by (intro seal_encrypt_rejects [OF assms(2)]) (simp add: un)
    then show ?thesis unfolding Let_def if_P [OF bad] .
  next
    case truncated
    then have "?out = Panic" by (intro seal_encrypt_truncated [OF assms]) (auto simp: un linorder_not_less)
    then show ?thesis unfolding Let_def if_not_P [OF truncated(1)] if_P [OF truncated(2)] .
  next
    case fits
    then show ?thesis
      unfolding Let_def if_not_P [OF fits(1)] if_not_P [OF fits(2)] by (intro fits_Ok) auto
  qed
qed

theorem seal_encrypt_outcome_witness:
  "seal_encrypt gf_bls demo_prims tape_rng [] [1] [2] (replicate 257 [3]) (BonehFranklinPublicKeys [GF256 5]) 1
     InPlain = Panic"
  using seal_encrypt_outcome [OF gf_bls_laws(1) tape_rng_fills, of "replicate 257 [3]" demo_prims "[]" "[1]" "[2]"
      "[GF256 5]" 1 InPlain]
  by (simp add: Let_def)

text \<open>C3: the round trip. An encrypted object is decrypted to the plaintext by every set of user
  secret keys that covers at least \<open>threshold\<close> of the servers and is right for the servers it
  covers, both with and without the check of all shares against the public keys.\<close>

theorem seal_roundtrip:
  assumes B: "bls_laws B" and R: "rng_fills R" and D: "hmac_len D" "aes_correct D"
    and enc: "seal_encrypt B D R rng package_id inner key_servers
        (BonehFranklinPublicKeys (map (public_key_from_master_key B) master_keys)) threshold input = Ok (obj, key)"
    and keys: "list_all (\<lambda>i. case usks (key_servers ! i) of None \<Rightarrow> True
        | Some u \<Rightarrow> u = ibe_extract B (master_keys ! i) (package_id @ inner)) [0..<length key_servers]"
    and enough: "unat threshold \<le> length (filter (\<lambda>k. usks k \<noteq> None) key_servers)"
  shows "seal_decrypt B D obj (BonehFranklinUserSecretKeys usks) None = Ok (plaintext input key) \<and>
    seal_decrypt B D obj (BonehFranklinUserSecretKeys usks)
      (Some (BonehFranklinPublicKeys (map (public_key_from_master_key B) master_keys))) = Ok (plaintext input key)"
  using seal_decrypt_honest [OF assms] by simp

lemma demo_encrypts:
  "\<exists>obj key. seal_encrypt gf_bls demo_prims tape_rng [9, 8, 7] [1] [2] [[11], [12], [13]]
     (BonehFranklinPublicKeys (map (public_key_from_master_key gf_bls) [GF256 5, GF256 6, GF256 7])) 2
     (InHmac256Ctr [1, 2, 3] None) = Ok (obj, key)"
  by (rule seal_encrypt_parts [OF gf_bls_laws(1) tape_rng_fills, of "[[11], [12], [13]]"
        "map (public_key_from_master_key gf_bls) [GF256 5, GF256 6, GF256 7]" 2 "[1]" "[2]"
        demo_prims "[9, 8, 7]" "InHmac256Ctr [1, 2, 3] None"]) (simp, simp, simp, simp, blast)

theorem seal_roundtrip_witness:
  "\<exists>obj key. seal_encrypt gf_bls demo_prims tape_rng [9, 8, 7] [1] [2] [[11], [12], [13]]
       (BonehFranklinPublicKeys (map (public_key_from_master_key gf_bls) [GF256 5, GF256 6, GF256 7])) 2
       (InHmac256Ctr [1, 2, 3] None) = Ok (obj, key) \<and>
     seal_decrypt gf_bls demo_prims obj (BonehFranklinUserSecretKeys
       [[11] \<mapsto> ibe_extract gf_bls (GF256 5) [1, 2], [13] \<mapsto> ibe_extract gf_bls (GF256 7) [1, 2]]) None = Ok [1, 2, 3]"
proof -
  obtain obj key where enc: "seal_encrypt gf_bls demo_prims tape_rng [9, 8, 7] [1] [2] [[11], [12], [13]]
       (BonehFranklinPublicKeys (map (public_key_from_master_key gf_bls) [GF256 5, GF256 6, GF256 7])) 2
       (InHmac256Ctr [1, 2, 3] None) = Ok (obj, key)"
    using demo_encrypts by blast
  from seal_roundtrip [OF gf_bls_laws(1) tape_rng_fills demo_prims_laws(1,3) enc,
      of "[[11] \<mapsto> ibe_extract gf_bls (GF256 5) [1, 2], [13] \<mapsto> ibe_extract gf_bls (GF256 7) [1, 2]]"]
  show ?thesis using enc by (auto simp: upt_conv_Cons)
qed

text \<open>C5: a checked decryption is consistent. Once decryption with the check of all shares
  succeeds for one set of right user keys, every set of right user keys that covers at least
  as many services decrypts to the same message, with or without the check, whatever the
  sender put in the object; only a repeated or zero share index makes it fail.\<close>

theorem seal_decrypt_consistent:
  assumes B: "bls_laws B"
    and keys: "right_keys B obj master_keys usks" "right_keys B obj master_keys usks'"
    and ok: "seal_decrypt B D obj (BonehFranklinUserSecretKeys usks)
      (Some (BonehFranklinPublicKeys (map (public_key_from_master_key B) master_keys))) = Ok m"
    and more: "length (service_indices (eo_services obj) usks) \<le> length (service_indices (eo_services obj) usks')"
  shows "list_all (\<lambda>pks'. seal_decrypt B D obj (BonehFranklinUserSecretKeys usks') pks' =
      (if distinct (map (\<lambda>i. snd (eo_services obj ! i)) (service_indices (eo_services obj) usks')) \<and>
          0 \<notin> set (map (\<lambda>i. snd (eo_services obj ! i)) (service_indices (eo_services obj) usks'))
       then Ok m else Err InvalidInput))
    [None, Some (BonehFranklinPublicKeys (map (public_key_from_master_key B) master_keys))]"
proof -
  let ?pks = "map (public_key_from_master_key B) master_keys" and ?sv = "eo_services obj"
  let ?e = "eo_encrypted_shares obj" and ?fid = "create_full_id (eo_package_id obj) (eo_id obj)"
  let ?ind' = "service_indices ?sv usks'"
  obtain Q r rk dk where p: "checked_polynomial B D obj usks ?pks m Q r rk dk"
    using seal_decrypt_checked_polynomial [OF ok] by blast
  note p' = p [unfolded checked_polynomial_def]
  have dec: "ibe_decrypt B (ie_nonce ?e) (ie_encrypted_shares ?e ! i) u ?fid (?sv ! i) =
      Ok (deal KEY_SIZE Q (snd (?sv ! i)))" if "i < length ?sv" "usks' (fst (?sv ! i)) = Some u" for i u
  proof -
    have pk: "?pks ! i = public_key_from_master_key B (master_keys ! i)" using that(1) p' by simp
    have "decrypt_deterministic B r (ie_encrypted_shares ?e ! i) (?pks ! i) ?fid (?sv ! i) =
        Ok (deal KEY_SIZE Q (snd (?sv ! i)))" using p' that(1) by blast
    then show ?thesis
      using p' right_keysD [OF keys(2) that] unfolding pk by (simp add: ibe_decrypt_deterministic [OF B])
  qed
  have Q: "length (Q i) \<le> length ?ind'" if "i < KEY_SIZE" for i using p' more that by force
  have thr: "unat (eo_threshold obj) \<le> length ?ind'" using p' more by linarith
  let ?shares' = "map (\<lambda>i. (snd (?sv ! i), deal KEY_SIZE Q (snd (?sv ! i)))) ?ind'"
  show ?thesis
  proof (cases "valid_shares ?shares'")
    case True
    have "seal_decrypt B D obj (BonehFranklinUserSecretKeys usks') None = Ok m"
      by (subst seal_decrypt_dealt(1) [OF _ _ dec True Q thr, of rk r dk]) (use p' in auto)
    moreover have "seal_decrypt B D obj (BonehFranklinUserSecretKeys usks') (Some (BonehFranklinPublicKeys ?pks)) = Ok m"
      by (subst seal_decrypt_dealt(2) [OF _ _ dec True Q thr, of rk r dk]) (use p' in auto)
    ultimately show ?thesis using True by (simp add: valid_service_shares)
  next
    case False
    have "collect_res (decrypt_service_share B ?e ?fid ?sv usks') ?ind' = Ok ?shares'"
      by (rule decrypt_shares_eq) (rule dec)
    then have "seal_decrypt B D obj (BonehFranklinUserSecretKeys usks') pks = Err InvalidInput" for pks
      using p' False by (intro seal_decrypt_invalid) auto
    moreover have "?ind' \<noteq> []" using p' more by auto
    ultimately show ?thesis using False by (auto simp: valid_service_shares)
  qed
qed

theorem seal_decrypt_consistent_witness:
  "\<exists>obj key. seal_encrypt gf_bls demo_prims tape_rng [9, 8, 7] [1] [2] [[11], [12], [13]]
       (BonehFranklinPublicKeys (map (public_key_from_master_key gf_bls) [GF256 5, GF256 6, GF256 7])) 2
       (InHmac256Ctr [1, 2, 3] None) = Ok (obj, key) \<and>
     seal_decrypt gf_bls demo_prims obj (BonehFranklinUserSecretKeys
       [[12] \<mapsto> ibe_extract gf_bls (GF256 6) [1, 2], [13] \<mapsto> ibe_extract gf_bls (GF256 7) [1, 2]]) None = Ok [1, 2, 3]"
proof -
  let ?msks = "[GF256 5, GF256 6, GF256 7]"
  let ?u = "[[11] \<mapsto> ibe_extract gf_bls (GF256 5) [1, 2], [13] \<mapsto> ibe_extract gf_bls (GF256 7) [1, 2]]"
  let ?u' = "[[12] \<mapsto> ibe_extract gf_bls (GF256 6) [1, 2], [13] \<mapsto> ibe_extract gf_bls (GF256 7) [1, 2]]"
  obtain obj key where enc: "seal_encrypt gf_bls demo_prims tape_rng [9, 8, 7] [1] [2] [[11], [12], [13]]
       (BonehFranklinPublicKeys (map (public_key_from_master_key gf_bls) ?msks)) 2
       (InHmac256Ctr [1, 2, 3] None) = Ok (obj, key)"
    using demo_encrypts by blast
  then obtain Q r rk where "honest_object gf_bls demo_prims (InHmac256Ctr [1, 2, 3] None) obj key
      (map (public_key_from_master_key gf_bls) ?msks) [1] [2] [[11], [12], [13]] 2 Q r rk"
    using seal_encrypt_honest [OF gf_bls_laws(1) tape_rng_fills] by blast
  then have sv: "eo_services obj = [([11], 1), ([12], 2), ([13], 3)]" "eo_package_id obj = [1]" "eo_id obj = [2]"
    by (simp_all add: honest_object_def share_indices_of_def upt_conv_Cons)
  have "seal_decrypt gf_bls demo_prims obj (BonehFranklinUserSecretKeys ?u)
      (Some (BonehFranklinPublicKeys (map (public_key_from_master_key gf_bls) ?msks))) = Ok [1, 2, 3]"
    using seal_decrypt_honest [OF gf_bls_laws(1) tape_rng_fills demo_prims_laws(1,3) enc, of ?u]
    by (simp add: upt_conv_Cons)
  from seal_decrypt_consistent [OF gf_bls_laws(1) _ _ this, of ?u'] enc show ?thesis
    by (simp add: right_keys_def sv service_indices_def upt_conv_Cons create_full_id_def)
qed

text \<open>C16: decryption never panics, whatever the encrypted object, the user keys and the public
  keys contain: with ciphertexts of the array size, the internal assertion on the number of
  shares, the array conversions and the map lookup are never reached with bad data.\<close>

theorem seal_decrypt_never_panics:
  assumes B: "bls_laws B" "decoders_return B D"
    and arrays: "list_all (\<lambda>c. length c = 32) (ie_encrypted_shares (eo_encrypted_shares obj))"
      "length (ie_encrypted_randomness (eo_encrypted_shares obj)) = 32"
  shows "seal_decrypt B D obj user_secret_keys public_keys \<noteq> Panic"
proof -
  obtain usks where u: "user_secret_keys = BonehFranklinUserSecretKeys usks" by (cases user_secret_keys)
  let ?e = "eo_encrypted_shares obj" and ?sv = "eo_services obj"
  let ?fid = "create_full_id (eo_package_id obj) (eo_id obj)"
  have cs: "\<forall>c \<in> set (ie_encrypted_shares ?e). length c = KEY_SIZE" "length (ie_encrypted_randomness ?e) = KEY_SIZE"
    using arrays by (simp_all add: list_all_iff KEY_SIZE_def)
  show ?thesis
  proof (cases "length (ie_encrypted_shares ?e) = length ?sv")
    case True
    have "decrypt_service_share B ?e ?fid ?sv usks i \<noteq> Panic" if i: "i \<in> set (service_indices ?sv usks)" for i
    proof -
      have "length (ie_encrypted_shares ?e ! i) = KEY_SIZE" "usks (fst (?sv ! i)) \<noteq> None"
        using i True cs(1) by (auto simp: service_indices_set)
      then show ?thesis using ibe_decrypt_not_Panic(1) [OF B(1)]
        by (auto simp: decrypt_service_share_def and_then_Panic_iff split: prod.splits)
    qed
    then have "collect_res (decrypt_service_share B ?e ?fid ?sv usks) (service_indices ?sv usks) \<noteq> Panic"
      by (rule collect_res_not_Panic)
    moreover have "derive_key B p k (ie_encrypted_shares ?e) t (map fst ?sv) \<noteq> Panic" for p k t
      using True by (intro derive_key_not_Panic) simp
    ultimately show ?thesis
      using True combine_steps_not_Panic [OF B True cs(2,1)] dem_decrypt_not_Panic [OF B(2)]
      by (auto simp: seal_decrypt_def Let_def u and_then_Panic_iff ciphertexts_def split: option.splits)
  next
    case False
    then show ?thesis by (simp add: seal_decrypt_def Let_def u)
  qed
qed

theorem seal_decrypt_never_panics_witness:
  "seal_decrypt gf_bls demo_prims \<lparr>eo_version = 0, eo_package_id = [1], eo_id = [2],
      eo_services = [([11], 0), ([11], 7)], eo_threshold = 0,
      eo_encrypted_shares = BonehFranklinEncryptions (GF256 1) [replicate 32 4, replicate 32 5] (replicate 32 6),
      eo_ciphertext = CtPlain\<rparr> (BonehFranklinUserSecretKeys [[11] \<mapsto> GF256 9]) None \<noteq> Panic"
  by (rule seal_decrypt_never_panics [OF gf_bls_laws(1)])
    (simp_all add: decoders_return_def gf_bls_def demo_prims_def)

end
