(* ===== verification/Errors.thy ===== *)
theory Errors
  imports Prelude
begin

text \<open>
  \<^verbatim>\<open>crates/key-server/src/errors.rs\<close> and \<^verbatim>\<open>crates/key-server/src/time.rs\<close>: the errors of the
  key server, the HTTP response each becomes, and time arithmetic in machine integers.

  The response is computed in two steps as in the code: an error gives a name and a message,
  and the status is chosen by comparing the name with strings. A \<open>Duration\<close> is a natural
  number of milliseconds. The clock reading is an argument.
\<close>

subsection \<open>Errors\<close>

datatype internal_error =
    InvalidPTB string
  | InvalidPackage
  | NoAccess string
  | InvalidSignature
  | InvalidSessionSignature
  | InvalidCertificate
  | InvalidSDKType
  | InvalidSDKVersion
  | DeprecatedSDKVersion
  | MissingRequiredHeader string
  | InvalidParameter string
  | InvalidMVRName
  | InvalidServiceId
  | UnsupportedPackageId
  | Failure string

record error_response =
  er_error :: string
  er_message :: string

datatype status_code = FORBIDDEN | BAD_REQUEST | UPGRADE_REQUIRED | SERVICE_UNAVAILABLE

fun error_as_str :: "internal_error \<Rightarrow> string" where
  "error_as_str (InvalidPTB _) = ''InvalidPTB''"
| "error_as_str InvalidPackage = ''InvalidPackage''"
| "error_as_str (NoAccess _) = ''NoAccess''"
| "error_as_str InvalidCertificate = ''InvalidCertificate''"
| "error_as_str InvalidSignature = ''InvalidSignature''"
| "error_as_str InvalidSessionSignature = ''InvalidSessionSignature''"
| "error_as_str InvalidSDKType = ''InvalidSDKType''"
| "error_as_str InvalidSDKVersion = ''InvalidSDKVersion''"
| "error_as_str DeprecatedSDKVersion = ''DeprecatedSDKVersion''"
| "error_as_str (MissingRequiredHeader _) = ''MissingRequiredHeader''"
| "error_as_str (InvalidParameter _) = ''InvalidParameter''"
| "error_as_str InvalidMVRName = ''InvalidMVRName''"
| "error_as_str InvalidServiceId = ''InvalidServiceId''"
| "error_as_str UnsupportedPackageId = ''UnsupportedPackageId''"
| "error_as_str (Failure _) = ''Failure''"

fun error_message :: "internal_error \<Rightarrow> string" where
  "error_message (InvalidPTB inner) = ''Invalid PTB: '' @ inner"
| "error_message InvalidPackage = ''Invalid package ID''"
| "error_message (NoAccess inner) = ''Access denied: '' @ inner"
| "error_message InvalidCertificate = ''Invalid certificate time or ttl''"
| "error_message InvalidSignature = ''Invalid user signature''"
| "error_message InvalidSDKType = ''Invalid SDK type''"
| "error_message InvalidSDKVersion = ''Invalid SDK version''"
| "error_message DeprecatedSDKVersion = ''Deprecated SDK version''"
| "error_message (MissingRequiredHeader inner) = ''Missing required header: '' @ inner"
| "error_message InvalidSessionSignature = ''Invalid session key signature''"
| "error_message (InvalidParameter inner) = ''Invalid parameter to PTB: '' @ inner"
| "error_message InvalidMVRName = ''Invalid MVR name''"
| "error_message InvalidServiceId = ''Invalid service ID''"
| "error_message UnsupportedPackageId = ''Unsupported package ID''"
| "error_message (Failure _) = ''Internal server error, please try again later''"

definition error_response_of :: "internal_error \<Rightarrow> error_response" where
  "error_response_of err = \<lparr>er_error = error_as_str err, er_message = error_message err\<rparr>"

definition error_status :: "error_response \<Rightarrow> status_code" where
  "error_status r =
     (if er_error r \<in> {''InvalidPTB'', ''InvalidPackage'', ''NoAccess'', ''InvalidCertificate'',
          ''InvalidSignature'', ''InvalidSessionSignature'', ''InvalidParameter'', ''InvalidMVRName''}
      then FORBIDDEN
      else if er_error r \<in> {''InvalidSDKType'', ''InvalidSDKVersion'', ''InvalidServiceId'',
          ''UnsupportedPackageId'', ''MissingRequiredHeader''}
      then BAD_REQUEST
      else if er_error r = ''DeprecatedSDKVersion'' then UPGRADE_REQUIRED
      else SERVICE_UNAVAILABLE)"

definition into_response :: "internal_error \<Rightarrow> status_code \<times> error_response" where
  "into_response err = (let r = error_response_of err in (error_status r, r))"

subsection \<open>Time\<close>

type_synonym duration = nat

definition duration_since :: "u64 \<Rightarrow> u64 \<Rightarrow> u64 \<times> bool" where
  "duration_since now offset =
     (if offset \<le> now then (now - offset, True) else (offset - now, False))"

definition checked_duration_since :: "u64 \<Rightarrow> u64 \<Rightarrow> duration option" where
  "checked_duration_since now offset =
     (case duration_since now offset of
        (d, True) \<Rightarrow> Some (unat d)
      | (d, False) \<Rightarrow> None)"

text \<open>The multiplication is on \<open>u16\<close>. This is the release build, in which it wraps; a build with overflow
  checks panics from 1093 minutes on.\<close>

definition from_mins :: "u16 \<Rightarrow> duration" where
  "from_mins mins = unat (ucast (mins * 60) :: u64) * 1000"

lemma unat_u16_less: "unat (m :: u16) < 65536"
  using unsigned_less [of m] by simp

lemma from_mins_eq: "from_mins m = unat m * 60 mod 65536 * 1000"
proof -
  have "unat (ucast (m * 60) :: u64) = unat (m * 60)"
    using unat_u16_less [of "m * 60"] by (simp add: unsigned_ucast_eq take_bit_nat_eq_self)
  also have "\<dots> = unat m * 60 mod 65536" by (simp add: unat_word_ariths)
  finally show ?thesis by (simp add: from_mins_def)
qed

lemma checked_duration_since_eq:
  "checked_duration_since now offset = (if offset \<le> now then Some (unat now - unat offset) else None)"
  by (simp add: checked_duration_since_def duration_since_def unat_sub)

subsection \<open>Properties\<close>

text \<open>every error has the status of its class. Only \<open>Failure\<close> falls through to the default
  status 503, the string comparison recognises every other error, and the response to a
  \<open>Failure\<close> does not reveal its debug message.\<close>

theorem error_responses:
  "fst (into_response err) =
     (case err of
        Failure _ \<Rightarrow> SERVICE_UNAVAILABLE
      | DeprecatedSDKVersion \<Rightarrow> UPGRADE_REQUIRED
      | InvalidSDKType \<Rightarrow> BAD_REQUEST | InvalidSDKVersion \<Rightarrow> BAD_REQUEST | InvalidServiceId \<Rightarrow> BAD_REQUEST
      | UnsupportedPackageId \<Rightarrow> BAD_REQUEST | MissingRequiredHeader _ \<Rightarrow> BAD_REQUEST
      | _ \<Rightarrow> FORBIDDEN) \<and>
   into_response (Failure s) = into_response (Failure s')"
  by (cases err) (simp_all add: into_response_def error_status_def error_response_of_def)

text \<open>the conversion of minutes is exact precisely up to 1092 minutes; from 1093 minutes on
  the 16-bit product wraps, so 1093 minutes become 44 seconds and no argument gives more than
  65535 seconds.\<close>

theorem from_mins_exact:
  "(from_mins mins = unat mins * 60000 \<longleftrightarrow> unat mins \<le> 1092) \<and>
   from_mins mins \<le> 65535000 \<and> from_mins 1093 = 44000"
proof -
  have "unat mins * 60 mod 65536 = unat mins * 60 \<longleftrightarrow> unat mins * 60 < 65536"
    by (metis mod_less mod_less_divisor zero_less_numeral)
  then have "from_mins mins = unat mins * 60000 \<longleftrightarrow> unat mins \<le> 1092"
    unfolding from_mins_eq by auto
  moreover have "unat mins * 60 mod 65536 \<le> 65535"
    using mod_less_divisor [of 65536 "unat mins * 60"] by linarith
  ultimately show ?thesis by (simp add: from_mins_eq)
qed

end
