(* ===== verification/Ptb.thy ===== *)
theory Ptb
  imports Errors SealCrypto
begin

text \<open>
  \<^verbatim>\<open>crates/key-server/src/valid_ptb.rs\<close> and \<^verbatim>\<open>crates/key-server/src/seal_package.rs\<close>: the
  restrictions on a programmable transaction that evaluates a policy, the key identities it
  asks for, and the staleness check the server puts in front of it.

  Transactions are a third-party type of which the code reads only some constructors; the
  others are \<open>OtherArgument\<close>, \<open>OtherArg\<close> and \<open>OtherCommand\<close>. The decoders (Base64, BCS of
  a transaction and of a byte vector) and the encoder of a \<open>u64\<close> are the record \<open>ptb_codec\<close>.
\<close>

datatype argument = Input u16 | OtherArgument
datatype call_arg = Pure bytes | SharedObject object_id | OtherArg

record move_call =
  mc_package :: object_id
  mc_module :: string
  mc_function :: string
  mc_arguments :: "argument list"

datatype command = MoveCall move_call | OtherCommand

record programmable_transaction =
  ptb_inputs :: "call_arg list"
  ptb_commands :: "command list"

record ptb_codec =
  base64_decode :: "string \<Rightarrow> bytes option"
  bcs_ptb :: "bytes \<Rightarrow> programmable_transaction option"
  bcs_byte_vec :: "bytes \<Rightarrow> bytes option"
  pure_u64 :: "u64 \<Rightarrow> bytes"

datatype valid_ptb = ValidPtb (the_ptb: programmable_transaction)

subsection \<open>Validation\<close>

definition MAX_COMMANDS :: nat where
  "MAX_COMMANDS = 100"

definition get_key_id ::
  "ptb_codec \<Rightarrow> programmable_transaction \<Rightarrow> move_call \<Rightarrow> (bytes, internal_error) res" where
  "get_key_id K ptb cmd =
     (case mc_arguments cmd of
        [] \<Rightarrow> Err (InvalidPTB ''Empty args'')
      | OtherArgument # _ \<Rightarrow> Err (InvalidPTB ''Invalid index for first argument'')
      | Input arg_idx # _ \<Rightarrow>
          (if unat arg_idx < length (ptb_inputs ptb)
           then case ptb_inputs ptb ! unat arg_idx of
               Pure raw \<Rightarrow>
                 ok_or (InvalidPTB ''Invalid BCS for first parameter for seal_approve'') (bcs_byte_vec K raw)
             | _ \<Rightarrow> Err (InvalidPTB ''Invalid first parameter for seal_approve'')
           else Err (InvalidPTB ''Invalid first parameter for seal_approve'')))"

definition starts_with :: "string \<Rightarrow> string \<Rightarrow> bool" where
  "starts_with s prefix \<longleftrightarrow> take (length prefix) s = prefix"

fun check_command ::
  "ptb_codec \<Rightarrow> programmable_transaction \<Rightarrow> object_id \<Rightarrow> command \<Rightarrow> (unit, internal_error) res" where
  "check_command K ptb pkg_id OtherCommand = Err (InvalidPTB ''Non MoveCall command'')"
| "check_command K ptb pkg_id (MoveCall cmd) =
     (if list_ex (\<lambda>arg. case arg of Input _ \<Rightarrow> False | OtherArgument \<Rightarrow> True) (mc_arguments cmd)
      then Err (InvalidPTB ''Only pure inputs are allowed'')
      else and_then (get_key_id K ptb cmd) (\<lambda>_.
        if \<not> starts_with (mc_function cmd) ''seal_approve'' \<or> mc_package cmd \<noteq> pkg_id
        then Err (InvalidPTB ''Invalid function or package id'') else Ok ()))"

definition valid_ptb_try_from ::
  "ptb_codec \<Rightarrow> programmable_transaction \<Rightarrow> (valid_ptb, internal_error) res" where
  "valid_ptb_try_from K ptb =
     (if length (ptb_commands ptb) > MAX_COMMANDS
      then Err (InvalidPTB ''Too many commands in PTB (more than 100)'')
      else if ptb_inputs ptb = [] \<or> ptb_commands ptb = []
      then Err (InvalidPTB ''Empty PTB input or command'')
      else case ptb_commands ptb ! 0 of
          OtherCommand \<Rightarrow> Err (InvalidPTB ''Invalid first command'')
        | MoveCall first_cmd \<Rightarrow>
            and_then (collect_res (check_command K ptb (mc_package first_cmd)) (ptb_commands ptb)) (\<lambda>_.
              Ok (ValidPtb ptb)))"

definition try_from_base64 :: "ptb_codec \<Rightarrow> string \<Rightarrow> (valid_ptb, internal_error) res" where
  "try_from_base64 K s =
     and_then (ok_or (InvalidPTB ''Invalid Base64'') (base64_decode K s)) (\<lambda>b.
     and_then (ok_or (InvalidPTB ''Invalid BCS'') (bcs_ptb K b)) (valid_ptb_try_from K))"

subsection \<open>Identities\<close>

definition inner_ids :: "ptb_codec \<Rightarrow> valid_ptb \<Rightarrow> (bytes list, internal_error) res" where
  "inner_ids K v =
     collect_res (\<lambda>cmd. case cmd of OtherCommand \<Rightarrow> Panic
       | MoveCall c \<Rightarrow> expect (get_key_id K (the_ptb v) c)) (ptb_commands (the_ptb v))"

definition pkg_id :: "valid_ptb \<Rightarrow> (object_id, internal_error) res" where
  "pkg_id v =
     (case ptb_commands (the_ptb v) of
        MoveCall cmd # _ \<Rightarrow> Ok (mc_package cmd)
      | _ \<Rightarrow> Panic)"

definition full_ids :: "ptb_codec \<Rightarrow> valid_ptb \<Rightarrow> object_id \<Rightarrow> (bytes list, internal_error) res" where
  "full_ids K v first_pkg_id =
     and_then (inner_ids K v) (\<lambda>ids. Ok (map (create_full_id first_pkg_id) ids))"

subsection \<open>The staleness check\<close>

definition TESTNET_PACKAGE_ID :: string where
  "TESTNET_PACKAGE_ID = ''0xdccbeb87767be2b2346af5575eb139807205e4c23ec53dc616f951fe1d814112''"

definition MAINNET_PACKAGE_ID :: string where
  "MAINNET_PACKAGE_ID = ''0x931739224160073d8e391c9aa6e7ade9818e9814b4907066b7efa058636c4e45''"

definition STALENESS_ERROR_CODE :: u64 where "STALENESS_ERROR_CODE = 93492"
definition STALENESS_MODULE :: string where "STALENESS_MODULE = ''time''"
definition STALENESS_FUNCTION :: string where "STALENESS_FUNCTION = ''check_staleness''"

datatype seal_package = PkgTestnet | PkgMainnet | PkgCustom object_id

fun package_id :: "(string \<Rightarrow> object_id option) \<Rightarrow> seal_package \<Rightarrow> (object_id, internal_error) res" where
  "package_id from_hex PkgTestnet = expect (ok_or () (from_hex TESTNET_PACKAGE_ID))"
| "package_id from_hex PkgMainnet = expect (ok_or () (from_hex MAINNET_PACKAGE_ID))"
| "package_id from_hex (PkgCustom seal_package) = Ok seal_package"

text \<open>The part of a simulation response that the code reads: the error of its status.\<close>

record abort_location =
  al_package :: "string option"
  al_module :: "string option"

datatype error_details = Abort u64 "abort_location option" | OtherDetails

datatype execution_error_kind = FunctionNotFound | OtherErrorKind string

record execution_error =
  ee_kind :: execution_error_kind
  ee_description :: "string option"
  ee_details :: "error_details option"

record simulate_response =
  sim_error :: "execution_error option"

definition is_staleness_error ::
  "(string \<Rightarrow> object_id option) \<Rightarrow> (object_id \<Rightarrow> string) \<Rightarrow> seal_package \<Rightarrow> simulate_response \<Rightarrow>
   (bool, internal_error) res" where
  "is_staleness_error from_hex to_str p resp =
     (case Option.bind (sim_error resp) ee_details of
        Some (Abort abort_code (Some location)) \<Rightarrow>
          if abort_code = STALENESS_ERROR_CODE
          then and_then (package_id from_hex p) (\<lambda>pid.
            Ok (al_package location = Some (to_str pid) \<and> al_module location = Some STALENESS_MODULE))
          else Ok False
      | _ \<Rightarrow> Ok False)"

definition try_argument_from_input_index :: "nat \<Rightarrow> (argument, internal_error) res" where
  "try_argument_from_input_index input_index =
     (if input_index < 2 ^ 16 then Ok (Input (of_nat input_index))
      else Err (InvalidPTB ''Index out of bounds''))"

definition try_add_argument ::
  "programmable_transaction \<Rightarrow> call_arg \<Rightarrow> programmable_transaction \<times> (argument, internal_error) res" where
  "try_add_argument ptb arg =
     (let ptb' = ptb\<lparr>ptb_inputs := ptb_inputs ptb @ [arg]\<rparr>
      in (ptb', try_argument_from_input_index (length (ptb_inputs ptb') - 1)))"

fun position :: "('a \<Rightarrow> bool) \<Rightarrow> 'a list \<Rightarrow> nat option" where
  "position P [] = None"
| "position P (x # xs) = (if P x then Some 0 else map_option Suc (position P xs))"

definition add_staleness_check_to_ptb ::
  "ptb_codec \<Rightarrow> (string \<Rightarrow> object_id option) \<Rightarrow> object_id \<Rightarrow> u64 \<Rightarrow> seal_package \<Rightarrow> duration \<Rightarrow>
   programmable_transaction \<Rightarrow> (programmable_transaction, internal_error) res" where
  "add_staleness_check_to_ptb K from_hex clock_id current_time p allowed_staleness ptb =
     (let (ptb, now) = try_add_argument ptb (Pure (pure_u64 K current_time)) in
      and_then now (\<lambda>now.
      let (ptb, staleness) = try_add_argument ptb (Pure (pure_u64 K (of_nat allowed_staleness))) in
      and_then staleness (\<lambda>staleness.
      let (ptb, clock) =
        (case position (\<lambda>arg. arg = SharedObject clock_id) (ptb_inputs ptb) of
           Some i \<Rightarrow> (ptb, try_argument_from_input_index i)
         | None \<Rightarrow> try_add_argument ptb (SharedObject clock_id)) in
      and_then clock (\<lambda>clock.
      and_then (package_id from_hex p) (\<lambda>pid.
        let staleness_check = MoveCall \<lparr>mc_package = pid, mc_module = STALENESS_MODULE,
          mc_function = STALENESS_FUNCTION, mc_arguments = [now, staleness, clock]\<rparr>
        in Ok (ptb\<lparr>ptb_commands := staleness_check # ptb_commands ptb\<rparr>))))))"

subsection \<open>Lemmas\<close>

definition is_input :: "argument \<Rightarrow> bool" where
  "is_input arg \<longleftrightarrow> (case arg of Input _ \<Rightarrow> True | OtherArgument \<Rightarrow> False)"

text \<open>What validation requires of one command, and the identity it asks for.\<close>

text \<open>The first argument of a call is a pure input that decodes to the byte vector \<open>i\<close>, which may be
  empty.\<close>

definition asks_for :: "ptb_codec \<Rightarrow> programmable_transaction \<Rightarrow> move_call \<Rightarrow> bytes \<Rightarrow> bool" where
  "asks_for K ptb c i \<longleftrightarrow>
     (\<exists>k rest raw. mc_arguments c = Input k # rest \<and> unat k < length (ptb_inputs ptb) \<and>
        ptb_inputs ptb ! unat k = Pure raw \<and> bcs_byte_vec K raw = Some i)"

lemma get_key_id_Ok: "get_key_id K ptb c = Ok i \<longleftrightarrow> asks_for K ptb c i"
  by (auto simp: get_key_id_def asks_for_def ok_or_Ok_iff split: list.splits argument.splits call_arg.splits if_splits)

definition approves :: "ptb_codec \<Rightarrow> programmable_transaction \<Rightarrow> object_id \<Rightarrow> command \<Rightarrow> bool" where
  "approves K ptb pkg cmd =
     (case cmd of
        MoveCall c \<Rightarrow> mc_package c = pkg \<and> starts_with (mc_function c) ''seal_approve'' \<and>
          list_all is_input (mc_arguments c) \<and> (\<exists>i. asks_for K ptb c i)
      | OtherCommand \<Rightarrow> False)"

lemma approves_alt:
  "approves K ptb pkg cmd =
     (case cmd of
        MoveCall c \<Rightarrow> mc_package c = pkg \<and> starts_with (mc_function c) ''seal_approve'' \<and>
          list_all is_input (mc_arguments c) \<and> is_ok (get_key_id K ptb c)
      | OtherCommand \<Rightarrow> False)"
  by (cases cmd) (simp_all add: approves_def is_ok_iff get_key_id_Ok)

lemma get_key_id_Err:
  "get_key_id K ptb cmd \<noteq> Panic" "get_key_id K ptb cmd = Err e \<Longrightarrow> \<exists>m. e = InvalidPTB m"
  by (auto simp: get_key_id_def split: list.splits argument.splits call_arg.splits if_splits)

lemma check_command_Ok: "check_command K ptb pkg cmd = Ok () \<longleftrightarrow> approves K ptb pkg cmd"
proof (cases cmd)
  case (MoveCall c)
  have "list_ex (\<lambda>arg. case arg of Input _ \<Rightarrow> False | OtherArgument \<Rightarrow> True) (mc_arguments c) \<longleftrightarrow>
      \<not> list_all is_input (mc_arguments c)"
    by (auto simp: list_ex_iff list_all_iff is_input_def split: argument.splits)
  then show ?thesis by (cases "get_key_id K ptb c") (auto simp: MoveCall approves_alt)
qed (simp add: approves_alt)

lemma check_command_Err:
  "check_command K ptb pkg cmd \<noteq> Panic" "check_command K ptb pkg cmd = Err e \<Longrightarrow> \<exists>m. e = InvalidPTB m"
proof -
  have "check_command K ptb pkg cmd \<noteq> Panic \<and> (check_command K ptb pkg cmd = Err e \<longrightarrow> (\<exists>m. e = InvalidPTB m))" for e
  proof (cases cmd)
    case (MoveCall c)
    then show ?thesis using get_key_id_Err [of K ptb c] by (cases "get_key_id K ptb c") auto
  qed auto
  then show "check_command K ptb pkg cmd \<noteq> Panic"
    "check_command K ptb pkg cmd = Err e \<Longrightarrow> \<exists>m. e = InvalidPTB m" by blast+
qed

lemma valid_ptb_Ok:
  "valid_ptb_try_from K ptb = Ok v \<longleftrightarrow>
     v = ValidPtb ptb \<and> ptb_inputs ptb \<noteq> [] \<and> ptb_commands ptb \<noteq> [] \<and> length (ptb_commands ptb) \<le> 100 \<and>
     (\<exists>pkg. \<forall>cmd \<in> set (ptb_commands ptb). approves K ptb pkg cmd)"
proof (cases "ptb_commands ptb")
  case Nil
  then show ?thesis by (simp add: valid_ptb_try_from_def)
next
  case (Cons c cs)
  show ?thesis
  proof (cases c)
    case (MoveCall m)
    have "(\<exists>pkg. \<forall>cmd \<in> set (ptb_commands ptb). approves K ptb pkg cmd) \<longleftrightarrow>
        (\<exists>us. collect_res (check_command K ptb (mc_package m)) (ptb_commands ptb) = Ok us)"
      unfolding collect_unit_Ok check_command_Ok by (auto simp: Cons MoveCall approves_alt)
    then show ?thesis
      by (auto simp: valid_ptb_try_from_def Cons MoveCall MAX_COMMANDS_def res_simps)
  next
    case OtherCommand
    then show ?thesis by (auto simp: valid_ptb_try_from_def Cons approves_alt)
  qed
qed

lemma valid_ptb_ids:
  assumes "valid_ptb_try_from K ptb = Ok v"
  obtains pkg ids where "pkg_id v = Ok pkg" "inner_ids K v = Ok ids" "length ids = length (ptb_commands ptb)"
    "\<And>i. i < length ids \<Longrightarrow> \<exists>c. ptb_commands ptb ! i = MoveCall c \<and> mc_package c = pkg \<and> get_key_id K ptb c = Ok (ids ! i)"
proof -
  from assms obtain pkg where v: "v = ValidPtb ptb" and ne: "ptb_commands ptb \<noteq> []"
    and ap: "\<forall>cmd \<in> set (ptb_commands ptb). approves K ptb pkg cmd" by (auto simp: valid_ptb_Ok)
  let ?g = "\<lambda>cmd. case cmd of OtherCommand \<Rightarrow> Panic | MoveCall c \<Rightarrow> expect (get_key_id K ptb c)"
  have ex: "\<exists>c k. cmd = MoveCall c \<and> mc_package c = pkg \<and> get_key_id K ptb c = Ok k" if "cmd \<in> set (ptb_commands ptb)" for cmd
    using ap that by (cases cmd) (fastforce simp: approves_alt is_ok_iff)+
  have "\<exists>k. ?g cmd = Ok k" if "cmd \<in> set (ptb_commands ptb)" for cmd
    using ex [OF that] by auto
  then obtain ids where ids: "collect_res ?g (ptb_commands ptb) = (Ok ids :: (bytes list, internal_error) res)"
    using collect_res_exists [of "ptb_commands ptb" ?g] by blast
  note all = collect_res_all_Ok [OF ids]
  show thesis
  proof (rule that)
    obtain c cs where "ptb_commands ptb = MoveCall c # cs" "mc_package c = pkg"
      using ne ex by (cases "ptb_commands ptb") auto
    then show "pkg_id v = Ok pkg" by (simp add: pkg_id_def v)
    show "inner_ids K v = Ok ids" using ids unfolding inner_ids_def v valid_ptb.sel .
    show "length ids = length (ptb_commands ptb)" using all by simp
    show "\<exists>c. ptb_commands ptb ! i = MoveCall c \<and> mc_package c = pkg \<and> get_key_id K ptb c = Ok (ids ! i)"
      if "i < length ids" for i
      using all that ex [of "ptb_commands ptb ! i"] by (auto simp: res_simps)
  qed
qed

text \<open>The first input position of a valid command lies inside the inputs, so adding inputs at the
  end does not change the identity.\<close>

lemma get_key_id_more_inputs:
  assumes "get_key_id K ptb c = Ok k" and "ptb_inputs ptb' = ptb_inputs ptb @ extra"
  shows "get_key_id K ptb' c = Ok k"
  using assms by (auto simp: get_key_id_def nth_append split: list.splits argument.splits if_splits)

lemma position_Some: "position P xs = Some i \<Longrightarrow> i < length xs \<and> P (xs ! i)"
  by (induction xs arbitrary: i) (auto split: if_splits)

lemma try_argument_Ok:
  "i < 65536 \<Longrightarrow> try_argument_from_input_index i = Ok (Input (of_nat i)) \<and> unat (of_nat i :: u16) = i"
  by (simp add: try_argument_from_input_index_def unat_of_nat)

lemma add_staleness_check_Ok:
  assumes p: "package_id from_hex p = Ok pid" and len: "length (ptb_inputs ptb) + 3 \<le> 65536"
  obtains ptb' i j k extra where "add_staleness_check_to_ptb K from_hex clock_id now p allowed ptb = Ok ptb'"
    "ptb_inputs ptb' = ptb_inputs ptb @ extra" "length extra \<le> 3"
    "ptb_commands ptb' = MoveCall \<lparr>mc_package = pid, mc_module = STALENESS_MODULE,
       mc_function = STALENESS_FUNCTION, mc_arguments = [Input i, Input j, Input k]\<rparr> # ptb_commands ptb"
    "unat i < length (ptb_inputs ptb')" "ptb_inputs ptb' ! unat i = Pure (pure_u64 K now)"
    "unat j < length (ptb_inputs ptb')" "ptb_inputs ptb' ! unat j = Pure (pure_u64 K (of_nat allowed))"
    "unat k < length (ptb_inputs ptb')" "ptb_inputs ptb' ! unat k = SharedObject clock_id"
proof -
  let ?n = "length (ptb_inputs ptb)"
  let ?ins = "ptb_inputs ptb @ [Pure (pure_u64 K now), Pure (pure_u64 K (of_nat allowed))]"
  note idx = try_argument_Ok [of ?n] try_argument_Ok [of "?n + 1"] try_argument_Ok [of "?n + 2"]
  show thesis
  proof (cases "position (\<lambda>arg. arg = SharedObject clock_id) ?ins")
    case None
    show thesis
      by (rule that [of _ "[Pure (pure_u64 K now), Pure (pure_u64 K (of_nat allowed)), SharedObject clock_id]"
            "of_nat ?n" "of_nat (?n + 1)" "of_nat (?n + 2)"])
        (use len idx None in \<open>auto simp: add_staleness_check_to_ptb_def try_add_argument_def Let_def p nth_append\<close>)
  next
    case (Some m)
    then have m: "m < length ?ins" "?ins ! m = SharedObject clock_id" using position_Some by fastforce+
    then have "m < 65536" using len by simp
    note idm = try_argument_Ok [OF this]
    show thesis
      by (rule that [of _ "[Pure (pure_u64 K now), Pure (pure_u64 K (of_nat allowed))]"
            "of_nat ?n" "of_nat (?n + 1)" "of_nat m"])
        (use len idx idm m Some in \<open>auto simp: add_staleness_check_to_ptb_def try_add_argument_def Let_def p nth_append\<close>)
  qed
qed

lemma valid_ptb_cases:
  "case valid_ptb_try_from K ptb of
     Ok v \<Rightarrow> v = ValidPtb ptb \<and> 1 \<le> length (ptb_inputs ptb) \<and>
       1 \<le> length (ptb_commands ptb) \<and> length (ptb_commands ptb) \<le> 100 \<and>
       (\<exists>pkg. list_all (approves K ptb pkg) (ptb_commands ptb))
   | Err e \<Rightarrow> (\<exists>m. e = InvalidPTB m) \<and>
       \<not> (1 \<le> length (ptb_inputs ptb) \<and> 1 \<le> length (ptb_commands ptb) \<and> length (ptb_commands ptb) \<le> 100 \<and>
          (\<exists>pkg. list_all (approves K ptb pkg) (ptb_commands ptb)))
   | Panic \<Rightarrow> False"
proof (cases "valid_ptb_try_from K ptb")
  case (Ok v)
  then show ?thesis using Ok [unfolded valid_ptb_Ok] by (auto simp: list_all_iff Suc_le_eq)
next
  case (Err e)
  then have "\<not> (\<exists>v. valid_ptb_try_from K ptb = Ok v)" by simp
  moreover have "\<exists>m. e = InvalidPTB m"
    using Err check_command_Err
    by (auto simp: valid_ptb_try_from_def split: if_splits command.splits dest!: and_then_ErrD collect_res_Err)
  ultimately show ?thesis unfolding valid_ptb_Ok using Err by (auto simp: list_all_iff Suc_le_eq)
next
  case Panic
  have "collect_res (check_command K ptb pkg) (ptb_commands ptb) \<noteq> Panic" for pkg
    by (rule collect_res_not_Panic) (rule check_command_Err(1))
  with Panic show ?thesis
    by (auto simp: valid_ptb_try_from_def and_then_Panic_iff split: if_splits command.splits)
qed

subsection \<open>Properties\<close>

text \<open>C25: validation accepts exactly the transactions with at least one input, one to 100
  commands, all of them calls in one package of a function whose name starts with
  \<open>seal_approve\<close>, with input arguments only, the first of which is a pure input that decodes
  to a byte vector (\<open>asks_for\<close>). Every other transaction gets an \<open>InvalidPTB\<close> error. The vector may be
  empty: a comment in the code restricts the first argument to a non-empty id, but the code does not check it, and
  a transaction that asks for the empty id is accepted.\<close>

theorem valid_ptb_exact:
  "(case valid_ptb_try_from K ptb of
     Ok v \<Rightarrow> v = ValidPtb ptb \<and> 1 \<le> length (ptb_inputs ptb) \<and>
       1 \<le> length (ptb_commands ptb) \<and> length (ptb_commands ptb) \<le> 100 \<and>
       (\<exists>pkg. list_all (approves K ptb pkg) (ptb_commands ptb))
   | Err e \<Rightarrow> (\<exists>m. e = InvalidPTB m) \<and>
       \<not> (1 \<le> length (ptb_inputs ptb) \<and> 1 \<le> length (ptb_commands ptb) \<and> length (ptb_commands ptb) \<le> 100 \<and>
          (\<exists>pkg. list_all (approves K ptb pkg) (ptb_commands ptb)))
   | Panic \<Rightarrow> False) \<and>
   (bcs_byte_vec K raw = Some [] \<longrightarrow>
      (let empty_id = \<lparr>ptb_inputs = [Pure raw], ptb_commands = [MoveCall \<lparr>mc_package = pkg, mc_module = m,
             mc_function = ''seal_approve'', mc_arguments = [Input 0]\<rparr>]\<rparr>
       in valid_ptb_try_from K empty_id = Ok (ValidPtb empty_id) \<and> inner_ids K (ValidPtb empty_id) = Ok [[]]))"
proof (intro conjI valid_ptb_cases impI)
  assume "bcs_byte_vec K raw = Some []"
  then show "let empty_id = \<lparr>ptb_inputs = [Pure raw], ptb_commands = [MoveCall \<lparr>mc_package = pkg, mc_module = m,
             mc_function = ''seal_approve'', mc_arguments = [Input 0]\<rparr>]\<rparr>
       in valid_ptb_try_from K empty_id = Ok (ValidPtb empty_id) \<and> inner_ids K (ValidPtb empty_id) = Ok [[]]"
    by (simp add: valid_ptb_try_from_def inner_ids_def get_key_id_def starts_with_def MAX_COMMANDS_def)
qed

text \<open>the accessors of a validated transaction never panic: there is one identity per
  command, in order, and the full identities are these prefixed with the package id.\<close>

theorem valid_ptb_identities:
  assumes "valid_ptb_try_from K ptb = Ok v"
  shows "\<exists>pkg ids. pkg_id v = Ok pkg \<and> inner_ids K v = Ok ids \<and> length ids = length (ptb_commands ptb) \<and>
    list_all (\<lambda>i. \<exists>c. ptb_commands ptb ! i = MoveCall c \<and> mc_package c = pkg \<and> get_key_id K ptb c = Ok (ids ! i))
      [0..<length ids] \<and>
    full_ids K v first = Ok (map (\<lambda>inner. first @ inner) ids)"
proof -
  obtain pkg ids where "pkg_id v = Ok pkg" "inner_ids K v = Ok ids" "length ids = length (ptb_commands ptb)"
    "\<And>i. i < length ids \<Longrightarrow> \<exists>c. ptb_commands ptb ! i = MoveCall c \<and> mc_package c = pkg \<and> get_key_id K ptb c = Ok (ids ! i)"
    using valid_ptb_ids [OF assms] by blast
  then show ?thesis
    by (intro exI [of _ pkg] exI [of _ ids]) (auto simp: list_all_iff full_ids_def create_full_id_def)
qed

definition demo_codec :: ptb_codec where
  "demo_codec = \<lparr>base64_decode = (\<lambda>s. None), bcs_ptb = (\<lambda>b. None),
     bcs_byte_vec = (\<lambda>b. case b of [] \<Rightarrow> None | n # rest \<Rightarrow> if unat n = length rest then Some rest else None),
     pure_u64 = le_bytes\<rparr>"

definition demo_ptb :: programmable_transaction where
  "demo_ptb = \<lparr>ptb_inputs = [Pure [2, 7, 8], SharedObject [6]],
     ptb_commands = [MoveCall \<lparr>mc_package = [1], mc_module = ''m'', mc_function = ''seal_approve_x'',
       mc_arguments = [Input 0, Input 1]\<rparr>]\<rparr>"

lemma demo_ptb_valid: "valid_ptb_try_from demo_codec demo_ptb = Ok (ValidPtb demo_ptb)"
  by code_simp

theorem valid_ptb_exact_witness:
  "\<exists>ptb. valid_ptb_try_from demo_codec ptb = Ok (ValidPtb ptb) \<and> inner_ids demo_codec (ValidPtb ptb) = Ok [[]]"
proof -
  have "bcs_byte_vec demo_codec [0] = Some []" by (simp add: demo_codec_def)
  then show ?thesis using valid_ptb_exact [where K = demo_codec and raw = "[0]"] by (auto simp: Let_def)
qed

theorem valid_ptb_identities_witness:
  "\<exists>pkg ids. pkg_id (ValidPtb demo_ptb) = Ok pkg \<and> inner_ids demo_codec (ValidPtb demo_ptb) = Ok ids \<and>
    full_ids demo_codec (ValidPtb demo_ptb) [9] = Ok (map (\<lambda>inner. [9] @ inner) ids)"
  using valid_ptb_identities [OF demo_ptb_valid, of "[9]"] by blast

text \<open>the staleness check. With room for three more inputs it puts one call in front of the
  commands, whose arguments are the current time, the allowed staleness and the clock object,
  reusing a clock input that is already there; it keeps all commands and all inputs at their
  positions, so a validated transaction still asks for the same identities.\<close>

theorem staleness_check_preserves:
  assumes "package_id from_hex p = Ok pid" and "length (ptb_inputs ptb) + 3 \<le> 65536"
    and "valid_ptb_try_from K ptb = Ok v"
  shows "\<exists>ptb' i j k. add_staleness_check_to_ptb K from_hex clock_id now p allowed ptb = Ok ptb' \<and>
    ptb_commands ptb' = MoveCall \<lparr>mc_package = pid, mc_module = ''time'', mc_function = ''check_staleness'',
      mc_arguments = [Input i, Input j, Input k]\<rparr> # ptb_commands ptb \<and>
    take (length (ptb_inputs ptb)) (ptb_inputs ptb') = ptb_inputs ptb \<and>
    ptb_inputs ptb' ! unat i = Pure (pure_u64 K now) \<and>
    ptb_inputs ptb' ! unat j = Pure (pure_u64 K (of_nat allowed)) \<and>
    ptb_inputs ptb' ! unat k = SharedObject clock_id \<and>
    list_all (\<lambda>cmd. case cmd of MoveCall c \<Rightarrow> get_key_id K ptb' c = get_key_id K ptb c | OtherCommand \<Rightarrow> False)
      (ptb_commands ptb)"
proof -
  obtain ptb' i j k extra where s: "add_staleness_check_to_ptb K from_hex clock_id now p allowed ptb = Ok ptb'"
    "ptb_inputs ptb' = ptb_inputs ptb @ extra"
    "ptb_commands ptb' = MoveCall \<lparr>mc_package = pid, mc_module = STALENESS_MODULE,
       mc_function = STALENESS_FUNCTION, mc_arguments = [Input i, Input j, Input k]\<rparr> # ptb_commands ptb"
    "ptb_inputs ptb' ! unat i = Pure (pure_u64 K now)"
    "ptb_inputs ptb' ! unat j = Pure (pure_u64 K (of_nat allowed))"
    "ptb_inputs ptb' ! unat k = SharedObject clock_id"
    by (rule add_staleness_check_Ok [OF assms(1,2)])
  have "case cmd of MoveCall c \<Rightarrow> get_key_id K ptb' c = get_key_id K ptb c | OtherCommand \<Rightarrow> False"
    if "cmd \<in> set (ptb_commands ptb)" for cmd
    using assms(3) that get_key_id_more_inputs [OF _ s(2)]
    by (cases cmd) (fastforce simp: valid_ptb_Ok approves_alt is_ok_iff)+
  with s show ?thesis
    by (intro exI [of _ ptb'] exI [of _ i] exI [of _ j] exI [of _ k])
      (simp add: list_all_iff STALENESS_MODULE_def STALENESS_FUNCTION_def)
qed

theorem staleness_check_preserves_witness:
  "\<exists>ptb' i j k. add_staleness_check_to_ptb demo_codec (\<lambda>s. None) [6] 1000 (PkgCustom [5]) 120000 demo_ptb = Ok ptb' \<and>
    ptb_commands ptb' = MoveCall \<lparr>mc_package = [5], mc_module = ''time'', mc_function = ''check_staleness'',
      mc_arguments = [Input i, Input j, Input k]\<rparr> # ptb_commands demo_ptb"
proof -
  have "package_id (\<lambda>s. None) (PkgCustom [5]) = Ok [5]" "length (ptb_inputs demo_ptb) + 3 \<le> 65536"
    by (simp_all add: demo_ptb_def)
  from staleness_check_preserves [OF this demo_ptb_valid, of "[6]" 1000 120000] show ?thesis by blast
qed

end
