(* ===== verification/Sdk.thy ===== *)
theory Sdk
  imports Ptb
begin

text \<open>
  \<^verbatim>\<open>crates/seal-sdk/src/lib.rs\<close>, \<^verbatim>\<open>crates/seal-sdk/src/types.rs\<close> and
  \<^verbatim>\<open>crates/key-server/src/signed_message.rs\<close>: the certificate and the request of a client, the two
  messages that are signed, and decryption with the keys of several servers.

  Formatting and BCS are third-party and are the record \<open>sdk_ops\<close>; \<open>sdk_binding\<close> states that the
  encodings are injective. Ed25519 keys and signatures are byte strings. A \<open>HashMap\<close> that is
  only looked up is a map; the number of entries of \<open>usks\<close> is the number of distinct keys.
\<close>

subsection \<open>Requests\<close>

record certificate =
  cert_user :: object_id
  cert_session_vk :: bytes
  cert_creation_time :: u64
  cert_ttl_min :: u16
  cert_signature :: bytes
  cert_mvr_name :: "string option"

record ('g1, 'g2) fetch_key_request =
  fkr_ptb :: string
  fkr_enc_key :: "'g1 public_key"
  fkr_enc_verification_key :: "'g2 verification_key"
  fkr_request_signature :: bytes
  fkr_certificate :: certificate

record 'g1 decryption_key =
  dk_id :: bytes
  dk_encrypted_key :: "'g1 encryption"

type_synonym 'g1 fetch_key_response = "'g1 decryption_key list"

record ('g1, 'g2) sdk_ops =
  format_timestamp :: "u64 \<Rightarrow> string option"
  show_vk :: "bytes \<Rightarrow> string"
  bcs_of_ptb :: "programmable_transaction \<Rightarrow> bytes"
  bcs_of_enc_key :: "'g1 public_key \<Rightarrow> bytes"
  bcs_of_vk :: "'g2 verification_key \<Rightarrow> bytes"
  bcs_of_request :: "bytes \<times> bytes \<times> bytes \<Rightarrow> bytes"
  show_id :: "object_id \<Rightarrow> string"
  hex_encode :: "bytes \<Rightarrow> string"

definition sdk_binding :: "('g1, 'g2) sdk_ops \<Rightarrow> bool" where
  "sdk_binding F \<longleftrightarrow> inj (bcs_of_ptb F) \<and> inj (bcs_of_enc_key F) \<and> inj (bcs_of_vk F) \<and> inj (bcs_of_request F)"

subsection \<open>Signed messages\<close>

definition signed_message ::
  "('g1, 'g2) sdk_ops \<Rightarrow> string \<Rightarrow> bytes \<Rightarrow> u64 \<Rightarrow> u16 \<Rightarrow> (string, 'e) res" where
  "signed_message F package_name vk creation_time ttl_min =
     (case format_timestamp F (creation_time div 1000) of
        None \<Rightarrow> Panic
      | Some t \<Rightarrow>
          Ok (''Accessing keys of package '' @ package_name @ '' for '' @ decimal (unat ttl_min) @
              '' mins from '' @ t @ '', session key '' @ show_vk F vk))"

definition signed_request ::
  "('g1, 'g2) sdk_ops \<Rightarrow> programmable_transaction \<Rightarrow> 'g1 public_key \<Rightarrow> 'g2 verification_key \<Rightarrow> bytes" where
  "signed_request F ptb enc_key enc_verification_key =
     bcs_of_request F (bcs_of_ptb F ptb, bcs_of_enc_key F enc_key, bcs_of_vk F enc_verification_key)"

lemma signed_request_inject:
  "sdk_binding F \<Longrightarrow> signed_request F ptb ek vk = signed_request F ptb' ek' vk' \<longleftrightarrow> ptb = ptb' \<and> ek = ek' \<and> vk = vk'"
  by (auto simp: signed_request_def sdk_binding_def inj_eq)

subsection \<open>Decryption\<close>

type_synonym 'g1 key_cache = "bytes \<rightharpoonup> (object_id \<rightharpoonup> 'g1)"

definition insert_key_for :: "bytes \<Rightarrow> object_id \<Rightarrow> 'g1 \<Rightarrow> 'g1 key_cache \<Rightarrow> 'g1 key_cache" where
  "insert_key_for full_id server_id usk cache =
     cache(full_id \<mapsto> (case cache full_id of None \<Rightarrow> Map.empty | Some m \<Rightarrow> m)(server_id \<mapsto> usk))"

fun decrypt_response ::
  "('s, 'g1::ab_group_add, 'g2, 'gt, 'r) bls_ops \<Rightarrow> 's secret_key \<Rightarrow> object_id \<Rightarrow> 'g2 \<Rightarrow>
   'g1 fetch_key_response \<Rightarrow> 'g1 key_cache \<Rightarrow> ('g1 key_cache, fc_error) res" where
  "decrypt_response B enc_secret server_id public_key [] cache = Ok cache"
| "decrypt_response B enc_secret server_id public_key (dk # dks) cache =
     (let user_secret_key = eg_decrypt (g1 B) enc_secret (dk_encrypted_key dk) in
      and_then (verify_user_secret_key B user_secret_key (dk_id dk) public_key) (\<lambda>_.
        decrypt_response B enc_secret server_id public_key dks
          (insert_key_for (dk_id dk) server_id user_secret_key cache)))"

definition lookup_server_pk :: "('g1, 'g2) sdk_ops \<Rightarrow> (object_id \<rightharpoonup> 'g2) \<Rightarrow> object_id \<Rightarrow> ('g2, fc_error) res" where
  "lookup_server_pk F server_pk_map server_id =
     ok_or (GeneralError (''No public key configured for server '' @ show_id F server_id)) (server_pk_map server_id)"

fun decrypt_seal_responses ::
  "('s, 'g1::ab_group_add, 'g2, 'gt, 'r) bls_ops \<Rightarrow> ('g1, 'g2) sdk_ops \<Rightarrow> 's secret_key \<Rightarrow>
   (object_id \<times> 'g1 fetch_key_response) list \<Rightarrow> (object_id \<rightharpoonup> 'g2) \<Rightarrow> 'g1 key_cache \<Rightarrow>
   ('g1 key_cache, fc_error) res" where
  "decrypt_seal_responses B F enc_secret [] server_pk_map cache = Ok cache"
| "decrypt_seal_responses B F enc_secret ((server_id, seal_response) # rest) server_pk_map cache =
     and_then (lookup_server_pk F server_pk_map server_id) (\<lambda>public_key.
     and_then (decrypt_response B enc_secret server_id public_key seal_response cache) (\<lambda>cache.
       decrypt_seal_responses B F enc_secret rest server_pk_map cache))"

definition seal_decrypt_object ::
  "('s, 'g1, 'g2, 'gt, 'r) bls_ops \<Rightarrow> dem_prims \<Rightarrow> ('g1, 'g2) sdk_ops \<Rightarrow> 'g2 encrypted_object \<Rightarrow>
   'g1 key_cache \<Rightarrow> (object_id \<rightharpoonup> 'g2) \<Rightarrow> (bytes, fc_error) res" where
  "seal_decrypt_object B D F obj cached_keys server_pk_map =
     (let full_id = create_full_id (eo_package_id obj) (eo_id obj) in
      and_then (ok_or (GeneralError (''No keys available for object with full_id '' @ hex_encode F full_id))
          (cached_keys full_id)) (\<lambda>keys_for_id.
      and_then (collect_res (\<lambda>(server_id, _). lookup_server_pk F server_pk_map server_id) (eo_services obj)) (\<lambda>pks.
        let held = remdups (filter (\<lambda>s. keys_for_id s \<noteq> None) (map fst (eo_services obj)));
            usks = (\<lambda>s. if s \<in> set held then keys_for_id s else None)
        in
        if length held < unat (eo_threshold obj)
        then Err (GeneralError (''Insufficient keys for object: have '' @ decimal (length held) @
               '', threshold requires '' @ decimal (unat (eo_threshold obj))))
        else seal_decrypt B D obj (BonehFranklinUserSecretKeys usks) (Some (BonehFranklinPublicKeys pks)))))"

subsection \<open>What the cache holds\<close>

text \<open>Every cached key is the user secret key of its identity under its server's master key.\<close>

definition genuine_cache ::
  "('s, 'g1, 'g2, 'gt, 'r) bls_ops \<Rightarrow> (object_id \<rightharpoonup> 's) \<Rightarrow> 'g1 key_cache \<Rightarrow> bool" where
  "genuine_cache B master cache \<longleftrightarrow>
     (\<forall>fid ks server usk. cache fid = Some ks \<longrightarrow> ks server = Some usk \<longrightarrow>
        (\<exists>msk. master server = Some msk \<and> usk = ibe_extract B msk fid))"

lemma genuine_cache_insert:
  assumes "genuine_cache B master cache" and "master server = Some msk"
  shows "genuine_cache B master (insert_key_for fid server (ibe_extract B msk fid) cache)"
  using assms by (auto simp: genuine_cache_def insert_key_for_def split: option.splits if_splits)

lemma decrypt_response_genuine:
  assumes B: "bls_laws B" "pairing_nondegenerate B" and "master server = Some msk"
    and "genuine_cache B master cache"
    and "decrypt_response B sk server (public_key_from_master_key B msk) dks cache = Ok cache'"
  shows "genuine_cache B master cache'"
  using assms(4,5)
proof (induction dks arbitrary: cache)
  case (Cons dk dks)
  let ?usk = "eg_decrypt (g1 B) sk (dk_encrypted_key dk)"
  have "?usk = ibe_extract B msk (dk_id dk)"
    using Cons.prems(2) by (simp add: Let_def verify_user_secret_key_iff [OF B] split: if_splits)
  with Cons show ?case
    using genuine_cache_insert [of B master cache server msk "dk_id dk"] assms(3) by (simp add: Let_def res_simps)
qed simp

lemma decrypt_seal_responses_genuine:
  assumes B: "bls_laws B" "pairing_nondegenerate B"
    and pks: "\<And>server pk. pk_map server = Some pk \<Longrightarrow> \<exists>msk. master server = Some msk \<and> pk = public_key_from_master_key B msk"
    and "genuine_cache B master cache"
    and "decrypt_seal_responses B F sk responses pk_map cache = Ok cache'"
  shows "genuine_cache B master cache'"
  using assms(4,5)
proof (induction responses arbitrary: cache)
  case (Cons r rs)
  obtain server dks where r: "r = (server, dks)" by (cases r)
  from Cons.prems(2) obtain pk cache1 where p: "pk_map server = Some pk"
    and c: "decrypt_response B sk server pk dks cache = Ok cache1"
    and rest: "decrypt_seal_responses B F sk rs pk_map cache1 = Ok cache'"
    by (auto simp: r res_simps lookup_server_pk_def)
  from pks [OF p] obtain msk where m: "master server = Some msk" "pk = public_key_from_master_key B msk" by blast
  show ?case
    by (rule Cons.IH [OF decrypt_response_genuine [where B = B, OF B m(1) Cons.prems(1)] rest])
      (use c m(2) in simp)
qed simp

lemma honest_services:
  assumes "bls_laws B" and "rng_fills R"
    and "seal_encrypt B D R rng pkg inner key_servers (BonehFranklinPublicKeys pks) threshold input = Ok (obj, key)"
  shows "map fst (eo_services obj) = key_servers" "eo_package_id obj = pkg" "eo_id obj = inner"
    "eo_threshold obj = threshold" "length pks = length key_servers"
proof -
  obtain Q r rk where "honest_object B D input obj key pks pkg inner key_servers threshold Q r rk"
    using seal_encrypt_honest [OF assms] by blast
  note h = this [unfolded honest_object_def]
  then show "map fst (eo_services obj) = key_servers" by (simp add: share_indices_of_def del: upt_Suc)
  show "eo_package_id obj = pkg" "eo_id obj = inner" "eo_threshold obj = threshold"
    "length pks = length key_servers" using h by simp_all
qed

lemma seal_decrypt_object_cached:
  assumes B: "bls_laws B" and R: "rng_fills R" and D: "hmac_len D" "aes_correct D"
    and enc: "seal_encrypt B D R rng pkg inner key_servers
        (BonehFranklinPublicKeys (map (public_key_from_master_key B) master_keys)) threshold input = Ok (obj, key)"
    and cached: "cached_keys (pkg @ inner) = Some ks"
    and keys: "list_all (\<lambda>i. pk_map (key_servers ! i) = Some (public_key_from_master_key B (master_keys ! i)) \<and>
        (case ks (key_servers ! i) of None \<Rightarrow> True
         | Some u \<Rightarrow> u = ibe_extract B (master_keys ! i) (pkg @ inner))) [0..<length key_servers]"
  shows "if unat threshold \<le> card (set (filter (\<lambda>s. ks s \<noteq> None) key_servers))
    then seal_decrypt_object B D F obj cached_keys pk_map = Ok (plaintext input key)
    else \<exists>m. seal_decrypt_object B D F obj cached_keys pk_map = Err (GeneralError m)"
proof -
  note sv = honest_services [OF B R enc]
  let ?pks = "map (public_key_from_master_key B) master_keys"
  let ?held = "remdups (filter (\<lambda>s. ks s \<noteq> None) key_servers)"
  let ?usks = "\<lambda>s. if s \<in> set ?held then ks s else None"
  let ?pk = "lookup_server_pk F pk_map"
  have "collect_res (\<lambda>(s, _). ?pk s) (eo_services obj) = collect_res ?pk (map fst (eo_services obj))"
    unfolding collect_res_map by (rule collect_res_cong) auto
  also have "\<dots> = Ok (map (\<lambda>s. the (pk_map s)) key_servers)"
    unfolding sv(1) by (rule collect_res_Ok) (use keys in \<open>force simp: list_all_iff in_set_conv_nth lookup_server_pk_def\<close>)
  also have "map (\<lambda>s. the (pk_map s)) key_servers = ?pks"
    by (rule nth_equalityI) (use keys sv(5) in \<open>auto simp: list_all_iff\<close>)
  finally have pks: "collect_res (\<lambda>(s, _). ?pk s) (eo_services obj) = Ok ?pks" .
  have eq: "seal_decrypt_object B D F obj cached_keys pk_map =
      (if length ?held < unat threshold
       then Err (GeneralError (''Insufficient keys for object: have '' @ decimal (length ?held) @
               '', threshold requires '' @ decimal (unat threshold)))
       else seal_decrypt B D obj (BonehFranklinUserSecretKeys ?usks) (Some (BonehFranklinPublicKeys ?pks)))"
    unfolding seal_decrypt_object_def pks sv create_full_id_def Let_def
    by (simp add: cached sv(1) del: set_remdups)
  have f: "filter (\<lambda>s. ?usks s \<noteq> None) key_servers = filter (\<lambda>s. ks s \<noteq> None) key_servers"
    by (rule filter_cong) auto
  have len: "length ?held \<le> length (filter (\<lambda>s. ks s \<noteq> None) key_servers)" by (rule length_remdups_leq)
  have "seal_decrypt B D obj (BonehFranklinUserSecretKeys ?usks) (Some (BonehFranklinPublicKeys ?pks)) =
      Ok (plaintext input key)" if t: "unat threshold \<le> length ?held"
  proof (rule seal_decrypt_honest(2) [OF B R D enc])
    show "list_all (\<lambda>i. case ?usks (key_servers ! i) of None \<Rightarrow> True
        | Some u \<Rightarrow> u = ibe_extract B (master_keys ! i) (pkg @ inner)) [0..<length key_servers]"
      using keys by (auto simp: list_all_iff split: option.splits)
    show "unat threshold \<le> length (filter (\<lambda>s. ?usks s \<noteq> None) key_servers)"
      unfolding f using t len by (rule le_trans)
  qed
  then show ?thesis
    unfolding eq by (auto simp: length_remdups_card_conv)
qed

subsection \<open>Key services\<close>

text \<open>
  What the client relies on: a key service, be it a key server or the aggregator of a
  committee, answers with keys that decrypt, under the client's secret key, to user secret
  keys under its master key.
\<close>

definition share_response ::
  "('s::field, 'g1::ab_group_add, 'g2, 'gt, 'r) bls_ops \<Rightarrow> 's secret_key \<Rightarrow> 's \<Rightarrow> 'g1 fetch_key_response \<Rightarrow> bool" where
  "share_response B sk share dks \<longleftrightarrow> (\<forall>dk \<in> set dks. eg_decrypt (g1 B) sk (dk_encrypted_key dk) = ibe_extract B share (dk_id dk))"

definition cached_key :: "'g1 key_cache \<Rightarrow> bytes \<Rightarrow> object_id \<Rightarrow> 'g1 option" where
  "cached_key cache fid server = Option.bind (cache fid) (\<lambda>ks. ks server)"

lemma cached_key_insert:
  "cached_key (insert_key_for fid server usk cache) fid' server' =
     (if fid' = fid \<and> server' = server then Some usk else cached_key cache fid' server')"
  by (auto simp: cached_key_def insert_key_for_def split: option.splits)

lemma verify_extracted:
  assumes "bls_laws B"
  shows "verify_user_secret_key B (ibe_extract B key i) i (public_key_from_master_key B key) = Ok ()"
  using assms by (simp add: verify_user_secret_key_def ibe_extract_def public_key_from_master_key_def pairing_smul)

locale key_service =
  fixes B :: "('s::field, 'g1::ab_group_add, 'g2::ab_group_add, 'gt::ab_group_add, 'r) bls_ops"
    and sk :: "'s secret_key" and msk :: 's and answers :: "'g1 fetch_key_response \<Rightarrow> bool"
  assumes laws: "answers dks \<Longrightarrow> bls_laws B"
    and genuine: "answers dks \<Longrightarrow> share_response B sk msk dks"
begin

lemma client_accepts:
  assumes "answers dks"
  shows "\<exists>cache'. decrypt_response B sk server (public_key_from_master_key B msk) dks cache = Ok cache' \<and>
    (\<forall>fid s. cached_key cache' fid s =
       (if s = server \<and> fid \<in> dk_id ` set dks then Some (ibe_extract B msk fid) else cached_key cache fid s))"
  using genuine [OF assms]
proof (induction dks arbitrary: cache)
  case (Cons dk dks)
  have key: "eg_decrypt (g1 B) sk (dk_encrypted_key dk) = ibe_extract B msk (dk_id dk)"
    and rest: "share_response B sk msk dks" using Cons.prems by (auto simp: share_response_def)
  from Cons.IH [OF rest, of "insert_key_for (dk_id dk) server (ibe_extract B msk (dk_id dk)) cache"]
  show ?case by (auto simp: key verify_extracted [OF laws [OF assms]] cached_key_insert Let_def)
qed simp

end

subsection \<open>Properties\<close>

text \<open>
  C21: the client accepts only genuine keys. When decryption of the responses succeeds, with the
  public keys of the servers' master keys, every key it caches for an identity and a server
  is the user secret key of that identity under that server's master key, whatever the
  responses contained.
\<close>

theorem sdk_keys_genuine:
  assumes "bls_laws B" and "pairing_nondegenerate B"
    and "decrypt_seal_responses B F sk responses (\<lambda>s. map_option (public_key_from_master_key B) (master s)) Map.empty
      = Ok cache"
  shows "case cache full_id of None \<Rightarrow> True
    | Some ks \<Rightarrow> (case ks server of None \<Rightarrow> True
      | Some usk \<Rightarrow> \<exists>msk. master server = Some msk \<and> usk = ibe_extract B msk full_id)"
proof -
  have "genuine_cache B master cache"
    by (rule decrypt_seal_responses_genuine [OF assms(1,2) _ _ assms(3)]) (auto simp: genuine_cache_def)
  then show ?thesis by (auto simp: genuine_cache_def split: option.split)
qed

text \<open>
  C22: decryption by the client of an object made by \<open>seal_encrypt\<close>, with right keys cached for its
  identity. It returns the plaintext exactly if keys of at least \<open>threshold\<close> distinct servers
  are cached; a server that holds several shares counts once.
\<close>

theorem sdk_decrypt_exact:
  assumes B: "bls_laws B" and R: "rng_fills R" and D: "hmac_len D" "aes_correct D"
    and enc: "seal_encrypt B D R rng pkg inner key_servers
        (BonehFranklinPublicKeys (map (public_key_from_master_key B) master_keys)) threshold input = Ok (obj, key)"
    and cached: "cached_keys (pkg @ inner) = Some ks"
    and keys: "list_all (\<lambda>i. pk_map (key_servers ! i) = Some (public_key_from_master_key B (master_keys ! i)) \<and>
        (case ks (key_servers ! i) of None \<Rightarrow> True
         | Some u \<Rightarrow> u = ibe_extract B (master_keys ! i) (pkg @ inner))) [0..<length key_servers]"
  shows "if unat threshold \<le> card (set (filter (\<lambda>s. ks s \<noteq> None) key_servers))
    then seal_decrypt_object B D F obj cached_keys pk_map = Ok (plaintext input key)
    else \<exists>m. seal_decrypt_object B D F obj cached_keys pk_map = Err (GeneralError m)"
  using assms by (rule seal_decrypt_object_cached)

definition demo_sdk :: "(gf256, gf256) sdk_ops" where
  "demo_sdk = \<lparr>format_timestamp = (\<lambda>t. Some (decimal (unat t))), show_vk = (\<lambda>b. []),
     bcs_of_ptb = (\<lambda>p. []), bcs_of_enc_key = (\<lambda>k. []), bcs_of_vk = (\<lambda>k. []),
     bcs_of_request = (\<lambda>(a, b, c). a @ b @ c), show_id = (\<lambda>i. []), hex_encode = (\<lambda>b. [])\<rparr>"

theorem sdk_keys_genuine_witness:
  "\<exists>cache. decrypt_seal_responses gf_bls demo_sdk (SecretKey (GF256 2))
      [([11], [\<lparr>dk_id = [1, 2], dk_encrypted_key = Encryption 0 (ibe_extract gf_bls (GF256 5) [1, 2])\<rparr>])]
      (\<lambda>s. map_option (public_key_from_master_key gf_bls) ([[11] \<mapsto> GF256 5] s)) Map.empty = Ok cache \<and>
    (case cache [1, 2] of None \<Rightarrow> True | Some ks \<Rightarrow> (case ks [11] of None \<Rightarrow> True
      | Some usk \<Rightarrow> \<exists>msk. [([11] :: object_id) \<mapsto> GF256 5] [11] = Some msk \<and> usk = ibe_extract gf_bls msk [1, 2]))"
proof -
  let ?rs = "[([11], [\<lparr>dk_id = [1, 2], dk_encrypted_key = Encryption 0 (ibe_extract gf_bls (GF256 5) [1, 2])\<rparr>])]"
  have "eg_decrypt (g1 gf_bls) (SecretKey (GF256 2)) (Encryption 0 x) = x" for x
    by (simp add: gf_bls_def gf_group_def)
  then obtain cache where c: "decrypt_seal_responses gf_bls demo_sdk (SecretKey (GF256 2)) ?rs
      (\<lambda>s. map_option (public_key_from_master_key gf_bls) ([[11] \<mapsto> GF256 5] s)) Map.empty = Ok cache"
    by (simp add: lookup_server_pk_def verify_user_secret_key_iff [OF gf_bls_laws] Let_def)
  from c sdk_keys_genuine [OF gf_bls_laws c] show ?thesis by (intro exI conjI)
qed

text \<open>A server with two of three shares: its key alone decrypts, but the client refuses.\<close>

theorem sdk_decrypt_exact_witness:
  "\<exists>obj key. seal_encrypt gf_bls demo_prims tape_rng [9, 8, 7] [1] [2] [[11], [11], [12]]
       (BonehFranklinPublicKeys (map (public_key_from_master_key gf_bls) [GF256 5, GF256 5, GF256 6])) 2
       (InHmac256Ctr [1, 2, 3] None) = Ok (obj, key) \<and>
     (\<exists>m. seal_decrypt_object gf_bls demo_prims demo_sdk obj
        [[1, 2] \<mapsto> [[11] \<mapsto> ibe_extract gf_bls (GF256 5) [1, 2]]]
        [[11] \<mapsto> public_key_from_master_key gf_bls (GF256 5), [12] \<mapsto> public_key_from_master_key gf_bls (GF256 6)]
        = Err (GeneralError m)) \<and>
     seal_decrypt gf_bls demo_prims obj
       (BonehFranklinUserSecretKeys [[11] \<mapsto> ibe_extract gf_bls (GF256 5) [1, 2]]) None = Ok [1, 2, 3]"
proof -
  let ?ks = "[[11], [11], [12]] :: object_id list" and ?msks = "[GF256 5, GF256 5, GF256 6]"
  let ?u = "[[11] \<mapsto> ibe_extract gf_bls (GF256 5) [1, 2]] :: object_id \<rightharpoonup> gf256"
  let ?pkm = "[[11] \<mapsto> public_key_from_master_key gf_bls (GF256 5),
      [12] \<mapsto> public_key_from_master_key gf_bls (GF256 6)] :: object_id \<rightharpoonup> gf256"
  obtain obj key where enc: "seal_encrypt gf_bls demo_prims tape_rng [9, 8, 7] [1] [2] ?ks
       (BonehFranklinPublicKeys (map (public_key_from_master_key gf_bls) ?msks)) 2
       (InHmac256Ctr [1, 2, 3] None) = Ok (obj, key)"
    by (rule seal_encrypt_parts [OF gf_bls_laws(1) tape_rng_fills, of ?ks
        "map (public_key_from_master_key gf_bls) ?msks" 2 "[1]" "[2]"
        demo_prims "[9, 8, 7]" "InHmac256Ctr [1, 2, 3] None"]) (simp, simp, simp, simp, blast)
  have "\<exists>m. seal_decrypt_object gf_bls demo_prims demo_sdk obj [[1, 2] \<mapsto> ?u] ?pkm = Err (GeneralError m)"
    using sdk_decrypt_exact [OF gf_bls_laws(1) tape_rng_fills demo_prims_laws(1,3) enc,
        of "[[1, 2] \<mapsto> ?u]" ?u ?pkm demo_sdk] by (simp add: upt_conv_Cons)
  moreover have "seal_decrypt gf_bls demo_prims obj (BonehFranklinUserSecretKeys ?u) None = Ok [1, 2, 3]"
    using seal_decrypt_honest(1) [OF gf_bls_laws(1) tape_rng_fills demo_prims_laws(1,3) enc, of ?u]
    by (simp add: upt_conv_Cons)
  ultimately show ?thesis using enc by blast
qed

end
