(* ===== verification/Rpc.thy ===== *)
theory Rpc
  imports Errors
begin

text \<open>
  \<^verbatim>\<open>crates/key-server/src/sui_rpc_client.rs\<close> and \<^verbatim>\<open>crates/seal-committee/src/rpc_error.rs\<close>: errors of
  full-node calls, the retry loop with exponential backoff, and the preparation of a simulated
  transaction.

  A call is a function on the state \<open>'w\<close> of the outside world, which it may change; the loop
  also records what it does (attempts with their status label, and waits) in a list of
  events. Doubling a \<open>Duration\<close> beyond its range panics.
\<close>

subsection \<open>Errors\<close>

datatype code =
    CodeNotFound | CodeInvalidArgument | CodeUnavailable | CodeDeadlineExceeded
  | CodeResourceExhausted | CodeAborted | CodeOther string

record rpc_error =
  rpc_message :: string
  rpc_code :: "code option"

definition rpc_from_grpc :: "code \<Rightarrow> string \<Rightarrow> rpc_error" where
  "rpc_from_grpc c m = \<lparr>rpc_message = m, rpc_code = Some c\<rparr>"

definition rpc_new :: "string \<Rightarrow> rpc_error" where
  "rpc_new m = \<lparr>rpc_message = m, rpc_code = None\<rparr>"

definition rpc_display :: "(code \<Rightarrow> string) \<Rightarrow> rpc_error \<Rightarrow> string" where
  "rpc_display show_code e =
     (case rpc_code e of
        Some c \<Rightarrow> ''gRPC '' @ show_code c @ '': '' @ rpc_message e
      | None \<Rightarrow> rpc_message e)"

definition is_retriable_error :: "rpc_error \<Rightarrow> bool" where
  "is_retriable_error e =
     (case rpc_code e of
        None \<Rightarrow> False
      | Some c \<Rightarrow> c = CodeUnavailable \<or> c = CodeDeadlineExceeded \<or> c = CodeResourceExhausted \<or> c = CodeAborted)"

subsection \<open>Retries\<close>

record retry_config =
  max_retries :: u32
  min_delay :: duration
  max_delay :: duration

definition default_retry_config :: retry_config where
  "default_retry_config = \<lparr>max_retries = 3, min_delay = 100, max_delay = 10000\<rparr>"

record rpc_config =
  rpc_timeout :: duration
  rpc_retry_config :: retry_config

definition default_rpc_config :: rpc_config where
  "default_rpc_config = \<lparr>rpc_timeout = 60000, rpc_retry_config = default_retry_config\<rparr>"

text \<open>The largest \<open>Duration\<close>, in whole milliseconds.\<close>

definition DURATION_MAX :: nat where
  "DURATION_MAX = (2 ^ 64 - 1) * 1000 + 999"

datatype retry_event = Attempt string | Sleep duration

function retry_loop ::
  "('e \<Rightarrow> bool) \<Rightarrow> retry_config \<Rightarrow> ('w \<Rightarrow> ('a, 'e) res \<times> 'w) \<Rightarrow> nat \<Rightarrow> duration \<Rightarrow> 'w \<Rightarrow>
   ('a, 'e) res \<times> retry_event list \<times> 'w" where
  "retry_loop retriable cfg func attempts_remaining current_delay w =
     (case func w of
        (Ok x, w') \<Rightarrow> (Ok x, [Attempt ''success''], w')
      | (Panic, w') \<Rightarrow> (Panic, [], w')
      | (Err e, w') \<Rightarrow>
          if retriable e \<and> attempts_remaining > 1
          then if current_delay * 2 > DURATION_MAX
               then (Panic, [Attempt ''retriable_error'', Sleep current_delay], w')
               else
                 let (r, evs, w'') = retry_loop retriable cfg func (attempts_remaining - 1)
                       (min (current_delay * 2) (max_delay cfg)) w'
                 in (r, Attempt ''retriable_error'' # Sleep current_delay # evs, w'')
          else (Err e, [Attempt ''error''], w'))"
  by pat_completeness auto
termination
  by (relation "measure (\<lambda>(_, _, _, attempts, _, _). attempts)") auto

declare retry_loop.simps [simp del]

definition sui_rpc_with_retries ::
  "('e \<Rightarrow> bool) \<Rightarrow> retry_config \<Rightarrow> ('w \<Rightarrow> ('a, 'e) res \<times> 'w) \<Rightarrow> 'w \<Rightarrow>
   ('a, 'e) res \<times> retry_event list \<times> 'w" where
  "sui_rpc_with_retries retriable cfg func w =
     retry_loop retriable cfg func (unat (max_retries cfg)) (min_delay cfg) w"

subsection \<open>Simulated transactions\<close>

record tx_input =
  txi_version :: "u64 option"
  txi_digest :: "string option"
  txi_object :: "string option"

datatype tx_kind = TxProgrammable "tx_input list" | TxOther

record grpc_transaction =
  tx_bcs :: "bytes option"
  tx_kind :: "tx_kind option"

definition strip_transaction :: "grpc_transaction \<Rightarrow> grpc_transaction" where
  "strip_transaction tx =
     (let tx = tx\<lparr>tx_bcs := None\<rparr> in
      case tx_kind tx of
        Some (TxProgrammable inputs) \<Rightarrow>
          tx\<lparr>tx_kind := Some (TxProgrammable (map (\<lambda>i. i\<lparr>txi_version := None, txi_digest := None\<rparr>) inputs))\<rparr>
      | _ \<Rightarrow> tx)"

subsection \<open>The retry loop\<close>

text \<open>The answers of the first \<open>n\<close> calls, and the world after them.\<close>

fun calls :: "('w \<Rightarrow> ('a, 'e) res \<times> 'w) \<Rightarrow> nat \<Rightarrow> 'w \<Rightarrow> ('a, 'e) res list" where
  "calls func 0 w = []"
| "calls func (Suc n) w = fst (func w) # calls func n (snd (func w))"

definition attempts :: "retry_event list \<Rightarrow> nat" where
  "attempts evs = length (filter (\<lambda>e. case e of Attempt _ \<Rightarrow> True | Sleep _ \<Rightarrow> False) evs)"

fun sleeps :: "retry_event list \<Rightarrow> duration list" where
  "sleeps [] = []"
| "sleeps (Attempt _ # evs) = sleeps evs"
| "sleeps (Sleep d # evs) = d # sleeps evs"

lemma attempts_simps [simp]:
  "attempts [] = 0" "attempts (Attempt s # evs) = Suc (attempts evs)" "attempts (Sleep d # evs) = attempts evs"
  by (simp_all add: attempts_def)

definition retry_outcome ::
  "('e \<Rightarrow> bool) \<Rightarrow> ('w \<Rightarrow> ('a, 'e) res \<times> 'w) \<Rightarrow> nat \<Rightarrow> 'w \<Rightarrow> nat \<Rightarrow> ('a, 'e) res \<Rightarrow> bool" where
  "retry_outcome retriable func limit w n r \<longleftrightarrow>
     1 \<le> n \<and> n \<le> limit \<and> last (calls func n w) = r \<and>
     list_all (\<lambda>a. \<exists>e. a = Err e \<and> retriable e) (butlast (calls func n w)) \<and>
     (n = limit \<or> is_ok r \<or> (\<exists>e. r = Err e \<and> \<not> retriable e))"

lemma capped_doubling: "min (min (d * 2) M * 2 ^ i) M = min (d * 2 ^ Suc i) (M :: nat)"
proof (cases "d * 2 \<le> M")
  case False
  have "M * 1 \<le> M * 2 ^ i" by (rule mult_le_mono2) simp
  moreover have "d * 2 * 1 \<le> d * 2 * 2 ^ i" by (rule mult_le_mono2) simp
  then have "M \<le> d * 2 ^ Suc i" using False unfolding power_Suc mult.assoc by linarith
  ultimately have "M \<le> M * 2 ^ i" "M \<le> d * 2 ^ Suc i" by simp_all
  then show ?thesis using False by (simp add: min_absorb2)
qed (simp add: mult.assoc)

lemma calls_not_Nil: "0 < n \<Longrightarrow> calls func n w \<noteq> []"
  by (cases n) simp_all

lemma retry_loop_outcome:
  assumes np: "\<And>w. fst (func w) \<noteq> Panic" and M: "2 * max_delay cfg \<le> DURATION_MAX"
  shows "2 * d \<le> DURATION_MAX \<Longrightarrow> retry_loop retriable cfg func k d w = (r, evs, w') \<Longrightarrow>
    retry_outcome retriable func (max 1 k) w (attempts evs) r \<and>
    length (sleeps evs) = attempts evs - 1 \<and>
    (\<forall>i < length (sleeps evs). sleeps evs ! i = (if i = 0 then d else min (d * 2 ^ i) (max_delay cfg)))"
proof (induction k arbitrary: d w r evs w' rule: less_induct)
  case (less k)
  obtain a w1 where f: "func w = (a, w1)" by (cases "func w")
  then have "a \<noteq> Panic" using np [of w] by simp
  then consider (ok) x where "a = Ok x" | (err) e where "a = Err e" "\<not> (retriable e \<and> k > 1)"
    | (retry) e where "a = Err e" "retriable e" "k > 1"
    by (cases a) auto
  then show ?case
  proof cases
    case ok
    then show ?thesis using less.prems(2) f
      by (auto simp: retry_loop.simps [of _ _ _ k] retry_outcome_def)
  next
    case err
    then show ?thesis using less.prems(2) f
      by (auto simp: retry_loop.simps [of _ _ _ k] retry_outcome_def)
  next
    case retry
    let ?d = "min (d * 2) (max_delay cfg)"
    obtain evs1 where rec: "retry_loop retriable cfg func (k - 1) ?d w1 = (r, evs1, w')"
      and evs: "evs = Attempt ''retriable_error'' # Sleep d # evs1"
      using less.prems retry f by (auto simp: retry_loop.simps [of _ _ _ k] Let_def split: prod.splits)
    have "retry_outcome retriable func (max 1 (k - 1)) w1 (attempts evs1) r \<and>
        length (sleeps evs1) = attempts evs1 - 1 \<and>
        (\<forall>i < length (sleeps evs1). sleeps evs1 ! i = (if i = 0 then ?d else min (?d * 2 ^ i) (max_delay cfg)))"
      using less.IH [OF _ _ rec] retry(3) M by simp
    note IH = this [unfolded retry_outcome_def]
    have "retry_outcome retriable func (max 1 k) w (attempts evs) r"
      using IH retry f calls_not_Nil [of "attempts evs1" func w1]
      by (auto simp: retry_outcome_def evs)
    moreover have "sleeps evs ! i = (if i = 0 then d else min (d * 2 ^ i) (max_delay cfg))" if "i < length (sleeps evs)" for i
      using IH that capped_doubling [of d "max_delay cfg"] by (cases i) (auto simp: evs)
    moreover have "length (sleeps evs) = attempts evs - 1" using IH by (simp add: evs)
    ultimately show ?thesis by blast
  qed
qed

subsection \<open>Properties\<close>

text \<open>C29: the retry loop makes at least one and at most \<open>max 1 max_retries\<close> calls, returns the
  answer of the last one, and stops at the first success, the first error that is not
  retriable, or the last allowed call; every earlier answer was a retriable error. It waits
  once between two calls, first \<open>min_delay\<close>, then the doubled delays capped at \<open>max_delay\<close>.\<close>

theorem retries_bounded:
  assumes "\<And>w. fst (func w) \<noteq> Panic" and "2 * max (min_delay cfg) (max_delay cfg) \<le> DURATION_MAX"
  shows "case sui_rpc_with_retries retriable cfg func w of (r, evs, _) \<Rightarrow>
    retry_outcome retriable func (max 1 (unat (max_retries cfg))) w (attempts evs) r \<and>
    length (sleeps evs) = attempts evs - 1 \<and>
    list_all (\<lambda>i. sleeps evs ! i = (if i = 0 then min_delay cfg else min (min_delay cfg * 2 ^ i) (max_delay cfg)))
      [0..<length (sleeps evs)]"
proof -
  obtain r evs w' where run: "sui_rpc_with_retries retriable cfg func w = (r, evs, w')"
    by (cases "sui_rpc_with_retries retriable cfg func w")
  have d: "2 * max_delay cfg \<le> DURATION_MAX" "2 * min_delay cfg \<le> DURATION_MAX" using assms(2) by auto
  show ?thesis
    using retry_loop_outcome [where func = func and cfg = cfg, OF assms(1) d run [unfolded sui_rpc_with_retries_def]] run
    by (auto simp: list_all_iff)
qed

text \<open>A node that is unavailable twice and then answers: three calls, delays of 100 and 200 ms.\<close>

definition flaky :: "nat \<Rightarrow> (nat, rpc_error) res \<times> nat" where
  "flaky n = (if n < 2 then Err (rpc_from_grpc CodeUnavailable ''down'') else Ok n, Suc n)"

theorem retries_bounded_witness:
  "case sui_rpc_with_retries is_retriable_error default_retry_config flaky 0 of (r, evs, _) \<Rightarrow>
    retry_outcome is_retriable_error flaky 3 0 (attempts evs) r"
proof -
  have "fst (flaky w) \<noteq> Panic" for w by (simp add: flaky_def)
  moreover have "2 * max (min_delay default_retry_config) (max_delay default_retry_config) \<le> DURATION_MAX"
    by (simp add: default_retry_config_def DURATION_MAX_def)
  moreover have "max 1 (unat (max_retries default_retry_config)) = 3"
    by (simp add: default_retry_config_def)
  ultimately show ?thesis
    using retries_bounded [of flaky default_retry_config is_retriable_error 0] by (auto split: prod.splits)
qed

end
