(* ===== verification/Options.thy ===== *)
theory Options
  imports Rpc Ptb
begin

text \<open>
  \<^verbatim>\<open>crates/key-server/src/key_server_options.rs\<close>, with the network of \<^verbatim>\<open>common.rs\<close> and \<^verbatim>\<open>types.rs\<close>: the
  configuration of the key server and its validation.

  A semantic version requirement is third-party, the type variable \<open>'v\<close>. The errors of
  \<open>validate\<close>, text in the code, are the constructors of \<open>config_error\<close> with the values the
  text shows. The four sets of the loop are its arguments.
\<close>

subsection \<open>Configuration\<close>

datatype network = Devnet object_id | Testnet | Mainnet

fun default_node_url :: "network \<Rightarrow> string" where
  "default_node_url (Devnet _) = ''https://fullnode.devnet.sui.io:443''"
| "default_node_url Testnet = ''https://fullnode.testnet.sui.io:443''"
| "default_node_url Mainnet = ''https://fullnode.mainnet.sui.io:443''"

fun network_seal_package :: "network \<Rightarrow> seal_package" where
  "network_seal_package (Devnet seal_package) = PkgCustom seal_package"
| "network_seal_package Testnet = PkgTestnet"
| "network_seal_package Mainnet = PkgMainnet"

datatype client_key_type = Derived u64 | Imported string | Exported u64

record client_config =
  cc_name :: string
  cc_client_master_key :: client_key_type
  cc_key_server_object_id :: object_id
  cc_package_ids :: "object_id list"

datatype committee_state = ActiveState | RotationState u32

datatype server_mode =
    ModeOpen object_id
  | ModePermissioned "client_config list"
  | ModeCommittee object_id object_id committee_state string

record 'v key_server_options =
  opt_network :: network
  opt_node_url :: "string option"
  opt_server_mode :: server_mode
  opt_ts_sdk_version_requirement :: 'v
  opt_rust_sdk_version_requirement :: 'v
  opt_aggregator_version_requirement :: 'v
  opt_metrics_host_port :: u16
  opt_rgp_update_interval :: duration
  opt_allowed_staleness :: duration
  opt_session_key_ttl_max :: duration
  opt_rpc_config :: rpc_config
  opt_enable_event_monitoring :: bool

definition node_url :: "'v key_server_options \<Rightarrow> string" where
  "node_url opts = (case opt_node_url opts of Some u \<Rightarrow> u | None \<Rightarrow> default_node_url (opt_network opts))"

definition default_rgp_update_interval :: duration where "default_rgp_update_interval = 60000"
definition default_session_key_ttl_max :: duration where "default_session_key_ttl_max = from_mins 30"
definition default_allowed_staleness :: duration where "default_allowed_staleness = from_mins 2"
definition default_metrics_host_port :: u16 where "default_metrics_host_port = 9184"
definition default_enable_event_monitoring :: bool where "default_enable_event_monitoring = True"

definition new_open_server_with_default_values ::
  "(string \<Rightarrow> 'v) \<Rightarrow> network \<Rightarrow> object_id \<Rightarrow> 'v key_server_options" where
  "new_open_server_with_default_values parse_req net ks =
     \<lparr>opt_network = net, opt_node_url = None, opt_server_mode = ModeOpen ks,
      opt_ts_sdk_version_requirement = parse_req ''>=0.4.5'',
      opt_rust_sdk_version_requirement = parse_req ''>=0.0.0'',
      opt_aggregator_version_requirement = parse_req ''>=0.6.2'',
      opt_metrics_host_port = default_metrics_host_port,
      opt_rgp_update_interval = default_rgp_update_interval,
      opt_allowed_staleness = default_allowed_staleness,
      opt_session_key_ttl_max = default_session_key_ttl_max,
      opt_rpc_config = default_rpc_config,
      opt_enable_event_monitoring = default_enable_event_monitoring\<rparr>"

subsection \<open>Validation\<close>

datatype config_error =
    NoPackageId string
  | DuplicateName string
  | DuplicateDerivationIndex u64
  | DuplicateEnvVar string
  | DuplicateKeyServer object_id
  | DuplicatePackage object_id
  | NotIncremental

fun insert_packages :: "object_id list \<Rightarrow> object_id set \<Rightarrow> (object_id set, config_error) res" where
  "insert_packages [] obj_ids = Ok obj_ids"
| "insert_packages (p # ps) obj_ids =
     (if p \<in> obj_ids then Err (DuplicatePackage p) else insert_packages ps (insert p obj_ids))"

definition insert_key ::
  "client_key_type \<Rightarrow> u64 set \<Rightarrow> string set \<Rightarrow> (u64 set \<times> string set, config_error) res" where
  "insert_key k derivation_indices env_vars =
     (case k of
        Imported v \<Rightarrow>
          if v \<in> env_vars then Err (DuplicateEnvVar v) else Ok (derivation_indices, insert v env_vars)
      | Derived i \<Rightarrow>
          if i \<in> derivation_indices then Err (DuplicateDerivationIndex i)
          else Ok (insert i derivation_indices, env_vars)
      | Exported i \<Rightarrow>
          if i \<in> derivation_indices then Err (DuplicateDerivationIndex i)
          else Ok (insert i derivation_indices, env_vars))"

fun validate_clients ::
  "client_config list \<Rightarrow> string set \<Rightarrow> u64 set \<Rightarrow> string set \<Rightarrow> object_id set \<Rightarrow> (u64 set, config_error) res" where
  "validate_clients [] names derivation_indices env_vars obj_ids = Ok derivation_indices"
| "validate_clients (c # cs) names derivation_indices env_vars obj_ids =
     (if cc_package_ids c = [] then Err (NoPackageId (cc_name c))
      else if cc_name c \<in> names then Err (DuplicateName (cc_name c))
      else and_then (insert_key (cc_client_master_key c) derivation_indices env_vars)
        (\<lambda>(derivation_indices, env_vars).
          if cc_key_server_object_id c \<in> obj_ids then Err (DuplicateKeyServer (cc_key_server_object_id c))
          else and_then (insert_packages (cc_package_ids c) (insert (cc_key_server_object_id c) obj_ids))
            (\<lambda>obj_ids. validate_clients cs (insert (cc_name c) names) derivation_indices env_vars obj_ids)))"

definition validate :: "'v key_server_options \<Rightarrow> (unit, config_error) res" where
  "validate opts =
     (case opt_server_mode opts of
        ModePermissioned client_configs \<Rightarrow>
          and_then (validate_clients client_configs {} {} {} {}) (\<lambda>derivation_indices.
            if list_ex (\<lambda>i. (of_nat i :: u64) \<notin> derivation_indices) [0..<card derivation_indices]
            then Err NotIncremental else Ok ())
      | _ \<Rightarrow> Ok ())"

definition get_supported_key_server_object_ids :: "'v key_server_options \<Rightarrow> object_id list" where
  "get_supported_key_server_object_ids opts =
     (case opt_server_mode opts of
        ModeOpen ks \<Rightarrow> [ks]
      | ModePermissioned client_configs \<Rightarrow>
          map cc_key_server_object_id
            (filter (\<lambda>c. case cc_client_master_key c of Exported _ \<Rightarrow> False | _ \<Rightarrow> True) client_configs)
      | ModeCommittee _ ks _ _ \<Rightarrow> [ks])"

subsection \<open>What validation checks\<close>

fun derivation_index :: "client_config \<Rightarrow> u64 list" where
  "derivation_index c =
     (case cc_client_master_key c of Derived i \<Rightarrow> [i] | Exported i \<Rightarrow> [i] | Imported _ \<Rightarrow> [])"

fun imported_var :: "client_config \<Rightarrow> string list" where
  "imported_var c = (case cc_client_master_key c of Imported v \<Rightarrow> [v] | _ \<Rightarrow> [])"

definition config_ids :: "client_config \<Rightarrow> object_id list" where
  "config_ids c = cc_key_server_object_id c # cc_package_ids c"

lemma insert_packages_Ok:
  "insert_packages ps S = Ok T \<longleftrightarrow> distinct ps \<and> set ps \<inter> S = {} \<and> T = set ps \<union> S"
  by (induction ps arbitrary: S) auto

lemma insert_packages_not_Panic: "insert_packages ps S \<noteq> Panic"
  by (induction ps arbitrary: S) auto

lemma insert_key_Ok:
  "insert_key (cc_client_master_key c) I V = Ok (I', V') \<longleftrightarrow>
     set (derivation_index c) \<inter> I = {} \<and> set (imported_var c) \<inter> V = {} \<and>
     I' = set (derivation_index c) \<union> I \<and> V' = set (imported_var c) \<union> V"
  by (cases "cc_client_master_key c") (auto simp: insert_key_def)

lemma validate_clients_Ok:
  "validate_clients cs names I V objs = Ok I' \<longleftrightarrow>
     list_all (\<lambda>c. cc_package_ids c \<noteq> []) cs \<and>
     distinct (map cc_name cs) \<and> set (map cc_name cs) \<inter> names = {} \<and>
     distinct (concat (map derivation_index cs)) \<and> set (concat (map derivation_index cs)) \<inter> I = {} \<and>
     distinct (concat (map imported_var cs)) \<and> set (concat (map imported_var cs)) \<inter> V = {} \<and>
     distinct (concat (map config_ids cs)) \<and> set (concat (map config_ids cs)) \<inter> objs = {} \<and>
     I' = set (concat (map derivation_index cs)) \<union> I"
proof (induction cs arbitrary: names I V objs)
  case Nil
  then show ?case by auto
next
  case (Cons c cs)
  have d: "distinct (derivation_index c)" "distinct (imported_var c)"
    by (auto split: client_key_type.split)
  show ?case
    using d by (auto simp: res_simps insert_key_Ok insert_packages_Ok Cons.IH config_ids_def
        simp del: derivation_index.simps imported_var.simps)
qed

lemma validate_clients_not_Panic: "validate_clients cs names I V objs \<noteq> Panic"
  by (induction cs arbitrary: names I V objs)
    (auto simp: and_then_Panic_iff insert_packages_not_Panic insert_key_def split: client_key_type.split)

lemma one_point: "(\<exists>x. (P \<and> x = a) \<and> Q x) \<longleftrightarrow> P \<and> Q a"
  by blast

lemma initial_segment_iff:
  fixes I :: "u64 set"
  shows "list_all (\<lambda>i. of_nat i \<in> I) [0..<card I] \<longleftrightarrow> I = of_nat ` {..<card I}"
proof
  assume "list_all (\<lambda>i. of_nat i \<in> I) [0..<card I]"
  then have sub: "of_nat ` {..<card I} \<subseteq> I" by (auto simp: list_all_iff)
  have "card I \<le> card (UNIV :: u64 set)" by (rule card_mono) auto
  then have "card I \<le> 2 ^ 64" by (simp add: card_word)
  then have "{..<card I} \<subseteq> {0..<2 ^ LENGTH(64)}" by auto
  with inj_on_word_of_nat have "inj_on (of_nat :: nat \<Rightarrow> u64) {..<card I}" by (rule inj_on_subset)
  then have "card ((of_nat :: nat \<Rightarrow> u64) ` {..<card I}) = card I" by (simp add: card_image)
  with sub show "I = of_nat ` {..<card I}" by (metis card_subset_eq finite_code)
next
  assume "I = of_nat ` {..<card I}"
  then show "list_all (\<lambda>i. of_nat i \<in> I) [0..<card I]" by (auto simp: list_all_iff)
qed

lemma validate_iff:
  "validate opts = Ok () \<longleftrightarrow>
     (case opt_server_mode opts of
        ModePermissioned cs \<Rightarrow>
          list_all (\<lambda>c. cc_package_ids c \<noteq> []) cs \<and> distinct (map cc_name cs) \<and>
          distinct (concat (map imported_var cs)) \<and> distinct (concat (map config_ids cs)) \<and>
          distinct (concat (map derivation_index cs)) \<and>
          set (concat (map derivation_index cs)) = of_nat ` {..<length (concat (map derivation_index cs))}
      | _ \<Rightarrow> True)"
proof (cases "opt_server_mode opts")
  case (ModePermissioned cs)
  let ?is = "concat (map derivation_index cs)"
  let ?P = "list_all (\<lambda>c. cc_package_ids c \<noteq> []) cs \<and> distinct (map cc_name cs) \<and>
    distinct (concat (map imported_var cs)) \<and> distinct (concat (map config_ids cs)) \<and> distinct ?is"
  have clients: "validate_clients cs {} {} {} {} = Ok I \<longleftrightarrow> ?P \<and> I = set ?is" for I
    unfolding validate_clients_Ok Int_empty_right Un_empty_right by blast
  have "validate opts = Ok () \<longleftrightarrow>
      (\<exists>I. validate_clients cs {} {} {} {} = Ok I \<and> I = of_nat ` {..<card I})"
    unfolding initial_segment_iff [symmetric]
    by (simp add: validate_def ModePermissioned res_simps list_ex_iff list_all_iff) blast
  also have "\<dots> \<longleftrightarrow> ?P \<and> set ?is = of_nat ` {..<card (set ?is)}"
    unfolding clients by (rule one_point)
  also have "\<dots> \<longleftrightarrow> ?P \<and> set ?is = of_nat ` {..<length ?is}"
    using distinct_card [of ?is] by (cases "distinct ?is") simp_all
  finally show ?thesis by (simp only: ModePermissioned server_mode.simps conj_assoc)
qed (simp_all add: validate_def)

text \<open>
  C26: \<open>validate\<close> accepts a permissioned configuration exactly when every client has a
  package, the client names, the environment variables, the derivation indices (those of
  exported keys included) and all the key server and package ids together are pairwise
  distinct, and the derivation indices are an initial segment \<open>0, \<dots>, n - 1\<close>. It
  accepts every other mode.
\<close>

theorem validate_exact:
  "validate opts = Ok () \<longleftrightarrow>
     (case opt_server_mode opts of
        ModePermissioned cs \<Rightarrow>
          list_all (\<lambda>c. cc_package_ids c \<noteq> []) cs \<and> distinct (map cc_name cs) \<and>
          distinct (concat (map imported_var cs)) \<and> distinct (concat (map config_ids cs)) \<and>
          distinct (concat (map derivation_index cs)) \<and>
          set (concat (map derivation_index cs)) = of_nat ` {..<length (concat (map derivation_index cs))}
      | _ \<Rightarrow> True)"
  by (rule validate_iff)

end
