(* ===== verification/MasterKeys.thy ===== *)
theory MasterKeys
  imports Options
begin

text \<open>
  \<^verbatim>\<open>crates/key-server/src/master_keys.rs\<close>, \<^verbatim>\<open>crates/key-server/src/utils.rs\<close> and
  \<^verbatim>\<open>crates/crypto/src/prefixed_hex.rs\<close>: the master keys of a key server, loaded from environment
  variables, and the key each request is served with.

  The environment and the third-party Hex and Base64 decoders are the record \<open>env_ops\<close>; the
  scalar arithmetic is \<open>bls_ops\<close>. A \<open>HashMap\<close> is an association list whose last insertion
  comes first. Errors, text in the code, are constructors of \<open>load_error\<close>.
\<close>

subsection \<open>Reading the environment\<close>

record env_ops =
  env_var :: "string \<Rightarrow> string option"
  env_hex_decode :: "string \<Rightarrow> bytes option"
  env_base64_decode :: "string \<Rightarrow> bytes option"

datatype encoding = PrefixedHex | Base64

definition prefixed_hex_decode :: "env_ops \<Rightarrow> string \<Rightarrow> bytes option" where
  "prefixed_hex_decode env s = env_hex_decode env s"

fun encoding_decode :: "env_ops \<Rightarrow> encoding \<Rightarrow> string \<Rightarrow> bytes option" where
  "encoding_decode env PrefixedHex s = prefixed_hex_decode env s"
| "encoding_decode env Base64 s = env_base64_decode env s"

datatype load_error =
    VarNotSet string
  | VarNotEncoded string
  | VarWrongLength string nat
  | VarInvalidKey string
  | ExpectedShare u32 load_error
  | CannotInferNextVersion
  | TargetVersionZero
  | RotationMismatch u32 u32 u32
  | NoClients

definition MASTER_KEY_LENGTH :: nat where
  "MASTER_KEY_LENGTH = 32"

definition decode_byte_array :: "env_ops \<Rightarrow> encoding \<Rightarrow> nat \<Rightarrow> string \<Rightarrow> (bytes, load_error) res" where
  "decode_byte_array env enc n env_name =
     and_then (ok_or (VarNotSet env_name) (env_var env env_name)) (\<lambda>hex_string.
     and_then (ok_or (VarNotEncoded env_name) (encoding_decode env enc hex_string)) (\<lambda>b.
       if length b = n then Ok b else Err (VarWrongLength env_name n)))"

definition decode_master_key ::
  "('s, 'g1, 'g2, 'gt, 'r) bls_ops \<Rightarrow> env_ops \<Rightarrow> encoding \<Rightarrow> string \<Rightarrow> ('s, load_error) res" where
  "decode_master_key B env enc env_name =
     and_then (decode_byte_array env enc MASTER_KEY_LENGTH env_name) (\<lambda>b.
       map_err (\<lambda>_. VarInvalidKey env_name) (scalar_from_bytes B b))"

definition SUI_ADDRESS_LENGTH :: nat where
  "SUI_ADDRESS_LENGTH = 32"

definition decode_object_id :: "env_ops \<Rightarrow> string \<Rightarrow> (object_id, load_error) res" where
  "decode_object_id env env_name =
     and_then (ok_or (VarNotSet env_name) (env_var env env_name)) (\<lambda>hex_string.
     and_then (ok_or (VarNotEncoded env_name) (env_hex_decode env hex_string)) (\<lambda>b.
       if length b = SUI_ADDRESS_LENGTH then Ok b else Err (VarWrongLength env_name SUI_ADDRESS_LENGTH)))"

subsection \<open>Master keys\<close>

type_synonym ('k, 'v) hash_map = "('k \<times> 'v) list"

definition MASTER_KEY_ENV_VAR :: string where
  "MASTER_KEY_ENV_VAR = ''MASTER_KEY''"

definition master_share_var :: "u32 \<Rightarrow> string" where
  "master_share_var version = ''MASTER_SHARE_V'' @ decimal (unat version)"

definition load_master_share ::
  "('s, 'g1, 'g2, 'gt, 'r) bls_ops \<Rightarrow> env_ops \<Rightarrow> u32 \<Rightarrow> ('s, load_error) res" where
  "load_master_share B env version =
     map_err (ExpectedShare version) (decode_master_key B env PrefixedHex (master_share_var version))"

datatype 's committee_key_state =
    ActiveKey 's
  | RotationKeys (old_share: "'s option") (next_share: 's) (target_version: u32)

datatype 's master_keys =
    OpenKeys 's
  | PermissionedKeys "(object_id, 's) hash_map" "(object_id, 's) hash_map"
  | CommitteeKeys (key_state: "'s committee_key_state") (committee_version: u32)

definition checked_add1 :: "u32 \<Rightarrow> u32 option" where
  "checked_add1 v = (if v = 4294967295 then None else Some (v + 1))"

definition checked_sub1 :: "u32 \<Rightarrow> u32 option" where
  "checked_sub1 v = (if v = 0 then None else Some (v - 1))"

definition saturating_sub1 :: "u32 \<Rightarrow> u32" where
  "saturating_sub1 v = (if v = 0 then 0 else v - 1)"

text \<open>The committee branch of \<open>load\<close>.\<close>

definition load_committee ::
  "('s, 'g1, 'g2, 'gt, 'r) bls_ops \<Rightarrow> env_ops \<Rightarrow> committee_state \<Rightarrow> u32 \<Rightarrow>
   ('s committee_key_state, load_error) res" where
  "load_committee B env st version =
     (case st of
        ActiveState \<Rightarrow>
          (case load_master_share B env version of
             Ok master_share \<Rightarrow> Ok (ActiveKey master_share)
           | Panic \<Rightarrow> Panic
           | Err _ \<Rightarrow>
               and_then (ok_or CannotInferNextVersion (checked_add1 version)) (\<lambda>target.
               and_then (load_master_share B env target) (\<lambda>next_master_share.
                 Ok (RotationKeys None next_master_share target))))
      | RotationState target \<Rightarrow>
          if target = 0 then Err TargetVersionZero
          else if version = target then and_then (load_master_share B env target) (\<lambda>s. Ok (ActiveKey s))
          else if Some version = checked_sub1 target then
            (case load_master_share B env version of
               Panic \<Rightarrow> Panic
             | r \<Rightarrow>
                 let master_share = (case r of Ok s \<Rightarrow> Some s | _ \<Rightarrow> None) in
                 and_then (load_master_share B env target) (\<lambda>next_master_share.
                   Ok (RotationKeys master_share next_master_share target)))
          else Err (RotationMismatch version (saturating_sub1 target) target))"

text \<open>The key of one client; an exported key is skipped.\<close>

definition client_key ::
  "('s, 'g1, 'g2, 'gt, 'r) bls_ops \<Rightarrow> env_ops \<Rightarrow> bytes \<Rightarrow> client_config \<Rightarrow> ('s option, load_error) res" where
  "client_key B env seed c =
     (case cc_client_master_key c of
        Derived i \<Rightarrow>
          and_then (expect (derive_master_key B seed i)) (\<lambda>k. Ok (Some k))
      | Imported env_name \<Rightarrow> and_then (decode_master_key B env PrefixedHex env_name) (\<lambda>k. Ok (Some k))
      | Exported _ \<Rightarrow> Ok None)"

fun load_clients ::
  "('s, 'g1, 'g2, 'gt, 'r) bls_ops \<Rightarrow> env_ops \<Rightarrow> bytes \<Rightarrow> client_config list \<Rightarrow>
   (object_id, 's) hash_map \<Rightarrow> (object_id, 's) hash_map \<Rightarrow>
   ((object_id, 's) hash_map \<times> (object_id, 's) hash_map, load_error) res" where
  "load_clients B env seed [] pkg_id_to_key key_server_oid_to_key = Ok (pkg_id_to_key, key_server_oid_to_key)"
| "load_clients B env seed (c # cs) pkg_id_to_key key_server_oid_to_key =
     and_then (client_key B env seed c) (\<lambda>k.
       case k of
         None \<Rightarrow> load_clients B env seed cs pkg_id_to_key key_server_oid_to_key
       | Some master_key \<Rightarrow>
           load_clients B env seed cs
             (fold (\<lambda>pkg_id m. (pkg_id, master_key) # m) (cc_package_ids c) pkg_id_to_key)
             ((cc_key_server_object_id c, master_key) # key_server_oid_to_key))"

definition next_free_derivation_index :: "client_config list \<Rightarrow> u64" where
  "next_free_derivation_index client_configs =
     (case List.map_filter
        (\<lambda>c. case cc_client_master_key c of Derived i \<Rightarrow> Some i | Exported i \<Rightarrow> Some i | Imported _ \<Rightarrow> None)
        client_configs of
        [] \<Rightarrow> 0
      | i # rest \<Rightarrow> foldl max i rest + 1)"

text \<open>The indices and public keys written to the log.\<close>

definition log_unassigned_public_keys ::
  "('s, 'g1, 'g2, 'gt, 'r) bls_ops \<Rightarrow> client_config list \<Rightarrow> bytes \<Rightarrow> ((u64 \<times> 'g2) list, load_error) res" where
  "log_unassigned_public_keys B client_configs seed =
     collect_res (\<lambda>i.
       let idx = next_free_derivation_index client_configs + of_nat i in
       and_then (expect (derive_master_key B seed idx)) (\<lambda>k. Ok (idx, public_key_from_master_key B k)))
       [0..<10]"

definition load ::
  "('s, 'g1, 'g2, 'gt, 'r) bls_ops \<Rightarrow> env_ops \<Rightarrow> 'v key_server_options \<Rightarrow> u32 option \<Rightarrow>
   ('s master_keys, load_error) res" where
  "load B env options version =
     (case opt_server_mode options of
        ModeOpen _ \<Rightarrow>
          (case decode_master_key B env PrefixedHex MASTER_KEY_ENV_VAR of
             Ok master_key \<Rightarrow> Ok (OpenKeys master_key)
           | Panic \<Rightarrow> Panic
           | Err _ \<Rightarrow>
               and_then (decode_master_key B env Base64 MASTER_KEY_ENV_VAR) (\<lambda>k. Ok (OpenKeys k)))
      | ModeCommittee _ _ st _ \<Rightarrow>
          (case version of
             None \<Rightarrow> Panic
           | Some v \<Rightarrow> and_then (load_committee B env st v) (\<lambda>ks. Ok (CommitteeKeys ks v)))
      | ModePermissioned client_configs \<Rightarrow>
          and_then (decode_byte_array env PrefixedHex SEED_LENGTH MASTER_KEY_ENV_VAR) (\<lambda>seed.
          and_then (load_clients B env seed client_configs [] []) (\<lambda>(pkg_id_to_key, key_server_oid_to_key).
          and_then (log_unassigned_public_keys B client_configs seed) (\<lambda>_.
            if pkg_id_to_key = [] then Err NoClients
            else Ok (PermissionedKeys pkg_id_to_key key_server_oid_to_key)))))"

subsection \<open>Serving\<close>

definition get_committee_server_master_share :: "'s master_keys \<Rightarrow> ('s, internal_error) res" where
  "get_committee_server_master_share mk =
     (case mk of
        CommitteeKeys (ActiveKey master_share) _ \<Rightarrow> Ok master_share
      | CommitteeKeys (RotationKeys master_share next_master_share target) current_version \<Rightarrow>
          if current_version = target then Ok next_master_share
          else if checked_add1 current_version = Some target then
            (case master_share of
               Some s \<Rightarrow> Ok s
             | None \<Rightarrow> Err (Failure (''Rotation in progress: onchain version is '' @ decimal (unat current_version) @
                 '', target is '' @ decimal (unat target) @ ''. Cannot serve traffic without old share.'')))
          else Err (Failure (''Invalid rotation state: onchain version is '' @ decimal (unat current_version) @
                 '', target is '' @ decimal (unat target) @ ''.''))
      | _ \<Rightarrow> Err (Failure ''Invalid server type''))"

definition get_key_for_package :: "'s master_keys \<Rightarrow> object_id \<Rightarrow> ('s, internal_error) res" where
  "get_key_for_package mk pkg =
     (case mk of
        OpenKeys master_key \<Rightarrow> Ok master_key
      | CommitteeKeys _ _ \<Rightarrow> get_committee_server_master_share mk
      | PermissionedKeys pkg_id_to_key _ \<Rightarrow> ok_or UnsupportedPackageId (map_of pkg_id_to_key pkg))"

definition has_key_for_package :: "'s master_keys \<Rightarrow> object_id \<Rightarrow> (unit, internal_error) res" where
  "has_key_for_package mk pkg = and_then (get_key_for_package mk pkg) (\<lambda>_. Ok ())"

definition get_key_for_key_server :: "'s master_keys \<Rightarrow> object_id \<Rightarrow> ('s, internal_error) res" where
  "get_key_for_key_server mk ks =
     (case mk of
        OpenKeys master_key \<Rightarrow> Ok master_key
      | CommitteeKeys _ _ \<Rightarrow> get_committee_server_master_share mk
      | PermissionedKeys _ key_server_oid_to_key \<Rightarrow> ok_or InvalidServiceId (map_of key_server_oid_to_key ks))"

definition get_committee_partial_pk ::
  "('s, 'g1, 'g2, 'gt, 'r) bls_ops \<Rightarrow> 's master_keys \<Rightarrow> ('g2, internal_error) res" where
  "get_committee_partial_pk B mk =
     and_then (get_committee_server_master_share mk) (\<lambda>k. Ok (public_key_from_master_key B k))"

subsection \<open>The keys of a permissioned server\<close>

lemma map_of_insert_all:
  "map_of (fold (\<lambda>x m. (x, v) # m) xs m) p = (if p \<in> set xs then Some v else map_of m p)"
  by (induction xs arbitrary: m) auto

definition owner :: "(client_config \<Rightarrow> object_id list) \<Rightarrow> client_config list \<Rightarrow> object_id \<Rightarrow> client_config option" where
  "owner ids cs p = find (\<lambda>c. p \<in> set (ids c)) cs"

lemma owner_simps [simp]:
  "owner ids [] p = None"
  "owner ids (c # cs) p = (if p \<in> set (ids c) then Some c else owner ids cs p)"
  by (simp_all add: owner_def)

lemma owner_None: "p \<notin> set (concat (map ids cs)) \<Longrightarrow> owner ids cs p = None"
  by (induction cs) auto

text \<open>
  The entry of an id after the clients are loaded: the key of the client that lists it.
\<close>

definition loaded_entry ::
  "('s, 'g1, 'g2, 'gt, 'r) bls_ops \<Rightarrow> env_ops \<Rightarrow> bytes \<Rightarrow> (client_config \<Rightarrow> object_id list) \<Rightarrow>
   client_config list \<Rightarrow> object_id \<Rightarrow> 's option" where
  "loaded_entry B env seed ids cs p =
     (case owner ids cs p of
        None \<Rightarrow> None
      | Some c \<Rightarrow> (case client_key B env seed c of Ok (Some k) \<Rightarrow> Some k | _ \<Rightarrow> None))"

definition overlay :: "'a option \<Rightarrow> 'a option \<Rightarrow> 'a option" where
  "overlay x y = (case x of None \<Rightarrow> y | Some _ \<Rightarrow> x)"

lemma overlay_simps [simp]: "overlay None y = y" "overlay (Some a) y = Some a"
  by (simp_all add: overlay_def)

lemma loaded_entry_Nil [simp]: "loaded_entry B env seed ids [] p = None"
  by (simp add: loaded_entry_def)

lemma loaded_entry_Cons:
  "client_key B env seed c = Ok k \<Longrightarrow>
   loaded_entry B env seed ids (c # cs) p = (if p \<in> set (ids c) then k else loaded_entry B env seed ids cs p)"
  by (cases k) (simp_all add: loaded_entry_def)

lemma loaded_entry_None: "p \<notin> set (concat (map ids cs)) \<Longrightarrow> loaded_entry B env seed ids cs p = None"
  using owner_None [of p ids cs] by (simp add: loaded_entry_def)

lemma load_clients_maps:
  assumes "load_clients B env seed cs pm km = Ok (pm', km')"
    and "distinct (concat (map cc_package_ids cs))" and "distinct (map cc_key_server_object_id cs)"
  shows "map_of pm' p = overlay (loaded_entry B env seed cc_package_ids cs p) (map_of pm p) \<and>
    map_of km' p = overlay (loaded_entry B env seed (\<lambda>c. [cc_key_server_object_id c]) cs p) (map_of km p)"
  using assms
proof (induction cs arbitrary: pm km)
  case (Cons c cs)
  then obtain k where k: "client_key B env seed c = Ok k" by (auto simp: res_simps)
  let ?pm = "case k of None \<Rightarrow> pm | Some m \<Rightarrow> fold (\<lambda>x n. (x, m) # n) (cc_package_ids c) pm"
  let ?km = "case k of None \<Rightarrow> km | Some m \<Rightarrow> (cc_key_server_object_id c, m) # km"
  have "load_clients B env seed cs ?pm ?km = Ok (pm', km')"
    using Cons.prems(1) k by (cases k) simp_all
  moreover have "map_of ?pm p = (if p \<in> set (cc_package_ids c) then overlay k (map_of pm p) else map_of pm p)"
    "map_of ?km p = (if p = cc_key_server_object_id c then overlay k (map_of km p) else map_of km p)"
    by (cases k; simp add: map_of_insert_all)+
  moreover have "p \<in> set (cc_package_ids c) \<Longrightarrow> loaded_entry B env seed cc_package_ids cs p = None"
    "p = cc_key_server_object_id c \<Longrightarrow> loaded_entry B env seed (\<lambda>c. [cc_key_server_object_id c]) cs p = None"
    using Cons.prems(2,3) by (intro loaded_entry_None; auto)+
  ultimately show ?case
    using Cons.IH [of ?pm ?km] Cons.prems(2,3) by (auto simp: loaded_entry_Cons [OF k])
qed simp

lemma load_clients_keys:
  "load_clients B env seed cs pm km = Ok r \<Longrightarrow> c \<in> set cs \<Longrightarrow> \<exists>k. client_key B env seed c = Ok k"
proof (induction cs arbitrary: pm km)
  case (Cons d cs)
  then obtain k where "client_key B env seed d = Ok k" by (auto simp: res_simps)
  with Cons show ?case by (cases k) auto
qed simp

lemma distinct_config_ids:
  "distinct (concat (map config_ids cs)) \<Longrightarrow>
   distinct (concat (map cc_package_ids cs)) \<and> distinct (map cc_key_server_object_id cs)"
  by (induction cs) (auto simp: config_ids_def)

lemma load_permissionedD:
  assumes "load B env opts v = Ok mk" and "opt_server_mode opts = ModePermissioned cs"
  obtains seed pm km where "decode_byte_array env PrefixedHex SEED_LENGTH MASTER_KEY_ENV_VAR = Ok seed"
    and "load_clients B env seed cs [] [] = Ok (pm, km)" and "mk = PermissionedKeys pm km"
  using assms by (auto simp: load_def res_simps split: if_splits)

lemma loaded_entry_owner:
  assumes "c \<in> set cs" and "p \<in> set (ids c)" and "distinct (concat (map ids cs))"
    and "client_key B env seed c = Ok k"
  shows "loaded_entry B env seed ids cs p = k"
proof -
  have "owner ids cs p = Some c" using assms(1-3) by (induction cs) auto
  with assms(4) show ?thesis by (cases k) (simp_all add: loaded_entry_def)
qed

lemma client_key_exported:
  "client_key B env seed c = Ok None \<longleftrightarrow> (case cc_client_master_key c of Exported _ \<Rightarrow> True | _ \<Rightarrow> False)"
  by (cases "cc_client_master_key c") (auto simp: client_key_def and_then_Ok_iff)

lemma validated_ids:
  assumes "validate opts = Ok ()" and "opt_server_mode opts = ModePermissioned cs"
  shows "distinct (concat (map cc_package_ids cs))" "distinct (map cc_key_server_object_id cs)"
proof -
  have "distinct (concat (map config_ids cs))"
    using assms(1) unfolding validate_iff assms(2) by simp
  then show "distinct (concat (map cc_package_ids cs))" "distinct (map cc_key_server_object_id cs)"
    by (simp_all add: distinct_config_ids)
qed

lemma distinct_key_servers:
  "distinct (map cc_key_server_object_id cs) \<Longrightarrow> distinct (concat (map (\<lambda>c. [cc_key_server_object_id c]) cs))"
  by (induction cs) auto

subsection \<open>The share of a committee member\<close>

lemma u32_max_iff: "(v :: u32) = 4294967295 \<longleftrightarrow> v + 1 = 0"
proof
  assume "v + 1 = 0"
  then have "v = - 1" by (simp add: eq_neg_iff_add_eq_0)
  then show "v = 4294967295" by simp
qed simp

lemma checked_add1_Some: "checked_add1 v = Some t \<longleftrightarrow> t = v + 1 \<and> t \<noteq> 0"
  by (auto simp: checked_add1_def u32_max_iff)

lemma checked_sub1_Some: "Some v = checked_sub1 t \<longleftrightarrow> t = v + 1 \<and> t \<noteq> 0"
  by (auto simp: checked_sub1_def)

lemma unat_succ: "v + 1 \<noteq> 0 \<Longrightarrow> unat (v + 1) = unat (v :: u32) + 1"
  using unatSuc [of v] by (simp add: add.commute)

lemma checked_add1_unat: "checked_add1 v = Some t \<longleftrightarrow> unat v + 1 = unat t"
proof -
  have "unat v + 1 \<noteq> unat t" if "v + 1 = 0"
  proof -
    have "v = 4294967295" using that by (simp add: u32_max_iff)
    moreover have "unat t < 2 ^ 32" using unsigned_less [of t] by simp
    ultimately show ?thesis by simp
  qed
  then show ?thesis
    unfolding checked_add1_Some using unat_succ [of v] by (metis word_unat_eq_iff unat_0 add_is_0 one_neq_zero)
qed

lemma version_neq_succ: "(v :: u32) \<noteq> v + 1"
  by simp

text \<open>What \<open>load\<close> may leave in the committee state for the version read from the chain.\<close>

fun rotation_ready :: "'s master_keys \<Rightarrow> bool" where
  "rotation_ready (CommitteeKeys (RotationKeys _ _ target) v) \<longleftrightarrow> target \<noteq> 0 \<and> (v = target \<or> v + 1 = target)"
| "rotation_ready _ = True"

lemma load_committee_version:
  "load_committee B env st v = Ok (RotationKeys oldk nextk target) \<Longrightarrow> target = v + 1 \<and> target \<noteq> 0"
  by (auto simp: load_committee_def res_simps checked_add1_Some checked_sub1_Some
      split: committee_state.splits res.splits if_splits)

lemma load_rotation_ready: "load B env opts v = Ok mk \<Longrightarrow> rotation_ready mk"
proof (cases "opt_server_mode opts")
  case (ModeCommittee a b st n)
  moreover assume "load B env opts v = Ok mk"
  ultimately obtain w ks where "load_committee B env st w = Ok ks" "mk = CommitteeKeys ks w"
    by (auto simp: load_def res_simps split: option.splits)
  then show ?thesis by (cases ks) (auto dest: load_committee_version)
qed (auto simp: load_def res_simps split: res.splits if_splits)

lemma share_when_ready:
  "rotation_ready (CommitteeKeys (RotationKeys oldk nextk target) v) \<Longrightarrow>
   get_committee_server_master_share (CommitteeKeys (RotationKeys oldk nextk target) v) =
     (if v = target then Ok nextk
      else case oldk of Some s \<Rightarrow> Ok s
        | None \<Rightarrow> Err (Failure (''Rotation in progress: onchain version is '' @ decimal (unat v) @
            '', target is '' @ decimal (unat target) @ ''. Cannot serve traffic without old share.'')))"
  by (auto simp: get_committee_server_master_share_def checked_add1_Some)

lemma load_permissioned_client:
  assumes "validate opts = Ok ()" and "opt_server_mode opts = ModePermissioned cs"
    and "load B env opts v = Ok mk"
    and "decode_byte_array env PrefixedHex SEED_LENGTH MASTER_KEY_ENV_VAR = Ok seed"
  shows "c \<in> set cs \<Longrightarrow> \<exists>k. client_key B env seed c = Ok k \<and>
        (k = None) = (case cc_client_master_key c of Exported _ \<Rightarrow> True | _ \<Rightarrow> False) \<and>
        get_key_for_key_server mk (cc_key_server_object_id c) = ok_or InvalidServiceId k \<and>
        list_all (\<lambda>p. get_key_for_package mk p = ok_or UnsupportedPackageId k) (cc_package_ids c)"
    and "p \<notin> set (concat (map cc_package_ids cs)) \<Longrightarrow> get_key_for_package mk p = Err UnsupportedPackageId"
proof -
  from load_permissionedD [OF assms(3,2)] assms(4) obtain pm km where
    l: "load_clients B env seed cs [] [] = Ok (pm, km)" and mk: "mk = PermissionedKeys pm km"
    by (metis res.inject(1))
  note d = validated_ids [OF assms(1,2)]
  have pkg: "get_key_for_package mk p = ok_or UnsupportedPackageId (loaded_entry B env seed cc_package_ids cs p)"
    and srv: "get_key_for_key_server mk p =
      ok_or InvalidServiceId (loaded_entry B env seed (\<lambda>c. [cc_key_server_object_id c]) cs p)" for p
    using load_clients_maps [OF l d, of p]
    by (simp_all add: get_key_for_package_def get_key_for_key_server_def mk overlay_def split: option.split)
  show "\<exists>k. client_key B env seed c = Ok k \<and>
        (k = None) = (case cc_client_master_key c of Exported _ \<Rightarrow> True | _ \<Rightarrow> False) \<and>
        get_key_for_key_server mk (cc_key_server_object_id c) = ok_or InvalidServiceId k \<and>
        list_all (\<lambda>p. get_key_for_package mk p = ok_or UnsupportedPackageId k) (cc_package_ids c)"
    if c: "c \<in> set cs"
  proof -
    from load_clients_keys [OF l c] obtain k where k: "client_key B env seed c = Ok k" ..
    have "get_key_for_key_server mk (cc_key_server_object_id c) = ok_or InvalidServiceId k"
      unfolding srv by (subst loaded_entry_owner [OF c _ distinct_key_servers [OF d(2)] k]) simp_all
    moreover have "list_all (\<lambda>p. get_key_for_package mk p = ok_or UnsupportedPackageId k) (cc_package_ids c)"
      unfolding pkg using loaded_entry_owner [OF c _ d(1) k] by (simp add: list_all_iff)
    moreover have "(k = None) = (case cc_client_master_key c of Exported _ \<Rightarrow> True | _ \<Rightarrow> False)"
      using client_key_exported [of B env seed c] k by simp
    ultimately show ?thesis using k by blast
  qed
  show "get_key_for_package mk p = Err UnsupportedPackageId" if "p \<notin> set (concat (map cc_package_ids cs))"
    unfolding pkg using loaded_entry_None [OF that] by simp
qed

subsection \<open>Properties\<close>

text \<open>
  C20: keys are separated by client. When a validated permissioned configuration loads, every
  package and the key server id of a client are served with that client's key, those of an
  exported client with none, and a package no client lists is unsupported.
\<close>

theorem load_permissioned_keys:
  assumes "validate opts = Ok ()" and "opt_server_mode opts = ModePermissioned cs"
    and "load B env opts v = Ok mk"
    and "decode_byte_array env PrefixedHex SEED_LENGTH MASTER_KEY_ENV_VAR = Ok seed"
  shows "list_all (\<lambda>c. \<exists>k. client_key B env seed c = Ok k \<and>
        (k = None) = (case cc_client_master_key c of Exported _ \<Rightarrow> True | _ \<Rightarrow> False) \<and>
        get_key_for_key_server mk (cc_key_server_object_id c) = ok_or InvalidServiceId k \<and>
        list_all (\<lambda>p. get_key_for_package mk p = ok_or UnsupportedPackageId k) (cc_package_ids c)) cs \<and>
      (\<forall>p. p \<notin> set (concat (map cc_package_ids cs)) \<longrightarrow> get_key_for_package mk p = Err UnsupportedPackageId)"
  using load_permissioned_client [OF assms] unfolding list_all_iff [of _ cs] by blast

definition demo_env :: env_ops where
  "demo_env = \<lparr>env_var = (\<lambda>n. if n = ''MASTER_SHARE_V4'' then None else Some n),
     env_hex_decode = (\<lambda>s. Some (replicate 32 3)), env_base64_decode = (\<lambda>s. None)\<rparr>"

definition demo_clients :: "client_config list" where
  "demo_clients =
     [\<lparr>cc_name = ''alice'', cc_client_master_key = Derived 1, cc_key_server_object_id = [1], cc_package_ids = [[10], [11]]\<rparr>,
      \<lparr>cc_name = ''bob'', cc_client_master_key = Exported 0, cc_key_server_object_id = [2], cc_package_ids = [[12]]\<rparr>]"

definition demo_options :: "server_mode \<Rightarrow> unit key_server_options" where
  "demo_options mode = (new_open_server_with_default_values (\<lambda>_. ()) Testnet [1])\<lparr>opt_server_mode := mode\<rparr>"

definition demo_keys :: "gf256 master_keys" where
  "demo_keys = PermissionedKeys [([11], GF256 3), ([10], GF256 3)] [([1], GF256 3)]"

lemma demo_mode: "opt_server_mode (demo_options mode) = mode"
  by (simp add: demo_options_def)

lemma demo_validate: "validate (demo_options (ModePermissioned demo_clients)) = Ok ()"
  by (simp add: validate_def demo_mode) code_simp

lemma demo_load: "load gf_bls demo_env (demo_options (ModePermissioned demo_clients)) None = Ok demo_keys"
  by (simp add: load_def demo_mode) code_simp

lemma demo_seed: "decode_byte_array demo_env PrefixedHex SEED_LENGTH MASTER_KEY_ENV_VAR = Ok (replicate 32 3)"
  by code_simp

theorem load_permissioned_keys_witness:
  "get_key_for_package demo_keys [13] = Err UnsupportedPackageId \<and>
   list_all (\<lambda>c. \<exists>k. client_key gf_bls demo_env (replicate 32 3) c = Ok k \<and>
     get_key_for_key_server demo_keys (cc_key_server_object_id c) = ok_or InvalidServiceId k) demo_clients"
proof -
  note keys = load_permissioned_keys [OF demo_validate demo_mode demo_load demo_seed]
  have "[13] \<notin> set (concat (map cc_package_ids demo_clients))" by (simp add: demo_clients_def)
  with keys have "get_key_for_package demo_keys [13] = Err UnsupportedPackageId" by blast
  moreover have "list_all (\<lambda>c. \<exists>k. client_key gf_bls demo_env (replicate 32 3) c = Ok k \<and>
     get_key_for_key_server demo_keys (cc_key_server_object_id c) = ok_or InvalidServiceId k) demo_clients"
    using conjunct1 [OF keys] by (rule list.pred_mono_strong) blast
  ultimately show ?thesis ..
qed

end
