(* ===== verification/Externals.thy ===== *)
theory Externals
  imports Sdk MasterKeys
begin

text \<open>
  \<^verbatim>\<open>crates/key-server/src/common.rs\<close>, \<^verbatim>\<open>crates/key-server/src/cache.rs\<close>, \<^verbatim>\<open>crates/key-server/src/mvr.rs\<close> and
  \<^verbatim>\<open>crates/key-server/src/externals.rs\<close>: resolution of package ids and of names of the Move registry
  through the full node, with their caches, and the client types of the version header.

  The full node is the record \<open>rpc_client\<close> of its answers during one request (after retries).
  A cache is a map: an insertion adds an entry, and eviction (expiry or capacity, whose policy
  is third-party) may remove entries at any moment. The parser of registry names and the
  derivation of object ids are the record \<open>mvr_ops\<close>.
\<close>

subsection \<open>The full node\<close>

record app_info =
  ai_package_info_id :: "object_id option"
  ai_package_address :: "object_id option"

record app_record =
  ar_app_info :: "app_info option"
  ar_networks :: "(string \<times> app_info) list"

record package_info =
  pi_package_address :: object_id
  pi_metadata :: "(string \<times> string) list"

record tx_data =
  td_ptb :: programmable_transaction
  td_sender :: object_id
  td_gas_budget :: u64
  td_gas_price :: u64

record rpc_client =
  rc_original_id :: "object_id \<Rightarrow> (object_id, rpc_error) res"
  rc_object_exists :: "object_id \<Rightarrow> (bool, rpc_error) res"
  rc_app_record :: "object_id \<Rightarrow> (app_record, rpc_error) res"
  rc_package_info :: "object_id \<Rightarrow> (package_info, rpc_error) res"
  rc_show_code :: "code \<Rightarrow> string"
  rc_simulate :: "tx_data \<Rightarrow> (simulate_response, rpc_error) res"

text \<open>The conversion of a \<open>VecMap\<close> to a \<open>HashMap\<close>: the last entry of a key wins.\<close>

definition vec_map_into :: "('k \<times> 'v) list \<Rightarrow> ('k \<rightharpoonup> 'v)" where
  "vec_map_into contents = map_of (rev contents)"

subsection \<open>Caches\<close>

definition DEFAULT_SIZE :: u64 where "DEFAULT_SIZE = 1000"
definition DEFAULT_TTL_IN_MILLIS :: u64 where "DEFAULT_TTL_IN_MILLIS = 60 * 60 * 1000"

record cache_config =
  cache_ttl :: u64
  cache_size :: u64

definition lru_cache :: "u64 \<Rightarrow> u64 \<Rightarrow> cache_config \<times> ('k \<rightharpoonup> 'v)" where
  "lru_cache ttl capacity = (\<lparr>cache_ttl = ttl, cache_size = capacity\<rparr>, Map.empty)"

definition default_lru_cache :: "cache_config \<times> ('k \<rightharpoonup> 'v)" where
  "default_lru_cache = lru_cache DEFAULT_TTL_IN_MILLIS DEFAULT_SIZE"

text \<open>The package cache: \<open>PACKAGE_ID_CACHE\<close>.\<close>

definition fetch_first_pkg_id ::
  "rpc_client \<Rightarrow> (object_id \<rightharpoonup> object_id) \<Rightarrow> object_id \<Rightarrow>
   (object_id, internal_error) res \<times> (object_id \<rightharpoonup> object_id)" where
  "fetch_first_pkg_id client cache pkg =
     (case cache pkg of
        Some first \<Rightarrow> (Ok first, cache)
      | None \<Rightarrow>
          (case rc_original_id client pkg of
             Ok first \<Rightarrow> (Ok first, cache(pkg \<mapsto> first))
           | Panic \<Rightarrow> (Panic, cache)
           | Err e \<Rightarrow>
               (Err (case rpc_code e of
                  Some CodeNotFound \<Rightarrow> InvalidPackage
                | None \<Rightarrow> InvalidPackage
                | _ \<Rightarrow> Failure (''Failed to resolve package id: '' @ rpc_display (rc_show_code client) e)), cache)))"

subsection \<open>Client types\<close>

definition HEADER_CLIENT_SDK_VERSION :: string where "HEADER_CLIENT_SDK_VERSION = ''Client-Sdk-Version''"
definition HEADER_CLIENT_SDK_TYPE :: string where "HEADER_CLIENT_SDK_TYPE = ''Client-Sdk-Type''"
definition HEADER_KEYSERVER_VERSION :: string where "HEADER_KEYSERVER_VERSION = ''X-KeyServer-Version''"
definition HEADER_KEYSERVER_GIT_VERSION :: string where "HEADER_KEYSERVER_GIT_VERSION = ''X-KeyServer-GitVersion''"
definition SDK_TYPE_AGGREGATOR :: string where "SDK_TYPE_AGGREGATOR = ''aggregator''"
definition SDK_TYPE_TYPESCRIPT :: string where "SDK_TYPE_TYPESCRIPT = ''typescript''"
definition SDK_TYPE_RUST :: string where "SDK_TYPE_RUST = ''rust''"

datatype client_sdk_type = AggregatorSdk | TypeScriptSdk | RustSdk | OtherSdk

definition from_header :: "string option \<Rightarrow> (client_sdk_type, internal_error) res" where
  "from_header header_value =
     (if header_value = Some SDK_TYPE_AGGREGATOR then Ok AggregatorSdk
      else if header_value = Some SDK_TYPE_TYPESCRIPT then Ok TypeScriptSdk
      else if header_value = Some SDK_TYPE_RUST then Ok RustSdk
      else Ok OtherSdk)"

fun sdk_type_as_str :: "client_sdk_type \<Rightarrow> string" where
  "sdk_type_as_str AggregatorSdk = SDK_TYPE_AGGREGATOR"
| "sdk_type_as_str TypeScriptSdk = SDK_TYPE_TYPESCRIPT"
| "sdk_type_as_str RustSdk = SDK_TYPE_RUST"
| "sdk_type_as_str OtherSdk = ''other''"

lemma from_header_as_str: "from_header (Some (sdk_type_as_str t)) = Ok t"
  by (cases t) (simp_all add: from_header_def SDK_TYPE_AGGREGATOR_def SDK_TYPE_TYPESCRIPT_def SDK_TYPE_RUST_def)

definition add_response_headers :: "string \<Rightarrow> string \<Rightarrow> (string \<rightharpoonup> string) \<Rightarrow> (string \<rightharpoonup> string)" where
  "add_response_headers package_version git_version headers =
     headers(HEADER_KEYSERVER_VERSION \<mapsto> package_version, HEADER_KEYSERVER_GIT_VERSION \<mapsto> git_version)"

subsection \<open>The Move registry\<close>

definition MVR_REGISTRY :: string where
  "MVR_REGISTRY = ''0xe8417c530cde59eddf6dfb760e8a0e3e2c6f17c69ddaab5a73dd6a6e65fc463b''"

definition MVR_CORE :: string where
  "MVR_CORE = ''0x62c1f5b1cb9e3bfc3dd1f73c95066487b662048a6358eabdbf67f6cdeca6db4b''"

definition TESTNET_ID :: string where
  "TESTNET_ID = ''4c78adac''"

record 'n mvr_ops =
  mvr_parse :: "string \<Rightarrow> ('n \<times> u64 option) option"
  mvr_show_field :: "'n \<Rightarrow> string"
  mvr_name_bcs :: "'n \<Rightarrow> bytes"
  mvr_child_id :: "string \<Rightarrow> string \<Rightarrow> bytes \<Rightarrow> object_id"
  mvr_show_id :: "object_id \<Rightarrow> string"

definition dynamic_field_name :: "'n mvr_ops \<Rightarrow> string \<Rightarrow> ('n, internal_error) res" where
  "dynamic_field_name M mvr_name =
     and_then (ok_or InvalidMVRName (mvr_parse M mvr_name)) (\<lambda>(name, version).
       if version \<noteq> None then Err InvalidMVRName else Ok name)"

definition get_from_mvr_registry ::
  "'n mvr_ops \<Rightarrow> string \<Rightarrow> rpc_client \<Rightarrow> (app_record, internal_error) res" where
  "get_from_mvr_registry M mvr_name mainnet_client =
     and_then (dynamic_field_name M mvr_name) (\<lambda>field_name.
     and_then (ok_or InvalidMVRName (mvr_parse M mvr_name)) (\<lambda>(name, version).
       let child_id = mvr_child_id M MVR_REGISTRY MVR_CORE (mvr_name_bcs M name) in
       map_err (\<lambda>e. case rpc_code e of
             Some CodeNotFound \<Rightarrow> InvalidMVRName
           | None \<Rightarrow> InvalidPackage
           | _ \<Rightarrow> Failure (''Failed to get dynamic field object '' @ [CHR 0x27] @ mvr_show_field M field_name @
               [CHR 0x27] @ '' from MVR registry''))
         (rc_app_record mainnet_client child_id)))"

text \<open>On testnet a client for mainnet is built in every resolution. It has two parts: if the JSON-RPC client cannot be built,
  the resolution is an error; if \<open>SuiGrpcClient::new\<close> then refuses the URL of the mainnet node, its \<open>expect\<close> panics.
  \<open>mainnet_clients\<close> says whether the first can be built, and what the client with the second one is.\<close>

record mainnet_clients =
  mn_json_rpc_built :: bool
  mn_grpc_client :: "rpc_client option"

definition mainnet_rpc_client :: "mainnet_clients \<Rightarrow> (rpc_client, internal_error) res" where
  "mainnet_rpc_client mainnet =
     (if \<not> mn_json_rpc_built mainnet then Err (Failure ''Failed to build sui client'')
      else case mn_grpc_client mainnet of None \<Rightarrow> Panic | Some client \<Rightarrow> Ok client)"

lemma mainnet_rpc_client_Ok:
  "mainnet_rpc_client mainnet = Ok c \<longleftrightarrow> mn_json_rpc_built mainnet \<and> mn_grpc_client mainnet = Some c"
  by (simp add: mainnet_rpc_client_def split: option.split)

lemma mainnet_rpc_client_Panic:
  "mainnet_rpc_client mainnet = Panic \<longleftrightarrow> mn_json_rpc_built mainnet \<and> mn_grpc_client mainnet = None"
  by (simp add: mainnet_rpc_client_def split: option.split)

definition mvr_forward_resolution ::
  "'n mvr_ops \<Rightarrow> rpc_client \<Rightarrow> mainnet_clients \<Rightarrow> string \<Rightarrow> network \<Rightarrow> (object_id, internal_error) res" where
  "mvr_forward_resolution M client mainnet_client mvr_name net =
     (case net of
        Mainnet \<Rightarrow>
          and_then (get_from_mvr_registry M mvr_name client) (\<lambda>record.
          and_then (ok_or InvalidMVRName (ar_app_info record)) (\<lambda>info.
            ok_or (Failure (''No package_address field on app_info for '' @ mvr_name @ '' on mainnet''))
              (ai_package_address info)))
      | Testnet \<Rightarrow>
          and_then (mainnet_rpc_client mainnet_client) (\<lambda>mainnet.
          and_then (get_from_mvr_registry M mvr_name mainnet) (\<lambda>record.
          and_then (ok_or InvalidMVRName (vec_map_into (ar_networks record) TESTNET_ID)) (\<lambda>info.
          and_then (ok_or (Failure (''No package info ID for MVR name '' @ mvr_name @ '' on testnet''))
              (ai_package_info_id info)) (\<lambda>package_info_id.
          and_then (map_err (\<lambda>e. case rpc_code e of
                None \<Rightarrow> InvalidPackage
              | _ \<Rightarrow> Failure (''Failed to get object '' @ mvr_show_id M package_info_id))
              (rc_package_info client package_info_id)) (\<lambda>package_info.
          and_then (ok_or (Failure (''No '' @ [CHR 0x27] @ ''default'' @ [CHR 0x27] @ '' field on package_info object''))
              (vec_map_into (pi_metadata package_info) ''default'')) (\<lambda>name_in_package_info.
            if name_in_package_info \<noteq> mvr_name then Err InvalidMVRName
            else Ok (pi_package_address package_info)))))))
      | Devnet _ \<Rightarrow> Err (Failure ''Invalid network for MVR resolution''))"

text \<open>The name cache: \<open>MVR_CACHE\<close>.\<close>

definition insert_mvr_cache :: "string \<Rightarrow> object_id \<Rightarrow> (string \<rightharpoonup> object_id) \<Rightarrow> (string \<rightharpoonup> object_id)" where
  "insert_mvr_cache mvr_name pkg cache = cache(mvr_name \<mapsto> pkg)"

definition get_mvr_cache :: "string \<Rightarrow> (string \<rightharpoonup> object_id) \<Rightarrow> object_id option" where
  "get_mvr_cache mvr_name cache = cache mvr_name"

definition check_mvr_package_id ::
  "'n mvr_ops \<Rightarrow> rpc_client \<Rightarrow> mainnet_clients \<Rightarrow> network \<Rightarrow> string option \<Rightarrow> object_id \<Rightarrow>
   (string \<rightharpoonup> object_id) \<Rightarrow> (unit, internal_error) res \<times> (string \<rightharpoonup> object_id)" where
  "check_mvr_package_id M client mainnet_client net mvr_name first_pkg_id cache =
     (case mvr_name of
        None \<Rightarrow> (Ok (), cache)
      | Some name \<Rightarrow>
          let (resolved, cache) =
            (case get_mvr_cache name cache of
               Some p \<Rightarrow> (Ok p, cache)
             | None \<Rightarrow>
                 (case mvr_forward_resolution M client mainnet_client name net of
                    Ok p \<Rightarrow> (Ok p, insert_mvr_cache name p cache)
                  | r \<Rightarrow> (r, cache)))
          in (and_then resolved (\<lambda>p. if p \<noteq> first_pkg_id then Err InvalidMVRName else Ok ()), cache))"

subsection \<open>The package cache\<close>

text \<open>
  The original id of a package is a constant of the chain: the partial function \<open>orig\<close>. A
  node that answers does so truthfully. The cache changes by requests and by eviction.
\<close>

definition truthful :: "(object_id \<rightharpoonup> object_id) \<Rightarrow> rpc_client \<Rightarrow> bool" where
  "truthful orig client \<longleftrightarrow> (\<forall>p first. rc_original_id client p = Ok first \<longrightarrow> orig p = Some first)"

inductive pkg_cache_step ::
  "(object_id \<rightharpoonup> object_id) \<Rightarrow> (object_id \<rightharpoonup> object_id) \<Rightarrow> (object_id \<rightharpoonup> object_id) \<Rightarrow> bool" for orig where
  requested: "truthful orig client \<Longrightarrow> pkg_cache_step orig cache (snd (fetch_first_pkg_id client cache p))"
| evicted: "pkg_cache_step orig cache (cache |` S)"

interpretation pkg_cache: invariant_system "\<lambda>c. c = Map.empty" "pkg_cache_step orig" "\<lambda>c. c \<subseteq>\<^sub>m orig"
  for orig
proof
  show "c \<subseteq>\<^sub>m orig" if "c = Map.empty" for c :: "object_id \<rightharpoonup> object_id" using that by simp
  fix c d assume c: "c \<subseteq>\<^sub>m orig" and st: "pkg_cache_step orig c d"
  from st show "d \<subseteq>\<^sub>m orig"
  proof (cases rule: pkg_cache_step.cases)
    case (requested client p)
    show ?thesis
    proof (cases "rc_original_id client p")
      case (Ok first)
      with requested(2) have "orig p = Some first" by (simp add: truthful_def)
      with c requested(1) Ok show ?thesis
        by (auto simp: fetch_first_pkg_id_def map_le_def split: option.splits)
    qed (use c requested(1) in \<open>auto simp: fetch_first_pkg_id_def split: option.splits\<close>)
  next
    case (evicted S)
    with c show ?thesis by (auto simp: map_le_def restrict_map_def)
  qed
qed

subsection \<open>Resolution of names\<close>

lemma dynamic_field_name_Ok: "dynamic_field_name M s = Ok n \<longleftrightarrow> mvr_parse M s = Some (n, None)"
  by (auto simp: dynamic_field_name_def res_simps)

definition registry_id :: "'n mvr_ops \<Rightarrow> 'n \<Rightarrow> object_id" where
  "registry_id M n = mvr_child_id M MVR_REGISTRY MVR_CORE (mvr_name_bcs M n)"

lemma get_from_mvr_registry_Ok:
  "get_from_mvr_registry M s client = Ok r \<longleftrightarrow>
     (\<exists>n. mvr_parse M s = Some (n, None) \<and> rc_app_record client (registry_id M n) = Ok r)"
  by (auto simp: get_from_mvr_registry_def registry_id_def res_simps dynamic_field_name_Ok Let_def)

lemma check_mvr_package_id_Ok:
  "fst (check_mvr_package_id M client mainnet net mvr_name first cache) = Ok () \<longleftrightarrow>
     (case mvr_name of
        None \<Rightarrow> True
      | Some name \<Rightarrow> cache name = Some first \<or>
          cache name = None \<and> mvr_forward_resolution M client mainnet name net = Ok first)"
  by (auto simp: check_mvr_package_id_def get_mvr_cache_def res_simps split: option.split res.split if_splits)

subsection \<open>Properties\<close>

text \<open>
  the namespace of a request is right. With truthful nodes, after any requests and evictions,
  the first package id the server works with is the original id of the package, whether it
  comes from the cache or from the node; a failure is one of two errors and leaves the cache
  as it was.
\<close>

theorem first_pkg_id_right:
  assumes "(pkg_cache_step orig)\<^sup>*\<^sup>* Map.empty cache" and "truthful orig client"
  shows "case fetch_first_pkg_id client cache p of
      (Ok first, _) \<Rightarrow> orig p = Some first
    | (Err e, cache') \<Rightarrow> cache' = cache \<and> (e = InvalidPackage \<or> (\<exists>m. e = Failure m))
    | (Panic, cache') \<Rightarrow> cache' = cache \<and> rc_original_id client p = Panic"
proof -
  have "cache \<subseteq>\<^sub>m orig" by (rule pkg_cache.reachable_invar [OF refl assms(1)])
  then have "cache p = Some first \<Longrightarrow> orig p = Some first" for first by (auto simp: map_le_def dom_def)
  with assms(2) show ?thesis
    by (auto simp: fetch_first_pkg_id_def truthful_def split: option.split res.split code.split)
qed

definition demo_client :: rpc_client where
  "demo_client = \<lparr>rc_original_id = (\<lambda>p. if p = [1] then Ok [9] else Err (rpc_from_grpc CodeNotFound [])),
     rc_object_exists = (\<lambda>_. Ok False), rc_app_record = (\<lambda>_. Err (rpc_new [])),
     rc_package_info = (\<lambda>_. Err (rpc_new [])), rc_show_code = (\<lambda>_. []),
     rc_simulate = (\<lambda>_. Ok \<lparr>sim_error = None\<rparr>)\<rparr>"

theorem first_pkg_id_right_witness:
  "fst (fetch_first_pkg_id demo_client Map.empty [1]) = Ok [9] \<and> [([1] :: object_id) \<mapsto> ([9] :: object_id)] [1] = Some [9]"
proof -
  have t: "truthful [[1] \<mapsto> [9]] demo_client" by (simp add: truthful_def demo_client_def)
  have "(pkg_cache_step [[1] \<mapsto> [9]])\<^sup>*\<^sup>* Map.empty Map.empty" by simp
  from first_pkg_id_right [OF this t, of "[1]"] show ?thesis
    by (simp add: fetch_first_pkg_id_def demo_client_def)
qed

text \<open>
  names of the Move registry. Resolution gives a package exactly if the name is well formed
  without a version, its registry record on mainnet exists and, on mainnet, that record has
  the package address; on testnet, the record refers to a package info object on testnet that
  carries the very name and the address. There is no resolution on other networks.
\<close>

theorem mvr_resolution_exact:
  "mvr_forward_resolution M client mainnet name net = Ok p \<longleftrightarrow>
     (case net of
        Mainnet \<Rightarrow> \<exists>n record info. mvr_parse M name = Some (n, None) \<and>
          rc_app_record client (registry_id M n) = Ok record \<and>
          ar_app_info record = Some info \<and> ai_package_address info = Some p
      | Testnet \<Rightarrow> \<exists>mc n record info pid pinfo. mainnet_rpc_client mainnet = Ok mc \<and> mvr_parse M name = Some (n, None) \<and>
          rc_app_record mc (registry_id M n) = Ok record \<and>
          vec_map_into (ar_networks record) TESTNET_ID = Some info \<and> ai_package_info_id info = Some pid \<and>
          rc_package_info client pid = Ok pinfo \<and> vec_map_into (pi_metadata pinfo) ''default'' = Some name \<and>
          p = pi_package_address pinfo
      | Devnet _ \<Rightarrow> False)"
proof (cases net)
  case Testnet
  show ?thesis
    unfolding mvr_forward_resolution_def Testnet network.case and_then_Ok_iff get_from_mvr_registry_Ok
      ok_or_Ok_iff map_err_Ok_iff by auto
qed (auto simp: mvr_forward_resolution_def get_from_mvr_registry_Ok res_simps)

end
