(* ===== verification/Monitors.thy ===== *)
theory Monitors
  imports MasterKeys
begin

text \<open>
  The background tasks of the key server: \<^verbatim>\<open>crates/key-server/src/periodic_updater.rs\<close> and, in
  \<^verbatim>\<open>crates/key-server/src/server.rs\<close>, the committee version updater, the rotation event monitor and
  the package upgrade monitor.

  A watch channel is its value and whether the receiver has not seen it yet. Each task is a
  step relation: a step is one iteration of a loop on an arbitrary answer of the full node,
  and the requests the server answers may fall between any two steps. A task that panics
  stops the process, so it takes no further step.
\<close>

subsection \<open>The periodic updater\<close>

record watch =
  w_value :: u64
  w_fresh :: bool

definition channel0 :: watch where
  "channel0 = \<lparr>w_value = 0, w_fresh = False\<rparr>"

definition send :: "u64 \<Rightarrow> watch \<Rightarrow> watch" where
  "send v ch = ch\<lparr>w_value := v, w_fresh := True\<rparr>"

definition mark_seen :: "watch \<Rightarrow> watch" where
  "mark_seen ch = ch\<lparr>w_fresh := False\<rparr>"

definition periodic_tick :: "(u64, rpc_error) res \<Rightarrow> watch \<Rightarrow> watch" where
  "periodic_tick result ch = (case result of Ok new_value \<Rightarrow> send new_value ch | _ \<Rightarrow> ch)"

text \<open>
  The start of the updater, on the answers of the full node in order: it returns once a
  value was fetched, with the answers that are left, and \<open>None\<close> while it is blocked.
\<close>

fun spawn_periodic_updater :: "(u64, rpc_error) res list \<Rightarrow> watch \<Rightarrow> (watch \<times> (u64, rpc_error) res list) option" where
  "spawn_periodic_updater [] ch = None"
| "spawn_periodic_updater (r # rs) ch =
     (let ch = periodic_tick r ch in
      if w_fresh ch then Some (mark_seen ch, rs) else spawn_periodic_updater rs ch)"

lemma spawn_periodic_updater_first:
  "\<not> w_fresh ch \<Longrightarrow> spawn_periodic_updater rs ch =
     (case dropWhile (\<lambda>r. \<not> is_ok r) rs of
        Ok v # rest \<Rightarrow> Some (\<lparr>w_value = v, w_fresh = False\<rparr>, rest)
      | _ \<Rightarrow> None)"
proof (induction rs)
  case (Cons r rs)
  then show ?case
    by (cases r) (simp_all add: periodic_tick_def send_def mark_seen_def)
qed simp

subsection \<open>The committee version updater\<close>

datatype updater_phase = NotSpawned | Watching | Finished | Crashed

record 's rotation =
  rot_keys :: "'s master_keys"
  rot_chan :: watch
  rot_phase :: updater_phase

definition fetch_and_validate_committee_partial_pk ::
  "('s, 'g1, 'g2, 'gt, 'r) bls_ops \<Rightarrow> ('g2, rpc_error) res \<Rightarrow> 's \<Rightarrow> (unit, rpc_error) res" where
  "fetch_and_validate_committee_partial_pk B member_partial_pk master_share =
     and_then member_partial_pk (\<lambda>partial_pk.
       if public_key_from_master_key B master_share \<noteq> partial_pk
       then Err (rpc_new ''Configured committee master share public key does not match onchain partial public key'')
       else Ok ())"

text \<open>\<open>ch\<close> is the channel the periodic updater returned.\<close>

definition spawn_committee_version_updater :: "server_mode \<Rightarrow> 's master_keys \<Rightarrow> watch \<Rightarrow> 's rotation" where
  "spawn_committee_version_updater mode mk ch =
     \<lparr>rot_keys = mk, rot_chan = ch,
      rot_phase =
        (case mode of
           ModeCommittee _ _ _ _ \<Rightarrow>
             (case mk of
                CommitteeKeys (RotationKeys _ _ target) current_version \<Rightarrow>
                  if current_version = target then NotSpawned else Watching
              | _ \<Rightarrow> NotSpawned)
         | _ \<Rightarrow> NotSpawned)\<rparr>"

fun store_version :: "u32 \<Rightarrow> 's master_keys \<Rightarrow> 's master_keys" where
  "store_version v (CommitteeKeys ks _) = CommitteeKeys ks v"
| "store_version v mk = mk"

text \<open>The periodic fetch: the on-chain version, a \<open>u32\<close>, is sent as a \<open>u64\<close>.\<close>

definition version_fetched :: "(u32, rpc_error) res \<Rightarrow> 's rotation \<Rightarrow> 's rotation" where
  "version_fetched r s =
     s\<lparr>rot_chan := periodic_tick (and_then r (\<lambda>v. Ok (ucast v))) (rot_chan s)\<rparr>"

text \<open>One iteration of the monitor, after \<open>changed()\<close> returned. \<open>changed()\<close> marks the value as seen and
  \<open>borrow()\<close> reads it; here they are one step. A value sent in between would be read in this iteration and once more in
  the next, where the same comparison gives the same result.\<close>

definition version_changed ::
  "('s, 'g1, 'g2, 'gt, 'r) bls_ops \<Rightarrow> ('g2, rpc_error) res \<Rightarrow> 's rotation \<Rightarrow> 's rotation" where
  "version_changed B member_partial_pk s =
     (case rot_keys s of
        CommitteeKeys (RotationKeys _ next_master_share target) _ \<Rightarrow>
          let version = (ucast (w_value (rot_chan s)) :: u32);
              s = s\<lparr>rot_chan := mark_seen (rot_chan s)\<rparr>
          in if version = target then
               (case fetch_and_validate_committee_partial_pk B member_partial_pk next_master_share of
                  Ok _ \<Rightarrow> s\<lparr>rot_keys := store_version target (rot_keys s), rot_phase := Finished\<rparr>
                | _ \<Rightarrow> s\<lparr>rot_phase := Crashed\<rparr>)
             else if checked_add1 version = Some target then s
             else s\<lparr>rot_phase := Crashed\<rparr>
      | _ \<Rightarrow> s)"

inductive rot_step :: "('s, 'g1, 'g2, 'gt, 'r) bls_ops \<Rightarrow> 's rotation \<Rightarrow> 's rotation \<Rightarrow> bool"
  for B where
  fetched: "rot_phase s = Watching \<Longrightarrow> rot_step B s (version_fetched r s)"
| changed: "rot_phase s = Watching \<Longrightarrow> w_fresh (rot_chan s) \<Longrightarrow> rot_step B s (version_changed B pk s)"

definition rot_init ::
  "('s, 'g1, 'g2, 'gt, 'r) bls_ops \<Rightarrow> env_ops \<Rightarrow> 'v key_server_options \<Rightarrow> u32 option \<Rightarrow> 's rotation \<Rightarrow> bool" where
  "rot_init B env opts v s \<longleftrightarrow>
     (\<exists>mk ch. load B env opts v = Ok mk \<and> s = spawn_committee_version_updater (opt_server_mode opts) mk ch)"

text \<open>While the updater runs, the server is one version behind its target.\<close>

definition rot_invar :: "'s rotation \<Rightarrow> bool" where
  "rot_invar s \<longleftrightarrow> rotation_ready (rot_keys s) \<and>
     (rot_phase s = Watching \<longrightarrow>
       (\<exists>oldk nextk v. rot_keys s = CommitteeKeys (RotationKeys oldk nextk (v + 1)) v))"

definition rot_available :: "object_id \<Rightarrow> 's rotation \<Rightarrow> bool" where
  "rot_available p s \<longleftrightarrow> is_ok (get_key_for_package (rot_keys s) p)"

lemma version_fetched_simps [simp]:
  "rot_keys (version_fetched r s) = rot_keys s" "rot_phase (version_fetched r s) = rot_phase s"
  by (simp_all add: version_fetched_def)

lemma ready_targetD: "rotation_ready (CommitteeKeys (RotationKeys oldk nextk (v + 1)) v) \<longleftrightarrow> v + 1 \<noteq> 0"
  by simp

lemma version_changed_cases:
  assumes "rot_keys s = CommitteeKeys (RotationKeys oldk nextk target) v"
  obtains (complete) "ucast (w_value (rot_chan s)) = target" "pk = Ok (public_key_from_master_key B nextk)"
      "rot_keys (version_changed B pk s) = CommitteeKeys (RotationKeys oldk nextk target) target"
      "rot_phase (version_changed B pk s) = Finished"
    | (waiting) "checked_add1 (ucast (w_value (rot_chan s))) = Some target"
      "rot_keys (version_changed B pk s) = rot_keys s" "rot_phase (version_changed B pk s) = rot_phase s"
    | (crashed) "rot_keys (version_changed B pk s) = rot_keys s" "rot_phase (version_changed B pk s) = Crashed"
proof -
  let ?w = "ucast (w_value (rot_chan s)) :: u32"
  let ?f = "fetch_and_validate_committee_partial_pk B pk nextk"
  have f: "?f = Ok () \<longleftrightarrow> pk = Ok (public_key_from_master_key B nextk)"
    by (cases pk) (auto simp: fetch_and_validate_committee_partial_pk_def)
  consider "?w = target" "?f = Ok ()" | "?w = target" "?f \<noteq> Ok ()"
    | "?w \<noteq> target" "checked_add1 ?w = Some target" | "?w \<noteq> target" "checked_add1 ?w \<noteq> Some target"
    by blast
  then show thesis
  proof cases
    case 1
    with f show thesis by (intro complete) (simp_all add: version_changed_def Let_def assms)
  next
    case 2
    then show thesis by (intro crashed) (simp_all add: version_changed_def Let_def assms split: res.split)
  next
    case 3
    then show thesis by (intro waiting) (simp_all add: version_changed_def Let_def assms)
  next
    case 4
    then show thesis by (intro crashed) (simp_all add: version_changed_def Let_def assms)
  qed
qed

interpretation rot: stable_system "rot_init B env opts v" "rot_step B" rot_invar "rot_available p"
  for B env opts v p
proof
  fix s :: "'a rotation"
  assume "rot_init B env opts v s"
  then obtain mk ch where l: "load B env opts v = Ok mk"
    and s: "s = spawn_committee_version_updater (opt_server_mode opts) mk ch" by (auto simp: rot_init_def)
  from load_rotation_ready [OF l] have "rotation_ready mk" .
  then show "rot_invar s"
    unfolding s by (cases mk rule: rotation_ready.cases)
      (auto simp: rot_invar_def spawn_committee_version_updater_def split: server_mode.splits)
next
  fix s t :: "'a rotation"
  assume i: "rot_invar s" and st: "rot_step B s t"
  have "rot_phase s = Watching" using st by (auto elim: rot_step.cases)
  with i obtain oldk nextk w where k: "rot_keys s = CommitteeKeys (RotationKeys oldk nextk (w + 1)) w"
    and n: "w + 1 \<noteq> 0" by (auto simp: rot_invar_def)
  show "rot_invar t"
    using st
  proof (cases rule: rot_step.cases)
    case (changed pk)
    show ?thesis unfolding changed(1)
      using i k n by (cases rule: version_changed_cases [OF k, of pk B]) (auto simp: rot_invar_def)
  qed (use i in \<open>auto simp: rot_invar_def\<close>)
  show "rot_available p t" if "rot_available p s"
    using st
  proof (cases rule: rot_step.cases)
    case (changed pk)
    show ?thesis unfolding changed(1)
      using that k by (cases rule: version_changed_cases [OF k, of pk B])
        (auto simp: rot_available_def get_key_for_package_def get_committee_server_master_share_def)
  qed (use that in \<open>auto simp: rot_available_def\<close>)
qed

text \<open>The updater never replaces the shares, only the version.\<close>

lemma rot_step_key_state:
  assumes "rot_step B s t" and "rot_keys s = CommitteeKeys ks w"
  shows "\<exists>w'. rot_keys t = CommitteeKeys ks w'"
  using assms(1)
proof (cases rule: rot_step.cases)
  case (changed pk)
  show ?thesis
  proof (cases ks)
    case (ActiveKey k)
    then show ?thesis using assms(2) by (simp add: changed(1) version_changed_def)
  next
    case (RotationKeys oldk nextk target)
    with assms(2) have k: "rot_keys s = CommitteeKeys (RotationKeys oldk nextk target) w" by simp
    show ?thesis
      unfolding changed(1) RotationKeys using k
      by (cases rule: version_changed_cases [OF k, of pk B]) auto
  qed
qed (use assms(2) in simp)

lemma rot_steps_key_state:
  "(rot_step B)\<^sup>*\<^sup>* s t \<Longrightarrow> rot_keys s = CommitteeKeys ks w \<Longrightarrow> \<exists>w'. rot_keys t = CommitteeKeys ks w'"
  by (induction rule: rtranclp_induct) (auto dest: rot_step_key_state)

lemma load_committeeD:
  assumes "load B env opts v = Ok mk" and "opt_server_mode opts = ModeCommittee member ks_id st name"
  obtains ks w where "mk = CommitteeKeys ks w" and "v = Some w" and "load_committee B env st w = Ok ks"
  using assms by (auto simp: load_def res_simps split: option.splits)

lemma rot_init_invar:
  "load B env opts v = Ok mk \<Longrightarrow> rot_invar (spawn_committee_version_updater (opt_server_mode opts) mk ch)"
  by (rule rot.init_invar) (auto simp: rot_init_def)

subsection \<open>The rotation event monitor\<close>

record 'i event_monitor =
  em_cursor :: "'i option"
  em_initialized :: bool
  em_rotations :: nat
  em_crashed :: bool

definition event_monitor0 :: "'i event_monitor" where
  "event_monitor0 = \<lparr>em_cursor = None, em_initialized = False, em_rotations = 0, em_crashed = False\<rparr>"

definition process_event ::
  "(bytes \<Rightarrow> (object_id \<times> object_id) option) \<Rightarrow> 'i \<times> bytes \<Rightarrow> 'i event_monitor \<Rightarrow> 'i event_monitor" where
  "process_event decode ev m =
     (if em_crashed m then m
      else case decode (snd ev) of
          None \<Rightarrow> m\<lparr>em_crashed := True\<rparr>
        | Some _ \<Rightarrow> m\<lparr>em_rotations := em_rotations m + 1, em_cursor := Some (fst ev)\<rparr>)"

text \<open>
  One iteration of the loop. \<open>committee\<close> is the answer for the committee and its package,
  \<open>query\<close> the event query: filter package, cursor, limit, descending order.
\<close>

definition event_iteration ::
  "(bytes \<Rightarrow> (object_id \<times> object_id) option) \<Rightarrow> (object_id \<times> object_id, rpc_error) res \<Rightarrow>
   (object_id \<Rightarrow> 'i option \<Rightarrow> nat \<Rightarrow> bool \<Rightarrow> (('i \<times> bytes) list, string) res) \<Rightarrow>
   'i event_monitor \<Rightarrow> 'i event_monitor" where
  "event_iteration decode committee query m =
     (case committee of
        Ok (committee_id, committee_pkg_id) \<Rightarrow>
          if \<not> em_initialized m then
            (case query committee_pkg_id None 1 True of
               Ok page \<Rightarrow>
                 m\<lparr>em_cursor := (case page of [] \<Rightarrow> None | e # _ \<Rightarrow> Some (fst e)), em_initialized := True\<rparr>
             | _ \<Rightarrow> m)
          else
            (case query committee_pkg_id (em_cursor m) 1 False of
               Ok page \<Rightarrow> fold (process_event decode) page m
             | _ \<Rightarrow> m)
      | _ \<Rightarrow> m)"

text \<open>
  The event log of the chain, the monitor, and the length of the log when the monitor
  initialized its cursor. The chain appends events with new ids; the node answers a query
  with the events after the cursor in log order (from the end of the log when descending),
  at most as many as the limit, or fails.
\<close>

record 'i event_system =
  es_log :: "('i \<times> bytes) list"
  es_base :: nat
  es_monitor :: "'i event_monitor"

definition events_after :: "('i \<times> bytes) list \<Rightarrow> 'i option \<Rightarrow> ('i \<times> bytes) list" where
  "events_after evs cursor = (case cursor of None \<Rightarrow> evs | Some c \<Rightarrow> tl (dropWhile (\<lambda>e. fst e \<noteq> c) evs))"

definition query_answers ::
  "('i \<times> bytes) list \<Rightarrow> (object_id \<Rightarrow> 'i option \<Rightarrow> nat \<Rightarrow> bool \<Rightarrow> (('i \<times> bytes) list, string) res) \<Rightarrow> bool" where
  "query_answers evs query \<longleftrightarrow>
     (\<forall>pkg limit. (\<exists>e. query pkg None limit True = Err e) \<or> query pkg None limit True = Ok (take limit (rev evs))) \<and>
     (\<forall>pkg cursor limit. (\<exists>e. query pkg cursor limit False = Err e) \<or>
        query pkg cursor limit False = Ok (take limit (events_after evs cursor)))"

definition poll ::
  "(bytes \<Rightarrow> (object_id \<times> object_id) option) \<Rightarrow> (object_id \<times> object_id, rpc_error) res \<Rightarrow>
   (object_id \<Rightarrow> 'i option \<Rightarrow> nat \<Rightarrow> bool \<Rightarrow> (('i \<times> bytes) list, string) res) \<Rightarrow>
   'i event_system \<Rightarrow> 'i event_system" where
  "poll decode committee query s =
     (let m = event_iteration decode committee query (es_monitor s)
      in s\<lparr>es_monitor := m,
           es_base := (if em_initialized (es_monitor s) \<or> \<not> em_initialized m then es_base s else length (es_log s))\<rparr>)"

inductive event_step ::
  "(bytes \<Rightarrow> (object_id \<times> object_id) option) \<Rightarrow> 'i event_system \<Rightarrow> 'i event_system \<Rightarrow> bool"
  for decode where
  emitted: "i \<notin> fst ` set (es_log s) \<Longrightarrow> decode b \<noteq> None \<Longrightarrow>
    event_step decode s (s\<lparr>es_log := es_log s @ [(i, b)]\<rparr>)"
| polled: "query_answers (es_log s) query \<Longrightarrow> event_step decode s (poll decode committee query s)"

definition event_init :: "(bytes \<Rightarrow> (object_id \<times> object_id) option) \<Rightarrow> 'i event_system \<Rightarrow> bool" where
  "event_init decode s \<longleftrightarrow> distinct (map fst (es_log s)) \<and> list_all (\<lambda>e. decode (snd e) \<noteq> None) (es_log s) \<and>
     es_monitor s = event_monitor0"

definition event_invar :: "(bytes \<Rightarrow> (object_id \<times> object_id) option) \<Rightarrow> 'i event_system \<Rightarrow> bool" where
  "event_invar decode s \<longleftrightarrow>
     distinct (map fst (es_log s)) \<and> list_all (\<lambda>e. decode (snd e) \<noteq> None) (es_log s) \<and>
     \<not> em_crashed (es_monitor s) \<and>
     (if em_initialized (es_monitor s)
      then es_base s + em_rotations (es_monitor s) \<le> length (es_log s) \<and>
        em_cursor (es_monitor s) = (case es_base s + em_rotations (es_monitor s) of
          0 \<Rightarrow> None | Suc n \<Rightarrow> Some (fst (es_log s ! n)))
      else em_rotations (es_monitor s) = 0)"

lemma events_after_nth:
  "distinct (map fst evs) \<Longrightarrow> n < length evs \<Longrightarrow> events_after evs (Some (fst (evs ! n))) = drop (Suc n) evs"
proof (induction evs arbitrary: n)
  case (Cons e evs)
  then show ?case by (cases n) (auto simp: events_after_def)
qed simp

lemma events_after_cursor:
  assumes "distinct (map fst evs)" and "k \<le> length evs"
  shows "events_after evs (case k of 0 \<Rightarrow> None | Suc n \<Rightarrow> Some (fst (evs ! n))) = drop k evs"
  using assms by (cases k) (auto simp: events_after_nth, simp add: events_after_def)

lemma poll_counts:
  assumes i: "event_invar decode s" and init: "em_initialized (es_monitor s)"
    and q: "query pkg (em_cursor (es_monitor s)) 1 False = Ok (take 1 (events_after (es_log s) (em_cursor (es_monitor s))))"
  shows "event_invar decode (poll decode (Ok (cid, pkg)) query s)"
    and "em_rotations (es_monitor (poll decode (Ok (cid, pkg)) query s)) =
      min (em_rotations (es_monitor s) + 1) (length (es_log s) - es_base s)"
proof -
  let ?m = "es_monitor s" and ?log = "es_log s"
  let ?k = "es_base s + em_rotations ?m"
  have k: "?k \<le> length ?log" and d: "distinct (map fst ?log)"
    and c: "em_cursor ?m = (case ?k of 0 \<Rightarrow> None | Suc n \<Rightarrow> Some (fst (?log ! n)))"
    using i init by (simp_all add: event_invar_def)
  from q have page: "query pkg (em_cursor ?m) 1 False = Ok (take 1 (drop ?k ?log))"
    unfolding c events_after_cursor [OF d k] .
  show "event_invar decode (poll decode (Ok (cid, pkg)) query s)"
    and "em_rotations (es_monitor (poll decode (Ok (cid, pkg)) query s)) =
      min (em_rotations ?m + 1) (length ?log - es_base s)"
  proof (atomize (full), cases "?k < length ?log")
    case True
    then have "take 1 (drop ?k ?log) = [?log ! ?k]" by (simp add: take_Suc hd_drop_conv_nth)
    moreover obtain x where "decode (snd (?log ! ?k)) = Some x"
      using i True by (auto simp: event_invar_def list_all_length)
    ultimately show "event_invar decode (poll decode (Ok (cid, pkg)) query s) \<and>
        em_rotations (es_monitor (poll decode (Ok (cid, pkg)) query s)) =
        min (em_rotations ?m + 1) (length ?log - es_base s)"
      using i init True page
      by (auto simp: event_invar_def poll_def event_iteration_def process_event_def)
  next
    case False
    then show "event_invar decode (poll decode (Ok (cid, pkg)) query s) \<and>
        em_rotations (es_monitor (poll decode (Ok (cid, pkg)) query s)) =
        min (em_rotations ?m + 1) (length ?log - es_base s)"
      using i init page k by (auto simp: event_invar_def poll_def event_iteration_def)
  qed
qed

lemma query_answersD:
  assumes "query_answers evs query"
  shows "(\<exists>e. query pkg None limit True = Err e) \<or> query pkg None limit True = Ok (take limit (rev evs))"
    and "(\<exists>e. query pkg cursor limit False = Err e) \<or>
      query pkg cursor limit False = Ok (take limit (events_after evs cursor))"
  using assms unfolding query_answers_def by blast+

lemma poll_invar:
  assumes i: "event_invar decode s" and q: "query_answers (es_log s) query"
  shows "event_invar decode (poll decode committee query s)"
proof (cases committee)
  case (Ok c)
  obtain cid pkg where c: "c = (cid, pkg)" by (cases c)
  show ?thesis
  proof (cases "em_initialized (es_monitor s)")
    case True
    from query_answersD(2) [OF q] consider e where "query pkg (em_cursor (es_monitor s)) 1 False = Err e"
      | "query pkg (em_cursor (es_monitor s)) 1 False =
          Ok (take 1 (events_after (es_log s) (em_cursor (es_monitor s))))"
      by blast
    then show ?thesis
    proof cases
      case 1
      with i True show ?thesis by (simp add: Ok c poll_def event_iteration_def event_invar_def)
    next
      case 2
      show ?thesis unfolding Ok c by (rule poll_counts(1) [where query = query, OF i True 2])
    qed
  next
    case False
    from query_answersD(1) [OF q] consider e where "query pkg None 1 True = Err e"
      | "query pkg None 1 True = Ok (take 1 (rev (es_log s)))"
      by blast
    then show ?thesis
    proof cases
      case 1
      with i False show ?thesis by (simp add: Ok c poll_def event_iteration_def event_invar_def)
    next
      case 2
      with i False show ?thesis
        by (cases "es_log s" rule: rev_cases)
          (simp_all add: Ok c poll_def event_iteration_def event_invar_def)
    qed
  qed
qed (use i in \<open>simp_all add: poll_def event_iteration_def event_invar_def\<close>)

lemma emitted_invar:
  assumes "event_invar decode s" and "i \<notin> fst ` set (es_log s)" and "decode b \<noteq> None"
  shows "event_invar decode (s\<lparr>es_log := es_log s @ [(i, b)]\<rparr>)"
  using assms by (auto simp: event_invar_def nth_append split: nat.split if_splits)

interpretation ev: invariant_system "event_init decode" "event_step decode" "event_invar decode"
  for decode
proof
  show "event_invar decode s" if "event_init decode s" for s :: "'a event_system"
    using that by (simp add: event_init_def event_invar_def event_monitor0_def)
  show "event_invar decode t" if "event_invar decode s" and "event_step decode s t" for s t :: "'a event_system"
    using that(2,1) by (cases rule: event_step.cases) (auto intro: poll_invar emitted_invar)
qed

subsection \<open>The package upgrade monitor\<close>

record digest_monitor =
  dm_chan :: watch
  dm_last_proposal_id :: u64
  dm_upgrades :: nat

definition digest_monitor_start :: "watch \<Rightarrow> digest_monitor" where
  "digest_monitor_start ch = \<lparr>dm_chan = mark_seen ch, dm_last_proposal_id = w_value ch, dm_upgrades = 0\<rparr>"

text \<open>The fetch: the version of the open proposal, or 0.\<close>

definition proposal_fetched :: "(u64 option, rpc_error) res \<Rightarrow> digest_monitor \<Rightarrow> digest_monitor" where
  "proposal_fetched r m =
     m\<lparr>dm_chan := periodic_tick (and_then r (\<lambda>p. Ok (case p of None \<Rightarrow> 0 | Some version \<Rightarrow> version))) (dm_chan m)\<rparr>"

definition digest_changed :: "digest_monitor \<Rightarrow> digest_monitor" where
  "digest_changed m =
     (let proposal_id = w_value (dm_chan m)
      in m\<lparr>dm_chan := mark_seen (dm_chan m),
           dm_upgrades := (if proposal_id \<noteq> 0 \<and> proposal_id \<noteq> dm_last_proposal_id m
             then dm_upgrades m + 1 else dm_upgrades m),
           dm_last_proposal_id := proposal_id\<rparr>)"

lemma digest_alert:
  "dm_upgrades (digest_changed (proposal_fetched (Ok p) m)) =
     dm_upgrades m + (case p of None \<Rightarrow> 0 | Some v \<Rightarrow> if v = 0 \<or> v = dm_last_proposal_id m then 0 else 1)"
  by (auto simp: digest_changed_def proposal_fetched_def periodic_tick_def send_def split: option.split)

subsection \<open>Properties of the rotation\<close>

text \<open>
  C18: the share of a committee server at any moment of a rotation. The shares stay the loaded
  ones. With an active key it is always that key. In a rotation the on-chain version the
  server holds is the target or one behind, the next share is served at the target, the old
  share (or, without one, a temporary failure) before it, and the answer for an impossible
  version never occurs.
\<close>

theorem rotation_shares:
  assumes "load B env opts v = Ok (CommitteeKeys ks v0)"
    and "(rot_step B)\<^sup>*\<^sup>* (spawn_committee_version_updater (opt_server_mode opts) (CommitteeKeys ks v0) ch) s"
  shows "\<exists>w. rot_keys s = CommitteeKeys ks w \<and>
    (case ks of
       ActiveKey k \<Rightarrow> get_committee_server_master_share (rot_keys s) = Ok k
     | RotationKeys oldk nextk target \<Rightarrow>
         if w = target then get_committee_server_master_share (rot_keys s) = Ok nextk
         else w + 1 = target \<and>
           (case oldk of
              Some k \<Rightarrow> get_committee_server_master_share (rot_keys s) = Ok k
            | None \<Rightarrow> get_committee_server_master_share (rot_keys s) =
                Err (Failure (''Rotation in progress: onchain version is '' @ decimal (unat w) @
                  '', target is '' @ decimal (unat target) @ ''. Cannot serve traffic without old share.''))))"
proof -
  from rot_steps_key_state [OF assms(2)] obtain w where w: "rot_keys s = CommitteeKeys ks w"
    by (auto simp: spawn_committee_version_updater_def)
  have "rotation_ready (rot_keys s)"
    using rot.steps_invar [OF assms(2) rot_init_invar [OF assms(1)]] by (simp add: rot_invar_def)
  then show ?thesis
    by (cases ks) (auto simp: w share_when_ready get_committee_server_master_share_def checked_add1_Some
        split: option.split)
qed

text \<open>
  C19: availability. A package the server has a key for when a request is checked still has one
  after any steps of the version updater, when the response is made.
\<close>

theorem rotation_key_stays_available:
  assumes "load B env opts v = Ok mk"
    and "(rot_step B)\<^sup>*\<^sup>* (spawn_committee_version_updater (opt_server_mode opts) mk ch) s"
    and "(rot_step B)\<^sup>*\<^sup>* s t" and "has_key_for_package (rot_keys s) p = Ok ()"
  shows "\<exists>k. get_key_for_package (rot_keys t) p = Ok k"
proof -
  have "rot_invar s" by (rule rot.steps_invar [OF assms(2) rot_init_invar [OF assms(1)]])
  moreover have "rot_available p s"
    using assms(4) by (auto simp: has_key_for_package_def rot_available_def res_simps is_ok_iff)
  ultimately have "rot_available p t" by (rule rot.steps_good [OF assms(3)])
  then show ?thesis by (simp add: rot_available_def is_ok_iff)
qed

text \<open>
  C24: the rotation completes exactly on the target version with a validated key. When the
  updater runs and the node reports an on-chain version, the monitor switches to the next
  share if the version is the target and the partial public key on chain is that of the next
  share; it keeps waiting while the version is one behind; in every other case it stops the
  server, and the shares it served stay as they were.
\<close>

theorem rotation_completes:
  assumes "rot_keys s = CommitteeKeys (RotationKeys oldk nextk target) w"
  shows "let t = version_changed B pk (version_fetched (Ok onchain) s);
             complete = (onchain = target \<and> pk = Ok (public_key_from_master_key B nextk))
         in rot_keys t = CommitteeKeys (RotationKeys oldk nextk target) (if complete then target else w) \<and>
            rot_phase t = (if complete then Finished
              else if unat onchain + 1 = unat target then rot_phase s else Crashed)"
proof -
  have "w_value (rot_chan (version_fetched (Ok onchain) s)) = ucast onchain"
    by (simp add: version_fetched_def periodic_tick_def send_def)
  then have "ucast (w_value (rot_chan (version_fetched (Ok onchain) s))) = onchain"
    by (simp add: ucast_up_ucast_id is_up)
  moreover have "unat onchain + 1 = unat target \<Longrightarrow> onchain \<noteq> target" by auto
  ultimately show ?thesis
    by (auto simp: version_changed_def Let_def assms checked_add1_unat
        fetch_and_validate_committee_partial_pk_def and_then_Ok_iff split: res.split if_splits)
qed

theorem rotation_completes_witness:
  "rot_keys (version_changed gf_bls (Ok (public_key_from_master_key gf_bls (GF256 3)))
      (version_fetched (Ok 5) \<lparr>rot_keys = CommitteeKeys (RotationKeys None (GF256 3) 5) 4,
        rot_chan = channel0, rot_phase = Watching\<rparr>)) = CommitteeKeys (RotationKeys None (GF256 3) 5) 5"
  using rotation_completes [of "\<lparr>rot_keys = CommitteeKeys (RotationKeys None (GF256 3) 5) 4,
        rot_chan = channel0, rot_phase = Watching\<rparr>" None "GF256 3" 5 4 gf_bls
        "Ok (public_key_from_master_key gf_bls (GF256 3))" 5]
  by (simp add: Let_def)

definition demo_committee :: "unit key_server_options" where
  "demo_committee = demo_options (ModeCommittee [7] [8] (RotationState 5) ''member'')"

definition demo_start :: "gf256 rotation" where
  "demo_start = spawn_committee_version_updater (opt_server_mode demo_committee)
     (CommitteeKeys (RotationKeys None (GF256 3) 5) 4) channel0"

lemma demo_start_eq:
  "demo_start = \<lparr>rot_keys = CommitteeKeys (RotationKeys None (GF256 3) 5) 4, rot_chan = channel0, rot_phase = Watching\<rparr>"
  by (simp add: demo_start_def spawn_committee_version_updater_def demo_committee_def demo_mode)

definition demo_rotated :: "gf256 rotation" where
  "demo_rotated = version_changed gf_bls (Ok (public_key_from_master_key gf_bls (GF256 3)))
     (version_fetched (Ok 5) demo_start)"

lemma demo_committee_load:
  "load gf_bls demo_env demo_committee (Some 4) = Ok (CommitteeKeys (RotationKeys None (GF256 3) 5) 4)"
  by (simp add: load_def demo_committee_def demo_mode) code_simp

lemma demo_rotation_steps: "(rot_step gf_bls)\<^sup>*\<^sup>* demo_start demo_rotated"
proof -
  have w: "rot_phase demo_start = Watching" by (simp add: demo_start_eq)
  then have "rot_step gf_bls demo_start (version_fetched (Ok 5) demo_start)" by (rule rot_step.fetched)
  moreover have "rot_step gf_bls (version_fetched (Ok 5) demo_start) demo_rotated"
    unfolding demo_rotated_def using w
    by (intro rot_step.changed) (simp_all add: version_fetched_def periodic_tick_def send_def)
  ultimately show ?thesis by simp
qed

lemma demo_rotated_keys: "rot_keys demo_rotated = CommitteeKeys (RotationKeys None (GF256 3) 5) 5"
  unfolding demo_rotated_def demo_start_eq by code_simp

theorem rotation_shares_witness:
  "get_committee_server_master_share (rot_keys demo_rotated) = Ok (GF256 3)"
  using rotation_shares [OF demo_committee_load demo_rotation_steps [unfolded demo_start_def]]
  by (simp add: demo_rotated_keys)

theorem rotation_key_stays_available_witness:
  "\<exists>k. get_key_for_package (rot_keys demo_rotated) [9] = Ok k"
proof (rule rotation_key_stays_available [OF demo_committee_load demo_rotation_steps [unfolded demo_start_def]])
  show "(rot_step gf_bls)\<^sup>*\<^sup>* demo_rotated demo_rotated" by simp
  show "has_key_for_package (rot_keys demo_rotated) [9] = Ok ()" unfolding demo_rotated_keys by code_simp
qed

text \<open>
  the event monitor counts every rotation event exactly once. In every state reachable by
  new events and polls it has counted only events logged after its start, and a poll whose
  queries succeed counts the next uncounted one, if there is one, and nothing else.
\<close>

theorem rotation_events_counted:
  assumes "event_init decode s0" and "(event_step decode)\<^sup>*\<^sup>* s0 s" and "em_initialized (es_monitor s)"
    and "query_answers (es_log s) query" and "is_ok (query pkg (em_cursor (es_monitor s)) 1 False)"
  shows "em_rotations (es_monitor s) \<le> length (es_log s) - es_base s \<and>
    em_rotations (es_monitor (poll decode (Ok (cid, pkg)) query s)) =
      min (em_rotations (es_monitor s) + 1) (length (es_log s) - es_base s) \<and>
    \<not> em_crashed (es_monitor (poll decode (Ok (cid, pkg)) query s))"
proof -
  have i: "event_invar decode s" by (rule ev.reachable_invar [OF assms(1,2)])
  have q: "query pkg (em_cursor (es_monitor s)) 1 False =
      Ok (take 1 (events_after (es_log s) (em_cursor (es_monitor s))))"
    using query_answersD(2) [OF assms(4), of pkg "em_cursor (es_monitor s)" 1] assms(5) by (auto simp: is_ok_iff)
  note p = poll_counts [where query = query, OF i assms(3) q, of cid]
  then show ?thesis using i assms(3) by (auto simp: event_invar_def)
qed

definition demo_query :: "(nat \<times> bytes) list \<Rightarrow> object_id \<Rightarrow> nat option \<Rightarrow> nat \<Rightarrow> bool \<Rightarrow> ((nat \<times> bytes) list, string) res" where
  "demo_query evs pkg cursor limit desc =
     Ok (take limit (if desc then rev evs else events_after evs cursor))"

theorem rotation_events_counted_witness:
  "let s = \<lparr>es_log = [(7, [1])], es_base = 0, es_monitor = event_monitor0\<rparr>;
       t = poll (\<lambda>b. Some (b, b)) (Ok ([1], [2])) (demo_query [(7, [1])]) s
   in em_rotations (es_monitor (poll (\<lambda>b. Some (b, b)) (Ok ([1], [2])) (demo_query [(7, [1]), (8, [2])])
        (t\<lparr>es_log := es_log t @ [(8, [2])]\<rparr>))) = 1"
proof -
  let ?d = "\<lambda>b. Some (b, b)"
  let ?s = "\<lparr>es_log = [(7, [1])], es_base = 0, es_monitor = event_monitor0\<rparr>"
  let ?t = "poll ?d (Ok ([1], [2])) (demo_query [(7, [1])]) ?s"
  let ?u = "?t\<lparr>es_log := es_log ?t @ [(8, [2])]\<rparr>"
  have q: "query_answers evs (demo_query evs)" for evs :: "(nat \<times> bytes) list"
    by (simp add: query_answers_def demo_query_def)
  have t: "?t = \<lparr>es_log = [(7, [1])], es_base = 1,
      es_monitor = \<lparr>em_cursor = Some 7, em_initialized = True, em_rotations = 0, em_crashed = False\<rparr>\<rparr>"
    by (simp add: poll_def event_iteration_def demo_query_def event_monitor0_def)
  have "event_step ?d ?s ?t" by (rule event_step.polled) (simp add: q)
  moreover have "event_step ?d ?t ?u" by (rule event_step.emitted) (simp_all add: t)
  ultimately have steps: "(event_step ?d)\<^sup>*\<^sup>* ?s ?u" by simp
  have "em_rotations (es_monitor (poll ?d (Ok ([1], [2])) (demo_query (es_log ?u)) ?u)) =
      min (em_rotations (es_monitor ?u) + 1) (length (es_log ?u) - es_base ?u)"
    by (rule conjunct1 [OF conjunct2 [OF rotation_events_counted [OF _ steps _ q]]])
      (simp_all add: event_init_def t, simp add: demo_query_def)
  then show ?thesis by (simp add: Let_def t)
qed

end
