(* ===== verification/Server.thy ===== *)
theory Server
  imports Externals Monitors
begin

text \<open>
  \<^verbatim>\<open>crates/key-server/src/server.rs\<close>: start of the key server, the checks of a request for keys, its
  response, the other endpoints and the check of the version headers.

  Signature verification, the derivation of the alias object id, hexadecimal formatting and
  semantic versions are third-party and are the record \<open>server_ops\<close>; \<open>rpc_client\<close> has the
  answers of the full node. The time is an argument, as are the two moments at which a request
  reads the master keys (when it is checked and when it is answered), between which the
  version updater may run. The two static caches are the state. Metrics and log messages are
  left out; \<open>req_id\<close> is the rendered request id, which appears in one error message.
\<close>

subsection \<open>State\<close>

record ('v, 'ver) server_ops =
  so_verify_personal :: "bytes \<Rightarrow> string \<Rightarrow> object_id \<Rightarrow> bool"
  so_verify_session :: "bytes \<Rightarrow> bytes \<Rightarrow> bytes \<Rightarrow> bool"
  so_alias_id :: "object_id \<Rightarrow> object_id option"
  so_from_hex :: "string \<Rightarrow> object_id option"
  so_to_hex :: "object_id \<Rightarrow> string"
  so_show_id :: "object_id \<Rightarrow> string"
  so_clock_id :: object_id
  so_parse_version :: "string \<Rightarrow> 'ver option"
  so_matches :: "'v \<Rightarrow> 'ver \<Rightarrow> bool"

record ('s, 'g1, 'v) server =
  sv_master_keys :: "'s master_keys"
  sv_key_server_oid_to_pop :: "(object_id, 'g1) hash_map"
  sv_options :: "'v key_server_options"

record caches =
  pkg_cache :: "object_id \<rightharpoonup> object_id"
  mvr_cache :: "string \<rightharpoonup> object_id"

definition GAS_BUDGET :: u64 where
  "GAS_BUDGET = 500000000"

definition is_committee_mode :: "('s, 'g1, 'v) server \<Rightarrow> bool" where
  "is_committee_mode server =
     (case opt_server_mode (sv_options server) of ModeCommittee _ _ _ _ \<Rightarrow> True | _ \<Rightarrow> False)"

definition get_committee_server_params :: "('s, 'g1, 'v) server \<Rightarrow> (object_id \<times> string) option" where
  "get_committee_server_params server =
     (case opt_server_mode (sv_options server) of
        ModeCommittee _ key_server_obj_id _ server_name \<Rightarrow> Some (key_server_obj_id, server_name)
      | _ \<Rightarrow> None)"

subsection \<open>Start\<close>

definition build_key_server_pop_map ::
  "('s, 'g1, 'g2, 'gt, 'r) bls_ops \<Rightarrow> 'v key_server_options \<Rightarrow> 's master_keys \<Rightarrow>
   ((object_id, 'g1) hash_map, load_error) res" where
  "build_key_server_pop_map B options master_keys =
     (case opt_server_mode options of
        ModeCommittee _ _ _ _ \<Rightarrow> Ok []
      | _ \<Rightarrow>
          collect_res (\<lambda>ks_oid.
            and_then (expect (get_key_for_key_server master_keys ks_oid)) (\<lambda>key.
              Ok (ks_oid, create_proof_of_possession B key ks_oid)))
            (get_supported_key_server_object_ids options))"

text \<open>
  \<open>Server::new\<close>, with the node's answers for the committee version and for the partial public
  key of this member. Every failure is a panic.
\<close>

definition server_new ::
  "('s, 'g1, 'g2, 'gt, 'r) bls_ops \<Rightarrow> env_ops \<Rightarrow> 'v key_server_options \<Rightarrow>
   (u32, rpc_error) res \<Rightarrow> ('g2, rpc_error) res \<Rightarrow> (('s, 'g1, 'v) server, load_error) res" where
  "server_new B env options onchain_version member_partial_pk =
     and_then (case opt_server_mode options of
         ModeCommittee _ _ _ _ \<Rightarrow> and_then (expect onchain_version) (\<lambda>v. Ok (Some v))
       | _ \<Rightarrow> Ok None) (\<lambda>version.
     and_then (expect (load B env options version)) (\<lambda>master_keys.
     and_then (case (opt_server_mode options, master_keys) of
         (ModeCommittee _ _ _ _, CommitteeKeys (ActiveKey master_share) _) \<Rightarrow>
           expect (fetch_and_validate_committee_partial_pk B member_partial_pk master_share)
       | _ \<Rightarrow> Ok ()) (\<lambda>_.
     and_then (build_key_server_pop_map B options master_keys) (\<lambda>pop.
       Ok \<lparr>sv_master_keys = master_keys, sv_key_server_oid_to_pop = pop, sv_options = options\<rparr>))))"

text \<open>The parsing of the network name; \<open>lower\<close> is \<open>to_ascii_lowercase\<close>.\<close>

definition ascii_lower :: "char \<Rightarrow> char" where
  "ascii_lower c = (if 65 \<le> (of_char c :: nat) \<and> (of_char c :: nat) \<le> 90 then char_of ((of_char c :: nat) + 32) else c)"

definition network_from_str :: "env_ops \<Rightarrow> string \<Rightarrow> (network, string) res" where
  "network_from_str env s =
     (let l = map ascii_lower s in
      if l = ''devnet'' then and_then (expect (decode_object_id env ''SEAL_PACKAGE'')) (\<lambda>p. Ok (Devnet p))
      else if l = ''testnet'' then Ok Testnet
      else if l = ''mainnet'' then Ok Mainnet
      else Err (''Unknown network: '' @ s))"

text \<open>
  The configuration of \<open>app\<close>. \<open>parse_config\<close> opens and parses the file: \<open>None\<close> if it cannot be
  opened, \<open>Some None\<close> if it does not parse.
\<close>

datatype app_error = CannotOpenConfig string | AppLoadError load_error | AppConfigError config_error

definition app_options ::
  "env_ops \<Rightarrow> (string \<Rightarrow> 'v) \<Rightarrow> (string \<Rightarrow> 'v key_server_options option option) \<Rightarrow>
   ('v key_server_options, app_error) res" where
  "app_options env parse_req parse_config =
     (case env_var env ''CONFIG_PATH'' of
        Some config_path \<Rightarrow>
          (case parse_config config_path of
             None \<Rightarrow> Err (CannotOpenConfig config_path)
           | Some None \<Rightarrow> Panic
           | Some (Some opts) \<Rightarrow>
               (case (opt_node_url opts, env_var env ''NODE_URL'') of
                  (Some _, Some _) \<Rightarrow> Panic
                | (None, Some url) \<Rightarrow> Ok (opts\<lparr>opt_node_url := Some url\<rparr>)
                | _ \<Rightarrow> Ok opts))
      | None \<Rightarrow>
          and_then (case env_var env ''NETWORK'' of
              None \<Rightarrow> Ok Testnet
            | Some n \<Rightarrow> (case network_from_str env n of Ok net \<Rightarrow> Ok net | Err _ \<Rightarrow> Ok Testnet | Panic \<Rightarrow> Panic)) (\<lambda>net.
          and_then (map_err AppLoadError (decode_object_id env ''KEY_SERVER_OBJECT_ID'')) (\<lambda>ks.
            Ok (new_open_server_with_default_values parse_req net ks))))"

text \<open>Configuration, validation and start, as far as they decide whether the server comes up.\<close>

definition app_start ::
  "('s, 'g1, 'g2, 'gt, 'r) bls_ops \<Rightarrow> env_ops \<Rightarrow> (string \<Rightarrow> 'v) \<Rightarrow>
   (string \<Rightarrow> 'v key_server_options option option) \<Rightarrow> (u32, rpc_error) res \<Rightarrow> ('g2, rpc_error) res \<Rightarrow>
   (('s, 'g1, 'v) server, app_error) res" where
  "app_start B env parse_req parse_config onchain_version member_partial_pk =
     and_then (app_options env parse_req parse_config) (\<lambda>options.
     and_then (map_err AppConfigError (validate options)) (\<lambda>_.
       map_err AppLoadError (server_new B env options onchain_version member_partial_pk)))"

subsection \<open>Checks of a request\<close>

definition has_address_aliases ::
  "('v, 'ver) server_ops \<Rightarrow> rpc_client \<Rightarrow> object_id \<Rightarrow> (bool, internal_error) res" where
  "has_address_aliases S client address =
     and_then (ok_or InvalidSignature (so_alias_id S address)) (\<lambda>address_aliases_id.
       map_err (\<lambda>e. Failure (''Failed to check address aliases: '' @ rpc_display (rc_show_code client) e))
         (rc_object_exists client address_aliases_id))"

definition check_signature ::
  "('v, 'ver) server_ops \<Rightarrow> ('g1, 'g2) sdk_ops \<Rightarrow> 'v key_server_options \<Rightarrow> rpc_client \<Rightarrow> u64 \<Rightarrow>
   programmable_transaction \<Rightarrow> 'g1 public_key \<Rightarrow> 'g2 verification_key \<Rightarrow> bytes \<Rightarrow> certificate \<Rightarrow> string \<Rightarrow>
   (unit, internal_error) res" where
  "check_signature S F options client now ptb enc_key enc_verification_key session_sig cert package_name =
     (let ttl = from_mins (cert_ttl_min cert) in
      if ttl > opt_session_key_ttl_max options then Err InvalidCertificate
      else case checked_duration_since now (cert_creation_time cert) of
          None \<Rightarrow> Err InvalidCertificate
        | Some duration \<Rightarrow>
            if duration > ttl then Err InvalidCertificate
            else
              and_then (signed_message F package_name (cert_session_vk cert) (cert_creation_time cert)
                (cert_ttl_min cert)) (\<lambda>msg.
              and_then (has_address_aliases S client (cert_user cert)) (\<lambda>aliases.
                if aliases then Err InvalidSignature
                else if \<not> so_verify_personal S (cert_signature cert) msg (cert_user cert) then Err InvalidSignature
                else if \<not> so_verify_session S (cert_session_vk cert)
                    (signed_request F ptb enc_key enc_verification_key) session_sig
                then Err InvalidSessionSignature else Ok ())))"

text \<open>The dry run. The source reads the clock for the staleness check of the transaction and, in the fetch handler, for the
  certificate; one reading \<open>now\<close> stands for both.\<close>

definition check_policy ::
  "('v, 'ver) server_ops \<Rightarrow> ptb_codec \<Rightarrow> 'v key_server_options \<Rightarrow> rpc_client \<Rightarrow> u64 \<Rightarrow> string \<Rightarrow>
   object_id \<Rightarrow> valid_ptb \<Rightarrow> u64 \<Rightarrow> (unit, internal_error) res" where
  "check_policy S K options client now req_id sender vptb gas_price =
     (let package = network_seal_package (opt_network options) in
      and_then (add_staleness_check_to_ptb K (so_from_hex S) (so_clock_id S) now package
        (opt_allowed_staleness options) (the_ptb vptb)) (\<lambda>ptb.
      and_then (map_err (\<lambda>e.
          if rpc_code e = Some CodeInvalidArgument \<or> rpc_code e = Some CodeNotFound
          then InvalidParameter (rpc_message e)
          else Failure (''Simulate transaction failed ('' @ rpc_display (rc_show_code client) e @ '') (req_id: '' @
            req_id @ '')''))
        (rc_simulate client \<lparr>td_ptb = ptb, td_sender = sender, td_gas_budget = GAS_BUDGET, td_gas_price = gas_price\<rparr>))
        (\<lambda>simulate_res.
      and_then (is_staleness_error (so_from_hex S) (so_show_id S) package simulate_res) (\<lambda>stale.
        if stale then Err (Failure ''Fullnode is stale'')
        else case sim_error simulate_res of
            None \<Rightarrow> Ok ()
          | Some error \<Rightarrow>
              (case ee_kind error of
                 FunctionNotFound \<Rightarrow> Err (InvalidPTB ''The seal_approve function was not found on the module'')
               | OtherErrorKind kind \<Rightarrow>
                   Err (NoAccess (case ee_description error of Some d \<Rightarrow> d | None \<Rightarrow> kind)))))))"

definition check_request ::
  "('v, 'ver) server_ops \<Rightarrow> ('g1, 'g2) sdk_ops \<Rightarrow> ptb_codec \<Rightarrow> 'n mvr_ops \<Rightarrow> 'v key_server_options \<Rightarrow>
   's master_keys \<Rightarrow> rpc_client \<Rightarrow> mainnet_clients \<Rightarrow> u64 \<Rightarrow> u64 \<Rightarrow> string \<Rightarrow>
   valid_ptb \<Rightarrow> ('g1, 'g2) fetch_key_request \<Rightarrow> caches \<Rightarrow>
   (object_id \<times> bytes list, internal_error) res \<times> caches" where
  "check_request S F K M options master_keys client mainnet_client now gas_price req_id vptb req cs =
     (case pkg_id vptb of
        Ok pkg \<Rightarrow>
          let cert = fkr_certificate req;
              (first, pc) = fetch_first_pkg_id client (pkg_cache cs) pkg;
              cs = cs\<lparr>pkg_cache := pc\<rparr>
          in
          (case and_then first (\<lambda>first_pkg_id.
              and_then (has_key_for_package master_keys first_pkg_id) (\<lambda>_. Ok first_pkg_id)) of
             Ok first_pkg_id \<Rightarrow>
               let (mvr, mc) = check_mvr_package_id M client mainnet_client (opt_network options)
                     (cert_mvr_name cert) first_pkg_id (mvr_cache cs);
                   cs = cs\<lparr>mvr_cache := mc\<rparr>
               in (and_then mvr (\<lambda>_.
                   and_then (check_signature S F options client now (the_ptb vptb) (fkr_enc_key req)
                     (fkr_enc_verification_key req) (fkr_request_signature req) cert
                     (case cert_mvr_name cert of Some n \<Rightarrow> n | None \<Rightarrow> so_to_hex S first_pkg_id)) (\<lambda>_.
                   and_then (check_policy S K options client now req_id (cert_user cert) vptb gas_price) (\<lambda>_.
                   and_then (full_ids K vptb first_pkg_id) (\<lambda>ids.
                     Ok (first_pkg_id, ids))))), cs)
           | Err e \<Rightarrow> (Err e, cs)
           | Panic \<Rightarrow> (Panic, cs))
      | Err e \<Rightarrow> (Err e, cs)
      | Panic \<Rightarrow> (Panic, cs))"

subsection \<open>The response\<close>

fun encrypt_keys ::
  "('s, 'g1::ab_group_add, 'g2, 'gt, 'r) bls_ops \<Rightarrow> 'r \<Rightarrow> 's \<Rightarrow> 'g1 public_key \<Rightarrow> bytes list \<Rightarrow>
   'g1 fetch_key_response \<times> 'r" where
  "encrypt_keys B rng master_key enc_key [] = ([], rng)"
| "encrypt_keys B rng master_key enc_key (i # ids) =
     (let (encrypted_key, rng) = eg_encrypt (g1 B) rng (ibe_extract B master_key i) enc_key;
          (rest, rng) = encrypt_keys B rng master_key enc_key ids
      in (\<lparr>dk_id = i, dk_encrypted_key = encrypted_key\<rparr> # rest, rng))"

definition create_response ::
  "('s, 'g1::ab_group_add, 'g2, 'gt, 'r) bls_ops \<Rightarrow> 'r \<Rightarrow> 's master_keys \<Rightarrow> object_id \<Rightarrow> bytes list \<Rightarrow>
   'g1 public_key \<Rightarrow> ('g1 fetch_key_response, internal_error) res" where
  "create_response B rng master_keys first_pkg_id ids enc_key =
     and_then (expect (get_key_for_package master_keys first_pkg_id)) (\<lambda>master_key.
       Ok (fst (encrypt_keys B rng master_key enc_key ids)))"

definition handle_fetch_key_internal ::
  "('v, 'ver) server_ops \<Rightarrow> ('g1, 'g2) sdk_ops \<Rightarrow> ptb_codec \<Rightarrow> 'n mvr_ops \<Rightarrow> 'v key_server_options \<Rightarrow>
   's master_keys \<Rightarrow> rpc_client \<Rightarrow> mainnet_clients \<Rightarrow> u64 \<Rightarrow> u64 \<Rightarrow> string \<Rightarrow>
   ('g1, 'g2) fetch_key_request \<Rightarrow> caches \<Rightarrow> (object_id \<times> bytes list, internal_error) res \<times> caches" where
  "handle_fetch_key_internal S F K M options master_keys client mainnet_client now gas_price req_id req cs =
     (case try_from_base64 K (fkr_ptb req) of
        Ok vptb \<Rightarrow>
          (case inner_ids K vptb of
             Ok _ \<Rightarrow>
               check_request S F K M options master_keys client mainnet_client now gas_price req_id vptb req cs
           | Err e \<Rightarrow> (Err e, cs)
           | Panic \<Rightarrow> (Panic, cs))
      | Err e \<Rightarrow> (Err e, cs)
      | Panic \<Rightarrow> (Panic, cs))"

text \<open>\<open>master_keys\<close> is read by the check and \<open>master_keys'\<close> by the response.\<close>

definition handle_fetch_key ::
  "('s, 'g1::ab_group_add, 'g2, 'gt, 'r) bls_ops \<Rightarrow> ('v, 'ver) server_ops \<Rightarrow> ('g1, 'g2) sdk_ops \<Rightarrow> ptb_codec \<Rightarrow>
   'n mvr_ops \<Rightarrow> 'v key_server_options \<Rightarrow> 's master_keys \<Rightarrow> 's master_keys \<Rightarrow> rpc_client \<Rightarrow> mainnet_clients \<Rightarrow>
   u64 \<Rightarrow> u64 \<Rightarrow> string \<Rightarrow> 'r \<Rightarrow> ('g1, 'g2) fetch_key_request \<Rightarrow> caches \<Rightarrow>
   ('g1 fetch_key_response, internal_error) res \<times> caches" where
  "handle_fetch_key B S F K M options master_keys master_keys' client mainnet_client now gas_price req_id rng req cs =
     (let (r, cs) = handle_fetch_key_internal S F K M options master_keys client mainnet_client now gas_price
        req_id req cs
      in (and_then r (\<lambda>(first_pkg_id, ids).
            create_response B rng master_keys' first_pkg_id ids (fkr_enc_key req)), cs))"

subsection \<open>Other endpoints and headers\<close>

definition handle_get_service ::
  "('v, 'ver) server_ops \<Rightarrow> ('s, 'g1, 'v) server \<Rightarrow> (string \<rightharpoonup> string) \<Rightarrow> (object_id \<times> 'g1, internal_error) res" where
  "handle_get_service S server params =
     and_then (and_then (ok_or InvalidServiceId (params ''service_id'')) (\<lambda>i.
         ok_or InvalidServiceId (so_from_hex S i))) (\<lambda>service_id.
     and_then (ok_or InvalidServiceId (map_of (rev (sv_key_server_oid_to_pop server)) service_id)) (\<lambda>pop.
       Ok (service_id, pop)))"

datatype 'g2 partial_pk_response = Unsupported | PartialPk 'g2 | PartialPkError internal_error

definition handle_get_committee_server_partial_pk ::
  "('s, 'g1, 'g2, 'gt, 'r) bls_ops \<Rightarrow> ('s, 'g1, 'v) server \<Rightarrow> ('g2 partial_pk_response, internal_error) res" where
  "handle_get_committee_server_partial_pk B server =
     (if \<not> is_committee_mode server then Ok Unsupported
      else case get_committee_partial_pk B (sv_master_keys server) of
          Ok pk \<Rightarrow> Ok (PartialPk pk)
        | Err e \<Rightarrow> Ok (PartialPkError e)
        | Panic \<Rightarrow> Panic)"

definition validate_sdk_version_for_type ::
  "('v, 'ver) server_ops \<Rightarrow> string \<Rightarrow> client_sdk_type \<Rightarrow> 'v \<Rightarrow> 'v \<Rightarrow> 'v \<Rightarrow> (unit, internal_error) res" where
  "validate_sdk_version_for_type S version_string sdk_type aggregator_requirement ts_requirement rust_requirement =
     and_then (ok_or InvalidSDKVersion (so_parse_version S version_string)) (\<lambda>version.
       let check = (\<lambda>requirement. if \<not> so_matches S requirement version then Err DeprecatedSDKVersion else Ok ())
       in case sdk_type of
            AggregatorSdk \<Rightarrow> check aggregator_requirement
          | TypeScriptSdk \<Rightarrow> check ts_requirement
          | RustSdk \<Rightarrow> check rust_requirement
          | OtherSdk \<Rightarrow> Ok ())"

definition validate_sdk_version ::
  "('v, 'ver) server_ops \<Rightarrow> 'v key_server_options \<Rightarrow> string \<Rightarrow> client_sdk_type \<Rightarrow> (unit, internal_error) res" where
  "validate_sdk_version S options version_string sdk_type =
     validate_sdk_version_for_type S version_string sdk_type (opt_aggregator_version_requirement options)
       (opt_ts_sdk_version_requirement options) (opt_rust_sdk_version_requirement options)"

text \<open>A header value is \<open>Some None\<close> when it is not a visible string.\<close>

definition handle_request_headers ::
  "('v, 'ver) server_ops \<Rightarrow> 'v key_server_options \<Rightarrow> (string \<rightharpoonup> string option) \<Rightarrow>
   (client_sdk_type \<times> string, internal_error) res" where
  "handle_request_headers S options headers =
     and_then (from_header (Option.bind (headers HEADER_CLIENT_SDK_TYPE) (\<lambda>t. t))) (\<lambda>sdk_type.
     and_then (ok_or (MissingRequiredHeader HEADER_CLIENT_SDK_VERSION) (headers HEADER_CLIENT_SDK_VERSION)) (\<lambda>v.
     and_then (ok_or InvalidSDKVersion v) (\<lambda>v.
     and_then (validate_sdk_version S options v sdk_type) (\<lambda>_. Ok (sdk_type, v)))))"

subsection \<open>What the checks establish\<close>

text \<open>The certificate and both signatures of a request at time \<open>now\<close>.\<close>

definition certified ::
  "('v, 'ver) server_ops \<Rightarrow> ('g1, 'g2) sdk_ops \<Rightarrow> 'v key_server_options \<Rightarrow> rpc_client \<Rightarrow> u64 \<Rightarrow>
   programmable_transaction \<Rightarrow> ('g1, 'g2) fetch_key_request \<Rightarrow> string \<Rightarrow> bool" where
  "certified S F options client now ptb req package_name \<longleftrightarrow>
     (let cert = fkr_certificate req in
      from_mins (cert_ttl_min cert) \<le> opt_session_key_ttl_max options \<and>
      cert_creation_time cert \<le> now \<and>
      unat now - unat (cert_creation_time cert) \<le> from_mins (cert_ttl_min cert) \<and>
      (\<exists>alias_id. so_alias_id S (cert_user cert) = Some alias_id \<and> rc_object_exists client alias_id = Ok False) \<and>
      (\<exists>t. format_timestamp F (cert_creation_time cert div 1000) = Some t \<and>
        so_verify_personal S (cert_signature cert)
          (''Accessing keys of package '' @ package_name @ '' for '' @ decimal (unat (cert_ttl_min cert)) @
            '' mins from '' @ t @ '', session key '' @ show_vk F (cert_session_vk cert)) (cert_user cert)) \<and>
      so_verify_session S (cert_session_vk cert)
        (signed_request F ptb (fkr_enc_key req) (fkr_enc_verification_key req)) (fkr_request_signature req))"

text \<open>The simulation of the policy behind a staleness check, in the name of the user.\<close>

definition policy_passed ::
  "('v, 'ver) server_ops \<Rightarrow> ptb_codec \<Rightarrow> 'v key_server_options \<Rightarrow> rpc_client \<Rightarrow> u64 \<Rightarrow> object_id \<Rightarrow>
   programmable_transaction \<Rightarrow> u64 \<Rightarrow> bool" where
  "policy_passed S K options client now sender ptb gas_price \<longleftrightarrow>
     (\<exists>ptb' resp. add_staleness_check_to_ptb K (so_from_hex S) (so_clock_id S) now
        (network_seal_package (opt_network options)) (opt_allowed_staleness options) ptb = Ok ptb' \<and>
      rc_simulate client \<lparr>td_ptb = ptb', td_sender = sender, td_gas_budget = GAS_BUDGET, td_gas_price = gas_price\<rparr>
        = Ok resp \<and> sim_error resp = None)"

lemma has_address_aliases_Ok:
  "has_address_aliases S client a = Ok b \<longleftrightarrow>
     (\<exists>i. so_alias_id S a = Some i \<and> rc_object_exists client i = Ok b)"
  by (auto simp: has_address_aliases_def res_simps)

lemma signed_message_Ok:
  "signed_message F p vk c t = Ok msg \<longleftrightarrow>
     (\<exists>d. format_timestamp F (c div 1000) = Some d \<and>
       msg = ''Accessing keys of package '' @ p @ '' for '' @ decimal (unat t) @ '' mins from '' @ d @
         '', session key '' @ show_vk F vk)"
  unfolding signed_message_def by (cases "format_timestamp F (c div 1000)") (simp_all only: option.case res.simps option.inject ex_simps simp_thms, blast+)

lemma check_signature_Ok:
  "check_signature S F options client now ptb (fkr_enc_key req) (fkr_enc_verification_key req)
     (fkr_request_signature req) (fkr_certificate req) name = Ok () \<longleftrightarrow>
   certified S F options client now ptb req name"
  unfolding check_signature_def certified_def checked_duration_since_eq Let_def
  by (simp add: and_then_Ok_iff signed_message_Ok has_address_aliases_Ok del: append_Cons append_Nil) blast

lemma is_staleness_error_None: "sim_error resp = None \<Longrightarrow> is_staleness_error h t p resp = Ok False"
  by (simp add: is_staleness_error_def)

lemma policy_verdict_Ok:
  "and_then (is_staleness_error h t p resp) (\<lambda>stale.
      if stale then Err e
      else case sim_error resp of
          None \<Rightarrow> Ok ()
        | Some error \<Rightarrow> (case ee_kind error of FunctionNotFound \<Rightarrow> Err e' | OtherErrorKind k \<Rightarrow> Err (f error k))) = Ok () \<longleftrightarrow>
   sim_error resp = None"
proof (cases "sim_error resp")
  case (Some error)
  then show ?thesis by (cases "ee_kind error") (auto simp: and_then_Ok_iff)
qed (simp add: is_staleness_error_None)

lemma check_policy_Ok:
  "check_policy S K options client now req_id sender v gas_price = Ok () \<longleftrightarrow>
   policy_passed S K options client now sender (the_ptb v) gas_price"
  unfolding check_policy_def policy_passed_def Let_def and_then_Ok_iff map_err_Ok_iff
    policy_verdict_Ok [unfolded and_then_Ok_iff] by blast

lemma has_key_for_package_Ok: "has_key_for_package mk p = Ok () \<longleftrightarrow> (\<exists>k. get_key_for_package mk p = Ok k)"
  by (simp add: has_key_for_package_def res_simps)

definition signed_name :: "('v, 'ver) server_ops \<Rightarrow> ('g1, 'g2) fetch_key_request \<Rightarrow> object_id \<Rightarrow> string" where
  "signed_name S req first_pkg_id =
     (case cert_mvr_name (fkr_certificate req) of Some n \<Rightarrow> n | None \<Rightarrow> so_to_hex S first_pkg_id)"

lemma check_request_Ok:
  "fst (check_request S F K M options mk client mainnet now gas_price req_id v req cs) = Ok (first, ids) \<longleftrightarrow>
   (\<exists>pkg. pkg_id v = Ok pkg \<and> fst (fetch_first_pkg_id client (pkg_cache cs) pkg) = Ok first) \<and>
   (\<exists>k. get_key_for_package mk first = Ok k) \<and>
   fst (check_mvr_package_id M client mainnet (opt_network options) (cert_mvr_name (fkr_certificate req)) first
     (mvr_cache cs)) = Ok () \<and>
   certified S F options client now (the_ptb v) req (signed_name S req first) \<and>
   policy_passed S K options client now (cert_user (fkr_certificate req)) (the_ptb v) gas_price \<and>
   full_ids K v first = Ok ids"
proof (cases "pkg_id v")
  case (Ok pkg)
  obtain r pc where r: "fetch_first_pkg_id client (pkg_cache cs) pkg = (r, pc)" by fastforce
  show ?thesis
  proof (cases "and_then r (\<lambda>f. and_then (has_key_for_package mk f) (\<lambda>_. Ok f))")
    case k: (Ok f)
    then have f: "r = Ok f" and key: "\<exists>k. get_key_for_package mk f = Ok k"
      by (auto simp: and_then_Ok_iff has_key_for_package_Ok)
    let ?m = "\<lambda>f. check_mvr_package_id M client mainnet (opt_network options)
        (cert_mvr_name (fkr_certificate req)) f (mvr_cache cs)"
    have "fst (check_request S F K M options mk client mainnet now gas_price req_id v req cs) =
      and_then (fst (?m f)) (\<lambda>_.
        and_then (check_signature S F options client now (the_ptb v) (fkr_enc_key req)
          (fkr_enc_verification_key req) (fkr_request_signature req) (fkr_certificate req) (signed_name S req f)) (\<lambda>_.
        and_then (check_policy S K options client now req_id (cert_user (fkr_certificate req)) v gas_price) (\<lambda>_.
        and_then (full_ids K v f) (\<lambda>ids. Ok (f, ids)))))"
      unfolding check_request_def Ok res.case Let_def r prod.case
      by (simp add: k signed_name_def case_prod_beta)
    then show ?thesis
      using key by (auto simp: and_then_Ok_iff check_signature_Ok check_policy_Ok Ok r f)
  next
    case (Err e)
    then have "fst (check_request S F K M options mk client mainnet now gas_price req_id v req cs) = Err e"
      unfolding check_request_def Ok res.case Let_def r prod.case by simp
    moreover have "\<not> (r = Ok first \<and> (\<exists>k. get_key_for_package mk first = Ok k))"
      using Err by (auto simp: has_key_for_package_def)
    ultimately show ?thesis by (auto simp: Ok r)
  next
    case Panic
    then have "fst (check_request S F K M options mk client mainnet now gas_price req_id v req cs) = Panic"
      unfolding check_request_def Ok res.case Let_def r prod.case by simp
    moreover have "\<not> (r = Ok first \<and> (\<exists>k. get_key_for_package mk first = Ok k))"
      using Panic by (auto simp: has_key_for_package_def)
    ultimately show ?thesis by (auto simp: Ok r)
  qed
qed (simp_all add: check_request_def)

lemma handle_fetch_key_Ok:
  "fst (handle_fetch_key B S F K M options mk mk' client mainnet now gas_price req_id rng req cs) = Ok resp \<longleftrightarrow>
   (\<exists>v inner first ids key. try_from_base64 K (fkr_ptb req) = Ok v \<and> inner_ids K v = Ok inner \<and>
      fst (check_request S F K M options mk client mainnet now gas_price req_id v req cs) = Ok (first, ids) \<and>
      get_key_for_package mk' first = Ok key \<and> resp = fst (encrypt_keys B rng key (fkr_enc_key req) ids))"
proof -
  have "fst (handle_fetch_key B S F K M options mk mk' client mainnet now gas_price req_id rng req cs) =
    and_then (fst (handle_fetch_key_internal S F K M options mk client mainnet now gas_price req_id req cs))
      (\<lambda>(f, ids). create_response B rng mk' f ids (fkr_enc_key req))"
    by (simp add: handle_fetch_key_def case_prod_beta Let_def)
  then show ?thesis
    by (cases "try_from_base64 K (fkr_ptb req)")
      (auto simp: handle_fetch_key_internal_def and_then_Ok_iff create_response_def expect_Ok_iff split: res.splits)
qed

lemma encrypt_keys_decrypts:
  assumes "scalar_action (smul (g1 B))" and "genkey (g1 B) VG rng0 = ((sk, pk, vk), rng')"
  shows "map dk_id (fst (encrypt_keys B rng mk pk ids)) = ids"
    and "map (\<lambda>d. eg_decrypt (g1 B) sk (dk_encrypted_key d)) (fst (encrypt_keys B rng mk pk ids)) =
      map (ibe_extract B mk) ids"
proof -
  have "eg_decrypt (g1 B) sk (fst (eg_encrypt (g1 B) rng msg pk)) = msg" for rng msg
    using eg_decrypt_encrypt [OF assms] by (metis prod.collapse)
  then show "map (\<lambda>d. eg_decrypt (g1 B) sk (dk_encrypted_key d)) (fst (encrypt_keys B rng mk pk ids)) =
      map (ibe_extract B mk) ids"
    by (induction ids arbitrary: rng) (auto simp: Let_def case_prod_beta)
  show "map dk_id (fst (encrypt_keys B rng mk pk ids)) = ids"
    by (induction ids arbitrary: rng) (auto simp: Let_def case_prod_beta)
qed

lemma valid_ptb_total:
  assumes "valid_ptb_try_from K ptb = Ok v"
  shows "\<exists>pkg inner. pkg_id v = Ok pkg \<and> inner_ids K v = Ok inner"
  by (rule valid_ptb_ids [OF assms]) blast

lemma try_from_base64_Ok:
  assumes "try_from_base64 K s = Ok v"
  obtains pkg inner where "pkg_id v = Ok pkg" and "inner_ids K v = Ok inner"
    and "\<And>first. full_ids K v first = Ok (map (\<lambda>i. first @ i) inner)"
proof -
  from assms obtain ptb where "valid_ptb_try_from K ptb = Ok v"
    by (auto simp: try_from_base64_def res_simps)
  from valid_ptb_total [OF this] obtain pkg inner where "pkg_id v = Ok pkg" "inner_ids K v = Ok inner" by blast
  then show thesis by (intro that [of pkg inner]) (simp_all add: full_ids_def create_full_id_def)
qed

subsection \<open>Properties of the key request\<close>

text \<open>
  C4: keys are given exactly to authorised requests. A request is answered with keys if and only
  if its transaction is valid, the package resolves to a first package the server has a key
  for (when it is checked and when it is answered), a registry name in the certificate
  resolves to that package, the certificate is within its time to live and both signatures
  hold for a user without address aliases, and the simulation of the transaction behind the
  staleness check succeeds for that user.
\<close>

theorem fetch_key_authorised:
  "(\<exists>resp. fst (handle_fetch_key B S F K M options mk mk' client mainnet now gas_price req_id rng req cs) = Ok resp) \<longleftrightarrow>
   (\<exists>v pkg first. try_from_base64 K (fkr_ptb req) = Ok v \<and> pkg_id v = Ok pkg \<and>
      fst (fetch_first_pkg_id client (pkg_cache cs) pkg) = Ok first \<and>
      is_ok (get_key_for_package mk first) \<and> is_ok (get_key_for_package mk' first) \<and>
      (case cert_mvr_name (fkr_certificate req) of
         None \<Rightarrow> True
       | Some name \<Rightarrow> mvr_cache cs name = Some first \<or>
           mvr_cache cs name = None \<and> mvr_forward_resolution M client mainnet name (opt_network options) = Ok first) \<and>
      certified S F options client now (the_ptb v) req (signed_name S req first) \<and>
      policy_passed S K options client now (cert_user (fkr_certificate req)) (the_ptb v) gas_price)"
  (is "?lhs \<longleftrightarrow> ?rhs")
proof
  assume ?lhs
  then show ?rhs
    unfolding handle_fetch_key_Ok check_request_Ok check_mvr_package_id_Ok is_ok_iff by blast
next
  assume ?rhs
  then obtain v pkg first where v: "try_from_base64 K (fkr_ptb req) = Ok v"
    and rest: "pkg_id v = Ok pkg" "fst (fetch_first_pkg_id client (pkg_cache cs) pkg) = Ok first"
      "is_ok (get_key_for_package mk first)" "is_ok (get_key_for_package mk' first)"
      "case cert_mvr_name (fkr_certificate req) of None \<Rightarrow> True
       | Some name \<Rightarrow> mvr_cache cs name = Some first \<or>
           mvr_cache cs name = None \<and> mvr_forward_resolution M client mainnet name (opt_network options) = Ok first"
      "certified S F options client now (the_ptb v) req (signed_name S req first)"
      "policy_passed S K options client now (cert_user (fkr_certificate req)) (the_ptb v) gas_price"
    by blast
  from try_from_base64_Ok [OF v] obtain inner where "inner_ids K v = Ok inner"
    "full_ids K v first = Ok (map (\<lambda>i. first @ i) inner)" by blast
  with v rest show ?lhs
    unfolding handle_fetch_key_Ok check_request_Ok check_mvr_package_id_Ok is_ok_iff by blast
qed


subsection \<open>The key server as a key service\<close>

text \<open>An answer of the key server to a request with the client's key, when the key it holds for
  the first package of the transaction is \<open>key\<close>.\<close>

definition server_answers ::
  "('s::field, 'g1::ab_group_add, 'g2::ab_group_add, 'gt::ab_group_add, 'r) bls_ops \<Rightarrow> ('v, 'ver) server_ops \<Rightarrow>
   ('g1, 'g2) sdk_ops \<Rightarrow> ptb_codec \<Rightarrow> 'n mvr_ops \<Rightarrow> 'v key_server_options \<Rightarrow> 's master_keys \<Rightarrow> 's master_keys \<Rightarrow>
   rpc_client \<Rightarrow> mainnet_clients \<Rightarrow> u64 \<Rightarrow> u64 \<Rightarrow> string \<Rightarrow> 'r \<Rightarrow> ('g1, 'g2) fetch_key_request \<Rightarrow> caches \<Rightarrow>
   's secret_key \<Rightarrow> 's \<Rightarrow> 'g1 fetch_key_response \<Rightarrow> bool" where
  "server_answers B S F K M options mk mk' client mainnet now gas_price req_id rng req cs sk key resp \<longleftrightarrow>
     bls_laws B \<and> (\<exists>rng0 vk rng'. genkey (g1 B) (g2 B) rng0 = ((sk, fkr_enc_key req, vk), rng')) \<and>
     (\<exists>v pkg first. try_from_base64 K (fkr_ptb req) = Ok v \<and> pkg_id v = Ok pkg \<and>
        fst (fetch_first_pkg_id client (pkg_cache cs) pkg) = Ok first \<and> get_key_for_package mk' first = Ok key) \<and>
     fst (handle_fetch_key B S F K M options mk mk' client mainnet now gas_price req_id rng req cs) = Ok resp"

lemma server_answers_keys:
  assumes "server_answers B S F K M options mk mk' client mainnet now gas_price req_id rng req cs sk key resp"
  shows "share_response B sk key resp"
    and "\<exists>v inner pkg first. try_from_base64 K (fkr_ptb req) = Ok v \<and> inner_ids K v = Ok inner \<and> pkg_id v = Ok pkg \<and>
      fst (fetch_first_pkg_id client (pkg_cache cs) pkg) = Ok first \<and> map dk_id resp = map (\<lambda>i. first @ i) inner"
proof -
  from assms obtain rng0 vk rng' v pkg first where g: "genkey (g1 B) (g2 B) rng0 = ((sk, fkr_enc_key req, vk), rng')"
    and v: "try_from_base64 K (fkr_ptb req) = Ok v" "pkg_id v = Ok pkg"
    and f: "fst (fetch_first_pkg_id client (pkg_cache cs) pkg) = Ok first" and key: "get_key_for_package mk' first = Ok key"
    and act: "scalar_action (smul (g1 B))"
    by (auto simp: server_answers_def bls_laws_def)
  from assms v f obtain ids key' where ids: "full_ids K v first = Ok ids" and "get_key_for_package mk' first = Ok key'"
    and "resp = fst (encrypt_keys B rng key' (fkr_enc_key req) ids)"
    unfolding server_answers_def handle_fetch_key_Ok check_request_Ok by auto
  then have resp: "resp = fst (encrypt_keys B rng key (fkr_enc_key req) ids)" using key by simp
  note dec = encrypt_keys_decrypts [OF act g, of rng key ids, folded resp]
  have "map (\<lambda>d. eg_decrypt (g1 B) sk (dk_encrypted_key d)) resp = map (\<lambda>d. ibe_extract B key (dk_id d)) resp"
    using dec(2) by (simp flip: dec(1))
  then show "share_response B sk key resp" by (auto simp: share_response_def)
  from try_from_base64_Ok [OF v(1)] ids obtain inner where "inner_ids K v = Ok inner" "ids = map (\<lambda>i. first @ i) inner"
    by (metis res.inject(1))
  then show "\<exists>v inner pkg first. try_from_base64 K (fkr_ptb req) = Ok v \<and> inner_ids K v = Ok inner \<and> pkg_id v = Ok pkg \<and>
      fst (fetch_first_pkg_id client (pkg_cache cs) pkg) = Ok first \<and> map dk_id resp = map (\<lambda>i. first @ i) inner"
    using v f dec(1) by blast
qed

interpretation key_server: key_service B sk key
    "server_answers B S F K M options mk mk' client mainnet now gas_price req_id rng req cs sk key"
  for B S F K M options mk mk' client mainnet now gas_price req_id rng req cs sk key
proof
  show "bls_laws B" if "server_answers B S F K M options mk mk' client mainnet now gas_price req_id rng req cs sk key dks" for dks
    using that by (simp add: server_answers_def)
  show "share_response B sk key dks"
    if "server_answers B S F K M options mk mk' client mainnet now gas_price req_id rng req cs sk key dks" for dks
    using that by (rule server_answers_keys)
qed

subsection \<open>No panics\<close>

definition client_returns :: "rpc_client \<Rightarrow> bool" where
  "client_returns client \<longleftrightarrow>
     (\<forall>i. rc_original_id client i \<noteq> Panic \<and> rc_object_exists client i \<noteq> Panic \<and>
        rc_app_record client i \<noteq> Panic \<and> rc_package_info client i \<noteq> Panic) \<and>
     (\<forall>t. rc_simulate client t \<noteq> Panic)"

lemma map_err_Panic [simp]: "map_err f r = Panic \<longleftrightarrow> r = Panic"
  by (cases r) simp_all

lemma try_from_base64_not_Panic: "try_from_base64 K s \<noteq> Panic"
proof -
  have "collect_res (check_command K ptb p) cmds \<noteq> Panic" for ptb p cmds
    by (rule collect_res_not_Panic) (rule check_command_Err(1))
  then show ?thesis
    by (auto simp: try_from_base64_def valid_ptb_try_from_def and_then_Panic_iff split: if_splits command.splits)
qed

lemma fetch_first_pkg_id_not_Panic: "client_returns client \<Longrightarrow> fst (fetch_first_pkg_id client cache p) \<noteq> Panic"
  by (auto simp: fetch_first_pkg_id_def client_returns_def split: option.split res.split)

lemma get_key_for_package_not_Panic: "get_key_for_package mk p \<noteq> Panic"
  by (simp add: get_key_for_package_def get_committee_server_master_share_def
      split: master_keys.split committee_key_state.split option.split)

lemma get_from_mvr_registry_not_Panic: "client_returns client \<Longrightarrow> get_from_mvr_registry M n client \<noteq> Panic"
  by (auto simp: get_from_mvr_registry_def dynamic_field_name_def and_then_Panic_iff client_returns_def Let_def
      split: if_splits)

text \<open>The URL of the mainnet node is accepted, and the calls to that node return.\<close>

definition mainnet_ready :: "mainnet_clients \<Rightarrow> bool" where
  "mainnet_ready mainnet \<longleftrightarrow> (case mn_grpc_client mainnet of None \<Rightarrow> False | Some c \<Rightarrow> client_returns c)"

lemma mainnet_ready_client:
  assumes "mainnet_ready mainnet"
  shows "mainnet_rpc_client mainnet \<noteq> Panic" and "mainnet_rpc_client mainnet = Ok c \<Longrightarrow> client_returns c"
  using assms by (auto simp: mainnet_ready_def mainnet_rpc_client_Ok mainnet_rpc_client_Panic split: option.splits)

lemma mvr_forward_resolution_not_Panic:
  assumes "client_returns client" and "mainnet_ready mainnet"
  shows "mvr_forward_resolution M client mainnet n net \<noteq> Panic"
proof -
  have "map_err f (rc_package_info client i) \<noteq> Panic" for f i
    using assms(1) by (simp add: client_returns_def)
  with assms show ?thesis using mainnet_ready_client [OF assms(2)]
    by (cases net) (auto simp: mvr_forward_resolution_def and_then_Panic_iff get_from_mvr_registry_not_Panic
        and_then_Ok_iff ok_or_Ok_iff split: if_splits)
qed

lemma check_mvr_package_id_not_Panic:
  assumes "client_returns client" and "mainnet_ready mainnet"
  shows "fst (check_mvr_package_id M client mainnet net mvr_name first cache) \<noteq> Panic"
  using mvr_forward_resolution_not_Panic [OF assms]
  by (auto simp: check_mvr_package_id_def and_then_Panic_iff split: option.split res.split)

lemma u64_div_mono: "(a :: u64) \<le> b \<Longrightarrow> a div 1000 \<le> b div 1000"
  by (simp add: word_le_nat_alt unat_div div_le_mono)

lemma check_signature_not_Panic:
  assumes "client_returns client" and "\<And>t. t \<le> now div 1000 \<Longrightarrow> format_timestamp F t \<noteq> None"
  shows "check_signature S F options client now ptb ek vk sig cert name \<noteq> Panic"
proof -
  have "signed_message F name (cert_session_vk cert) (cert_creation_time cert) (cert_ttl_min cert) \<noteq>
      (Panic :: (string, internal_error) res)" if "cert_creation_time cert \<le> now"
    using assms(2) [OF u64_div_mono [OF that]] by (auto simp: signed_message_def)
  moreover have "has_address_aliases S client a \<noteq> Panic" for a
    using assms(1) by (auto simp: has_address_aliases_def and_then_Panic_iff client_returns_def)
  ultimately show ?thesis
    by (auto simp: check_signature_def checked_duration_since_eq and_then_Panic_iff Let_def split: if_splits)
qed

lemma add_staleness_not_Panic:
  "package_id h p = Ok pid \<Longrightarrow> add_staleness_check_to_ptb K h clock now p allowed ptb \<noteq> Panic"
  by (auto simp: add_staleness_check_to_ptb_def try_add_argument_def try_argument_from_input_index_def
      and_then_Panic_iff Let_def split: option.split)

lemma is_staleness_error_not_Panic: "package_id h p = Ok pid \<Longrightarrow> is_staleness_error h t p resp \<noteq> Panic"
  by (auto simp: is_staleness_error_def split: option.split error_details.split)

lemma check_policy_not_Panic:
  assumes "client_returns client" and "package_id (so_from_hex S) (network_seal_package (opt_network options)) = Ok pid"
  shows "check_policy S K options client now req_id sender v gas_price \<noteq> Panic"
proof -
  have "map_err f (rc_simulate client t) \<noteq> Panic" for f t
    using assms(1) by (simp add: client_returns_def)
  with assms(2) show ?thesis
    unfolding check_policy_def Let_def and_then_Panic_iff
    by (auto simp: add_staleness_not_Panic is_staleness_error_not_Panic
        split: option.splits execution_error_kind.splits if_splits)
qed

lemma check_request_not_Panic:
  assumes "client_returns client" and "mainnet_ready mainnet"
    and "\<And>t. t \<le> now div 1000 \<Longrightarrow> format_timestamp F t \<noteq> None"
    and "package_id (so_from_hex S) (network_seal_package (opt_network options)) = Ok pid"
    and "pkg_id v = Ok pkg" and "\<And>first. full_ids K v first \<noteq> Panic"
  shows "fst (check_request S F K M options mk client mainnet now gas_price req_id v req cs) \<noteq> Panic"
proof -
  obtain r pc where r: "fetch_first_pkg_id client (pkg_cache cs) pkg = (r, pc)" by fastforce
  have "r \<noteq> Panic" using fetch_first_pkg_id_not_Panic [OF assms(1), of "pkg_cache cs" pkg] by (simp add: r)
  then have "and_then r (\<lambda>f. and_then (has_key_for_package mk f) (\<lambda>_. Ok f)) \<noteq> Panic"
    by (auto simp: and_then_Panic_iff has_key_for_package_def get_key_for_package_not_Panic)
  moreover have "fst (check_mvr_package_id M client mainnet net n f c) \<noteq> Panic" for net n f c
    by (rule check_mvr_package_id_not_Panic) (fact assms(1), fact assms(2))
  moreover have "check_signature S F options client now ptb ek vk sig cert name \<noteq> Panic" for ptb ek vk sig cert name
    by (rule check_signature_not_Panic) (fact assms(1), fact assms(3))
  ultimately show ?thesis
    unfolding check_request_def assms(5) res.case Let_def r prod.case
    using check_policy_not_Panic [where S = S, OF assms(1,4)] assms(6)
    by (auto simp: and_then_Panic_iff case_prod_beta split: res.split)
qed

text \<open>
  C17: in the release build, where arithmetic wraps and a panic would abort the server, a request for keys never panics. If
  the calls to the nodes return, a gRPC client can be made for the URL of the mainnet node (on testnet a request that names
  its package builds one, and panics if it cannot), the date of every past
  moment can be formatted, the id of the Seal package is well formed, and every package that
  has a key when the request is checked still has one when it is answered, then the handler
  returns a response or an error for every request: the accessors of the transaction and the
  \<open>expect\<close> calls never fail. (That the clock \<open>now\<close> is not before 1970, and that values of the server's own types can be
  serialised, is part of the model: these are total functions in it. A build with overflow checks panics in \<open>from_mins\<close> on a
  certificate for 1093 minutes or more.)
\<close>

theorem fetch_key_never_panics:
  assumes "client_returns client" and "mainnet_ready mainnet"
    and "\<forall>t. t \<le> now div 1000 \<longrightarrow> format_timestamp F t \<noteq> None"
    and "is_ok (package_id (so_from_hex S) (network_seal_package (opt_network options)))"
    and "\<forall>p. is_ok (get_key_for_package mk p) \<longrightarrow> is_ok (get_key_for_package mk' p)"
  shows "fst (handle_fetch_key B S F K M options mk mk' client mainnet now gas_price req_id rng req cs) \<noteq> Panic"
proof (cases "try_from_base64 K (fkr_ptb req)")
  case (Ok v)
  let ?check = "check_request S F K M options mk client mainnet now gas_price req_id v req cs"
  from try_from_base64_Ok [OF Ok] obtain pkg inner where v: "pkg_id v = Ok pkg" "inner_ids K v = Ok inner"
    "\<And>first. full_ids K v first = Ok (map (\<lambda>i. first @ i) inner)" by blast
  from assms(4) obtain pid where pid: "package_id (so_from_hex S) (network_seal_package (opt_network options)) = Ok pid"
    by (auto simp: is_ok_iff)
  have "fst ?check \<noteq> Panic"
    using assms(3) by (intro check_request_not_Panic [OF assms(1,2) _ pid v(1)]) (auto simp: v(3))
  moreover have "create_response B rng mk' first ids (fkr_enc_key req) \<noteq> Panic"
    if "fst ?check = Ok (first, ids)" for first ids
  proof -
    have "is_ok (get_key_for_package mk first)" using that unfolding check_request_Ok is_ok_iff by blast
    then obtain k where "get_key_for_package mk' first = Ok k" using assms(5) by (auto simp: is_ok_iff)
    then show ?thesis by (simp add: create_response_def)
  qed
  ultimately show ?thesis
    by (auto simp: handle_fetch_key_def handle_fetch_key_internal_def Ok v(2) and_then_Panic_iff case_prod_beta)
qed (simp_all add: handle_fetch_key_def handle_fetch_key_internal_def try_from_base64_not_Panic)

subsection \<open>Proofs of possession and headers\<close>

lemma map_of_rev_pairs:
  "map_of (rev (map (\<lambda>k. (k, f k)) ks)) k = (if k \<in> set ks then Some (f k) else None)"
  by (induction ks) (auto simp: map_add_def)

lemma load_openD:
  "load B env opts v = Ok mk \<Longrightarrow> opt_server_mode opts = ModeOpen ks \<Longrightarrow> \<exists>k. mk = OpenKeys k"
  by (auto simp: load_def res_simps split: res.splits)

lemma supported_have_keys:
  assumes "validate opts = Ok ()" and "load B env opts v = Ok mk"
    and "\<not> (\<exists>a b c d. opt_server_mode opts = ModeCommittee a b c d)"
    and "ks \<in> set (get_supported_key_server_object_ids opts)"
  shows "\<exists>k. get_key_for_key_server mk ks = Ok k"
proof (cases "opt_server_mode opts")
  case (ModeOpen x)
  with load_openD [OF assms(2)] show ?thesis by (auto simp: get_key_for_key_server_def)
next
  case (ModePermissioned cs)
  from assms(4) obtain c where c: "c \<in> set cs" "ks = cc_key_server_object_id c"
    and "case cc_client_master_key c of Exported _ \<Rightarrow> False | _ \<Rightarrow> True"
    unfolding get_supported_key_server_object_ids_def ModePermissioned server_mode.case set_map set_filter by blast
  then have ne: "\<not> (case cc_client_master_key c of Exported _ \<Rightarrow> True | _ \<Rightarrow> False)"
    by (cases "cc_client_master_key c") simp_all
  from load_permissionedD [OF assms(2) ModePermissioned] obtain seed where
    "decode_byte_array env PrefixedHex SEED_LENGTH MASTER_KEY_ENV_VAR = Ok seed" by blast
  from load_permissioned_client(1) [OF assms(1) ModePermissioned assms(2) this c(1)] ne c(2)
  show ?thesis by (auto simp: ok_or_Ok_iff)
qed (use assms(3) in auto)

text \<open>
  every key server the configuration names has a proof of possession. For a validated
  configuration whose keys load, the start never panics on the map of proofs, which holds,
  for exactly the supported key server ids, the proof made with the key that serves that id,
  bound to the id; in committee mode it is empty.
\<close>

theorem pop_map_complete:
  assumes "validate opts = Ok ()" and "load B env opts v = Ok mk"
  shows "\<exists>pop. build_key_server_pop_map B opts mk = Ok pop \<and>
    map_of (rev pop) ks =
      (case opt_server_mode opts of
         ModeCommittee _ _ _ _ \<Rightarrow> None
       | _ \<Rightarrow> if ks \<in> set (get_supported_key_server_object_ids opts)
             then Some (create_proof_of_possession B (case get_key_for_key_server mk ks of Ok k \<Rightarrow> k) ks) else None)"
proof (cases "\<exists>a b c d. opt_server_mode opts = ModeCommittee a b c d")
  case False
  let ?key = "\<lambda>ks. case get_key_for_key_server mk ks of Ok k \<Rightarrow> k"
  let ?pop = "map (\<lambda>ks. (ks, create_proof_of_possession B (?key ks) ks)) (get_supported_key_server_object_ids opts)"
  have "collect_res (\<lambda>ks_oid. and_then (expect (get_key_for_key_server mk ks_oid)) (\<lambda>key.
      Ok (ks_oid, create_proof_of_possession B key ks_oid))) (get_supported_key_server_object_ids opts) =
      (Ok ?pop :: (_, load_error) res)"
    by (rule collect_res_Ok) (use supported_have_keys [OF assms False] in fastforce)
  with False have "build_key_server_pop_map B opts mk = Ok ?pop"
    unfolding build_key_server_pop_map_def by (cases "opt_server_mode opts") auto
  moreover have "map_of (rev ?pop) ks = (if ks \<in> set (get_supported_key_server_object_ids opts)
      then Some (create_proof_of_possession B (?key ks) ks) else None)" by (rule map_of_rev_pairs)
  ultimately show ?thesis
    using False by (intro exI [of _ ?pop] conjI) (auto split: server_mode.split)
qed (auto simp: build_key_server_pop_map_def)

theorem pop_map_complete_witness:
  "\<exists>pop. build_key_server_pop_map gf_bls (demo_options (ModePermissioned demo_clients)) demo_keys = Ok pop \<and>
    map_of (rev pop) [1] = Some (create_proof_of_possession gf_bls (GF256 3) [1])"
  using pop_map_complete [OF demo_validate demo_load, of "[1]"]
  by (simp add: demo_mode get_supported_key_server_object_ids_def demo_clients_def demo_keys_def
      get_key_for_key_server_def)

text \<open>
  the version check. A request passes exactly if it has a readable version header that parses
  and meets the requirement of the client type named in the type header; clients of an
  unknown type need only a version that parses.
\<close>

theorem request_headers_exact:
  "handle_request_headers S options headers = Ok (t, version) \<longleftrightarrow>
     from_header (Option.bind (headers ''Client-Sdk-Type'') (\<lambda>t. t)) = Ok t \<and>
     headers ''Client-Sdk-Version'' = Some (Some version) \<and>
     (\<exists>ver. so_parse_version S version = Some ver \<and>
       (case t of
          AggregatorSdk \<Rightarrow> so_matches S (opt_aggregator_version_requirement options) ver
        | TypeScriptSdk \<Rightarrow> so_matches S (opt_ts_sdk_version_requirement options) ver
        | RustSdk \<Rightarrow> so_matches S (opt_rust_sdk_version_requirement options) ver
        | OtherSdk \<Rightarrow> True))"
  unfolding handle_request_headers_def validate_sdk_version_def validate_sdk_version_for_type_def
    HEADER_CLIENT_SDK_TYPE_def HEADER_CLIENT_SDK_VERSION_def
  by (cases t) (auto simp: and_then_Ok_iff ok_or_Ok_iff split: if_splits)

subsection \<open>A concrete server\<close>

definition demo_server_ops :: "(unit, unit) server_ops" where
  "demo_server_ops = \<lparr>so_verify_personal = (\<lambda>sig msg user. sig = user), so_verify_session = (\<lambda>vk msg sig. vk = sig),
     so_alias_id = (\<lambda>a. Some (0 # a)), so_from_hex = (\<lambda>s. Some [5]), so_to_hex = (\<lambda>i. []), so_show_id = (\<lambda>i. []),
     so_clock_id = [6], so_parse_version = (\<lambda>s. Some ()), so_matches = (\<lambda>r v. True)\<rparr>"

definition demo_server_codec :: ptb_codec where
  "demo_server_codec = demo_codec\<lparr>base64_decode := (\<lambda>s. Some []), bcs_ptb := (\<lambda>b. Some demo_ptb)\<rparr>"

definition demo_mvr :: "unit mvr_ops" where
  "demo_mvr = \<lparr>mvr_parse = (\<lambda>s. None), mvr_show_field = (\<lambda>n. []), mvr_name_bcs = (\<lambda>n. []),
     mvr_child_id = (\<lambda>r c b. b), mvr_show_id = (\<lambda>i. [])\<rparr>"

text \<open>The name \<open>@a/b\<close> is registered on mainnet for the package \<open>[9]\<close> of testnet.\<close>

definition demo_mainnet :: mainnet_clients where
  "demo_mainnet = \<lparr>mn_json_rpc_built = True, mn_grpc_client = Some (demo_client\<lparr>rc_app_record := (\<lambda>_. Ok
     \<lparr>ar_app_info = None, ar_networks = [(TESTNET_ID, \<lparr>ai_package_info_id = Some [8], ai_package_address = None\<rparr>)]\<rparr>)\<rparr>)\<rparr>"

definition demo_named_client :: rpc_client where
  "demo_named_client = demo_client\<lparr>rc_package_info := (\<lambda>_. Ok \<lparr>pi_package_address = [9], pi_metadata = [(''default'', ''@a/b'')]\<rparr>)\<rparr>"

definition demo_mvr_names :: "unit mvr_ops" where
  "demo_mvr_names = demo_mvr\<lparr>mvr_parse := (\<lambda>s. Some ((), None))\<rparr>"

definition demo_request :: "(gf256, gf256) fetch_key_request" where
  "demo_request = \<lparr>fkr_ptb = [], fkr_enc_key = PublicKey (GF256 2), fkr_enc_verification_key = VerificationKey (GF256 2),
     fkr_request_signature = [4], fkr_certificate = \<lparr>cert_user = [3], cert_session_vk = [4],
       cert_creation_time = 500, cert_ttl_min = 10, cert_signature = [3], cert_mvr_name = None\<rparr>\<rparr>"

definition demo_handle :: "(gf256 fetch_key_response, internal_error) res" where
  "demo_handle = fst (handle_fetch_key gf_bls demo_server_ops demo_sdk demo_server_codec demo_mvr
     (demo_options (ModeOpen [1])) (OpenKeys (GF256 3)) (OpenKeys (GF256 3)) demo_client demo_mainnet 1000 1 [] [7]
     demo_request \<lparr>pkg_cache = Map.empty, mvr_cache = Map.empty\<rparr>)"

lemma demo_limits:
  "opt_session_key_ttl_max (demo_options m) = 1800000" "opt_network (demo_options m) = Testnet"
  by (simp_all add: demo_options_def new_open_server_with_default_values_def default_session_key_ttl_max_def from_mins_eq)

lemma demo_ptb_decoded: "try_from_base64 demo_server_codec [] = Ok (ValidPtb demo_ptb)"
  by code_simp

lemma demo_certified:
  "certified demo_server_ops demo_sdk (demo_options m) demo_client 1000 demo_ptb demo_request name"
  by (simp add: certified_def demo_request_def demo_limits from_mins_eq demo_server_ops_def demo_client_def demo_sdk_def)

lemma demo_policy:
  "policy_passed demo_server_ops demo_server_codec (demo_options m) demo_client 1000 [3] demo_ptb 1"
proof -
  have p: "package_id (so_from_hex demo_server_ops) PkgTestnet = Ok [5]" "length (ptb_inputs demo_ptb) + 3 \<le> 65536"
    by (simp_all add: demo_server_ops_def demo_ptb_def)
  obtain ptb' where "add_staleness_check_to_ptb demo_server_codec (so_from_hex demo_server_ops)
      (so_clock_id demo_server_ops) 1000 PkgTestnet (opt_allowed_staleness (demo_options m)) demo_ptb = Ok ptb'"
    by (rule add_staleness_check_Ok [OF p])
  then show ?thesis by (simp add: policy_passed_def demo_limits demo_client_def)
qed

lemma demo_handle_Ok: "\<exists>resp. demo_handle = Ok resp"
proof -
  from try_from_base64_Ok [OF demo_ptb_decoded] obtain inner where
    "inner_ids demo_server_codec (ValidPtb demo_ptb) = Ok inner"
    "full_ids demo_server_codec (ValidPtb demo_ptb) [9] = Ok (map (\<lambda>i. [9] @ i) inner)" by blast
  moreover have "pkg_id (ValidPtb demo_ptb) = Ok [1]" by code_simp
  moreover have "fst (fetch_first_pkg_id demo_client Map.empty [1]) = Ok [9]"
    by (simp add: fetch_first_pkg_id_def demo_client_def)
  moreover have "cert_user (fkr_certificate demo_request) = [3]" "cert_mvr_name (fkr_certificate demo_request) = None"
    "fkr_ptb demo_request = []" by (simp_all add: demo_request_def)
  ultimately show ?thesis
    unfolding demo_handle_def handle_fetch_key_Ok check_request_Ok check_mvr_package_id_Ok
    using demo_ptb_decoded demo_certified demo_policy
    by (intro exI [of _ "ValidPtb demo_ptb"] exI [of _ inner] exI [of _ "[9]"] exI)
      (auto simp: get_key_for_package_def)
qed


text \<open>A request that names its package, on testnet. Its name is resolved through the mainnet client; if that
  client could not be made, the very request would panic.\<close>

definition demo_named_request :: "(gf256, gf256) fetch_key_request" where
  "demo_named_request = demo_request\<lparr>fkr_certificate := (fkr_certificate demo_request)\<lparr>cert_mvr_name := Some ''@a/b''\<rparr>\<rparr>"

definition demo_named_handle :: "mainnet_clients \<Rightarrow> (gf256 fetch_key_response, internal_error) res" where
  "demo_named_handle mainnet = fst (handle_fetch_key gf_bls demo_server_ops demo_sdk demo_server_codec demo_mvr_names
     (demo_options (ModeOpen [1])) (OpenKeys (GF256 3)) (OpenKeys (GF256 3)) demo_named_client mainnet 1000 1 [] [7]
     demo_named_request \<lparr>pkg_cache = Map.empty, mvr_cache = Map.empty\<rparr>)"

lemma demo_name_resolves: "mvr_forward_resolution demo_mvr_names demo_named_client demo_mainnet ''@a/b'' Testnet = Ok [9]"
  by code_simp

lemma demo_named_handle_panics: "demo_named_handle (demo_mainnet\<lparr>mn_grpc_client := None\<rparr>) = Panic"
proof -
  obtain inner where "inner_ids demo_server_codec (ValidPtb demo_ptb) = Ok inner" using try_from_base64_Ok [OF demo_ptb_decoded] by blast
  moreover have "pkg_id (ValidPtb demo_ptb) = Ok [1]" by code_simp
  moreover have "fetch_first_pkg_id demo_named_client Map.empty [1] = (Ok [9], [[1] \<mapsto> [9]])"
    by (simp add: fetch_first_pkg_id_def demo_named_client_def demo_client_def)
  moreover have "mvr_forward_resolution demo_mvr_names demo_named_client (demo_mainnet\<lparr>mn_grpc_client := None\<rparr>) ''@a/b'' Testnet = Panic"
    by (simp add: mvr_forward_resolution_def mainnet_rpc_client_def demo_mainnet_def)
  ultimately show ?thesis using demo_ptb_decoded
    by (simp add: demo_named_handle_def handle_fetch_key_def handle_fetch_key_internal_def check_request_def check_mvr_package_id_def
        demo_named_request_def demo_request_def demo_limits get_mvr_cache_def has_key_for_package_def get_key_for_package_def)
qed

theorem fetch_key_never_panics_witness: "demo_named_handle demo_mainnet \<noteq> Panic"
  unfolding demo_named_handle_def
proof (rule fetch_key_never_panics)
  show "client_returns demo_named_client" by (simp add: client_returns_def demo_client_def demo_named_client_def)
  show "mainnet_ready demo_mainnet" by (simp add: mainnet_ready_def client_returns_def demo_mainnet_def demo_client_def)
  show "\<forall>t. t \<le> 1000 div 1000 \<longrightarrow> format_timestamp demo_sdk t \<noteq> None" by (simp add: demo_sdk_def)
  show "is_ok (package_id (so_from_hex demo_server_ops) (network_seal_package (opt_network (demo_options (ModeOpen [1])))))"
    by (simp add: demo_limits demo_server_ops_def)
qed simp_all

end
