(* ===== verification/Supervisor.thy ===== *)
theory Supervisor
  imports Server
begin

text \<open>
  The supervision of the background tasks of the key server: \<open>start_server_background_tasks\<close> and \<open>main\<close> of
  \<^verbatim>\<open>crates/key-server/src/server.rs\<close>. The tasks themselves are modelled in \<open>Monitors\<close>; here a task only
  runs or has ended. The process is a state machine: tasks and the HTTP server may end at any time, the
  monitor task reacts to the end of a task it selects on, and \<open>main\<close> exits with status 1 when the HTTP server or the
  monitor has ended. All this presumes that a panic unwinds. In a build with \<open>panic = 'abort'\<close>, as the release
  profile has it (\<^verbatim>\<open>Cargo.toml\<close>, lines 59 and 60), a panic of any task, and of a request handler,
  ends the process at once with \<open>SIGABRT\<close>. The panic strategy is a parameter of the step relation.
\<close>

subsection \<open>Tasks\<close>

text \<open>How a task ends, as its \<open>JoinHandle\<close> shows it: with a value, by a panic, or cancelled.\<close>

datatype task_end = Returned | Panicked | Cancelled

datatype task = NotStarted | RunningTask | Ended task_end

datatype exit_status = ExitCode nat | SignalAbort

record process =
  pc_rgp :: task
  pc_push :: task
  pc_version :: task
  pc_rotation_events :: task
  pc_package_digest :: task
  pc_monitor :: task
  pc_request_panicked :: bool
  pc_http :: bool
  pc_exit :: "exit_status option"

definition committee_mode :: "server_mode \<Rightarrow> bool" where
  "committee_mode mode = (case mode of ModeCommittee _ _ _ _ \<Rightarrow> True | _ \<Rightarrow> False)"

definition start_server_background_tasks :: "'v key_server_options \<Rightarrow> 's master_keys \<Rightarrow> watch \<Rightarrow> process" where
  "start_server_background_tasks options mk ch =
     (let mode = opt_server_mode options;
          event_monitor_task = (if opt_enable_event_monitoring options \<and> committee_mode mode then RunningTask else NotStarted)
      in \<lparr>pc_rgp = RunningTask, pc_push = RunningTask,
          pc_version = (if rot_phase (spawn_committee_version_updater mode mk ch) = NotSpawned then NotStarted else RunningTask),
          pc_rotation_events = event_monitor_task, pc_package_digest = event_monitor_task,
          pc_monitor = RunningTask, pc_request_panicked = False, pc_http = True, pc_exit = None\<rparr>)"

text \<open>The task that waits for the version updater: it panics if the updater did, or was cancelled; otherwise
  it stays pending.\<close>

fun committee_version_monitor :: "task \<Rightarrow> task_end option" where
  "committee_version_monitor (Ended Panicked) = Some Panicked"
| "committee_version_monitor (Ended Cancelled) = Some Panicked"
| "committee_version_monitor _ = None"

text \<open>A branch of the \<open>select!\<close>: a panic is resumed, a cancelled task is returned as an error, and a
  task that returned runs into \<open>unreachable!\<close>.\<close>

fun monitor_branch :: "task_end \<Rightarrow> task_end" where
  "monitor_branch Panicked = Panicked"
| "monitor_branch Cancelled = Returned"
| "monitor_branch Returned = Panicked"

inductive monitor_selects :: "process \<Rightarrow> task_end \<Rightarrow> bool" where
  rgp_ended: "pc_rgp s = Ended e \<Longrightarrow> monitor_selects s e"
| push_ended: "pc_push s = Ended e \<Longrightarrow> monitor_selects s e"
| version_ended: "committee_version_monitor (pc_version s) = Some e \<Longrightarrow> monitor_selects s e"

text \<open>What the end of a task does to the process: a panic aborts it, if panics abort.\<close>

definition task_ended :: "panic_strategy \<Rightarrow> task_end \<Rightarrow> process \<Rightarrow> process" where
  "task_ended ps e s = (if ps = PanicAbort \<and> e = Panicked then s\<lparr>pc_exit := Some SignalAbort\<rparr> else s)"

inductive process_step :: "panic_strategy \<Rightarrow> process \<Rightarrow> process \<Rightarrow> bool" for ps where
  rgp_ends: "pc_exit s = None \<Longrightarrow> pc_rgp s = RunningTask \<Longrightarrow>
     process_step ps s (task_ended ps e (s\<lparr>pc_rgp := Ended e\<rparr>))"
| push_ends: "pc_exit s = None \<Longrightarrow> pc_push s = RunningTask \<Longrightarrow>
     process_step ps s (task_ended ps e (s\<lparr>pc_push := Ended e\<rparr>))"
| version_ends: "pc_exit s = None \<Longrightarrow> pc_version s = RunningTask \<Longrightarrow>
     process_step ps s (task_ended ps e (s\<lparr>pc_version := Ended e\<rparr>))"
| rotation_events_ends: "pc_exit s = None \<Longrightarrow> pc_rotation_events s = RunningTask \<Longrightarrow>
     process_step ps s (task_ended ps e (s\<lparr>pc_rotation_events := Ended e\<rparr>))"
| package_digest_ends: "pc_exit s = None \<Longrightarrow> pc_package_digest s = RunningTask \<Longrightarrow>
     process_step ps s (task_ended ps e (s\<lparr>pc_package_digest := Ended e\<rparr>))"
| request_panics: "pc_exit s = None \<Longrightarrow> pc_http s \<Longrightarrow>
     process_step ps s (task_ended ps Panicked (s\<lparr>pc_request_panicked := True\<rparr>))"
| http_stops: "pc_exit s = None \<Longrightarrow> pc_http s \<Longrightarrow> process_step ps s (s\<lparr>pc_http := False\<rparr>)"
| monitor: "pc_exit s = None \<Longrightarrow> pc_monitor s = RunningTask \<Longrightarrow> monitor_selects s e \<Longrightarrow>
     process_step ps s (task_ended ps (monitor_branch e) (s\<lparr>pc_monitor := Ended (monitor_branch e)\<rparr>))"
| exits: "pc_exit s = None \<Longrightarrow> \<not> pc_http s \<or> (\<exists>e. pc_monitor s = Ended e) \<Longrightarrow>
     process_step ps s (s\<lparr>pc_exit := Some (ExitCode 1)\<rparr>)"

inductive_cases process_stepE [elim]: "process_step ps s t"

lemma task_ended_simps [simp]:
  "pc_rgp (task_ended ps e s) = pc_rgp s" "pc_push (task_ended ps e s) = pc_push s" "pc_version (task_ended ps e s) = pc_version s"
  "pc_rotation_events (task_ended ps e s) = pc_rotation_events s" "pc_package_digest (task_ended ps e s) = pc_package_digest s"
  "pc_monitor (task_ended ps e s) = pc_monitor s" "pc_request_panicked (task_ended ps e s) = pc_request_panicked s"
  "pc_http (task_ended ps e s) = pc_http s"
  "pc_exit (task_ended ps e s) = (if ps = PanicAbort \<and> e = Panicked then Some SignalAbort else pc_exit s)"
  by (simp_all add: task_ended_def)

subsection \<open>Invariant\<close>

text \<open>A task of the process, or a request handler, has panicked.\<close>

definition process_panicked :: "process \<Rightarrow> bool" where
  "process_panicked s \<longleftrightarrow> pc_request_panicked s \<or>
     Ended Panicked \<in> {pc_rgp s, pc_push s, pc_version s, pc_rotation_events s, pc_package_digest s, pc_monitor s}"

text \<open>Why the supervision stops the process: the HTTP server stopped, a watched task ended, or the version updater did not
  end regularly.\<close>

definition process_fails :: "process \<Rightarrow> bool" where
  "process_fails s \<longleftrightarrow> \<not> pc_http s \<or> (\<exists>e. pc_rgp s = Ended e) \<or> (\<exists>e. pc_push s = Ended e) \<or>
     pc_version s \<in> {Ended Panicked, Ended Cancelled}"

definition process_invar :: "panic_strategy \<Rightarrow> process \<Rightarrow> bool" where
  "process_invar ps s \<longleftrightarrow>
     pc_monitor s \<noteq> NotStarted \<and> pc_exit s \<in> {None, Some (ExitCode 1), Some SignalAbort} \<and>
     (pc_exit s = Some (ExitCode 1) \<or> (\<exists>e. pc_monitor s = Ended e) \<longrightarrow> process_fails s) \<and>
     (pc_exit s = Some SignalAbort \<longleftrightarrow> ps = PanicAbort \<and> process_panicked s)"

lemma version_monitor_Some: "committee_version_monitor t = Some e \<longleftrightarrow> t \<in> {Ended Panicked, Ended Cancelled} \<and> e = Panicked"
  by (cases t rule: committee_version_monitor.cases) auto

lemma monitor_selects_iff:
  "(\<exists>e. monitor_selects s e) \<longleftrightarrow> (\<exists>e. pc_rgp s = Ended e) \<or> (\<exists>e. pc_push s = Ended e) \<or> pc_version s \<in> {Ended Panicked, Ended Cancelled}"
  by (auto simp: monitor_selects.simps version_monitor_Some)

lemma process_fails_stable: "process_step ps s t \<Longrightarrow> process_fails s \<Longrightarrow> process_fails t"
  by (auto simp: process_fails_def)

lemma process_invar_step:
  assumes "process_invar ps s" and "process_step ps s t"
  shows "process_invar ps t"
  using assms(2,1) monitor_selects_iff [of s]
  by cases (auto simp: process_invar_def process_fails_def process_panicked_def)

interpretation supervised: stable_system
  "\<lambda>s. \<exists>(options :: 'v key_server_options) (mk :: 's master_keys) ch. s = start_server_background_tasks options mk ch"
  "process_step ps" "process_invar ps" process_fails for ps
proof
  show "process_invar ps s" if "\<exists>(options :: 'v key_server_options) (mk :: 's master_keys) ch. s = start_server_background_tasks options mk ch" for s
    using that by (auto simp: start_server_background_tasks_def process_invar_def process_panicked_def Let_def split: if_splits)
  show "process_invar ps t" if "process_invar ps s" "process_step ps s t" for s t
    using that by (rule process_invar_step)
  show "process_fails t" if "process_invar ps s" "process_step ps s t" "process_fails s" for s t
    using that(2,3) by (rule process_fails_stable)
qed

lemma failing_process_exits:
  assumes "process_invar ps s" and "process_fails s"
  shows "\<exists>t. (process_step ps)\<^sup>*\<^sup>* s t \<and> pc_exit t \<noteq> None"
proof (cases "pc_exit s")
  case None
  show ?thesis
  proof (cases "\<not> pc_http s \<or> (\<exists>e. pc_monitor s = Ended e)")
    case True
    then have "process_step ps s (s\<lparr>pc_exit := Some (ExitCode 1)\<rparr>)" using None by (intro process_step.exits)
    then show ?thesis by (intro exI [of _ "s\<lparr>pc_exit := Some (ExitCode 1)\<rparr>"]) auto
  next
    case False
    then have run: "pc_monitor s = RunningTask" using assms(1) by (cases "pc_monitor s") (auto simp: process_invar_def)
    obtain e where "monitor_selects s e" using assms(2) False monitor_selects_iff [of s] by (auto simp: process_fails_def)
    then have 1: "process_step ps s (task_ended ps (monitor_branch e) (s\<lparr>pc_monitor := Ended (monitor_branch e)\<rparr>))" (is "process_step ps s ?t")
      by (rule process_step.monitor [OF None run])
    show ?thesis
    proof (cases "pc_exit ?t")
      case None
      then have "process_step ps ?t (?t\<lparr>pc_exit := Some (ExitCode 1)\<rparr>)" by (rule process_step.exits) simp
      with 1 show ?thesis by (intro exI [of _ "?t\<lparr>pc_exit := Some (ExitCode 1)\<rparr>"]) (auto intro: converse_rtranclp_into_rtranclp)
    next
      case (Some x)
      with 1 show ?thesis by (intro exI [of _ ?t]) auto
    qed
  qed
qed auto

subsection \<open>Properties\<close>



end
