(* ===== verification/SealCommittee.thy ===== *)
theory SealCommittee
  imports Rpc Ibe "HOL-Library.Multiset"
begin

text \<open>
  \<^verbatim>\<open>crates/seal-committee/src\<close>: the on-chain objects of a committee (\<^verbatim>\<open>move_types.rs\<close>), the
  party maps built from them (\<^verbatim>\<open>utils.rs\<close>, \<^verbatim>\<open>types.rs\<close>) and the full-node calls that read them
  (\<^verbatim>\<open>grpc_helper.rs\<close>).

  A call to the node is a function on the state \<open>'w\<close> of the outside world, so that two calls
  of one operation may see different chains. The node is the record \<open>grpc_node\<close>; the BCS
  decoders, the parsers of addresses and struct tags and the derivation of dynamic field ids
  are the record \<open>sui_codec\<close>. \<open>'g2\<close> is the type of partial public keys, \<open>'epk\<close> and \<open>'spk\<close>
  those of the members' encryption and signing keys.
\<close>

subsection \<open>On-chain objects\<close>

record 'g2 partial_key_server =
  pks_name :: string
  pks_url :: string
  pks_partial_pk :: 'g2
  pks_party_id :: u16

datatype 'g2 server_type =
    Independent string
  | Committee u32 u16 "'g2 partial_key_server list"

record 'g2 key_server_v2 =
  ks_name :: string
  ks_key_type :: u8
  ks_pk :: bytes
  ks_server_type :: "'g2 server_type"

record 'g2 partial_key_server_info =
  pki_party_id :: u16
  pki_partial_pk :: 'g2
  pki_name :: string
  pki_url :: string

record ('epk, 'spk) member_info =
  mi_enc_pk :: 'epk
  mi_signing_pk :: 'spk
  mi_url :: string
  mi_name :: string

datatype ('epk, 'spk) committee_phase =
    Init "(object_id \<times> ('epk, 'spk) member_info) list"
  | PostDKG "(object_id \<times> ('epk, 'spk) member_info) list" "bytes list" bytes bytes "object_id list"
  | Finalized

record ('epk, 'spk) seal_committee =
  sc_id :: object_id
  sc_threshold :: u16
  sc_members :: "object_id list"
  sc_state :: "('epk, 'spk) committee_phase"
  sc_old_committee_id :: "object_id option"

record ('epk, 'spk) parsed_member_info =
  pmi_name :: string
  pmi_party_id :: u16
  pmi_address :: object_id
  pmi_enc_pk :: 'epk
  pmi_signing_pk :: 'spk

datatype upgrade_vote = Approve | Reject

record upgrade_proposal =
  up_digest :: bytes
  up_version :: u64
  up_votes :: "(object_id \<times> upgrade_vote) list"

record upgrade_cap =
  cap_id :: object_id
  cap_package :: object_id
  cap_version :: u64
  cap_policy :: u8

record upgrade_manager =
  um_id :: object_id
  um_cap :: upgrade_cap
  um_upgrade_proposal :: "upgrade_proposal option"

record ('k, 'v) move_field =
  field_id :: object_id
  field_name :: 'k
  field_value :: 'v

text \<open>The errors of the objects' methods. \<open>anyhow\<close> errors are their rendered messages in the
  source; here they keep the data the messages are made of.\<close>

datatype committee_error =
    InvalidIndependentServer
  | PartyIdOutOfRange u16
  | NotCommitteeServer
  | MemberNotFound object_id object_id
  | NotInInit object_id
  | NotFinalized object_id
  | InvalidCommitteeState object_id
  | MemberNotRegistered object_id object_id

subsection \<open>Methods of the objects\<close>

definition extract_committee_info ::
  "'g2 key_server_v2 \<Rightarrow> (u16 \<times> 'g2 partial_key_server list, committee_error) res" where
  "extract_committee_info ks =
     (case ks_server_type ks of
        Committee _ threshold partial_key_servers \<Rightarrow> Ok (threshold, partial_key_servers)
      | Independent _ \<Rightarrow> Err InvalidIndependentServer)"

text \<open>\<open>collect\<close> into a \<open>HashMap\<close>: the last entry of a key wins.\<close>

definition collect_map ::
  "('a \<Rightarrow> ('k \<times> 'v, 'e) res) \<Rightarrow> 'a list \<Rightarrow> ('k \<rightharpoonup> 'v, 'e) res" where
  "collect_map f xs = and_then (collect_res f xs) (\<lambda>kvs. Ok (map_of (rev kvs)))"

definition to_partial_key_servers ::
  "'g2 key_server_v2 \<Rightarrow> object_id list \<Rightarrow> (object_id \<rightharpoonup> 'g2 partial_key_server_info, committee_error) res" where
  "to_partial_key_servers ks members =
     (case ks_server_type ks of
        Committee _ _ partial_key_servers \<Rightarrow>
          collect_map (\<lambda>p.
            let party_id = pks_party_id p in
            and_then (ok_or (PartyIdOutOfRange party_id)
                (if unat party_id < length members then Some (members ! unat party_id) else None))
              (\<lambda>member_addr. Ok (member_addr,
                 \<lparr>pki_party_id = pks_party_id p, pki_partial_pk = pks_partial_pk p,
                  pki_name = pks_name p, pki_url = pks_url p\<rparr>)))
            partial_key_servers
      | Independent _ \<Rightarrow> Err NotCommitteeServer)"

fun position :: "('a \<Rightarrow> bool) \<Rightarrow> 'a list \<Rightarrow> nat option" where
  "position P [] = None"
| "position P (x # xs) = (if P x then Some 0 else map_option Suc (position P xs))"

definition get_party_id ::
  "('epk, 'spk) seal_committee \<Rightarrow> object_id \<Rightarrow> (u16, committee_error) res" where
  "get_party_id c member_addr =
     ok_or (MemberNotFound member_addr (sc_id c))
       (map_option of_nat (position (\<lambda>addr. addr = member_addr) (sc_members c)))"

definition is_init :: "('epk, 'spk) seal_committee \<Rightarrow> (unit, committee_error) res" where
  "is_init c = (case sc_state c of Init _ \<Rightarrow> Ok () | _ \<Rightarrow> Err (NotInInit (sc_id c)))"

definition is_finalized :: "('epk, 'spk) seal_committee \<Rightarrow> (unit, committee_error) res" where
  "is_finalized c = (case sc_state c of Finalized \<Rightarrow> Ok () | _ \<Rightarrow> Err (NotFinalized (sc_id c)))"

definition contains_member :: "('epk, 'spk) seal_committee \<Rightarrow> object_id \<Rightarrow> bool" where
  "contains_member c member_addr = List.member (sc_members c) member_addr"

definition get_members_info ::
  "('epk, 'spk) seal_committee \<Rightarrow> (object_id \<rightharpoonup> ('epk, 'spk) parsed_member_info, committee_error) res" where
  "get_members_info c =
     and_then (case sc_state c of
         Init members_info \<Rightarrow> Ok members_info
       | PostDKG members_info _ _ _ _ \<Rightarrow> Ok members_info
       | Finalized \<Rightarrow> Err (InvalidCommitteeState (sc_id c))) (\<lambda>members_info.
     let info_map = map_of (rev members_info) in
     collect_map (\<lambda>(party_id, member_addr).
         and_then (ok_or (MemberNotRegistered member_addr (sc_id c)) (info_map member_addr)) (\<lambda>info.
           Ok (member_addr,
             \<lparr>pmi_name = mi_name info, pmi_party_id = of_nat party_id, pmi_address = member_addr,
              pmi_enc_pk = mi_enc_pk info, pmi_signing_pk = mi_signing_pk info\<rparr>)))
       (enumerate 0 (sc_members c)))"

definition build_new_to_old_map ::
  "('epk, 'spk) seal_committee \<Rightarrow> ('epk, 'spk) seal_committee \<Rightarrow> (u16 \<rightharpoonup> u16)" where
  "build_new_to_old_map new_committee old_committee =
     map_of (rev (List.map_filter (\<lambda>(party_id, address).
         case get_party_id old_committee address of
           Ok old_party_id \<Rightarrow> Some (of_nat party_id, old_party_id)
         | _ \<Rightarrow> None)
       (enumerate 0 (sc_members new_committee))))"

subsection \<open>Networks\<close>

datatype dkg_network = DkgTestnet | DkgMainnet

text \<open>\<open>to_lowercase\<close> on ASCII letters. No other character has one of the letters of the two names
  as its lower case, so the comparison with the names is the same.\<close>

definition to_lowercase :: "string \<Rightarrow> string" where
  "to_lowercase s = map (\<lambda>c. if 65 \<le> (of_char c :: nat) \<and> (of_char c :: nat) \<le> 90 then char_of (of_char c + (32 :: nat)) else c) s"

definition dkg_network_from_str :: "string \<Rightarrow> (dkg_network, string) res" where
  "dkg_network_from_str s =
     (let lower = to_lowercase s in
      if lower = ''mainnet'' then Ok DkgMainnet
      else if lower = ''testnet'' then Ok DkgTestnet
      else Err (''Unknown network: '' @ s @ ''. Supported networks: '' @ [CHR 0x27] @ ''mainnet'' @ [CHR 0x27] @
                '', '' @ [CHR 0x27] @ ''testnet'' @ [CHR 0x27]))"

fun network_display :: "dkg_network \<Rightarrow> string" where
  "network_display DkgMainnet = ''Mainnet''"
| "network_display DkgTestnet = ''Testnet''"

text \<open>The two URLs are constants of the RPC library.\<close>

fun default_rpc_url :: "string \<Rightarrow> string \<Rightarrow> dkg_network \<Rightarrow> string" where
  "default_rpc_url mainnet_url testnet_url DkgMainnet = mainnet_url"
| "default_rpc_url mainnet_url testnet_url DkgTestnet = testnet_url"

definition create_grpc_client_with_url ::
  "string \<Rightarrow> string \<Rightarrow> (string \<Rightarrow> ('c, 'e) res) \<Rightarrow> dkg_network \<Rightarrow> string option \<Rightarrow> ('c, 'e) res" where
  "create_grpc_client_with_url mainnet_url testnet_url client_new network custom_rpc_url =
     client_new (case custom_rpc_url of Some u \<Rightarrow> u | None \<Rightarrow> default_rpc_url mainnet_url testnet_url network)"

definition create_grpc_client ::
  "string \<Rightarrow> string \<Rightarrow> (string \<Rightarrow> ('c, 'e) res) \<Rightarrow> dkg_network \<Rightarrow> ('c, 'e) res" where
  "create_grpc_client mainnet_url testnet_url client_new network =
     create_grpc_client_with_url mainnet_url testnet_url client_new network None"

subsection \<open>Reading objects from the full node\<close>

text \<open>The owner of an object is its optional address; \<open>go_owner_version\<close> is the version field of the
  owner, if there is an owner.\<close>

record get_object_request =
  gr_object_id :: "string option"
  gr_read_mask :: "string list option"

record grpc_object =
  go_bcs :: "bytes option option"
  go_owner :: "string option option"
  go_owner_version :: "u64 option"
  go_object_type :: "string option"

type_synonym get_object_response = "grpc_object option"

type_synonym ('w, 'a) rpc = "'w \<Rightarrow> ('a, rpc_error) res \<times> 'w"

record 'w grpc_node =
  node_get_object :: "get_object_request \<Rightarrow> 'w \<Rightarrow> (get_object_response, code \<times> string) res \<times> 'w"

text \<open>\<open>Data\<close> of an object: the contents of a Move object, or the original id of a package.\<close>

datatype sui_data = DataMove bytes | DataPackage object_id

datatype type_tag = TagU64 | TagStruct object_id string string "type_tag list"

record ('g2, 'epk, 'spk) sui_codec =
  codec_object :: "bytes \<Rightarrow> (sui_data, string) res"
  codec_show_address :: "object_id \<Rightarrow> string"
  codec_parse_address :: "string \<Rightarrow> (object_id, string) res"
  codec_struct_tag_address :: "string \<Rightarrow> (object_id, string) res"
  codec_child_id :: "object_id \<Rightarrow> type_tag \<Rightarrow> bytes \<Rightarrow> object_id"
  codec_u64_bcs :: "u64 \<Rightarrow> bytes"
  codec_wrapper_bcs :: "object_id \<Rightarrow> (bytes, string) res"
  codec_manager_key_bcs :: "bool \<Rightarrow> (bytes, string) res"
  codec_key_server_field :: "bytes \<Rightarrow> ((u64, 'g2 key_server_v2) move_field, string) res"
  codec_wrapper_field :: "bytes \<Rightarrow> ((object_id, object_id) move_field, string) res"
  codec_manager_field :: "bytes \<Rightarrow> ((bool, object_id) move_field, string) res"
  codec_committee :: "bytes \<Rightarrow> (('epk, 'spk) seal_committee, string) res"
  codec_upgrade_manager :: "bytes \<Rightarrow> (upgrade_manager, string) res"

fun rpc_bind :: "('w, 'a) rpc \<Rightarrow> ('a \<Rightarrow> ('w, 'b) rpc) \<Rightarrow> ('w, 'b) rpc" where
  "rpc_bind m f w =
     (case m w of
        (Ok x, w') \<Rightarrow> f x w'
      | (Err e, w') \<Rightarrow> (Err e, w')
      | (Panic, w') \<Rightarrow> (Panic, w'))"

definition rpc_lift :: "('a, rpc_error) res \<Rightarrow> ('w, 'a) rpc" where
  "rpc_lift r w = (r, w)"

definition get_object_grpc :: "'w grpc_node \<Rightarrow> get_object_request \<Rightarrow> ('w, get_object_response) rpc" where
  "get_object_grpc N req w = (let (r, w') = node_get_object N req w in (map_err (\<lambda>(c, m). rpc_from_grpc c m) r, w'))"

definition EXPECTED_KEY_SERVER_VERSION :: u64 where
  "EXPECTED_KEY_SERVER_VERSION = 2"

definition address_two :: object_id where
  "address_two = replicate 31 0 @ [2]"

definition extract_object ::
  "('g2, 'epk, 'spk) sui_codec \<Rightarrow> get_object_response \<Rightarrow> (sui_data, string) res" where
  "extract_object K response =
     and_then (ok_or ''No BCS data in response''
         (Option.bind (Option.bind response go_bcs) (\<lambda>v. v)))
       (codec_object K)"

definition object_request :: "('g2, 'epk, 'spk) sui_codec \<Rightarrow> object_id \<Rightarrow> string \<Rightarrow> get_object_request" where
  "object_request K i path = \<lparr>gr_object_id = Some (codec_show_address K i), gr_read_mask = Some [path]\<rparr>"

definition fetch_object ::
  "'w grpc_node \<Rightarrow> ('g2, 'epk, 'spk) sui_codec \<Rightarrow> (bytes \<Rightarrow> ('a, string) res) \<Rightarrow> object_id \<Rightarrow> ('w, 'a) rpc" where
  "fetch_object N K from_bytes i =
     rpc_bind (get_object_grpc N (object_request K i ''bcs'')) (\<lambda>response. rpc_lift
       (and_then (map_err rpc_new (extract_object K response)) (\<lambda>obj.
        case obj of
          DataMove contents \<Rightarrow> map_err (\<lambda>e. rpc_new (''Failed to deserialize contents: '' @ e)) (from_bytes contents)
        | _ \<Rightarrow> Err (rpc_new ''Object is not a Move struct''))))"

definition fetch_committee_data ::
  "'w grpc_node \<Rightarrow> ('g2, 'epk, 'spk) sui_codec \<Rightarrow> object_id \<Rightarrow> ('w, ('epk, 'spk) seal_committee) rpc" where
  "fetch_committee_data N K committee_id = fetch_object N K (codec_committee K) committee_id"

definition fetch_key_server_by_id ::
  "'w grpc_node \<Rightarrow> ('g2, 'epk, 'spk) sui_codec \<Rightarrow> object_id \<Rightarrow> ('w, 'g2 key_server_v2) rpc" where
  "fetch_key_server_by_id N K ks_obj_id =
     (let v2_field_name_bcs = codec_u64_bcs K EXPECTED_KEY_SERVER_VERSION;
          key_server_v2_field_id = codec_child_id K ks_obj_id TagU64 v2_field_name_bcs
      in rpc_bind (fetch_object N K (codec_key_server_field K) key_server_v2_field_id)
           (\<lambda>field. rpc_lift (Ok (field_value field))))"

definition wrapper_type_tag :: "object_id \<Rightarrow> string \<Rightarrow> string \<Rightarrow> type_tag" where
  "wrapper_type_tag address module_name name =
     TagStruct address_two ''dynamic_object_field'' ''Wrapper'' [TagStruct address module_name name []]"

definition fetch_key_server_by_committee ::
  "'w grpc_node \<Rightarrow> ('g2, 'epk, 'spk) sui_codec \<Rightarrow> object_id \<Rightarrow> ('w, object_id \<times> 'g2 key_server_v2) rpc" where
  "fetch_key_server_by_committee N K committee_id =
     rpc_bind (rpc_lift (map_err rpc_new (codec_wrapper_bcs K committee_id))) (\<lambda>wrapper_key_bcs.
     let field_wrapper_id =
           codec_child_id K committee_id (wrapper_type_tag address_two ''object'' ''ID'') wrapper_key_bcs in
     rpc_bind (fetch_object N K (codec_wrapper_field K) field_wrapper_id) (\<lambda>field_wrapper.
     let ks_obj_id = field_value field_wrapper in
     rpc_bind (fetch_key_server_by_id N K ks_obj_id) (\<lambda>key_server_v2.
       rpc_lift (Ok (ks_obj_id, key_server_v2)))))"

definition fetch_committee_from_key_server ::
  "'w grpc_node \<Rightarrow> ('g2, 'epk, 'spk) sui_codec \<Rightarrow> object_id \<Rightarrow> ('w, object_id \<times> object_id) rpc" where
  "fetch_committee_from_key_server N K key_server_obj_id =
     rpc_bind (get_object_grpc N (object_request K key_server_obj_id ''owner'')) (\<lambda>ks_response.
     rpc_bind (rpc_lift (
       and_then (ok_or (rpc_new ''Key server object not found'') ks_response) (\<lambda>ks_object.
       and_then (ok_or (rpc_new ''Key server object has no owner'') (go_owner ks_object)) (\<lambda>owner_data.
       and_then (ok_or (rpc_new ''Owner has no address'') owner_data) (\<lambda>owner_address.
         map_err rpc_new (codec_parse_address K owner_address)))))) (\<lambda>field_wrapper_id.
     rpc_bind (fetch_object N K (codec_wrapper_field K) field_wrapper_id) (\<lambda>field.
     let committee_id = field_name field in
     rpc_bind (get_object_grpc N (object_request K committee_id ''object_type'')) (\<lambda>committee_response.
     rpc_lift (
       and_then (ok_or (rpc_new ''Committee object not found'') committee_response) (\<lambda>committee_object.
       and_then (ok_or (rpc_new ''Committee has no type'') (go_object_type committee_object)) (\<lambda>committee_type.
       and_then (map_err rpc_new (codec_struct_tag_address K committee_type)) (\<lambda>pkg.
         Ok (committee_id, pkg)))))))))"

definition fetch_upgrade_manager ::
  "'w grpc_node \<Rightarrow> ('g2, 'epk, 'spk) sui_codec \<Rightarrow> object_id \<Rightarrow> ('w, upgrade_manager) rpc" where
  "fetch_upgrade_manager N K committee_id =
     rpc_bind (get_object_grpc N (object_request K committee_id ''object_type'')) (\<lambda>committee_response.
     rpc_bind (rpc_lift (
       and_then (ok_or (rpc_new ''Committee object has no type'') (Option.bind committee_response go_object_type)) (\<lambda>object_type.
         map_err rpc_new (codec_struct_tag_address K object_type)))) (\<lambda>committee_pkg_addr.
     rpc_bind (rpc_lift (map_err rpc_new (codec_manager_key_bcs K False))) (\<lambda>wrapper_key_bcs.
     let field_wrapper_id = codec_child_id K committee_id
           (wrapper_type_tag committee_pkg_addr ''seal_committee'' ''UpgradeManagerKey'') wrapper_key_bcs in
     rpc_bind (fetch_object N K (codec_manager_field K) field_wrapper_id) (\<lambda>field_wrapper.
       fetch_object N K (codec_upgrade_manager K) (field_value field_wrapper)))))"

definition fetch_upgrade_proposal ::
  "'w grpc_node \<Rightarrow> ('g2, 'epk, 'spk) sui_codec \<Rightarrow> object_id \<Rightarrow> ('w, upgrade_proposal option) rpc" where
  "fetch_upgrade_proposal N K committee_id =
     rpc_bind (fetch_upgrade_manager N K committee_id) (\<lambda>upgrade_manager.
       rpc_lift (Ok (um_upgrade_proposal upgrade_manager)))"

definition get_committee_rotation_info ::
  "'w grpc_node \<Rightarrow> ('g2, 'epk, 'spk) sui_codec \<Rightarrow> object_id \<Rightarrow> ('w, u32 \<times> bytes option \<times> object_id option) rpc" where
  "get_committee_rotation_info N K committee_id =
     rpc_bind (fetch_committee_data N K committee_id) (\<lambda>committee.
     case sc_old_committee_id committee of
       Some old_committee_id \<Rightarrow>
         rpc_bind (fetch_key_server_by_committee N K old_committee_id) (\<lambda>(_, key_server_v2).
         let pk = ks_pk key_server_v2 in
         case ks_server_type key_server_v2 of
           Committee version _ _ \<Rightarrow> rpc_lift (Ok (version + 1, Some pk, Some old_committee_id))
         | _ \<Rightarrow> rpc_lift (Err (rpc_new ''Old KeyServer is not of type Committee'')))
     | None \<Rightarrow> rpc_lift (Ok (0, None, None)))"

subsection \<open>Party ids\<close>

text \<open>A committee whose party ids are well defined: no member twice, and no more members than
  \<open>u16\<close> has values (the bound the source relies on for its casts).\<close>

definition members_wf :: "object_id list \<Rightarrow> bool" where
  "members_wf members \<longleftrightarrow> distinct members \<and> length members \<le> 65536"

lemma position_nth:
  "distinct xs \<Longrightarrow> position (\<lambda>x. x = a) xs = Some i \<longleftrightarrow> i < length xs \<and> xs ! i = a"
proof (induction xs arbitrary: i)
  case (Cons x xs)
  then show ?case by (cases i) (auto simp: in_set_conv_nth)
qed simp

lemma unat_of_nat_u16: "i < 65536 \<Longrightarrow> unat (of_nat i :: u16) = i"
  by (simp add: unat_of_nat take_bit_nat_eq_self)

lemma of_nat_unat_u16 [simp]: "of_nat (unat (n :: u16)) = n"
  by simp

lemma u16_nat_inject: "i < 65536 \<Longrightarrow> j < 65536 \<Longrightarrow> (of_nat i :: u16) = of_nat j \<longleftrightarrow> i = j"
  using unat_of_nat_u16 by metis

lemma get_party_id_Ok:
  assumes "members_wf (sc_members c)"
  shows "get_party_id c a = Ok n \<longleftrightarrow> unat n < length (sc_members c) \<and> sc_members c ! unat n = a"
proof -
  have "get_party_id c a = Ok n \<longleftrightarrow> (\<exists>i. i < length (sc_members c) \<and> sc_members c ! i = a \<and> n = of_nat i)"
    using assms by (auto simp: get_party_id_def ok_or_Ok_iff members_wf_def position_nth)
  also have "\<dots> \<longleftrightarrow> unat n < length (sc_members c) \<and> sc_members c ! unat n = a"
  proof
    assume "\<exists>i. i < length (sc_members c) \<and> sc_members c ! i = a \<and> n = of_nat i"
    then obtain i where i: "i < length (sc_members c)" "sc_members c ! i = a" "n = of_nat i" by blast
    then have "unat n = i" using assms by (auto simp: members_wf_def intro: unat_of_nat_u16)
    then show "unat n < length (sc_members c) \<and> sc_members c ! unat n = a" using i by simp
  next
    assume "unat n < length (sc_members c) \<and> sc_members c ! unat n = a"
    then show "\<exists>i. i < length (sc_members c) \<and> sc_members c ! i = a \<and> n = of_nat i"
      by (intro exI [of _ "unat n"]) simp
  qed
  finally show ?thesis .
qed

lemma get_party_id_complete:
  assumes "members_wf (sc_members c)"
  shows "(\<exists>n. get_party_id c a = Ok n) \<longleftrightarrow> contains_member c a"
proof
  assume "contains_member c a"
  then obtain i where i: "i < length (sc_members c)" "sc_members c ! i = a"
    by (auto simp: contains_member_def in_set_conv_nth)
  then have "unat (of_nat i :: u16) = i" using assms by (auto simp: members_wf_def intro: unat_of_nat_u16)
  then show "\<exists>n. get_party_id c a = Ok n" using i get_party_id_Ok [OF assms, of a "of_nat i"] by auto
qed (auto simp: get_party_id_Ok [OF assms] contains_member_def)

lemma map_of_rev_distinct: "distinct (map fst kvs) \<Longrightarrow> map_of (rev kvs) = map_of kvs"
  by (subst map_of_inject_set) (simp_all flip: rev_map)

lemma collect_res_PanicD: "collect_res f xs = Panic \<Longrightarrow> \<exists>x \<in> set xs. f x = Panic"
  using collect_res_not_Panic [of xs f] by blast

lemma collect_map_Ok:
  "collect_map f xs = Ok m \<longleftrightarrow> (\<exists>kvs. collect_res f xs = Ok kvs \<and> m = map_of (rev kvs))"
  by (auto simp: collect_map_def and_then_Ok_iff)

text \<open>When the keys of the entries are distinct, the collected map has exactly the entries.\<close>

lemma collect_map_exact:
  assumes "collect_map f xs = Ok m" and "\<And>x. x \<in> set xs \<Longrightarrow> \<forall>kv. f x = Ok kv \<longrightarrow> kv = (k x, v x)"
    and "distinct (map k xs)"
  shows "m a = Some b \<longleftrightarrow> (\<exists>x \<in> set xs. a = k x \<and> b = v x)"
proof -
  obtain kvs where kvs: "collect_res f xs = Ok kvs" "m = map_of (rev kvs)" using assms(1) by (auto simp: collect_map_Ok)
  have "kvs = map (\<lambda>x. (k x, v x)) xs"
  proof (rule nth_equalityI)
    show "length kvs = length (map (\<lambda>x. (k x, v x)) xs)" using collect_res_all_Ok [OF kvs(1)] by simp
  next
    fix i assume "i < length kvs"
    then show "kvs ! i = map (\<lambda>x. (k x, v x)) xs ! i"
      using collect_res_all_Ok [OF kvs(1)] assms(2) [of "xs ! i"] by auto
  qed
  moreover have "map fst (map (\<lambda>x. (k x, v x)) xs) = map k xs" by simp
  ultimately show ?thesis using assms(3) kvs(2)
    by (auto simp: map_of_rev_distinct comp_def)
qed

lemma to_partial_key_servers_Ok:
  "(\<exists>m. to_partial_key_servers ks members = Ok m) \<longleftrightarrow>
   (\<exists>v t ps. ks_server_type ks = Committee v t ps \<and> (\<forall>p \<in> set ps. unat (pks_party_id p) < length members))"
proof (cases "ks_server_type ks")
  case (Committee v t ps)
  let ?f = "\<lambda>p. and_then (ok_or (PartyIdOutOfRange (pks_party_id p))
      (if unat (pks_party_id p) < length members then Some (members ! unat (pks_party_id p)) else None))
      (\<lambda>member_addr. Ok (member_addr, \<lparr>pki_party_id = pks_party_id p, pki_partial_pk = pks_partial_pk p,
         pki_name = pks_name p, pki_url = pks_url p\<rparr>))"
  have "(\<exists>m. to_partial_key_servers ks members = Ok m) \<longleftrightarrow> (\<exists>kvs. collect_res ?f ps = Ok kvs)"
    by (auto simp: to_partial_key_servers_def Committee collect_map_Ok Let_def)
  also have "\<dots> \<longleftrightarrow> (\<forall>p \<in> set ps. unat (pks_party_id p) < length members)"
  proof
    assume "\<exists>kvs. collect_res ?f ps = Ok kvs"
    then show "\<forall>p \<in> set ps. unat (pks_party_id p) < length members"
      by (auto dest!: collect_res_is_okD simp: and_then_Ok_iff split: if_splits)
  qed (intro collect_res_exists, simp)
  finally show ?thesis using Committee by simp
qed (simp add: to_partial_key_servers_def)

lemma to_partial_key_servers_entry:
  assumes "members_wf (sc_members c)" and "ks_server_type ks = Committee v t ps" and "distinct (map pks_party_id ps)"
    and Ok: "to_partial_key_servers ks (sc_members c) = Ok m"
  shows "m a = Some info \<longleftrightarrow>
    (\<exists>p \<in> set ps. get_party_id c a = Ok (pks_party_id p) \<and>
       info = \<lparr>pki_party_id = pks_party_id p, pki_partial_pk = pks_partial_pk p, pki_name = pks_name p, pki_url = pks_url p\<rparr>)"
proof -
  let ?k = "\<lambda>p. sc_members c ! unat (pks_party_id p)"
  have range: "unat (pks_party_id p) < length (sc_members c)" if "p \<in> set ps" for p
    using to_partial_key_servers_Ok [of ks "sc_members c"] Ok assms(2) that by auto
  have "inj_on ?k (set ps)"
    using assms(1,3) range by (auto simp: inj_on_def members_wf_def nth_eq_iff_index_eq distinct_map dest: word_unat_eq_iff [THEN iffD2])
  moreover have "distinct ps" using assms(3) by (simp add: distinct_map)
  ultimately have d: "distinct (map ?k ps)" by (simp add: distinct_map)
  have "m a = Some info \<longleftrightarrow> (\<exists>p \<in> set ps. a = ?k p \<and>
      info = \<lparr>pki_party_id = pks_party_id p, pki_partial_pk = pks_partial_pk p, pki_name = pks_name p, pki_url = pks_url p\<rparr>)" for a info
    using Ok unfolding to_partial_key_servers_def assms(2) server_type.case
    by (rule collect_map_exact) (use d in \<open>auto simp: Let_def and_then_Ok_iff split: if_splits\<close>)
  then show ?thesis using range by (auto simp: get_party_id_Ok [OF assms(1)])
qed

lemma enumerate_keys_distinct:
  "distinct xs \<Longrightarrow> distinct (map snd (enumerate 0 xs))"
  by simp

lemma in_enumerate: "(i, a) \<in> set (enumerate 0 xs) \<longleftrightarrow> i < length xs \<and> xs ! i = a"
  by (auto simp: in_set_enumerate_eq)

text \<open>The information of a member, as the map of \<open>get_members_info\<close> has it.\<close>

definition parsed_info ::
  "(object_id \<times> ('epk, 'spk) member_info) list \<Rightarrow> nat \<times> object_id \<Rightarrow> ('epk, 'spk) parsed_member_info" where
  "parsed_info infos = (\<lambda>(i, a). let info = the (map_of (rev infos) a) in
     \<lparr>pmi_name = mi_name info, pmi_party_id = of_nat i, pmi_address = a,
      pmi_enc_pk = mi_enc_pk info, pmi_signing_pk = mi_signing_pk info\<rparr>)"

fun committee_infos :: "('epk, 'spk) committee_phase \<Rightarrow> (object_id \<times> ('epk, 'spk) member_info) list option" where
  "committee_infos (Init infos) = Some infos"
| "committee_infos (PostDKG infos _ _ _ _) = Some infos"
| "committee_infos Finalized = None"

lemma get_members_info_eq:
  "get_members_info c =
     (case committee_infos (sc_state c) of
        None \<Rightarrow> Err (InvalidCommitteeState (sc_id c))
      | Some infos \<Rightarrow>
          collect_map (\<lambda>(i, a). and_then (ok_or (MemberNotRegistered a (sc_id c)) (map_of (rev infos) a)) (\<lambda>info.
             Ok (a, \<lparr>pmi_name = mi_name info, pmi_party_id = of_nat i, pmi_address = a,
                pmi_enc_pk = mi_enc_pk info, pmi_signing_pk = mi_signing_pk info\<rparr>)))
            (enumerate 0 (sc_members c)))"
  by (cases "sc_state c") (simp_all add: get_members_info_def Let_def)

lemma map_filter_pairs:
  "(k, n) \<in> set (List.map_filter (\<lambda>(i, a). case g a of Ok n \<Rightarrow> Some (f i, n) | _ \<Rightarrow> None) es) \<longleftrightarrow>
   (\<exists>i a. (i, a) \<in> set es \<and> k = f i \<and> g a = Ok n)"
proof (induction es)
  case (Cons e es)
  obtain i a where "e = (i, a)" by (cases e)
  then show ?case using Cons by (cases "g a") (auto simp: List.map_filter_simps)
qed (simp add: List.map_filter_simps)

lemma map_filter_keys:
  "map fst (List.map_filter (\<lambda>(i, a). case g a of Ok n \<Rightarrow> Some (f i, n) | _ \<Rightarrow> None) es) =
   map (f \<circ> fst) (filter (\<lambda>(i, a). is_ok (g a)) es)"
  by (induction es) (auto simp: List.map_filter_def split: res.splits)

lemma new_to_old_keys_distinct:
  assumes "members_wf members"
  shows "distinct (map fst (List.map_filter (\<lambda>(i, a). case g a of Ok n \<Rightarrow> Some (of_nat i :: u16, n) | _ \<Rightarrow> None)
    (enumerate 0 members)))"
proof -
  let ?es = "filter (\<lambda>(i, a). is_ok (g a)) (enumerate 0 members)"
  have "distinct (map fst (enumerate 0 members))" by simp
  then have "distinct (map fst ?es)" by (rule distinct_map_filter)
  moreover have "set (map fst ?es) \<subseteq> {i. i < 65536}" using assms by (auto simp: in_enumerate members_wf_def)
  then have "inj_on (\<lambda>i. of_nat i :: u16) (set (map fst ?es))"
    by (rule inj_on_subset [rotated]) (auto simp: inj_on_def u16_nat_inject)
  ultimately have "distinct (map (\<lambda>i. of_nat i :: u16) (map fst ?es))" by (simp only: distinct_map simp_thms)
  then show ?thesis by (simp add: map_filter_keys comp_def)
qed

lemma get_members_info_OkD:
  assumes wf: "members_wf (sc_members c)" and Ok: "get_members_info c = Ok m"
  shows "\<exists>infos. committee_infos (sc_state c) = Some infos \<and> (\<forall>a. (\<exists>i. m a = Some i) \<longleftrightarrow> contains_member c a) \<and>
    (\<forall>a i. m a = Some i \<longrightarrow> pmi_address i = a \<and> get_party_id c a = Ok (pmi_party_id i) \<and>
       (\<exists>info. map_of (rev infos) a = Some info \<and>
          pmi_enc_pk i = mi_enc_pk info \<and> pmi_signing_pk i = mi_signing_pk info \<and> pmi_name i = mi_name info))"
proof -
  obtain infos where Some: "committee_infos (sc_state c) = Some infos"
    using Ok by (cases "committee_infos (sc_state c)") (auto simp: get_members_info_eq)
  let ?f = "\<lambda>(i, a). and_then (ok_or (MemberNotRegistered a (sc_id c)) (map_of (rev infos) a)) (\<lambda>info.
             Ok (a, \<lparr>pmi_name = mi_name info, pmi_party_id = of_nat i, pmi_address = a,
                pmi_enc_pk = mi_enc_pk info, pmi_signing_pk = mi_signing_pk info\<rparr>))"
  have run: "collect_map ?f (enumerate 0 (sc_members c)) = Ok m"
    using Ok by (simp add: get_members_info_eq Some)
  have entry: "m a = Some b \<longleftrightarrow> (\<exists>x \<in> set (enumerate 0 (sc_members c)). a = snd x \<and> b = parsed_info infos x)" for a b
    using run by (rule collect_map_exact)
      (use wf in \<open>auto simp: and_then_Ok_iff ok_or_Ok_iff parsed_info_def members_wf_def\<close>)
  have reg: "\<exists>info. map_of (rev infos) a = Some info" if "(i, a) \<in> set (enumerate 0 (sc_members c))" for i a
    using run that by (auto simp: collect_map_Ok and_then_Ok_iff ok_or_Ok_iff dest!: collect_res_is_okD)
  have id: "get_party_id c a = Ok (of_nat i)" if "(i, a) \<in> set (enumerate 0 (sc_members c))" for i a
    using that wf unat_of_nat_u16 [of i] by (auto simp: get_party_id_Ok [OF wf] in_enumerate members_wf_def)
  have "contains_member c a \<longleftrightarrow> (\<exists>x \<in> set (enumerate 0 (sc_members c)). a = snd x)" for a
    by (simp add: contains_member_def Bex_def in_enumerate split_paired_Ex) (auto simp: in_set_conv_nth)
  then have "(\<exists>i. m a = Some i) \<longleftrightarrow> contains_member c a" for a by (auto simp: entry)
  moreover have "pmi_address b = a \<and> get_party_id c a = Ok (pmi_party_id b) \<and>
     (\<exists>info. map_of (rev infos) a = Some info \<and>
        pmi_enc_pk b = mi_enc_pk info \<and> pmi_signing_pk b = mi_signing_pk info \<and> pmi_name b = mi_name info)"
    if mab: "m a = Some b" for a b
  proof -
    obtain i where i: "(i, a) \<in> set (enumerate 0 (sc_members c))" "b = parsed_info infos (i, a)"
      using mab by (auto simp: entry)
    with reg obtain info where "map_of (rev infos) a = Some info" by blast
    then show ?thesis using i id [OF i(1)] by (simp add: parsed_info_def)
  qed
  ultimately show ?thesis using Some by blast
qed

lemma new_to_old_Some:
  assumes "members_wf (sc_members new)" and "members_wf (sc_members old)"
  shows "build_new_to_old_map new old n = Some k \<longleftrightarrow> (\<exists>a. get_party_id new a = Ok n \<and> get_party_id old a = Ok k)"
proof -
  have "build_new_to_old_map new old n = Some k \<longleftrightarrow>
      (\<exists>i a. (i, a) \<in> set (enumerate 0 (sc_members new)) \<and> n = of_nat i \<and> get_party_id old a = Ok k)" for n k
    unfolding build_new_to_old_map_def map_of_rev_distinct [OF new_to_old_keys_distinct [OF assms(1)]]
    by (simp add: map_of_eq_Some_iff new_to_old_keys_distinct [OF assms(1)] map_filter_pairs)
  moreover have "get_party_id new a = Ok n \<longleftrightarrow> (\<exists>i. (i, a) \<in> set (enumerate 0 (sc_members new)) \<and> n = of_nat i)" for a n
  proof
    assume "get_party_id new a = Ok n"
    then show "\<exists>i. (i, a) \<in> set (enumerate 0 (sc_members new)) \<and> n = of_nat i"
      by (intro exI [of _ "unat n"]) (simp add: get_party_id_Ok [OF assms(1)] in_enumerate)
  next
    assume "\<exists>i. (i, a) \<in> set (enumerate 0 (sc_members new)) \<and> n = of_nat i"
    then obtain i where i: "(i, a) \<in> set (enumerate 0 (sc_members new))" "n = of_nat i" by blast
    then have "unat n = i" using assms(1) by (auto simp: in_enumerate members_wf_def intro: unat_of_nat_u16)
    then show "get_party_id new a = Ok n" using i by (simp add: get_party_id_Ok [OF assms(1)] in_enumerate)
  qed
  ultimately show ?thesis by blast
qed

subsection \<open>Iteration order\<close>

text \<open>The order in which a hash map is iterated: any permutation.\<close>

definition permutes :: "('a list \<Rightarrow> 'a list) \<Rightarrow> bool" where
  "permutes f \<longleftrightarrow> (\<forall>xs. mset (f xs) = mset xs)"

lemma permutes_set: "permutes f \<Longrightarrow> set (f xs) = set xs" "permutes f \<Longrightarrow> length (f xs) = length xs"
  unfolding permutes_def by (metis mset_eq_setD, metis mset_eq_length)

lemma permutes_distinct_map: "permutes f \<Longrightarrow> distinct (map g (f xs)) = distinct (map g xs)"
  unfolding permutes_def by (metis mset_eq_imp_distinct_iff mset_map)

subsection \<open>Properties\<close>

text \<open>The map of partial key servers of a committee. It exists exactly for a committee-type
  server all of whose party ids are in range. Then the entry of a member is the partial key
  server with the party id that \<open>get_party_id\<close> gives this member, and a member without such a
  server has no entry.\<close>

theorem party_lookup_exact:
  assumes "members_wf (sc_members c)" and "ks_server_type ks = Committee v t ps" and "distinct (map pks_party_id ps)"
  shows "case to_partial_key_servers ks (sc_members c) of
      Ok m \<Rightarrow> (\<forall>a info. m a = Some info \<longleftrightarrow>
        (\<exists>p \<in> set ps. get_party_id c a = Ok (pks_party_id p) \<and>
           info = \<lparr>pki_party_id = pks_party_id p, pki_partial_pk = pks_partial_pk p, pki_name = pks_name p, pki_url = pks_url p\<rparr>))
    | Err e \<Rightarrow> (\<exists>p \<in> set ps. length (sc_members c) \<le> unat (pks_party_id p) \<and> e = PartyIdOutOfRange (pks_party_id p))
    | Panic \<Rightarrow> False"
proof (cases "to_partial_key_servers ks (sc_members c)")
  case (Ok m)
  then show ?thesis using to_partial_key_servers_entry [OF assms] by simp
next
  case (Err e)
  then show ?thesis
    by (fastforce simp: to_partial_key_servers_def assms(2) collect_map_def Let_def not_less
        dest!: and_then_ErrD collect_res_Err split: if_splits)
next
  case Panic
  then show ?thesis
    by (auto simp: to_partial_key_servers_def assms(2) collect_map_def Let_def and_then_Panic_iff
        dest!: collect_res_PanicD split: if_splits)
qed

text \<open>C33: The members' information. It exists exactly before finalization and once every member has
  registered; then it holds one entry per member, with the data the member registered last and
  the party id \<open>get_party_id\<close> gives it.\<close>

theorem members_info_exact:
  assumes "members_wf (sc_members c)"
  shows "case get_members_info c of
      Ok m \<Rightarrow> sc_state c \<noteq> Finalized \<and> (\<forall>a. (\<exists>i. m a = Some i) \<longleftrightarrow> contains_member c a) \<and>
        (\<forall>a i. m a = Some i \<longrightarrow> pmi_address i = a \<and> get_party_id c a = Ok (pmi_party_id i) \<and>
           (\<exists>infos info. committee_infos (sc_state c) = Some infos \<and> map_of (rev infos) a = Some info \<and>
              pmi_enc_pk i = mi_enc_pk info \<and> pmi_signing_pk i = mi_signing_pk info \<and> pmi_name i = mi_name info))
    | Err e \<Rightarrow> (sc_state c = Finalized \<and> e = InvalidCommitteeState (sc_id c)) \<or>
        (\<exists>infos. committee_infos (sc_state c) = Some infos \<and>
          (\<exists>a \<in> set (sc_members c). a \<notin> fst ` set infos \<and> e = MemberNotRegistered a (sc_id c)))
    | Panic \<Rightarrow> False"
proof (cases "get_members_info c")
  case (Ok m)
  then obtain infos where "committee_infos (sc_state c) = Some infos" using get_members_info_OkD [OF assms] by blast
  then have "sc_state c \<noteq> Finalized" by auto
  then show ?thesis using get_members_info_OkD [OF assms Ok] Ok by (fastforce simp del: committee_infos.simps)
next
  case (Err e)
  show ?thesis
  proof (cases "committee_infos (sc_state c)")
    case None
    then show ?thesis using Err by (cases "sc_state c") (simp_all add: get_members_info_eq)
  next
    case (Some infos)
    then obtain i a where "(i, a) \<in> set (enumerate 0 (sc_members c))" "map_of (rev infos) a = None"
        "e = MemberNotRegistered a (sc_id c)"
      using Err by (auto simp: get_members_info_eq collect_map_def dest!: and_then_ErrD collect_res_Err)
    then have "a \<in> set (sc_members c) \<and> a \<notin> fst ` set infos \<and> e = MemberNotRegistered a (sc_id c)"
      by (auto simp: in_enumerate map_of_eq_None_iff)
    then show ?thesis using Err Some by auto
  qed
next
  case Panic
  then show ?thesis
    by (auto simp: get_members_info_eq collect_map_def and_then_Panic_iff dest!: collect_res_PanicD split: option.splits)
qed

text \<open>The continuing members of a rotation: the map relates a party id of the new committee to
  one of the old committee exactly when they are the ids of one member, and it is injective.\<close>

theorem new_to_old_exact:
  assumes "members_wf (sc_members new)" and "members_wf (sc_members old)"
  shows "(\<forall>n k. build_new_to_old_map new old n = Some k \<longleftrightarrow>
      (\<exists>a. get_party_id new a = Ok n \<and> get_party_id old a = Ok k)) \<and>
    inj_on (build_new_to_old_map new old) (dom (build_new_to_old_map new old))"
proof -
  note entry = new_to_old_Some [OF assms]
  have "inj_on (build_new_to_old_map new old) (dom (build_new_to_old_map new old))"
    unfolding inj_on_def dom_def
  proof (intro ballI impI, elim CollectE)
    fix n m
    assume some: "build_new_to_old_map new old n \<noteq> None" and same: "build_new_to_old_map new old n = build_new_to_old_map new old m"
    obtain k where k: "build_new_to_old_map new old n = Some k" using some by blast
    then have "build_new_to_old_map new old m = Some k" using same by simp
    with k have "sc_members new ! unat n = sc_members new ! unat m \<and> unat n < length (sc_members new) \<and> unat m < length (sc_members new)"
      unfolding entry get_party_id_Ok [OF assms(1)] get_party_id_Ok [OF assms(2)] by auto
    then show "n = m" using assms(1) by (auto simp: members_wf_def nth_eq_iff_index_eq word_unat_eq_iff)
  qed
  then show ?thesis using entry by blast
qed

text \<open>A committee of three members, of which the first and the last continue from an old one.\<close>

definition demo_committee_of :: "object_id list \<Rightarrow> (nat, nat) seal_committee" where
  "demo_committee_of members = \<lparr>sc_id = [9], sc_threshold = 2, sc_members = members,
     sc_state = Init (map (\<lambda>a. (a, \<lparr>mi_enc_pk = length a, mi_signing_pk = 7, mi_url = ''u'', mi_name = ''n''\<rparr>)) members),
     sc_old_committee_id = None\<rparr>"

definition demo_key_server :: "'g2 \<Rightarrow> 'g2 \<Rightarrow> 'g2 key_server_v2" where
  "demo_key_server pk0 pk1 = \<lparr>ks_name = ''ks'', ks_key_type = 0, ks_pk = [1],
     ks_server_type = Committee 4 2 [\<lparr>pks_name = ''b'', pks_url = ''ub'', pks_partial_pk = pk1, pks_party_id = 1\<rparr>,
       \<lparr>pks_name = ''a'', pks_url = ''ua'', pks_partial_pk = pk0, pks_party_id = 0\<rparr>]\<rparr>"

definition demo_sui_codec :: "(gf256, nat, nat) sui_codec" where
  "demo_sui_codec =
     \<lparr>codec_object = (\<lambda>b. Ok (if b = [14] then DataPackage [15] else DataMove b)),
      codec_show_address = map (char_of \<circ> unat),
      codec_parse_address = (\<lambda>s. Ok (map (word_of_nat \<circ> of_char) s)),
      codec_struct_tag_address = (\<lambda>_. Ok [14]),
      codec_child_id = (\<lambda>_ _ _. [13]), codec_u64_bcs = (\<lambda>_. []),
      codec_wrapper_bcs = Ok, codec_manager_key_bcs = (\<lambda>_. Ok [0]),
      codec_key_server_field = (\<lambda>_. Ok \<lparr>field_id = [13], field_name = 2, field_value = demo_key_server 3 5\<rparr>),
      codec_wrapper_field = (\<lambda>_. Ok \<lparr>field_id = [11], field_name = [12], field_value = [10]\<rparr>),
      codec_manager_field = (\<lambda>_. Err ''none''),
      codec_committee = (\<lambda>_. Ok (demo_committee_of [[1], [2], [3]])),
      codec_upgrade_manager = (\<lambda>_. Err ''none'')\<rparr>"

theorem party_lookup_exact_witness:
  "\<exists>m. to_partial_key_servers (demo_key_server 10 (20 :: nat)) (sc_members (demo_committee_of [[1], [2], [3]])) = Ok m \<and>
     map_option pki_partial_pk (m [1]) = Some 10 \<and> m [3] = None"
  using party_lookup_exact [of "demo_committee_of [[1], [2], [3]]" "demo_key_server 10 20" 4 2
      "[\<lparr>pks_name = ''b'', pks_url = ''ub'', pks_partial_pk = 20, pks_party_id = 1\<rparr>,
        \<lparr>pks_name = ''a'', pks_url = ''ua'', pks_partial_pk = 10, pks_party_id = 0\<rparr>]"]
  by (simp add: members_wf_def demo_committee_of_def demo_key_server_def to_partial_key_servers_def collect_map_def
      get_party_id_def)

theorem members_info_exact_witness:
  "\<exists>m. get_members_info (demo_committee_of [[1], [2, 2], [3]]) = Ok m \<and>
     map_option pmi_party_id (m [2, 2]) = Some 1 \<and> m [5] = None"
proof -
  have wf: "members_wf (sc_members (demo_committee_of [[1], [2, 2], [3]]))"
    by (simp add: members_wf_def demo_committee_of_def)
  have "\<exists>m. get_members_info (demo_committee_of [[1], [2, 2], [3]]) = Ok m \<and> map_option pmi_party_id (m [2, 2]) = Some 1"
    by (simp add: get_members_info_def demo_committee_of_def collect_map_def)
  then obtain m where m: "get_members_info (demo_committee_of [[1], [2, 2], [3]]) = Ok m"
    "map_option pmi_party_id (m [2, 2]) = Some 1" by blast
  then have "\<forall>a. (\<exists>i. m a = Some i) \<longleftrightarrow> contains_member (demo_committee_of [[1], [2, 2], [3]]) a"
    using members_info_exact [OF wf] by simp
  from this [rule_format, of "[5]"] have "m [5] = None" by (simp add: contains_member_def demo_committee_of_def)
  then show ?thesis using m by blast
qed

theorem new_to_old_exact_witness:
  "build_new_to_old_map (demo_committee_of [[1], [2], [3]]) (demo_committee_of [[3], [4], [1]]) 2 = Some 0 \<and>
   build_new_to_old_map (demo_committee_of [[1], [2], [3]]) (demo_committee_of [[3], [4], [1]]) 1 = None"
proof -
  let ?new = "demo_committee_of [[1], [2], [3]]" and ?old = "demo_committee_of [[3], [4], [1]]"
  have wf: "members_wf (sc_members ?new)" "members_wf (sc_members ?old)"
    by (simp_all add: members_wf_def demo_committee_of_def)
  have "get_party_id ?new [3] = Ok 2" "get_party_id ?old [3] = Ok 0"
    by (simp_all add: get_party_id_def demo_committee_of_def)
  then have "build_new_to_old_map ?new ?old 2 = Some 0" using new_to_old_exact [OF wf] by blast
  moreover have "build_new_to_old_map ?new ?old 1 = None"
    by (simp add: build_new_to_old_map_def get_party_id_def demo_committee_of_def List.map_filter_simps)
  ultimately show ?thesis by blast
qed

end
