(* ===== verification/RpcClient.thy ===== *)
theory RpcClient
  imports SealCommittee Externals Monitors
begin

text \<open>
  \<^verbatim>\<open>crates/key-server/src/sui_rpc_client.rs\<close>, the client that the key server and the aggregator share:
  every operation of \<^verbatim>\<open>seal-committee\<close>'s \<^verbatim>\<open>grpc_helper.rs\<close> and of the node behind the retry
  loop, and the construction of the gRPC client.

  The state of an operation is the outside world together with the labels that the histogram
  of the client observed. The conversion of transaction data to its gRPC form is third-party:
  the parameter \<open>into_transaction\<close>.
\<close>

subsection \<open>The client\<close>

record 'w sui_node = "'w grpc_node" +
  node_simulate :: "grpc_transaction \<Rightarrow> string list \<Rightarrow> 'w \<Rightarrow> (simulate_response, code \<times> string) res \<times> 'w"
  node_get_epoch :: "string list \<Rightarrow> 'w \<Rightarrow> (u64 option option, code \<times> string) res \<times> 'w"

record ('w, 'j) sui_rpc_client =
  src_sui_client :: "'j option"
  src_node :: "'w sui_node"
  src_retry_config :: retry_config
  src_histogram :: bool

type_synonym observations = "(string \<times> string) list"
type_synonym ('w, 'a) client_rpc = "('w \<times> observations, 'a) rpc"

definition new_with_optional_sui_client ::
  "'j option \<Rightarrow> 'w sui_node \<Rightarrow> retry_config \<Rightarrow> bool \<Rightarrow> ('w, 'j) sui_rpc_client" where
  "new_with_optional_sui_client sui_client node cfg hist =
     \<lparr>src_sui_client = sui_client, src_node = node, src_retry_config = cfg, src_histogram = hist\<rparr>"

definition new_sui_rpc_client :: "'j \<Rightarrow> 'w sui_node \<Rightarrow> retry_config \<Rightarrow> bool \<Rightarrow> ('w, 'j) sui_rpc_client" where
  "new_sui_rpc_client sui_client node cfg hist = new_with_optional_sui_client (Some sui_client) node cfg hist"

definition get_sui_client :: "('w, 'j) sui_rpc_client \<Rightarrow> ('j, 'e) res" where
  "get_sui_client C = expect (ok_or () (src_sui_client C))"

fun observed :: "string \<Rightarrow> retry_event list \<Rightarrow> observations" where
  "observed method [] = []"
| "observed method (Attempt status # evs) = (method, status) # observed method evs"
| "observed method (Sleep _ # evs) = observed method evs"

definition run_grpc_with_retries ::
  "('w, 'j) sui_rpc_client \<Rightarrow> string \<Rightarrow> ('w sui_node \<Rightarrow> ('w, 'a) rpc) \<Rightarrow> ('w, 'a) client_rpc" where
  "run_grpc_with_retries C method op s =
     (let (r, evs, w) = sui_rpc_with_retries is_retriable_error (src_retry_config C) (op (src_node C)) (fst s)
      in (r, (w, if src_histogram C then snd s @ observed method evs else snd s)))"

subsection \<open>Building the gRPC client\<close>

definition ENV_FULL_NODE_RPC_API_NAME :: string where "ENV_FULL_NODE_RPC_API_NAME = ''FULL_NODE_RPC_API_NAME''"
definition ENV_FULL_NODE_RPC_API_KEY :: string where "ENV_FULL_NODE_RPC_API_KEY = ''FULL_NODE_RPC_API_KEY''"

text \<open>\<open>client_new\<close> is the constructor of the gRPC library, \<open>value_ok\<close> and \<open>key_ok\<close> its
  validation of a metadata value and of a metadata key. The result is the client with the
  header it sends with every call, if any.\<close>

definition build_grpc_client ::
  "(string \<Rightarrow> ('c, string) res) \<Rightarrow> (string \<Rightarrow> (unit, string) res) \<Rightarrow> (string \<Rightarrow> (unit, string) res) \<Rightarrow>
   (string \<Rightarrow> string option) \<Rightarrow> string \<Rightarrow> ('c \<times> (string \<times> string) option, rpc_error) res" where
  "build_grpc_client client_new value_ok key_ok env url =
     and_then (map_err (\<lambda>e. rpc_new (''Failed to create SuiGrpcClient: '' @ e)) (client_new url)) (\<lambda>client.
     case (env ENV_FULL_NODE_RPC_API_NAME, env ENV_FULL_NODE_RPC_API_KEY) of
       (Some name, Some key) \<Rightarrow>
         if name \<noteq> [] \<and> key \<noteq> [] then
           and_then (map_err (\<lambda>e. rpc_new (''Invalid FULL_NODE_RPC_API_KEY value: '' @ e)) (value_ok key)) (\<lambda>_.
           and_then (map_err (\<lambda>e. rpc_new (''Invalid FULL_NODE_RPC_API_NAME header: '' @ e)) (key_ok name)) (\<lambda>_.
             Ok (client, Some (name, key))))
         else Ok (client, None)
     | _ \<Rightarrow> Ok (client, None))"

subsection \<open>Operations\<close>

definition simulate_transaction ::
  "('w, 'j) sui_rpc_client \<Rightarrow> (tx_data \<Rightarrow> grpc_transaction) \<Rightarrow> tx_data \<Rightarrow> ('w, simulate_response) client_rpc" where
  "simulate_transaction C into_transaction tx_data =
     (let transaction = strip_transaction (into_transaction tx_data) in
      run_grpc_with_retries C ''simulate_transaction'' (\<lambda>N w.
        let (r, w') = node_simulate N transaction [''transaction.effects.status'', ''transaction.effects.gas_used''] w
        in (map_err (\<lambda>(c, m). rpc_from_grpc c m) r, w')))"

definition get_object ::
  "('w, 'j) sui_rpc_client \<Rightarrow> ('g2, 'epk, 'spk) sui_codec \<Rightarrow> (bytes \<Rightarrow> ('a, string) res) \<Rightarrow> object_id \<Rightarrow> ('w, 'a) client_rpc" where
  "get_object C K from_bytes i =
     run_grpc_with_retries C ''get_object'' (\<lambda>N. fetch_object (grpc_node.truncate N) K from_bytes i)"

definition object_exists ::
  "('w, 'j) sui_rpc_client \<Rightarrow> ('g2, 'epk, 'spk) sui_codec \<Rightarrow> object_id \<Rightarrow> ('w, bool) client_rpc" where
  "object_exists C K i =
     run_grpc_with_retries C ''object_exists'' (\<lambda>N w.
       let (r, w') = node_get_object N \<lparr>gr_object_id = Some (codec_show_address K i), gr_read_mask = None\<rparr> w in
       (case r of
          Ok _ \<Rightarrow> Ok True
        | Err (c, m) \<Rightarrow> if c = CodeNotFound then Ok False else Err (rpc_from_grpc c m)
        | Panic \<Rightarrow> Panic, w'))"

definition client_fetch_key_server_by_id ::
  "('w, 'j) sui_rpc_client \<Rightarrow> ('g2, 'epk, 'spk) sui_codec \<Rightarrow> object_id \<Rightarrow> ('w, 'g2 key_server_v2) client_rpc" where
  "client_fetch_key_server_by_id C K ks_obj_id =
     run_grpc_with_retries C ''fetch_key_server_by_id'' (\<lambda>N. fetch_key_server_by_id (grpc_node.truncate N) K ks_obj_id)"

text \<open>The rendering of an error of the objects' methods is the parameter \<open>show_err\<close>.\<close>

definition fetch_committee_info ::
  "('w, 'j) sui_rpc_client \<Rightarrow> ('g2, 'epk, 'spk) sui_codec \<Rightarrow> (committee_error \<Rightarrow> string) \<Rightarrow> object_id \<Rightarrow>
   ('w, u16 \<times> 'g2 partial_key_server list) client_rpc" where
  "fetch_committee_info C K show_err ks_obj_id =
     rpc_bind (client_fetch_key_server_by_id C K ks_obj_id) (\<lambda>key_server_v2.
       rpc_lift (map_err (\<lambda>e. rpc_new (show_err e)) (extract_committee_info key_server_v2)))"

definition fetch_committee_server_version ::
  "('w, 'j) sui_rpc_client \<Rightarrow> ('g2, 'epk, 'spk) sui_codec \<Rightarrow> object_id \<Rightarrow> ('w, u32) client_rpc" where
  "fetch_committee_server_version C K ks_obj_id =
     rpc_bind (client_fetch_key_server_by_id C K ks_obj_id) (\<lambda>ks.
       rpc_lift (case ks_server_type ks of
           Committee version _ _ \<Rightarrow> Ok version
         | _ \<Rightarrow> Err (rpc_new ''KeyServer is not of type Committee'')))"

definition client_fetch_committee_from_key_server ::
  "('w, 'j) sui_rpc_client \<Rightarrow> ('g2, 'epk, 'spk) sui_codec \<Rightarrow> object_id \<Rightarrow> ('w, object_id \<times> object_id) client_rpc" where
  "client_fetch_committee_from_key_server C K ks_obj_id =
     run_grpc_with_retries C ''fetch_committee_from_key_server''
       (\<lambda>N. fetch_committee_from_key_server (grpc_node.truncate N) K ks_obj_id)"

definition fetch_partial_key_server_for_member ::
  "('w, 'j) sui_rpc_client \<Rightarrow> ('g2, 'epk, 'spk) sui_codec \<Rightarrow> (committee_error \<Rightarrow> string) \<Rightarrow> object_id \<Rightarrow> object_id \<Rightarrow>
   ('w, 'g2 partial_key_server_info) client_rpc" where
  "fetch_partial_key_server_for_member C K show_err key_server_obj_id member_address =
     rpc_bind (client_fetch_committee_from_key_server C K key_server_obj_id) (\<lambda>(committee_id, _).
     rpc_bind (client_fetch_key_server_by_id C K key_server_obj_id) (\<lambda>ks.
     rpc_bind (get_object C K (codec_committee K) committee_id) (\<lambda>committee.
     rpc_lift (
       and_then (map_err (\<lambda>e. rpc_new (show_err e)) (to_partial_key_servers ks (sc_members committee))) (\<lambda>partials.
         ok_or (rpc_new (''PartialKeyServerInfo not found for member '' @ codec_show_address K member_address))
           (partials member_address))))))"

definition client_fetch_upgrade_proposal ::
  "('w, 'j) sui_rpc_client \<Rightarrow> ('g2, 'epk, 'spk) sui_codec \<Rightarrow> object_id \<Rightarrow> ('w, upgrade_proposal option) client_rpc" where
  "client_fetch_upgrade_proposal C K committee_id =
     run_grpc_with_retries C ''fetch_upgrade_proposal'' (\<lambda>N. fetch_upgrade_proposal (grpc_node.truncate N) K committee_id)"

definition fetch_package_original_id ::
  "('w, 'j) sui_rpc_client \<Rightarrow> ('g2, 'epk, 'spk) sui_codec \<Rightarrow> object_id \<Rightarrow> ('w, object_id) client_rpc" where
  "fetch_package_original_id C K pkg =
     run_grpc_with_retries C ''fetch_package_original_id'' (\<lambda>N.
       rpc_bind (get_object_grpc (grpc_node.truncate N) (object_request K pkg ''bcs'')) (\<lambda>response. rpc_lift (
         and_then (map_err (\<lambda>_. rpc_new ''Invalid package'') (extract_object K response)) (\<lambda>obj.
         case obj of
           DataPackage original \<Rightarrow> Ok original
         | _ \<Rightarrow> Err (rpc_new ''Invalid package'')))))"

text \<open>The accessors of the gRPC message return the default, zero, for a missing field.\<close>

definition get_reference_gas_price :: "('w, 'j) sui_rpc_client \<Rightarrow> ('w, u64) client_rpc" where
  "get_reference_gas_price C =
     run_grpc_with_retries C ''get_reference_gas_price'' (\<lambda>N w.
       let (r, w') = node_get_epoch N [''reference_gas_price''] w in
       (map_err (\<lambda>(c, m). rpc_from_grpc c m)
          (and_then r (\<lambda>epoch. Ok (case Option.bind epoch (\<lambda>v. v) of Some p \<Rightarrow> p | None \<Rightarrow> 0))), w'))"

subsection \<open>Operations on a chain that does not change\<close>

text \<open>During an operation the chain may advance. When it does not (the calls leave the world as
  it is), the retry loop is transparent: it returns what the operation returns.\<close>

definition delays_fit :: "retry_config \<Rightarrow> bool" where
  "delays_fit cfg \<longleftrightarrow> 2 * max (min_delay cfg) (max_delay cfg) \<le> DURATION_MAX"

definition node_quiet :: "('w, 'b) grpc_node_scheme \<Rightarrow> bool" where
  "node_quiet N \<longleftrightarrow> (\<forall>req w. snd (node_get_object N req w) = w)"

lemma retry_loop_quiet:
  assumes "snd (func w) = w" and "2 * max_delay cfg \<le> DURATION_MAX"
  shows "2 * d \<le> DURATION_MAX \<Longrightarrow> \<exists>evs. retry_loop retriable cfg func k d w = (fst (func w), evs, w)"
proof (induction k arbitrary: d rule: less_induct)
  case (less k)
  have step: "func w = (fst (func w), w)" using assms(1) by (metis prod.collapse)
  show ?case
  proof (cases "\<exists>e. fst (func w) = Err e \<and> retriable e \<and> k > 1")
    case True
    then obtain e where e: "fst (func w) = Err e" "retriable e" "k > 1" by blast
    have "2 * min (d * 2) (max_delay cfg) \<le> DURATION_MAX" using assms(2) by simp
    from less.IH [OF _ this, of "k - 1"] e(3)
    obtain evs where "retry_loop retriable cfg func (k - 1) (min (d * 2) (max_delay cfg)) w = (fst (func w), evs, w)" by auto
    moreover have "\<not> d * 2 > DURATION_MAX" using less.prems by simp
    ultimately show ?thesis using e step by (subst retry_loop.simps) (auto split: prod.splits)
  next
    case False
    then show ?thesis using step by (subst retry_loop.simps) (auto split: prod.splits res.splits)
  qed
qed

lemma run_grpc_quiet:
  assumes "snd (op (src_node C) (fst s)) = fst s" and "delays_fit (src_retry_config C)"
  shows "fst (run_grpc_with_retries C method op s) = fst (op (src_node C) (fst s)) \<and>
    fst (snd (run_grpc_with_retries C method op s)) = fst s"
proof -
  have "2 * max_delay (src_retry_config C) \<le> DURATION_MAX" "2 * min_delay (src_retry_config C) \<le> DURATION_MAX"
    using assms(2) by (auto simp: delays_fit_def)
  from retry_loop_quiet [of "op (src_node C)" "fst s", OF assms(1) this]
  obtain evs where "sui_rpc_with_retries is_retriable_error (src_retry_config C) (op (src_node C)) (fst s) =
      (fst (op (src_node C) (fst s)), evs, fst s)"
    unfolding sui_rpc_with_retries_def by blast
  then show ?thesis by (simp add: run_grpc_with_retries_def)
qed

lemma rpc_bind_quiet: "snd (m w) = w \<Longrightarrow> (\<And>x. snd (f x w) = w) \<Longrightarrow> snd (rpc_bind m f w) = w"
  by (cases "m w") (auto split: res.splits)

lemma rpc_lift_quiet [simp]: "snd (rpc_lift r w) = w" "fst (rpc_lift r w) = r"
  by (simp_all add: rpc_lift_def)

lemma truncate_quiet [simp]: "node_quiet (grpc_node.truncate N) = node_quiet N"
  by (simp add: node_quiet_def grpc_node.truncate_def)

lemma get_object_grpc_quiet: "node_quiet N \<Longrightarrow> snd (get_object_grpc N req w) = w"
  by (simp add: get_object_grpc_def node_quiet_def case_prod_beta Let_def)

lemma fetch_object_quiet: "node_quiet N \<Longrightarrow> snd (fetch_object N K dec i w) = w"
  unfolding fetch_object_def by (intro rpc_bind_quiet get_object_grpc_quiet rpc_lift_quiet)

lemma fetch_key_server_by_id_quiet: "node_quiet N \<Longrightarrow> snd (fetch_key_server_by_id N K i w) = w"
  unfolding fetch_key_server_by_id_def Let_def by (intro rpc_bind_quiet fetch_object_quiet rpc_lift_quiet)

lemma fetch_committee_from_key_server_quiet: "node_quiet N \<Longrightarrow> snd (fetch_committee_from_key_server N K i w) = w"
  unfolding fetch_committee_from_key_server_def Let_def
  by (intro rpc_bind_quiet get_object_grpc_quiet fetch_object_quiet rpc_lift_quiet)

lemmas quiet_rules = get_object_grpc_quiet fetch_object_quiet fetch_key_server_by_id_quiet
  fetch_committee_from_key_server_quiet

lemma fst_rpc_bind_world:
  "fst (snd (m s)) = fst s \<Longrightarrow> (\<And>x s'. fst s' = fst s \<Longrightarrow> fst (f x s') = g x) \<Longrightarrow>
   fst (rpc_bind m f s) = and_then (fst (m s)) g"
  by (cases "m s") (auto split: res.splits)

lemma client_ops_quiet:
  assumes "node_quiet (src_node C)" and "delays_fit (src_retry_config C)"
  shows "fst (client_fetch_key_server_by_id C K i s) = fst (fetch_key_server_by_id (grpc_node.truncate (src_node C)) K i (fst s))"
    and "fst (snd (client_fetch_key_server_by_id C K i s)) = fst s"
    and "fst (client_fetch_committee_from_key_server C K i s) =
      fst (fetch_committee_from_key_server (grpc_node.truncate (src_node C)) K i (fst s))"
    and "fst (snd (client_fetch_committee_from_key_server C K i s)) = fst s"
    and "fst (get_object C K dec i s) = fst (fetch_object (grpc_node.truncate (src_node C)) K dec i (fst s))"
    and "fst (snd (get_object C K dec i s)) = fst s"
  unfolding client_fetch_key_server_by_id_def client_fetch_committee_from_key_server_def get_object_def
  by (simp_all add: run_grpc_quiet [OF _ assms(2)] quiet_rules assms(1))

text \<open>What the client finds for a member on an unchanging chain.\<close>

definition member_lookup ::
  "'w grpc_node \<Rightarrow> ('g2, 'epk, 'spk) sui_codec \<Rightarrow> (committee_error \<Rightarrow> string) \<Rightarrow> object_id \<Rightarrow> object_id \<Rightarrow> 'w \<Rightarrow>
   ('g2 partial_key_server_info, rpc_error) res" where
  "member_lookup N K show_err ks_id member w =
     and_then (fst (fetch_committee_from_key_server N K ks_id w)) (\<lambda>(cid, _).
     and_then (fst (fetch_key_server_by_id N K ks_id w)) (\<lambda>ks.
     and_then (fst (fetch_object N K (codec_committee K) cid w)) (\<lambda>c.
     and_then (map_err (\<lambda>e. rpc_new (show_err e)) (to_partial_key_servers ks (sc_members c))) (\<lambda>partials.
       ok_or (rpc_new (''PartialKeyServerInfo not found for member '' @ codec_show_address K member)) (partials member)))))"

lemma fetch_partial_key_server_quiet:
  fixes K :: "('g2, 'epk, 'spk) sui_codec"
  assumes "node_quiet (src_node C)" and "delays_fit (src_retry_config C)"
  shows "fst (fetch_partial_key_server_for_member C K show_err ks_id member s) =
    member_lookup (grpc_node.truncate (src_node C)) K show_err ks_id member (fst s)"
proof -
  let ?N = "grpc_node.truncate (src_node C)"
  note q = client_ops_quiet [OF assms]
  have 1: "fst (rpc_bind (get_object C K dec i) (\<lambda>c. rpc_lift (h c)) s') = and_then (fst (fetch_object ?N K dec i (fst s))) h"
    if "fst s' = fst s" for dec :: "bytes \<Rightarrow> (('epk, 'spk) seal_committee, string) res" and i h s'
    using that by (subst fst_rpc_bind_world [where g = h]) (simp_all add: q)
  have 2: "fst (rpc_bind (client_fetch_key_server_by_id C K i) (\<lambda>ks. rpc_bind (get_object C K dec j) (\<lambda>c. rpc_lift (h ks c))) s') =
      and_then (fst (fetch_key_server_by_id ?N K i (fst s))) (\<lambda>ks. and_then (fst (fetch_object ?N K dec j (fst s))) (h ks))"
    if "fst s' = fst s" for dec :: "bytes \<Rightarrow> (('epk, 'spk) seal_committee, string) res" and i j h s'
    using that by (subst fst_rpc_bind_world [where g = "\<lambda>ks. and_then (fst (fetch_object ?N K dec j (fst s))) (h ks)"])
      (simp_all add: q 1 del: rpc_bind.simps)
  show ?thesis
    unfolding fetch_partial_key_server_for_member_def member_lookup_def
    by (rule trans [OF fst_rpc_bind_world]) (auto simp only: q 2 split: prod.splits)
qed

lemma member_lookup_Ok:
  assumes "fst (fetch_committee_from_key_server N K ks_id w) = Ok (cid, pkg)" and "fst (fetch_key_server_by_id N K ks_id w) = Ok ks"
    and "fst (fetch_object N K (codec_committee K) cid w) = Ok c"
    and "members_wf (sc_members c)" and "ks_server_type ks = Committee v t ps" and "distinct (map pks_party_id ps)"
    and "\<And>p. p \<in> set ps \<Longrightarrow> unat (pks_party_id p) < length (sc_members c)"
  shows "member_lookup N K show_err ks_id member w = Ok info \<longleftrightarrow>
    (\<exists>p \<in> set ps. get_party_id c member = Ok (pks_party_id p) \<and>
       info = \<lparr>pki_party_id = pks_party_id p, pki_partial_pk = pks_partial_pk p, pki_name = pks_name p, pki_url = pks_url p\<rparr>)"
proof -
  obtain m where m: "to_partial_key_servers ks (sc_members c) = Ok m"
    using to_partial_key_servers_Ok [of ks "sc_members c"] assms(5,7) by auto
  have "member_lookup N K show_err ks_id member w = Ok info \<longleftrightarrow> m member = Some info"
    by (simp add: member_lookup_def assms(1-3) m ok_or_Ok_iff)
  then show ?thesis by (simp only: to_partial_key_servers_entry [OF assms(4-6) m])
qed

text \<open>The answers an operation of the key server sees during a request, as the interface of
  package resolution and of the policy check has them.\<close>

definition request_view ::
  "('w, 'j) sui_rpc_client \<Rightarrow> ('g2, 'epk, 'spk) sui_codec \<Rightarrow> (bytes \<Rightarrow> (app_record, string) res) \<Rightarrow>
   (bytes \<Rightarrow> (package_info, string) res) \<Rightarrow> (code \<Rightarrow> string) \<Rightarrow> (tx_data \<Rightarrow> grpc_transaction) \<Rightarrow> 'w \<Rightarrow> rpc_client" where
  "request_view C K dec_app dec_info show_code into_transaction w =
     \<lparr>rc_original_id = (\<lambda>i. fst (fetch_package_original_id C K i (w, []))),
      rc_object_exists = (\<lambda>i. fst (object_exists C K i (w, []))),
      rc_app_record = (\<lambda>i. fst (get_object C K dec_app i (w, []))),
      rc_package_info = (\<lambda>i. fst (get_object C K dec_info i (w, []))),
      rc_show_code = show_code,
      rc_simulate = (\<lambda>tx. fst (simulate_transaction C into_transaction tx (w, [])))\<rparr>"

lemma fetch_package_original_id_quiet:
  assumes "node_quiet (src_node C)" and "delays_fit (src_retry_config C)"
  shows "fst (fetch_package_original_id C K i s) =
    and_then (fst (get_object_grpc (grpc_node.truncate (src_node C)) (object_request K i ''bcs'') (fst s))) (\<lambda>response.
    and_then (map_err (\<lambda>_. rpc_new ''Invalid package'') (extract_object K response)) (\<lambda>obj.
      case obj of DataPackage original \<Rightarrow> Ok original | DataMove _ \<Rightarrow> Err (rpc_new ''Invalid package'')))"
proof -
  let ?op = "\<lambda>N :: 'a sui_node. rpc_bind (get_object_grpc (grpc_node.truncate N) (object_request K i ''bcs'')) (\<lambda>response. rpc_lift (
         and_then (map_err (\<lambda>_. rpc_new ''Invalid package'') (extract_object K response)) (\<lambda>obj.
         case obj of DataPackage original \<Rightarrow> Ok original | DataMove _ \<Rightarrow> Err (rpc_new ''Invalid package''))))"
  have "snd (?op (src_node C) (fst s)) = fst s"
    by (intro rpc_bind_quiet get_object_grpc_quiet rpc_lift_quiet) (simp add: assms(1))
  from run_grpc_quiet [where op = ?op and C = C and s = s, OF this assms(2), THEN conjunct1]
  have "fst (fetch_package_original_id C K i s) = fst (?op (src_node C) (fst s))"
    unfolding fetch_package_original_id_def .
  also have "\<dots> = and_then (fst (get_object_grpc (grpc_node.truncate (src_node C)) (object_request K i ''bcs'') (fst s))) (\<lambda>response.
    and_then (map_err (\<lambda>_. rpc_new ''Invalid package'') (extract_object K response)) (\<lambda>obj.
      case obj of DataPackage original \<Rightarrow> Ok original | DataMove _ \<Rightarrow> Err (rpc_new ''Invalid package'')))"
    by (cases "get_object_grpc (grpc_node.truncate (src_node C)) (object_request K i ''bcs'') (fst s)")
      (simp add: rpc_lift_def split: res.split)
  finally show ?thesis .
qed

subsection \<open>Properties\<close>

text \<open>A committee server's check of its master share against the chain. While the chain does
  not change, the check succeeds exactly when the public key of the share is the partial public
  key registered for the party id of the configured member.\<close>

theorem member_share_validated:
  assumes "node_quiet (src_node C)" and "delays_fit (src_retry_config C)"
    and "N = grpc_node.truncate (src_node C)"
    and "fst (fetch_committee_from_key_server N K ks_id w) = Ok (cid, pkg)" and "fst (fetch_key_server_by_id N K ks_id w) = Ok ks"
    and "fst (fetch_object N K (codec_committee K) cid w) = Ok c"
    and "members_wf (sc_members c)" and "ks_server_type ks = Committee v t ps" and "distinct (map pks_party_id ps)"
    and "\<And>p. p \<in> set ps \<Longrightarrow> unat (pks_party_id p) < length (sc_members c)"
  shows "fetch_and_validate_committee_partial_pk B
      (and_then (fst (fetch_partial_key_server_for_member C K show_err ks_id member (w, obs))) (\<lambda>i. Ok (pki_partial_pk i))) share
      = Ok () \<longleftrightarrow>
    (\<exists>p \<in> set ps. get_party_id c member = Ok (pks_party_id p) \<and> public_key_from_master_key B share = pks_partial_pk p)"
  unfolding fetch_partial_key_server_quiet [OF assms(1,2)] fst_conv assms(3) [symmetric]
  by (auto simp: fetch_and_validate_committee_partial_pk_def and_then_Ok_iff member_lookup_Ok [OF assms(4-10)]
      split: if_splits)

text \<open>The resolution of a package on an unchanging chain with an empty cache: the original id of
  the package object, \<open>InvalidPackage\<close> when there is no such object, it is no package or it
  cannot be decoded, and a failure naming the error for every other status, after the retries.\<close>

theorem first_pkg_id_of_node:
  assumes "node_quiet (src_node C)" and "delays_fit (src_retry_config C)"
  shows "fst (fetch_first_pkg_id (request_view C K dec_app dec_info show_code into_transaction w) Map.empty pkg) =
    (case fst (node_get_object (src_node C) (object_request K pkg ''bcs'') w) of
       Ok response \<Rightarrow>
         (case extract_object K response of
            Ok (DataPackage original) \<Rightarrow> Ok original
          | Panic \<Rightarrow> Panic
          | _ \<Rightarrow> Err InvalidPackage)
     | Err (c, m) \<Rightarrow> Err (if c = CodeNotFound then InvalidPackage
         else Failure (''Failed to resolve package id: gRPC '' @ show_code c @ '': '' @ m))
     | Panic \<Rightarrow> Panic)"
proof -
  have g: "fst (get_object_grpc (grpc_node.truncate (src_node C)) (object_request K pkg ''bcs'') w) =
      map_err (\<lambda>(c, m). rpc_from_grpc c m) (fst (node_get_object (src_node C) (object_request K pkg ''bcs'') w))"
    by (simp add: get_object_grpc_def grpc_node.truncate_def case_prod_beta Let_def)
  have original: "fst (fetch_package_original_id C K pkg (w, [])) =
    and_then (map_err (\<lambda>(c, m). rpc_from_grpc c m) (fst (node_get_object (src_node C) (object_request K pkg ''bcs'') w))) (\<lambda>response.
    and_then (map_err (\<lambda>_. rpc_new ''Invalid package'') (extract_object K response)) (\<lambda>obj.
      case obj of DataPackage original \<Rightarrow> Ok original | DataMove _ \<Rightarrow> Err (rpc_new ''Invalid package'')))"
    using fetch_package_original_id_quiet [OF assms, of K pkg "(w, [])"] by (simp only: fst_conv g)
  show ?thesis
  proof (cases "fst (node_get_object (src_node C) (object_request K pkg ''bcs'') w)")
    case (Ok response)
    then show ?thesis
      by (cases "extract_object K response")
        (simp_all add: fetch_first_pkg_id_def request_view_def original rpc_new_def split: sui_data.split)
  next
    case (Err e)
    obtain c m where "e = (c, m)" by (cases e)
    with Err show ?thesis
      by (simp add: fetch_first_pkg_id_def request_view_def original rpc_from_grpc_def rpc_display_def split: code.split)
  next
    case Panic
    then show ?thesis by (simp add: fetch_first_pkg_id_def request_view_def original)
  qed
qed

text \<open>A node whose chain holds the key server \<open>[10]\<close> of the committee \<open>[12]\<close>.\<close>

definition demo_node :: "unit sui_node" where
  "demo_node = \<lparr>node_get_object = (\<lambda>req w. (Ok (Some \<lparr>go_bcs = Some (Some (map (word_of_nat \<circ> of_char) (the (gr_object_id req)))),
       go_owner = Some (Some [CHR 0x0B]), go_owner_version = None, go_object_type = Some ''T''\<rparr>), w)),
     node_simulate = (\<lambda>_ _ w. (Err (CodeOther ''x'', []), w)), node_get_epoch = (\<lambda>_ w. (Ok None, w))\<rparr>"

definition demo_rpc_client :: "(unit, unit) sui_rpc_client" where
  "demo_rpc_client = new_with_optional_sui_client None demo_node default_retry_config True"

lemma demo_rpc_client_quiet: "node_quiet (src_node demo_rpc_client)" "delays_fit (src_retry_config demo_rpc_client)"
  by (simp_all add: demo_rpc_client_def new_with_optional_sui_client_def node_quiet_def demo_node_def
      delays_fit_def default_retry_config_def DURATION_MAX_def)

lemma demo_node_reads:
  "fst (fetch_committee_from_key_server (grpc_node.truncate demo_node) demo_sui_codec [10] ()) = Ok ([12], [14])"
  "fst (fetch_key_server_by_id (grpc_node.truncate demo_node) demo_sui_codec [10] ()) = Ok (demo_key_server 3 5)"
  "fst (fetch_object (grpc_node.truncate demo_node) demo_sui_codec (codec_committee demo_sui_codec) [12] ()) =
    Ok (demo_committee_of [[1], [2], [3]])"
  by (simp_all add: fetch_committee_from_key_server_def fetch_key_server_by_id_def fetch_object_def get_object_grpc_def
      grpc_node.truncate_def demo_node_def demo_sui_codec_def extract_object_def object_request_def rpc_lift_def)

theorem member_share_validated_witness:
  "\<exists>show_err. fetch_and_validate_committee_partial_pk gf_bls
     (and_then (fst (fetch_partial_key_server_for_member demo_rpc_client demo_sui_codec show_err [10] [2] ((), [])))
        (\<lambda>i. Ok (pki_partial_pk i))) 5 = Ok ()"
proof
  let ?ps = "[\<lparr>pks_name = ''b'', pks_url = ''ub'', pks_partial_pk = 5, pks_party_id = 1\<rparr>,
        \<lparr>pks_name = ''a'', pks_url = ''ua'', pks_partial_pk = (3 :: gf256), pks_party_id = 0\<rparr>]"
  have node: "src_node demo_rpc_client = demo_node" by (simp add: demo_rpc_client_def new_with_optional_sui_client_def)
  have "\<exists>p \<in> set ?ps. get_party_id (demo_committee_of [[1], [2], [3]]) [2] = Ok (pks_party_id p) \<and>
      public_key_from_master_key gf_bls 5 = pks_partial_pk p"
    by (simp add: get_party_id_def demo_committee_of_def public_key_from_master_key_def gf_bls_def gf_group_def)
  then show "fetch_and_validate_committee_partial_pk gf_bls
     (and_then (fst (fetch_partial_key_server_for_member demo_rpc_client demo_sui_codec (\<lambda>_. []) [10] [2] ((), [])))
        (\<lambda>i. Ok (pki_partial_pk i))) 5 = Ok ()"
    by (subst member_share_validated [OF demo_rpc_client_quiet _ demo_node_reads, where ps = ?ps and v = 4 and t = 2])
      (auto simp: node demo_key_server_def demo_committee_of_def members_wf_def)
qed

theorem first_pkg_id_of_node_witness:
  "\<exists>dec_app dec_info show_code into_transaction.
     fst (fetch_first_pkg_id (request_view demo_rpc_client demo_sui_codec dec_app dec_info show_code into_transaction ())
       Map.empty [14]) = Ok [15]"
proof (intro exI)
  show "fst (fetch_first_pkg_id (request_view demo_rpc_client demo_sui_codec (\<lambda>_. Panic) (\<lambda>_. Panic) (\<lambda>_. [])
       (\<lambda>_. \<lparr>tx_bcs = None, tx_kind = None\<rparr>) ()) Map.empty [14]) = Ok [15]"
    by (subst first_pkg_id_of_node [OF demo_rpc_client_quiet])
      (simp add: demo_rpc_client_def new_with_optional_sui_client_def demo_node_def demo_sui_codec_def extract_object_def
        object_request_def)
qed

end
