(* ===== verification/Aggregator.thy ===== *)
theory Aggregator
  imports RpcClient Server
begin

text \<open>
  \<^verbatim>\<open>crates/key-server/src/aggregator\<close>: the aggregator of a committee. It forwards a request to the members,
  verifies every encrypted key they return, stops as soon as the threshold is reached or out of
  reach, and aggregates the shares of each key.

  The members' answers arrive in any order: \<open>completion\<close> orders the tasks. The iteration order
  of a \<open>HashMap\<close> is a parameter too. A header value is \<open>None\<close> when it is not visible ASCII.
  Renderings, version parsing, JSON and HTTP are the record \<open>agg_ops\<close>.
\<close>

subsection \<open>Third-party operations\<close>

record http_request =
  hr_url :: string
  hr_headers :: "(string \<times> string) list"
  hr_body :: string
  hr_timeout_secs :: u64

record http_response =
  hp_status :: string
  hp_success :: bool
  hp_headers :: "string \<rightharpoonup> string option"
  hp_body :: bytes

record ('v, 'ver, 'g1, 'g2) agg_ops =
  ao_parse_version :: "string \<Rightarrow> 'ver option"
  ao_matches :: "'v \<Rightarrow> 'ver \<Rightarrow> bool"
  ao_show_version :: "'ver \<Rightarrow> string"
  ao_show_req :: "'v \<Rightarrow> string"
  ao_hex :: "bytes \<Rightarrow> string"
  ao_show_ids :: "bytes set \<Rightarrow> string"
  ao_show_fc :: "fc_error \<Rightarrow> string"
  ao_show_errors :: "error_response list \<Rightarrow> string"
  ao_request_json :: "('g1, 'g2) fetch_key_request \<Rightarrow> (string, unit) res"
  ao_parse_error :: "bytes \<Rightarrow> error_response option"
  ao_parse_response :: "bytes \<Rightarrow> ('g1 fetch_key_response, string) res"
  ao_iter_shares :: "(bytes \<times> (u16 \<times> 'g1 encryption) list) list \<Rightarrow> (bytes \<times> (u16 \<times> 'g1 encryption) list) list"
  ao_iter_errors :: "(string \<times> nat \<times> error_response) list \<Rightarrow> (string \<times> nat \<times> error_response) list"
  ao_package_version :: string

subsection \<open>Helpers\<close>

definition get_expected_full_ids ::
  "ptb_codec \<Rightarrow> rpc_client \<Rightarrow> (object_id \<rightharpoonup> object_id) \<Rightarrow> string \<Rightarrow>
   (bytes set, internal_error) res \<times> (object_id \<rightharpoonup> object_id)" where
  "get_expected_full_ids K client cache ptb_b64 =
     (case and_then (try_from_base64 K ptb_b64) (\<lambda>v. and_then (pkg_id v) (\<lambda>pkg. Ok (v, pkg))) of
        Ok (valid_ptb, pkg) \<Rightarrow>
          (let (first_pkg_id, cache) = fetch_first_pkg_id client cache pkg in
           (and_then first_pkg_id (\<lambda>first. and_then (full_ids K valid_ptb first) (\<lambda>ids. Ok (set ids))), cache))
      | Err e \<Rightarrow> (Err e, cache)
      | Panic \<Rightarrow> (Panic, cache))"

text \<open>\<open>entry(k).or_default().push(x)\<close>.\<close>

fun push_share :: "'k \<Rightarrow> 'x \<Rightarrow> ('k \<times> 'x list) list \<Rightarrow> ('k \<times> 'x list) list" where
  "push_share k x [] = [(k, [x])]"
| "push_share k x ((k', xs) # m) = (if k' = k then (k', xs @ [x]) # m else (k', xs) # push_share k x m)"

definition shares_by_key_id ::
  "(u16 \<times> 'g1 fetch_key_response) list \<Rightarrow> (bytes \<times> (u16 \<times> 'g1 encryption) list) list" where
  "shares_by_key_id responses =
     foldl (\<lambda>m (party_id, response).
         foldl (\<lambda>m dk. push_share (dk_id dk) (party_id, dk_encrypted_key dk) m) m response)
       [] responses"

definition aggregate_verified_encrypted_responses ::
  "('v, 'ver, 'g1, 'g2) agg_ops \<Rightarrow> (u16 \<Rightarrow> (u16 \<times> 'g1) list \<Rightarrow> ('g1, fc_error) res) \<Rightarrow> u16 \<Rightarrow>
   (u16 \<times> 'g1 fetch_key_response) list \<Rightarrow> ('g1 fetch_key_response, fc_error) res" where
  "aggregate_verified_encrypted_responses A recover_c0 threshold responses =
     (if length responses \<noteq> unat threshold then Err InvalidInput
      else
        collect_res (\<lambda>(key_id, encrypted_shares).
            and_then (aggregate_encrypted recover_c0 threshold encrypted_shares) (\<lambda>aggregated_encrypted.
              Ok \<lparr>dk_id = key_id, dk_encrypted_key = aggregated_encrypted\<rparr>))
          (ao_iter_shares A (shares_by_key_id responses)))"

definition verify_decryption_keys ::
  "('s, 'g1::ab_group_add, 'g2::ab_group_add, 'gt::ab_group_add, 'r) bls_ops \<Rightarrow> ('v, 'ver, 'g1, 'g2) agg_ops \<Rightarrow>
   'g1 fetch_key_response \<Rightarrow> 'g2 \<Rightarrow> 'g2 verification_key \<Rightarrow> u16 \<Rightarrow> bytes set \<Rightarrow> (unit, internal_error) res" where
  "verify_decryption_keys B A decryption_keys partial_pk ephemeral_vk party_id expected_full_ids =
     (let seen = set (map dk_id decryption_keys) in
      if length decryption_keys \<noteq> card expected_full_ids
      then Err (Failure (''party '' @ decimal (unat party_id) @ '' returned '' @ decimal (length decryption_keys) @
             '' key(s), expected '' @ decimal (card expected_full_ids)))
      else if card seen \<noteq> length decryption_keys
      then Err (Failure (''duplicate key ids from party '' @ decimal (unat party_id)))
      else if seen \<noteq> expected_full_ids
      then Err (Failure (''returned key ids did not match expected ids for party '' @ decimal (unat party_id) @
             '': returned='' @ ao_show_ids A seen @ '', expected='' @ ao_show_ids A expected_full_ids))
      else
        and_then (collect_res (\<lambda>dk.
            map_err (\<lambda>e. Failure (''verification failed for party '' @ decimal (unat party_id) @ '' key_id='' @
                ao_hex A (dk_id dk) @ '': '' @ ao_show_fc A e))
              (verify_encrypted_signature B (dk_encrypted_key dk) ephemeral_vk partial_pk (dk_id dk)))
          decryption_keys)
        (\<lambda>_. Ok ()))"

subsection \<open>Configuration and state\<close>

definition DEFAULT_PORT :: u16 where "DEFAULT_PORT = 2024"
definition REFRESH_INTERVAL_SECS :: u64 where "REFRESH_INTERVAL_SECS = 30"
definition default_key_server_timeout_secs :: u64 where "default_key_server_timeout_secs = 8"

definition default_ts_sdk_version_requirement :: "(string \<Rightarrow> 'v option) \<Rightarrow> ('v, 'e) res" where
  "default_ts_sdk_version_requirement parse_req = expect (ok_or () (parse_req ''>=0.10.0''))"

definition default_rust_sdk_version_requirement :: "(string \<Rightarrow> 'v option) \<Rightarrow> ('v, 'e) res" where
  "default_rust_sdk_version_requirement parse_req = expect (ok_or () (parse_req ''>=0.0.0''))"

definition default_key_server_version_requirement :: "(string \<Rightarrow> 'v option) \<Rightarrow> ('v, 'e) res" where
  "default_key_server_version_requirement parse_req = expect (ok_or () (parse_req ''>=0.6.2''))"

record api_credentials =
  api_key_name :: string
  api_key :: string

record 'v aggregator_options =
  agg_network :: network
  agg_node_url :: "string option"
  agg_key_server_object_id :: object_id
  agg_ts_sdk_version_requirement :: 'v
  agg_rust_sdk_version_requirement :: 'v
  agg_key_server_version_requirement :: 'v
  agg_key_server_timeout_secs :: u64
  agg_api_credentials :: "string \<rightharpoonup> api_credentials"
  agg_rpc_config :: rpc_config

record 'g2 committee_snapshot =
  cs_threshold :: u16
  cs_members :: "'g2 partial_key_server list"

record ('v, 'g2) app_state =
  as_committee :: "'g2 committee_snapshot"
  as_options :: "'v aggregator_options"

subsection \<open>Versions\<close>

definition validate_client_sdk_version ::
  "('v, 'ver, 'g1, 'g2) agg_ops \<Rightarrow> string \<Rightarrow> client_sdk_type \<Rightarrow> 'v \<Rightarrow> 'v \<Rightarrow> (unit, internal_error) res" where
  "validate_client_sdk_version A version_str sdk_type ts_requirement rust_requirement =
     and_then (ok_or InvalidSDKVersion (ao_parse_version A version_str)) (\<lambda>version.
     case sdk_type of
       TypeScriptSdk \<Rightarrow> if \<not> ao_matches A ts_requirement version then Err DeprecatedSDKVersion else Ok ()
     | RustSdk \<Rightarrow> if \<not> ao_matches A rust_requirement version then Err DeprecatedSDKVersion else Ok ()
     | AggregatorSdk \<Rightarrow> Err InvalidSDKType
     | OtherSdk \<Rightarrow> Err InvalidSDKType)"

definition validate_client_sdk_headers ::
  "('v, 'ver, 'g1, 'g2) agg_ops \<Rightarrow> (string \<rightharpoonup> string option) \<Rightarrow> 'v \<Rightarrow> 'v \<Rightarrow>
   (client_sdk_type \<times> string, internal_error) res" where
  "validate_client_sdk_headers A headers ts_requirement rust_requirement =
     and_then (ok_or InvalidSDKType (headers HEADER_CLIENT_SDK_TYPE)) (\<lambda>sdk_type_header.
     and_then (ok_or InvalidSDKType sdk_type_header) (\<lambda>sdk_type_str.
     and_then (from_header (Some sdk_type_str)) (\<lambda>sdk_type.
     and_then (ok_or (MissingRequiredHeader HEADER_CLIENT_SDK_VERSION) (headers HEADER_CLIENT_SDK_VERSION)) (\<lambda>v.
     and_then (ok_or InvalidSDKVersion v) (\<lambda>version_str.
     and_then (validate_client_sdk_version A version_str sdk_type ts_requirement rust_requirement) (\<lambda>_.
       Ok (sdk_type, version_str)))))))"

definition validate_key_server_version ::
  "('v, 'ver, 'g1, 'g2) agg_ops \<Rightarrow> string option option \<Rightarrow> 'v \<Rightarrow> (unit, internal_error) res" where
  "validate_key_server_version A version ks_version_req =
     and_then (ok_or (Failure (''Missing key server version header: '' @ HEADER_KEYSERVER_VERSION)) version) (\<lambda>v.
     and_then (ok_or (Failure ''Invalid key server version header'') v) (\<lambda>v.
     and_then (ok_or (Failure (''Failed to parse key server version: '' @ v)) (ao_parse_version A v)) (\<lambda>version.
       if \<not> ao_matches A ks_version_req version
       then Err (Failure (''Key server version '' @ ao_show_version A version @ '' does not meet requirement '' @
              ao_show_req A ks_version_req))
       else Ok ())))"

subsection \<open>Fetching from the members\<close>

text \<open>\<open>http\<close> is the answer of the network to a request, or the rendering of its failure.\<close>

definition fetch_from_member ::
  "('s, 'g1::ab_group_add, 'g2::ab_group_add, 'gt::ab_group_add, 'r) bls_ops \<Rightarrow> ('v, 'ver, 'g1, 'g2) agg_ops \<Rightarrow>
   (http_request \<Rightarrow> (http_response, string) res) \<Rightarrow> 'g2 partial_key_server \<Rightarrow> ('g1, 'g2) fetch_key_request \<Rightarrow>
   string \<Rightarrow> 'v \<Rightarrow> api_credentials \<Rightarrow> u64 \<Rightarrow> bytes set \<Rightarrow> ('g1 fetch_key_response, error_response) res" where
  "fetch_from_member B A http member request req_id ks_version_req creds timeout_secs expected_full_ids =
     and_then (expect (ao_request_json A request)) (\<lambda>body.
     and_then (map_err (\<lambda>e. error_response_of (Failure (''Request failed (req_id: '' @ req_id @ ''): '' @ e)))
         (http \<lparr>hr_url = pks_url member @ ''/v1/fetch_key'',
            hr_headers = [(HEADER_CLIENT_SDK_TYPE, SDK_TYPE_AGGREGATOR), (HEADER_CLIENT_SDK_VERSION, ao_package_version A),
              (''Request-Id'', req_id), (''Content-Type'', ''application/json''), (api_key_name creds, api_key creds)],
            hr_body = body, hr_timeout_secs = timeout_secs\<rparr>)) (\<lambda>response.
     if \<not> hp_success response then
       (case ao_parse_error A (hp_body response) of
          Some error_response \<Rightarrow> Err error_response
        | None \<Rightarrow> Err (error_response_of (Failure (''HTTP '' @ hp_status response @ '' (req_id: '' @ req_id @ '')''))))
     else
       and_then (map_err error_response_of
           (validate_key_server_version A (hp_headers response HEADER_KEYSERVER_VERSION) ks_version_req)) (\<lambda>_.
       and_then (map_err (\<lambda>e. error_response_of (Failure (''Parse failed: '' @ e @ '' (req_id: '' @ req_id @ '')'')))
           (ao_parse_response A (hp_body response))) (\<lambda>body.
       and_then (map_err error_response_of
           (verify_decryption_keys B A body (pks_partial_pk member) (fkr_enc_verification_key request)
              (pks_party_id member) expected_full_ids)) (\<lambda>_.
         Ok body)))))"

text \<open>The task of one member.\<close>

definition member_task ::
  "('s, 'g1::ab_group_add, 'g2::ab_group_add, 'gt::ab_group_add, 'r) bls_ops \<Rightarrow> ('v, 'ver, 'g1, 'g2) agg_ops \<Rightarrow>
   (http_request \<Rightarrow> (http_response, string) res) \<Rightarrow> 'v aggregator_options \<Rightarrow> ('g1, 'g2) fetch_key_request \<Rightarrow>
   string \<Rightarrow> bytes set \<Rightarrow> 'g2 partial_key_server \<Rightarrow> (u16 \<times> 'g1 fetch_key_response, error_response) res" where
  "member_task B A http options request req_id expected_full_ids member =
     (case agg_api_credentials options (pks_name member) of
        None \<Rightarrow> Err (error_response_of (Failure (''Missing API credentials config for server '' @ [CHR 0x27] @ pks_name member @
            [CHR 0x27] @ '' ('' @ pks_url member @ '')'')))
      | Some creds \<Rightarrow>
          and_then (fetch_from_member B A http member request req_id (agg_key_server_version_requirement options) creds
              (agg_key_server_timeout_secs options) expected_full_ids)
            (\<lambda>response. Ok (pks_party_id member, response)))"

text \<open>The loop over the completed tasks. \<open>committee_size - completed\<close> is the number of tasks
  that remain.\<close>

fun collect_responses ::
  "nat \<Rightarrow> nat \<Rightarrow> ('a, 'e) res list \<Rightarrow> 'a list \<Rightarrow> 'e list \<Rightarrow> nat \<Rightarrow> ('a list \<times> 'e list \<times> nat, 'e) res" where
  "collect_responses threshold committee_size [] responses errors completed = Ok (responses, errors, completed)"
| "collect_responses threshold committee_size (result # results) responses errors completed =
     (let completed = completed + 1 in
      case result of
        Panic \<Rightarrow> Panic
      | Ok r \<Rightarrow>
          let responses = responses @ [r] in
          if length responses \<ge> threshold then Ok (responses, errors, completed)
          else if length responses + (committee_size - completed) < threshold then Ok (responses, errors, completed)
          else collect_responses threshold committee_size results responses errors completed
      | Err e \<Rightarrow>
          let errors = errors @ [e] in
          if length responses + (committee_size - completed) < threshold then Ok (responses, errors, completed)
          else collect_responses threshold committee_size results responses errors completed)"

text \<open>\<open>and_modify(|(count, _)| *count += 1).or_insert((1, err))\<close>.\<close>

fun count_error :: "error_response \<Rightarrow> (string \<times> nat \<times> error_response) list \<Rightarrow> (string \<times> nat \<times> error_response) list" where
  "count_error err [] = [(er_error err, 1, err)]"
| "count_error err ((k, n, first) # m) =
     (if k = er_error err then (k, n + 1, first) # m else (k, n, first) # count_error err m)"

text \<open>\<open>max_by_key\<close>: the last of the greatest entries.\<close>

fun max_by_count :: "(string \<times> nat \<times> 'e) list \<Rightarrow> (string \<times> nat \<times> 'e) option" where
  "max_by_count [] = None"
| "max_by_count (x # xs) =
     (case max_by_count xs of
        None \<Rightarrow> Some x
      | Some y \<Rightarrow> if fst (snd x) > fst (snd y) then Some x else Some y)"

definition handle_insufficient_responses ::
  "('v, 'ver, 'g1, 'g2) agg_ops \<Rightarrow> nat \<Rightarrow> nat \<Rightarrow> error_response list \<Rightarrow> error_response" where
  "handle_insufficient_responses A got threshold errors =
     (case max_by_count (ao_iter_errors A (fold count_error errors [])) of
        Some (_, _, majority_error) \<Rightarrow> majority_error
      | None \<Rightarrow> error_response_of (Failure (''Insufficient responses: got '' @ decimal got @ '', need '' @ decimal threshold @
          ''. Errors: '' @ ao_show_errors A errors)))"

definition agg_handle_fetch_key ::
  "('s, 'g1::ab_group_add, 'g2::ab_group_add, 'gt::ab_group_add, 'r) bls_ops \<Rightarrow> ('v, 'ver, 'g1, 'g2) agg_ops \<Rightarrow>
   (u16 \<Rightarrow> (u16 \<times> 'g1) list \<Rightarrow> ('g1, fc_error) res) \<Rightarrow> ptb_codec \<Rightarrow> rpc_client \<Rightarrow>
   (http_request \<Rightarrow> (http_response, string) res) \<Rightarrow> ('g2 partial_key_server list \<Rightarrow> 'g2 partial_key_server list) \<Rightarrow>
   ('v, 'g2) app_state \<Rightarrow> (string \<rightharpoonup> string option) \<Rightarrow> ('g1, 'g2) fetch_key_request \<Rightarrow> (object_id \<rightharpoonup> object_id) \<Rightarrow>
   ('g1 fetch_key_response, error_response) res \<times> (object_id \<rightharpoonup> object_id)" where
  "agg_handle_fetch_key B A recover_c0 K client http completion state headers request cache =
     (let options = as_options state;
          req_id = (case headers ''Request-Id'' of Some (Some v) \<Rightarrow> v | _ \<Rightarrow> [])
      in case validate_client_sdk_headers A headers (agg_ts_sdk_version_requirement options)
                (agg_rust_sdk_version_requirement options) of
           Err e \<Rightarrow> (Err (error_response_of e), cache)
         | Panic \<Rightarrow> (Panic, cache)
         | Ok _ \<Rightarrow>
      let (expected, cache) = get_expected_full_ids K client cache (fkr_ptb request) in
      (and_then (map_err error_response_of expected) (\<lambda>expected_full_ids.
       if expected_full_ids = {} then Err (error_response_of (InvalidPTB ''Empty key ids''))
       else
         let threshold = cs_threshold (as_committee state);
             members = cs_members (as_committee state);
             committee_size = length members;
             results = map (member_task B A http options request req_id expected_full_ids) (completion members)
         in
         and_then (collect_responses (unat threshold) committee_size results [] [] 0) (\<lambda>(responses, errors, completed).
           if length responses < unat threshold
           then Err (handle_insufficient_responses A (length responses) (unat threshold) errors)
           else map_err (\<lambda>e. error_response_of (Failure (''Aggregating responses failed: '' @ ao_show_fc A e)))
                  (aggregate_verified_encrypted_responses A recover_c0 threshold responses))), cache))"

subsection \<open>The committee state\<close>

text \<open>The log of \<open>check_missing_api_credentials\<close>: the members it warns about.\<close>

definition check_missing_api_credentials ::
  "'g2 partial_key_server list \<Rightarrow> (string \<rightharpoonup> api_credentials) \<Rightarrow> (string \<times> u16 \<times> string) list" where
  "check_missing_api_credentials members api_credentials =
     map (\<lambda>m. (pks_name m, pks_party_id m, pks_url m)) (filter (\<lambda>m. api_credentials (pks_name m) = None) members)"

text \<open>\<open>clients\<close> is the outcome of building the gRPC client and the JSON-RPC client; the result
  is the state with the members it warns about.\<close>

definition load_committee_state ::
  "('w sui_node \<times> 'j, rpc_error) res \<Rightarrow> ('g2, 'epk, 'spk) sui_codec \<Rightarrow> (committee_error \<Rightarrow> string) \<Rightarrow>
   'v aggregator_options \<Rightarrow> ('w, ('v, 'g2) app_state \<times> ('w, 'j) sui_rpc_client \<times> (string \<times> u16 \<times> string) list) client_rpc" where
  "load_committee_state clients K show_err options =
     rpc_bind (rpc_lift clients) (\<lambda>(grpc_client, sui_client).
     let sui_rpc_client = new_sui_rpc_client sui_client grpc_client (rpc_retry_config (agg_rpc_config options)) True in
     rpc_bind (fetch_committee_info sui_rpc_client K show_err (agg_key_server_object_id options)) (\<lambda>(threshold, members).
       rpc_lift (Ok (\<lparr>as_committee = \<lparr>cs_threshold = threshold, cs_members = members\<rparr>, as_options = options\<rparr>,
         sui_rpc_client, check_missing_api_credentials members (agg_api_credentials options)))))"

text \<open>One tick of \<open>monitor_members_update\<close>: the new state and the warnings.\<close>

definition refresh_members ::
  "('w, 'j) sui_rpc_client \<Rightarrow> ('g2, 'epk, 'spk) sui_codec \<Rightarrow> (committee_error \<Rightarrow> string) \<Rightarrow> ('v, 'g2) app_state \<Rightarrow>
   'w \<times> observations \<Rightarrow> (('v, 'g2) app_state \<times> (string \<times> u16 \<times> string) list, 'f) res \<times> ('w \<times> observations)" where
  "refresh_members C K show_err state s =
     (let (r, s) = client_fetch_key_server_by_id C K (agg_key_server_object_id (as_options state)) s in
      (case and_then r (\<lambda>ks. map_err (\<lambda>e. rpc_new (show_err e)) (extract_committee_info ks)) of
         Ok (threshold, members) \<Rightarrow>
           let current_names = set (map pks_name (cs_members (as_committee state)));
               warnings = map (\<lambda>m. (pks_name m, pks_party_id m, pks_url m))
                 (filter (\<lambda>m. pks_name m \<notin> current_names \<and> agg_api_credentials (as_options state) (pks_name m) = None) members)
           in Ok (state\<lparr>as_committee := \<lparr>cs_threshold = threshold, cs_members = members\<rparr>\<rparr>, warnings)
       | Err e \<Rightarrow> Ok (state, [])
       | Panic \<Rightarrow> Panic, s))"

subsection \<open>The collection loop\<close>

text \<open>The answers of an aggregator that waits for all members.\<close>

definition successes :: "('a, 'e) res list \<Rightarrow> 'a list" where
  "successes rs = List.map_filter (\<lambda>r. case r of Ok x \<Rightarrow> Some x | _ \<Rightarrow> None) rs"

definition failures :: "('a, 'e) res list \<Rightarrow> 'e list" where
  "failures rs = List.map_filter (\<lambda>r. case r of Err e \<Rightarrow> Some e | _ \<Rightarrow> None) rs"

lemma successes_simps [simp]:
  "successes [] = []" "successes (Ok x # rs) = x # successes rs" "successes (Err e # rs) = successes rs"
  "failures [] = []" "failures (Ok x # rs) = failures rs" "failures (Err e # rs) = e # failures rs"
  by (simp_all add: successes_def failures_def List.map_filter_simps)

lemma set_successes: "x \<in> set (successes rs) \<longleftrightarrow> Ok x \<in> set rs"
  by (force simp: successes_def List.map_filter_def split: res.splits)

lemma successes_count: "length (filter is_ok rs) = length (successes rs)"
proof (induction rs)
  case (Cons r rs)
  then show ?case by (cases r) (simp_all add: successes_def List.map_filter_simps)
qed simp

lemma successes_failures_length: "Panic \<notin> set rs \<Longrightarrow> length (successes rs) + length (failures rs) = length rs"
proof (induction rs)
  case (Cons r rs)
  then show ?case by (cases r) auto
qed simp

text \<open>What the loop returns after \<open>k\<close> more results: the answers so far, with the threshold reached by
  the last of them, or out of reach since the last of them, or all members heard.\<close>

definition collected :: "nat \<Rightarrow> ('a, 'e) res list \<Rightarrow> 'a list \<Rightarrow> 'e list \<Rightarrow> nat \<Rightarrow> bool" where
  "collected t rs responses errors k \<longleftrightarrow>
     k \<le> length rs \<and> responses = successes (take k rs) \<and> errors = failures (take k rs) \<and>
     (if t \<le> length (successes rs) then length responses = t
      else length responses < t \<and> (t \<le> length rs \<longrightarrow> length errors = Suc (length rs - t)))"

lemma collect_responses_run:
  assumes "Panic \<notin> set rs" and "all = pre @ rs" and "Panic \<notin> set pre"
    and "length (successes pre) < t" and "pre = [] \<or> t \<le> length (successes pre) + length rs"
  shows "\<exists>responses errors k. collect_responses t (length all) rs (successes pre) (failures pre) (length pre) =
      Ok (responses, errors, k) \<and> collected t all responses errors k"
  using assms
proof (induction rs arbitrary: pre)
  case Nil
  then show ?case by (auto simp: collected_def)
next
  case (Cons r rs)
  let ?pre = "pre @ [r]"
  have ap: "successes (xs @ ys) = successes xs @ successes ys" "failures (xs @ ys) = failures xs @ failures ys"
    for xs ys :: "('a, 'b) res list"
    by (simp_all add: successes_def failures_def List.map_filter_def)
  have all: "all = ?pre @ rs" "length all - Suc (length pre) = length rs" using Cons.prems(2) by simp_all
  have len: "length (successes ?pre) + length (failures ?pre) = Suc (length pre)"
    using successes_failures_length [of ?pre] Cons.prems(1,3) by simp
  have np: "Panic \<notin> set rs" "Panic \<notin> set ?pre" using Cons.prems by auto
  have rest: "length (successes rs) \<le> length rs" using successes_failures_length [OF np(1)] by simp
  have tk: "take (Suc (length pre)) all = ?pre" by (simp add: Cons.prems(2))
  have sall: "length (successes all) = length (successes ?pre) + length (successes rs)"
    unfolding all(1) ap(1) [of ?pre rs] by simp
  consider (reached) "t \<le> length (successes ?pre)" | (lost) "length (successes ?pre) + length rs < t"
    | (more) "length (successes ?pre) < t" "t \<le> length (successes ?pre) + length rs" by linarith
  then show ?case
  proof cases
    case reached
    obtain x where r: "r = Ok x"
      using reached Cons.prems(1,4) by (cases r) (auto simp: ap)
    have "length (successes ?pre) = t" using reached Cons.prems(4) r by (simp add: ap)
    then have "collected t all (successes ?pre) (failures ?pre) (Suc (length pre))"
      using reached by (simp add: collected_def all(1) ap r)
    moreover have "collect_responses t (length all) (r # rs) (successes pre) (failures pre) (length pre) =
        Ok (successes ?pre, failures ?pre, Suc (length pre))"
      using reached by (simp add: r ap Let_def)
    ultimately show ?thesis by blast
  next
    case lost
    have old: "length (successes ?pre) \<le> Suc (length (successes pre))" "length (failures ?pre) \<le> Suc (length (failures pre))"
      using Cons.prems(1) by (cases r; simp add: ap)+
    have "length (failures ?pre) = Suc (length all - t)" if "t \<le> length all"
    proof (cases "pre = []")
      case True
      then show ?thesis using that lost len old all by (cases r) (auto simp: ap)
    next
      case False
      then show ?thesis using that lost len old all Cons.prems(5) by (cases r) (auto simp: ap)
    qed
    then have "collected t all (successes ?pre) (failures ?pre) (Suc (length pre))"
      using lost rest unfolding collected_def tk sall by (simp add: Cons.prems(2))
    moreover have "collect_responses t (length all) (r # rs) (successes pre) (failures pre) (length pre) =
        Ok (successes ?pre, failures ?pre, Suc (length pre))"
      using lost Cons.prems(1) by (cases r) (auto simp: ap Let_def all(2))
    ultimately show ?thesis by blast
  next
    case more
    have "collect_responses t (length all) (r # rs) (successes pre) (failures pre) (length pre) =
        collect_responses t (length all) rs (successes ?pre) (failures ?pre) (length ?pre)"
      using more Cons.prems(1) by (cases r) (auto simp: ap Let_def all(2))
    then show ?thesis using Cons.IH [of ?pre, OF np(1) all(1) np(2) more(1)] more(2) by simp
  qed
qed

lemma collect_responses_collected:
  assumes "Panic \<notin> set rs" and "0 < t"
  shows "\<exists>responses errors k. collect_responses t (length rs) rs [] [] 0 = Ok (responses, errors, k) \<and>
    collected t rs responses errors k"
  using collect_responses_run [of rs rs "[]" t] assms by simp

subsection \<open>Shares by key id\<close>

definition shares_of :: "('k \<times> 'x list) list \<Rightarrow> 'k \<Rightarrow> 'x list" where
  "shares_of m k = (case map_of m k of None \<Rightarrow> [] | Some xs \<Rightarrow> xs)"

definition shares_map :: "('k \<times> 'x list) list \<Rightarrow> bool" where
  "shares_map m \<longleftrightarrow> distinct (map fst m) \<and> (\<forall>(k, xs) \<in> set m. xs \<noteq> [])"

lemma keys_push_share: "fst ` set (push_share k x m) = insert k (fst ` set m)"
proof (induction m)
  case (Cons p m)
  then show ?case by (cases p; cases "fst p = k") (simp_all add: insert_commute)
qed simp

lemma shares_of_push: "shares_of (push_share k x m) k' = shares_of m k' @ (if k' = k then [x] else [])"
  by (induction m) (auto simp: shares_of_def)

lemma shares_map_push: "shares_map m \<Longrightarrow> shares_map (push_share k x m)"
proof (induction m)
  case (Cons p m)
  obtain k' xs where p: "p = (k', xs)" by (cases p)
  have "shares_map m" using Cons.prems by (auto simp: shares_map_def)
  then show ?case using Cons by (auto simp: p shares_map_def keys_push_share)
qed (simp add: shares_map_def)

lemma shares_of_response:
  "shares_of (foldl (\<lambda>m dk. push_share (dk_id dk) (p, dk_encrypted_key dk) m) m dks) k =
   shares_of m k @ map (\<lambda>dk. (p, dk_encrypted_key dk)) (filter (\<lambda>dk. dk_id dk = k) dks)"
  by (induction dks arbitrary: m) (auto simp: shares_of_push)

lemma shares_map_response:
  "shares_map m \<Longrightarrow> shares_map (foldl (\<lambda>m dk. push_share (dk_id dk) (p, dk_encrypted_key dk) m) m dks)"
  by (induction dks arbitrary: m) (auto simp: shares_map_push)

lemma shares_by_key_id_fold:
  assumes "shares_map m"
  shows "shares_map (foldl (\<lambda>m (p, r). foldl (\<lambda>m dk. push_share (dk_id dk) (p, dk_encrypted_key dk) m) m r) m responses) \<and>
    shares_of (foldl (\<lambda>m (p, r). foldl (\<lambda>m dk. push_share (dk_id dk) (p, dk_encrypted_key dk) m) m r) m responses) k =
      shares_of m k @ concat (map (\<lambda>(p, dks). map (\<lambda>dk. (p, dk_encrypted_key dk)) (filter (\<lambda>dk. dk_id dk = k) dks)) responses)"
  using assms
proof (induction responses arbitrary: m)
  case (Cons r rs)
  obtain p dks where r: "r = (p, dks)" by (cases r)
  show ?case using Cons.IH [OF shares_map_response [OF Cons.prems, of p dks]]
    by (simp add: r shares_of_response)
qed simp

lemma shares_by_key_id_map: "shares_map (shares_by_key_id responses)"
  unfolding shares_by_key_id_def
  by (rule shares_by_key_id_fold [THEN conjunct1]) (simp add: shares_map_def)

lemma shares_of_by_key_id:
  "shares_of (shares_by_key_id responses) k =
     concat (map (\<lambda>(p, dks). map (\<lambda>dk. (p, dk_encrypted_key dk)) (filter (\<lambda>dk. dk_id dk = k) dks)) responses)"
  unfolding shares_by_key_id_def
  by (rule trans [OF shares_by_key_id_fold [THEN conjunct2]]) (simp_all add: shares_map_def shares_of_def)

lemma shares_map_entry:
  assumes "shares_map m"
  shows "(k, xs) \<in> set m \<longleftrightarrow> xs = shares_of m k \<and> xs \<noteq> []"
proof
  assume "(k, xs) \<in> set m"
  then show "xs = shares_of m k \<and> xs \<noteq> []" using assms by (auto simp: shares_map_def shares_of_def)
next
  assume "xs = shares_of m k \<and> xs \<noteq> []"
  then show "(k, xs) \<in> set m" by (auto simp: shares_of_def dest: map_of_SomeD split: option.splits)
qed

text \<open>Each response holds one key for each of the expected ids.\<close>

definition complete_response :: "bytes set \<Rightarrow> 'g1 fetch_key_response \<Rightarrow> bool" where
  "complete_response ids dks \<longleftrightarrow> distinct (map dk_id dks) \<and> set (map dk_id dks) = ids"

lemma filter_single_id:
  assumes "distinct (map dk_id dks)" and "k \<in> set (map dk_id dks)"
  shows "\<exists>dk \<in> set dks. dk_id dk = k \<and> filter (\<lambda>dk. dk_id dk = k) dks = [dk]"
  using assms
proof (induction dks)
  case (Cons dk dks)
  show ?case
  proof (cases "dk_id dk = k")
    case True
    then have "filter (\<lambda>dk. dk_id dk = k) dks = []" using Cons.prems(1) by (auto simp: filter_empty_conv) (metis imageI)
    then show ?thesis using True by simp
  next
    case False
    then show ?thesis using Cons by auto
  qed
qed simp

lemma complete_shares_fst:
  assumes "\<forall>r \<in> set responses. complete_response ids (snd r)" and "k \<in> ids"
  shows "map fst (shares_of (shares_by_key_id responses) k) = map fst responses"
  using assms(1) unfolding shares_of_by_key_id
proof (induction responses)
  case (Cons r rs)
  have "complete_response ids (snd r)" using Cons.prems by simp
  then obtain dk where "filter (\<lambda>dk. dk_id dk = k) (snd r) = [dk]"
    using filter_single_id [of "snd r" k] assms(2) unfolding complete_response_def by blast
  then show ?case using Cons by (cases r) simp
qed simp

lemma shares_from_responses:
  "(p, e) \<in> set (shares_of (shares_by_key_id responses) k) \<longleftrightarrow>
   (\<exists>dks. (p, dks) \<in> set responses \<and> (\<exists>dk \<in> set dks. dk_id dk = k \<and> dk_encrypted_key dk = e))"
  unfolding shares_of_by_key_id
proof (induction responses)
  case (Cons r rs)
  show ?case
  proof (cases r)
    case (Pair p' dks)
    have "(p, e) \<in> set (map (\<lambda>dk. (p', dk_encrypted_key dk)) (filter (\<lambda>dk. dk_id dk = k) dks)) \<longleftrightarrow>
        p = p' \<and> (\<exists>dk \<in> set dks. dk_id dk = k \<and> dk_encrypted_key dk = e)" by auto
    then show ?thesis unfolding Pair using Cons.IH by (simp only: list.map concat.simps set_append Un_iff list.set prod.case) blast
  qed
qed simp

lemma shares_keys:
  assumes "responses \<noteq> []" and "\<forall>r \<in> set responses. complete_response ids (snd r)"
  shows "fst ` set (shares_by_key_id responses) = ids"
proof -
  have "k \<in> fst ` set (shares_by_key_id responses) \<longleftrightarrow> shares_of (shares_by_key_id responses) k \<noteq> []" for k
  proof
    assume "k \<in> fst ` set (shares_by_key_id responses)"
    then obtain xs where "(k, xs) \<in> set (shares_by_key_id responses)" by auto
    then show "shares_of (shares_by_key_id responses) k \<noteq> []" by (auto simp: shares_map_entry [OF shares_by_key_id_map])
  next
    assume "shares_of (shares_by_key_id responses) k \<noteq> []"
    then have "(k, shares_of (shares_by_key_id responses) k) \<in> set (shares_by_key_id responses)"
      by (simp add: shares_map_entry [OF shares_by_key_id_map])
    then show "k \<in> fst ` set (shares_by_key_id responses)" by (rule rev_image_eqI) simp
  qed
  moreover have "shares_of (shares_by_key_id responses) k \<noteq> [] \<longleftrightarrow> k \<in> ids" for k
  proof
    assume "shares_of (shares_by_key_id responses) k \<noteq> []"
    then obtain p e where "(p, e) \<in> set (shares_of (shares_by_key_id responses) k)" by (metis list.set_intros(1) list.exhaust surj_pair)
    then obtain dks dk where "(p, dks) \<in> set responses" "dk \<in> set dks" "dk_id dk = k" unfolding shares_from_responses by blast
    then show "k \<in> ids" using assms(2) [rule_format, of "(p, dks)"] by (auto simp: complete_response_def)
  next
    assume "k \<in> ids"
    then show "shares_of (shares_by_key_id responses) k \<noteq> []"
      using complete_shares_fst [OF assms(2)] assms(1) by (metis map_is_Nil_conv)
  qed
  ultimately show ?thesis by blast
qed

subsection \<open>Verified responses\<close>

lemma verify_decryption_keys_Ok:
  assumes "finite ids"
  shows "verify_decryption_keys B A dks pk vk p ids = Ok () \<longleftrightarrow>
    complete_response ids dks \<and> (\<forall>dk \<in> set dks. verify_encrypted_signature B (dk_encrypted_key dk) vk pk (dk_id dk) = Ok ())"
proof -
  have guards: "length dks = card ids \<and> card (set (map dk_id dks)) = length dks \<and> set (map dk_id dks) = ids \<longleftrightarrow>
      complete_response ids dks"
    using card_distinct [of "map dk_id dks"] distinct_card [of "map dk_id dks"] by (auto simp: complete_response_def)
  show ?thesis unfolding verify_decryption_keys_def Let_def guards [symmetric]
    by (simp add: and_then_Ok_iff collect_unit_Ok map_err_Ok_iff)
qed

text \<open>A key of a response that passed verification decrypts to the member's key share.\<close>

lemma verified_share_response:
  assumes "bls_laws B" and "pairing_nondegenerate B" and "finite ids"
    and "verify_decryption_keys B A dks (public_key_from_master_key B share)
      (VerificationKey (smul (g2 B) (generator (g2 B)) sk)) p ids = Ok ()"
  shows "complete_response ids dks" and "share_response B (SecretKey sk) share dks"
proof -
  show "complete_response ids dks" using assms(4) by (simp add: verify_decryption_keys_Ok [OF assms(3)])
  show "share_response B (SecretKey sk) share dks" unfolding share_response_def
  proof
    fix dk assume "dk \<in> set dks"
    then have v: "verify_encrypted_signature B (dk_encrypted_key dk) (VerificationKey (smul (g2 B) (generator (g2 B)) sk))
        (public_key_from_master_key B share) (dk_id dk) = Ok ()"
      using assms(4) by (simp add: verify_decryption_keys_Ok [OF assms(3)])
    obtain c1 c2 where "dk_encrypted_key dk = Encryption c1 c2" by (cases "dk_encrypted_key dk")
    with v show "eg_decrypt (g1 B) (SecretKey sk) (dk_encrypted_key dk) = ibe_extract B share (dk_id dk)"
      by (auto simp only: verify_encrypted_signature_iff [OF assms(1,2)] res.distinct split: if_splits)
  qed
qed

subsection \<open>Aggregation\<close>

definition committee_key ::
  "('s::field, 'g1, 'g2, 'gt, 'r) bls_ops \<Rightarrow> (u16 \<Rightarrow> 's) \<Rightarrow> 's list \<Rightarrow> 'g2 committee_snapshot \<Rightarrow> bool" where
  "committee_key B scalar cs snapshot \<longleftrightarrow>
     cs \<noteq> [] \<and> length cs \<le> unat (cs_threshold snapshot) \<and>
     (\<forall>m \<in> set (cs_members snapshot). pks_partial_pk m = public_key_from_master_key B (peval cs (scalar (pks_party_id m + 1))))"

text \<open>The law of \<open>recover_c0\<close> on the indices of a committee.\<close>

definition recover_law ::
  "('s::field, 'g1::ab_group_add, 'g2, 'gt, 'r) bls_ops \<Rightarrow> (u16 \<Rightarrow> (u16 \<times> 'g1) list \<Rightarrow> ('g1, fc_error) res) \<Rightarrow>
   (u16 \<Rightarrow> 's) \<Rightarrow> 'g2 committee_snapshot \<Rightarrow> bool" where
  "recover_law B recover_c0 scalar snapshot \<longleftrightarrow>
     (\<forall>indices. distinct indices \<and> 0 \<notin> set indices \<and> length indices = unat (cs_threshold snapshot) \<and>
        set indices \<subseteq> (\<lambda>m. pks_party_id m + 1) ` set (cs_members snapshot) \<longrightarrow>
        recovers_c0 (smul (g1 B)) recover_c0 (cs_threshold snapshot) indices scalar)"

lemma plus1_distinct: "distinct xs \<Longrightarrow> distinct (map (\<lambda>i. i + 1 :: u16) xs)"
  by (simp add: distinct_map inj_on_def)

lemma aggregate_key_shares:
  assumes B: "bls_laws B" and key: "committee_key B scalar cs snapshot" and law: "recover_law B recover_c0 scalar snapshot"
    and t: "threshold = cs_threshold snapshot"
    and acc: "shares_accepted threshold es" and len: "length es = unat threshold"
    and members: "set (map fst es) \<subseteq> pks_party_id ` set (cs_members snapshot)"
    and dec: "\<forall>(i, e) \<in> set es. eg_decrypt (g1 B) sk e = ibe_extract B (peval cs (scalar (i + 1))) k"
  shows "\<exists>e. aggregate_encrypted recover_c0 threshold es = Ok e \<and> eg_decrypt (g1 B) sk e = ibe_extract B (cs ! 0) k"
proof -
  let ?h = "hash_to_g1 B k" and ?m = "smul (g1 B)"
  have m: "scalar_action ?m" using B by (simp add: bls_laws_def)
  have cs: "cs \<noteq> []" "length cs \<le> unat threshold" using key by (auto simp: committee_key_def t)
  have idx: "map (\<lambda>(i, _). i + 1) es = map (\<lambda>i. i + 1) (map fst es)" by (simp add: case_prod_unfold)
  have "distinct (map (\<lambda>i. i + 1) (map fst es))" using acc by (intro plus1_distinct) (simp add: shares_accepted_iff)
  moreover have "0 \<notin> set (map (\<lambda>i. i + 1) (map fst es))"
  proof
    assume "0 \<in> set (map (\<lambda>i. i + 1) (map fst es))"
    then obtain i where i: "i \<in> set (map fst es)" "i + 1 = 0" by fastforce
    then have "i \<noteq> U16_MAX" using acc by (auto simp only: shares_accepted_iff)
    then show False using i(2) aggregated_index by blast
  qed
  ultimately have rc: "recovers_c0 ?m recover_c0 threshold (map (\<lambda>(i, _). i + 1) es) scalar"
    using law members len unfolding recover_law_def idx t by fastforce
  have "\<exists>e. aggregate_encrypted recover_c0 threshold es = Ok e \<and> eg_decrypt (g1 B) sk e = map (?m ?h) cs ! 0"
  proof (rule aggregate_shares [OF m acc _ _ rc])
    show "eg_decrypt (g1 B) sk e = geval ?m (map (?m ?h) cs) (scalar (i + 1))" if "(i, e) \<in> set es" for i e
      using dec that by (auto simp: geval_map_smul [OF m] ibe_extract_def)
  qed (use cs in simp_all)
  then show ?thesis using cs(1) by (simp add: ibe_extract_def)
qed

lemma aggregate_responses_parties:
  assumes "aggregate_verified_encrypted_responses A recover_c0 threshold responses = Ok resp" and "permutes (ao_iter_shares A)"
    and "\<forall>r \<in> set responses. complete_response ids (snd r)" and "ids \<noteq> {}" and "responses \<noteq> []"
  shows "shares_accepted threshold responses"
proof -
  obtain k where k: "k \<in> ids" using assms(4) by blast
  let ?es = "shares_of (shares_by_key_id responses) k"
  have fst_es: "map fst ?es = map fst responses" by (rule complete_shares_fst [OF assms(3) k])
  then have "?es \<noteq> []" using assms(5) by (metis map_is_Nil_conv)
  then have "(k, ?es) \<in> set (ao_iter_shares A (shares_by_key_id responses))"
    by (simp add: permutes_set [OF assms(2)] shares_map_entry [OF shares_by_key_id_map])
  then obtain dk where "and_then (aggregate_encrypted recover_c0 threshold ?es) (\<lambda>a. Ok \<lparr>dk_id = k, dk_encrypted_key = a\<rparr>) = Ok dk"
    using assms(1) collect_res_is_okD [of _ _ resp "(k, ?es)"]
    unfolding aggregate_verified_encrypted_responses_def by (fastforce split: if_splits)
  then have acc: "shares_accepted threshold ?es" by (auto simp: aggregate_encrypted_eq and_then_Ok_iff split: if_splits)
  have "length ?es = length responses" using fst_es by (metis length_map)
  then show ?thesis using acc by (simp add: shares_accepted_iff fst_es del: set_map)
qed

lemma aggregate_responses_Ok:
  assumes B: "bls_laws B" and key: "committee_key B scalar cs snapshot" and law: "recover_law B recover_c0 scalar snapshot"
    and iter: "permutes (ao_iter_shares A)" and t: "threshold = cs_threshold snapshot"
    and len: "length responses = unat threshold" and acc: "shares_accepted threshold responses"
    and complete: "\<forall>r \<in> set responses. complete_response ids (snd r)"
    and members: "set (map fst responses) \<subseteq> pks_party_id ` set (cs_members snapshot)"
    and shares: "\<forall>(i, dks) \<in> set responses. share_response B sk (peval cs (scalar (i + 1))) dks"
  shows "\<exists>resp. aggregate_verified_encrypted_responses A recover_c0 threshold responses = Ok resp \<and>
    complete_response ids resp \<and> share_response B sk (cs ! 0) resp"
proof -
  let ?m = "ao_iter_shares A (shares_by_key_id responses)"
  let ?f = "\<lambda>(k, es). and_then (aggregate_encrypted recover_c0 threshold es) (\<lambda>a. Ok \<lparr>dk_id = k, dk_encrypted_key = a\<rparr>)"
  have ne: "responses \<noteq> []" using acc by (auto simp: shares_accepted_def unsigned_eq_0_iff)
  have keys: "fst ` set ?m = ids" using shares_keys [OF ne complete] by (simp add: permutes_set [OF iter])
  have entry: "es = shares_of (shares_by_key_id responses) k" if "(k, es) \<in> set ?m" for k es
    using that by (simp add: permutes_set [OF iter] shares_map_entry [OF shares_by_key_id_map])
  have agg: "\<exists>e. aggregate_encrypted recover_c0 threshold es = Ok e \<and> eg_decrypt (g1 B) sk e = ibe_extract B (cs ! 0) k"
    if kes: "(k, es) \<in> set ?m" for k es
  proof (rule aggregate_key_shares [OF B key law t])
    have "k \<in> ids" using kes keys by force
    then have fst_es: "map fst es = map fst responses" using complete_shares_fst [OF complete] entry [OF kes] by simp
    then have "length es = length responses" by (metis length_map)
    then show "length es = unat threshold" "shares_accepted threshold es" "set (map fst es) \<subseteq> pks_party_id ` set (cs_members snapshot)"
      using acc len members by (simp_all add: shares_accepted_iff fst_es del: set_map)
    show "\<forall>(i, e) \<in> set es. eg_decrypt (g1 B) sk e = ibe_extract B (peval cs (scalar (i + 1))) k"
      using shares unfolding entry [OF kes] by (fastforce simp: shares_from_responses share_response_def)
  qed
  have "\<exists>resp. collect_res ?f ?m = Ok resp" by (rule collect_res_exists) (use agg in fastforce)
  then obtain resp where run: "collect_res ?f ?m = Ok resp" by blast
  note nth = collect_res_all_Ok [OF run]
  have each: "dk_id (resp ! i) = fst (?m ! i) \<and> eg_decrypt (g1 B) sk (dk_encrypted_key (resp ! i)) = ibe_extract B (cs ! 0) (dk_id (resp ! i))"
    if "i < length ?m" for i
  proof -
    have "(fst (?m ! i), snd (?m ! i)) \<in> set ?m" using that by simp
    from agg [OF this] obtain e where "aggregate_encrypted recover_c0 threshold (snd (?m ! i)) = Ok e"
      and e: "eg_decrypt (g1 B) sk e = ibe_extract B (cs ! 0) (fst (?m ! i))" by blast
    moreover have "?f (?m ! i) = Ok (resp ! i)" using nth that by blast
    ultimately have "resp ! i = \<lparr>dk_id = fst (?m ! i), dk_encrypted_key = e\<rparr>" by (simp add: case_prod_unfold)
    then show ?thesis using e by simp
  qed
  have ids: "map dk_id resp = map fst ?m" by (rule nth_equalityI) (use nth each in simp_all)
  have "distinct (map fst ?m)"
    using shares_by_key_id_map [of responses] by (simp add: permutes_distinct_map [OF iter] shares_map_def)
  then have "complete_response ids resp" unfolding complete_response_def ids using keys by simp
  moreover have "share_response B sk (cs ! 0) resp"
    unfolding share_response_def using nth each by (metis in_set_conv_nth)
  ultimately show ?thesis using run len by (simp add: aggregate_verified_encrypted_responses_def)
qed

subsection \<open>The handler\<close>

text \<open>The results of the members' tasks, in the order in which they complete.\<close>

definition task_results ::
  "('s, 'g1::ab_group_add, 'g2::ab_group_add, 'gt::ab_group_add, 'r) bls_ops \<Rightarrow> ('v, 'ver, 'g1, 'g2) agg_ops \<Rightarrow>
   (http_request \<Rightarrow> (http_response, string) res) \<Rightarrow> ('g2 partial_key_server list \<Rightarrow> 'g2 partial_key_server list) \<Rightarrow>
   ('v, 'g2) app_state \<Rightarrow> (string \<rightharpoonup> string option) \<Rightarrow> ('g1, 'g2) fetch_key_request \<Rightarrow> bytes set \<Rightarrow>
   (u16 \<times> 'g1 fetch_key_response, error_response) res list" where
  "task_results B A http completion state headers request ids =
     map (member_task B A http (as_options state) request
         (case headers ''Request-Id'' of Some (Some v) \<Rightarrow> v | _ \<Rightarrow> []) ids)
       (completion (cs_members (as_committee state)))"

lemma collected_take:
  assumes "collected t rs responses errors k" and "t \<le> length (successes rs)"
  shows "responses = take t (successes rs)"
proof -
  have "successes rs = successes (take k rs) @ successes (drop k rs)"
    by (subst append_take_drop_id [of k rs, symmetric], simp only: successes_def List.map_filter_def filter_append map_append)
  moreover have "responses = successes (take k rs)" "length responses = t" using assms by (auto simp: collected_def)
  ultimately show ?thesis by simp
qed

text \<open>The handler past the validation of the headers and of the transaction.\<close>

lemma agg_handle_eq:
  assumes "validate_client_sdk_headers A headers (agg_ts_sdk_version_requirement (as_options state))
      (agg_rust_sdk_version_requirement (as_options state)) = Ok sdk"
    and "fst (get_expected_full_ids K client cache (fkr_ptb request)) = Ok ids" and "ids \<noteq> {}"
    and "rs = task_results B A http completion state headers request ids"
    and "Panic \<notin> set rs" and "t = cs_threshold (as_committee state)" and "t \<noteq> 0"
    and "length (completion (cs_members (as_committee state))) = length (cs_members (as_committee state))"
  shows "if unat t \<le> length (successes rs)
    then fst (agg_handle_fetch_key B A recover_c0 K client http completion state headers request cache) =
      map_err (\<lambda>e. error_response_of (Failure (''Aggregating responses failed: '' @ ao_show_fc A e)))
        (aggregate_verified_encrypted_responses A recover_c0 t (take (unat t) (successes rs)))
    else \<exists>responses errors k. collected (unat t) rs responses errors k \<and>
      fst (agg_handle_fetch_key B A recover_c0 K client http completion state headers request cache) =
        Err (handle_insufficient_responses A (length responses) (unat t) errors)"
proof -
  have "0 < unat t" using assms(7) by (simp add: unat_gt_0)
  from collect_responses_collected [OF assms(5) this]
  obtain responses errors k where c: "collect_responses (unat t) (length rs) rs [] [] 0 = Ok (responses, errors, k)"
    "collected (unat t) rs responses errors k" by blast
  have len: "length rs = length (cs_members (as_committee state))" by (simp add: assms(4,8) task_results_def)
  have "fst (agg_handle_fetch_key B A recover_c0 K client http completion state headers request cache) =
      (if length responses < unat t then Err (handle_insufficient_responses A (length responses) (unat t) errors)
       else map_err (\<lambda>e. error_response_of (Failure (''Aggregating responses failed: '' @ ao_show_fc A e)))
         (aggregate_verified_encrypted_responses A recover_c0 t responses))"
    using assms(1-3) c(1)
    by (simp add: agg_handle_fetch_key_def Let_def case_prod_beta len task_results_def [symmetric] assms(4) [symmetric] assms(6) [symmetric])
  moreover have "length responses = unat t" if "unat t \<le> length (successes rs)" using c(2) that by (auto simp: collected_def)
  moreover have "length responses < unat t" if "\<not> unat t \<le> length (successes rs)" using c(2) that by (auto simp: collected_def)
  ultimately show ?thesis using c(2) collected_take [OF c(2)] by auto
qed

lemma agg_handle_Ok:
  assumes "fst (agg_handle_fetch_key B A recover_c0 K client http completion state headers request cache) = Ok resp"
  obtains sdk ids where
    "validate_client_sdk_headers A headers (agg_ts_sdk_version_requirement (as_options state))
      (agg_rust_sdk_version_requirement (as_options state)) = Ok sdk"
    "fst (get_expected_full_ids K client cache (fkr_ptb request)) = Ok ids" "ids \<noteq> {}"
  using assms
  by (auto simp: agg_handle_fetch_key_def Let_def case_prod_beta and_then_Ok_iff map_err_Ok_iff split: res.splits if_splits)

lemma expected_finite: "fst (get_expected_full_ids K client cache ptb) = Ok ids \<Longrightarrow> finite ids"
  by (auto simp: get_expected_full_ids_def Let_def and_then_Ok_iff split: res.splits prod.splits)

lemma member_task_Ok:
  assumes "bls_laws B" and "pairing_nondegenerate B" and "finite ids"
    and "fkr_enc_verification_key request = VerificationKey (smul (g2 B) (generator (g2 B)) sk)"
    and "pks_partial_pk m = public_key_from_master_key B share"
    and "member_task B A http options request req_id ids m = Ok (p, dks)"
  shows "p = pks_party_id m \<and> complete_response ids dks \<and> share_response B (SecretKey sk) share dks"
proof -
  have "p = pks_party_id m \<and> verify_decryption_keys B A dks (public_key_from_master_key B share)
      (VerificationKey (smul (g2 B) (generator (g2 B)) sk)) (pks_party_id m) ids = Ok ()"
    using assms(6) unfolding member_task_def fetch_from_member_def assms(4,5)
    by (auto simp: and_then_Ok_iff map_err_Ok_iff split: option.splits if_splits)
  then show ?thesis using verified_share_response [OF assms(1-3)] by blast
qed

text \<open>The third-party calls of a task return.\<close>

definition agg_returns ::
  "('v, 'ver, 'g1, 'g2) agg_ops \<Rightarrow> (http_request \<Rightarrow> (http_response, string) res) \<Rightarrow> ('g1, 'g2) fetch_key_request \<Rightarrow> bool" where
  "agg_returns A http request \<longleftrightarrow>
     is_ok (ao_request_json A request) \<and> (\<forall>req. http req \<noteq> Panic) \<and> (\<forall>b. ao_parse_response A b \<noteq> Panic)"

lemma verify_decryption_keys_not_Panic: "verify_decryption_keys B A dks pk vk p ids \<noteq> Panic"
proof -
  have "verify_encrypted_signature B e vk pk i \<noteq> Panic" for e i by (simp add: verify_encrypted_signature_def Let_def)
  then show ?thesis
    by (auto simp: verify_decryption_keys_def Let_def and_then_Panic_iff dest!: collect_res_PanicD)
qed

lemma task_results_not_Panic:
  assumes "agg_returns A http request"
  shows "Panic \<notin> set (task_results B A http completion state headers request ids)"
proof -
  have v: "validate_key_server_version A h req \<noteq> Panic" for h req
    by (auto simp: validate_key_server_version_def and_then_Panic_iff split: if_splits)
  have "fetch_from_member B A http m request i req creds n ids \<noteq> Panic" for m i req creds n
    using assms
    by (auto simp: v verify_decryption_keys_not_Panic fetch_from_member_def agg_returns_def is_ok_iff and_then_Panic_iff split: if_splits option.splits)
  then have "member_task B A http opts request i ids m \<noteq> Panic" for opts i m
    by (auto simp: member_task_def and_then_Panic_iff split: option.splits)
  then show ?thesis unfolding task_results_def set_map image_iff by metis
qed

lemma task_results_Ok:
  assumes "bls_laws B" and "pairing_nondegenerate B" and "committee_key B scalar cs (as_committee state)" and "permutes completion"
    and "fkr_enc_verification_key request = VerificationKey (smul (g2 B) (generator (g2 B)) sk)" and "finite ids"
    and "rs = task_results B A http completion state headers request ids" and "set responses \<subseteq> set (successes rs)"
  shows "\<forall>r \<in> set responses. complete_response ids (snd r)"
    and "set (map fst responses) \<subseteq> pks_party_id ` set (cs_members (as_committee state))"
    and "\<forall>(i, dks) \<in> set responses. share_response B (SecretKey sk) (peval cs (scalar (i + 1))) dks"
proof -
  have *: "i \<in> pks_party_id ` set (cs_members (as_committee state)) \<and> complete_response ids dks \<and>
      share_response B (SecretKey sk) (peval cs (scalar (i + 1))) dks" if idks: "(i, dks) \<in> set (successes rs)" for i dks
  proof -
    let ?id = "case headers ''Request-Id'' of Some (Some v) \<Rightarrow> v | _ \<Rightarrow> []"
    obtain m where m: "m \<in> set (cs_members (as_committee state))"
        "member_task B A http (as_options state) request ?id ids m = Ok (i, dks)"
      using idks assms(4,7) by (auto simp: set_successes task_results_def permutes_set)
    have pk: "pks_partial_pk m = public_key_from_master_key B (peval cs (scalar (pks_party_id m + 1)))"
      using assms(3) m(1) by (simp add: committee_key_def)
    show ?thesis using member_task_Ok [OF assms(1,2,6,5) pk m(2)] m(1) by blast
  qed
  then have *: "i \<in> pks_party_id ` set (cs_members (as_committee state)) \<and> complete_response ids dks \<and>
      share_response B (SecretKey sk) (peval cs (scalar (i + 1))) dks" if "(i, dks) \<in> set responses" for i dks
    using that assms(8) by blast
  then show "\<forall>r \<in> set responses. complete_response ids (snd r)" by force
  show "set (map fst responses) \<subseteq> pks_party_id ` set (cs_members (as_committee state))" using * by fastforce
  show "\<forall>(i, dks) \<in> set responses. share_response B (SecretKey sk) (peval cs (scalar (i + 1))) dks" using * by blast
qed

text \<open>When the party ids of the members differ, so do those of the successful answers.\<close>

lemma successes_distinct:
  assumes "distinct (map pks_party_id ms)" and "\<forall>m \<in> set ms. \<forall>p dks. f m = Ok (p, dks) \<longrightarrow> p = pks_party_id m"
  shows "distinct (map fst (successes (map f ms)))" and "fst ` set (successes (map f ms)) \<subseteq> pks_party_id ` set ms"
proof -
  have sub: "fst ` set (successes (map f ms)) \<subseteq> pks_party_id ` set ms"
    if "\<forall>m \<in> set ms. \<forall>p dks. f m = Ok (p, dks) \<longrightarrow> p = pks_party_id m" for ms
  proof
    fix p assume "p \<in> fst ` set (successes (map f ms))"
    then obtain dks m where "m \<in> set ms" "f m = Ok (p, dks)" by (auto simp: set_successes) (metis image_iff)
    then show "p \<in> pks_party_id ` set ms" using that by blast
  qed
  then show "fst ` set (successes (map f ms)) \<subseteq> pks_party_id ` set ms" using assms(2) .
  show "distinct (map fst (successes (map f ms)))" using assms
  proof (induction ms)
    case (Cons m ms)
    then have "fst ` set (successes (map f ms)) \<subseteq> pks_party_id ` set ms" by (intro sub) simp
    moreover have "f m = Panic \<Longrightarrow> successes (map f (m # ms)) = successes (map f ms)"
      by (simp add: successes_def List.map_filter_simps)
    ultimately show ?case using Cons by (cases "f m") auto
  qed simp
qed

lemma agg_handle_live:
  assumes "bls_laws B" and "pairing_nondegenerate B" and "permutes (ao_iter_shares A)" and "permutes completion"
    and "committee_key B scalar cs (as_committee state)" and "recover_law B recover_c0 scalar (as_committee state)"
    and "fkr_enc_verification_key request = VerificationKey (smul (g2 B) (generator (g2 B)) sk)"
    and "rs = task_results B A http completion state headers request ids" and "agg_returns A http request"
    and "distinct (map pks_party_id (cs_members (as_committee state)))"
    and "U16_MAX \<notin> pks_party_id ` set (cs_members (as_committee state))"
    and "validate_client_sdk_headers A headers (agg_ts_sdk_version_requirement (as_options state))
      (agg_rust_sdk_version_requirement (as_options state)) = Ok sdk"
    and "fst (get_expected_full_ids K client cache (fkr_ptb request)) = Ok ids" and "ids \<noteq> {}"
  shows "is_ok (fst (agg_handle_fetch_key B A recover_c0 K client http completion state headers request cache)) \<longleftrightarrow>
    unat (cs_threshold (as_committee state)) \<le> length (filter is_ok rs)"
proof -
  define t where "t = cs_threshold (as_committee state)"
  define responses where "responses = take (unat t) (successes rs)"
  let ?members = "cs_members (as_committee state)"
  have t0: "t \<noteq> 0" using assms(5) by (auto simp: committee_key_def t_def)
  have len: "length (completion ?members) = length ?members" using assms(4) by (simp add: permutes_set)
  note count = successes_count [of rs]
  have np: "Panic \<notin> set rs" unfolding assms(8) by (rule task_results_not_Panic [OF assms(9)])
  note run = agg_handle_eq [OF assms(12-14,8) np t_def t0 len, of recover_c0]
  have "is_ok (fst (agg_handle_fetch_key B A recover_c0 K client http completion state headers request cache))"
    if enough: "unat t \<le> length (successes rs)"
  proof -
    have sub: "set responses \<subseteq> set (successes rs)" by (simp add: responses_def set_take_subset)
    note ok = task_results_Ok [OF assms(1,2,5,4,7) expected_finite [OF assms(13)] assms(8) sub]
    have "distinct (map pks_party_id (completion ?members))" using assms(4,10) by (simp add: permutes_distinct_map)
    then have "distinct (map fst (successes rs))" unfolding assms(8) task_results_def
      by (rule successes_distinct) (auto simp: member_task_def and_then_Ok_iff split: option.splits)
    then have "distinct (map fst responses)" by (simp add: responses_def distinct_take flip: take_map)
    moreover have "length responses = unat t" using enough by (simp add: responses_def)
    moreover have "unat t < 2 ^ 16" using unsigned_less [of t] by simp
    then have "unat t \<le> 65535" by simp
    moreover have "U16_MAX \<notin> set (map fst responses)" using ok(2) assms(11) by blast
    ultimately have acc: "shares_accepted t responses" using t0 by (simp add: shares_accepted_iff del: set_map)
    have "\<exists>resp. aggregate_verified_encrypted_responses A recover_c0 t responses = Ok resp \<and>
        complete_response ids resp \<and> share_response B (SecretKey sk) (cs ! 0) resp"
      by (rule aggregate_responses_Ok [OF assms(1,5,6,3) t_def _ acc ok]) (use enough in \<open>simp add: responses_def\<close>)
    then show ?thesis using run enough by (auto simp: responses_def)
  qed
  moreover have "\<not> is_ok (fst (agg_handle_fetch_key B A recover_c0 K client http completion state headers request cache))"
    if "\<not> unat t \<le> length (successes rs)" using run that by auto
  ultimately show ?thesis unfolding count t_def by blast
qed

lemma agg_handle_sound:
  assumes "bls_laws B" and "pairing_nondegenerate B" and "permutes (ao_iter_shares A)" and "permutes completion"
    and "committee_key B scalar cs (as_committee state)" and "recover_law B recover_c0 scalar (as_committee state)"
    and "fkr_enc_verification_key request = VerificationKey (smul (g2 B) (generator (g2 B)) sk)"
    and "agg_returns A http request"
    and "fst (agg_handle_fetch_key B A recover_c0 K client http completion state headers request cache) = Ok resp"
  shows "\<exists>ids. fst (get_expected_full_ids K client cache (fkr_ptb request)) = Ok ids \<and>
    distinct (map dk_id resp) \<and> set (map dk_id resp) = ids \<and>
    (\<forall>dk \<in> set resp. eg_decrypt (g1 B) (SecretKey sk) (dk_encrypted_key dk) = ibe_extract B (cs ! 0) (dk_id dk))"
proof -
  obtain sdk ids where sdk: "validate_client_sdk_headers A headers (agg_ts_sdk_version_requirement (as_options state))
      (agg_rust_sdk_version_requirement (as_options state)) = Ok sdk"
    and ids: "fst (get_expected_full_ids K client cache (fkr_ptb request)) = Ok ids" "ids \<noteq> {}"
    using agg_handle_Ok [OF assms(9)] by blast
  define rs where "rs = task_results B A http completion state headers request ids"
  define t where "t = cs_threshold (as_committee state)"
  define responses where "responses = take (unat t) (successes rs)"
  have t0: "t \<noteq> 0" using assms(5) by (auto simp: committee_key_def t_def)
  have len: "length (completion (cs_members (as_committee state))) = length (cs_members (as_committee state))"
    using assms(4) by (simp add: permutes_set)
  have np: "Panic \<notin> set rs" unfolding rs_def by (rule task_results_not_Panic [OF assms(8)])
  note run = agg_handle_eq [OF sdk ids rs_def np t_def t0 len, of recover_c0]
  have enough: "unat t \<le> length (successes rs)" using run assms(9) by (auto split: if_splits)
  have agg: "aggregate_verified_encrypted_responses A recover_c0 t responses = Ok resp"
    using trans [OF sym [OF run [unfolded if_P [OF enough]]] assms(9)] unfolding map_err_Ok_iff responses_def .
  have sub: "set responses \<subseteq> set (successes rs)" by (simp add: responses_def set_take_subset)
  note ok = task_results_Ok [OF assms(1,2,5,4,7) expected_finite [OF ids(1)] rs_def sub]
  have ne: "responses \<noteq> []" using enough t0 by (auto simp: responses_def unsigned_eq_0_iff)
  have acc: "shares_accepted t responses" by (rule aggregate_responses_parties [OF agg assms(3) ok(1) ids(2) ne])
  have "\<exists>resp. aggregate_verified_encrypted_responses A recover_c0 t responses = Ok resp \<and>
      complete_response ids resp \<and> share_response B (SecretKey sk) (cs ! 0) resp"
    by (rule aggregate_responses_Ok [OF assms(1,5,6,3) t_def _ acc ok]) (use enough in \<open>simp add: responses_def\<close>)
  then show ?thesis using agg ids(1) by (auto simp: complete_response_def share_response_def)
qed

subsection \<open>The aggregator as a key service\<close>

text \<open>An answer of the aggregator of a committee whose members hold shares of \<open>key\<close>, to a request
  with the client's verification key.\<close>

definition aggregator_answers ::
  "('s::field, 'g1::ab_group_add, 'g2::ab_group_add, 'gt::ab_group_add, 'r) bls_ops \<Rightarrow> ('v, 'ver, 'g1, 'g2) agg_ops \<Rightarrow>
   (u16 \<Rightarrow> (u16 \<times> 'g1) list \<Rightarrow> ('g1, fc_error) res) \<Rightarrow> ptb_codec \<Rightarrow> rpc_client \<Rightarrow>
   (http_request \<Rightarrow> (http_response, string) res) \<Rightarrow> ('g2 partial_key_server list \<Rightarrow> 'g2 partial_key_server list) \<Rightarrow>
   ('v, 'g2) app_state \<Rightarrow> (string \<rightharpoonup> string option) \<Rightarrow> ('g1, 'g2) fetch_key_request \<Rightarrow> (object_id \<rightharpoonup> object_id) \<Rightarrow>
   's \<Rightarrow> 's \<Rightarrow> 'g1 fetch_key_response \<Rightarrow> bool" where
  "aggregator_answers B A recover_c0 K client http completion state headers request cache sk key resp \<longleftrightarrow>
     bls_laws B \<and> pairing_nondegenerate B \<and> permutes (ao_iter_shares A) \<and> permutes completion \<and>
     (\<exists>scalar cs. committee_key B scalar cs (as_committee state) \<and> recover_law B recover_c0 scalar (as_committee state) \<and> key = cs ! 0) \<and>
     fkr_enc_verification_key request = VerificationKey (smul (g2 B) (generator (g2 B)) sk) \<and> agg_returns A http request \<and>
     fst (agg_handle_fetch_key B A recover_c0 K client http completion state headers request cache) = Ok resp"

lemma aggregator_answers_keys:
  assumes "aggregator_answers B A recover_c0 K client http completion state headers request cache sk key resp"
  shows "share_response B (SecretKey sk) key resp"
    and "\<exists>ids. fst (get_expected_full_ids K client cache (fkr_ptb request)) = Ok ids \<and> dk_id ` set resp = ids"
proof -
  from assms obtain scalar cs where c: "committee_key B scalar cs (as_committee state)"
    "recover_law B recover_c0 scalar (as_committee state)" "key = cs ! 0" by (auto simp: aggregator_answers_def)
  from assms have "bls_laws B" "pairing_nondegenerate B" "permutes (ao_iter_shares A)" "permutes completion"
    "fkr_enc_verification_key request = VerificationKey (smul (g2 B) (generator (g2 B)) sk)" "agg_returns A http request"
    "fst (agg_handle_fetch_key B A recover_c0 K client http completion state headers request cache) = Ok resp"
    by (simp_all add: aggregator_answers_def)
  note sound = agg_handle_sound [OF this(1-4) c(1,2) this(5-7)]
  then show "share_response B (SecretKey sk) key resp" by (auto simp: share_response_def c(3))
  show "\<exists>ids. fst (get_expected_full_ids K client cache (fkr_ptb request)) = Ok ids \<and> dk_id ` set resp = ids"
    using sound by auto
qed

interpretation committee: key_service B "SecretKey sk" key
    "aggregator_answers B A recover_c0 K client http completion state headers request cache sk key"
  for B A recover_c0 K client http completion state headers request cache sk key
proof
  show "bls_laws B" if "aggregator_answers B A recover_c0 K client http completion state headers request cache sk key dks" for dks
    using that by (simp add: aggregator_answers_def)
  show "share_response B (SecretKey sk) key dks"
    if "aggregator_answers B A recover_c0 K client http completion state headers request cache sk key dks" for dks
    using that by (rule aggregator_answers_keys)
qed

subsection \<open>The majority error\<close>

definition error_count :: "error_response list \<Rightarrow> string \<Rightarrow> nat" where
  "error_count errors k = length (filter (\<lambda>e. er_error e = k) errors)"

text \<open>The table of errors: one entry per type, with its count and the first error of the type.\<close>

definition error_table :: "error_response list \<Rightarrow> (string \<times> nat \<times> error_response) list \<Rightarrow> bool" where
  "error_table errors m \<longleftrightarrow>
     (\<forall>k n e. (k, n, e) \<in> set m \<longrightarrow> n = error_count errors k \<and> find (\<lambda>e. er_error e = k) errors = Some e) \<and>
     fst ` set m = er_error ` set errors \<and> distinct (map fst m)"

lemma count_error_entries:
  "distinct (map fst m) \<Longrightarrow> (k, n, e) \<in> set (count_error err m) \<longleftrightarrow>
     (if k = er_error err
      then (if k \<in> fst ` set m then \<exists>n'. n = n' + 1 \<and> (k, n', e) \<in> set m else n = 1 \<and> e = err)
      else (k, n, e) \<in> set m)"
proof (induction m)
  case (Cons x m)
  obtain k' n' f where x: "x = (k', n', f)" by (cases x)
  then have k': "k' \<notin> fst ` set m" and d: "distinct (map fst m)" using Cons.prems by auto
  have no: "(k', j, g) \<notin> set m" for j g using k' by force
  show ?case
  proof (cases "k' = er_error err")
    case True
    then show ?thesis using no by (auto simp: x)
  next
    case False
    then show ?thesis using Cons.IH [OF d] by (auto simp add: x)
  qed
qed auto

lemma count_error_keys:
  "fst ` set (count_error err m) = insert (er_error err) (fst ` set m)"
  "distinct (map fst m) \<Longrightarrow> distinct (map fst (count_error err m))"
proof -
  show keys: "fst ` set (count_error err m) = insert (er_error err) (fst ` set m)" for m
  proof (induction m)
    case (Cons x m)
    then show ?case by (cases x; cases "fst x = er_error err") (simp_all add: insert_commute)
  qed simp
  show "distinct (map fst m) \<Longrightarrow> distinct (map fst (count_error err m))"
  proof (induction m)
    case (Cons x m)
    then show ?case by (cases x; cases "fst x = er_error err") (auto simp: keys)
  qed simp
qed

lemma find_append: "find P (xs @ ys) = (case find P xs of None \<Rightarrow> find P ys | Some x \<Rightarrow> Some x)"
  by (induction xs) auto

lemma error_table_step:
  assumes "error_table errors m"
  shows "error_table (errors @ [err]) (count_error err m)"
proof -
  have d: "distinct (map fst m)" using assms by (simp add: error_table_def)
  have new: "error_count errors k = 0 \<and> find (\<lambda>e. er_error e = k) errors = None" if "k \<notin> fst ` set m" for k
    using that assms by (auto simp: error_table_def error_count_def filter_empty_conv find_None_iff)
  have "n = error_count (errors @ [err]) k \<and> find (\<lambda>e. er_error e = k) (errors @ [err]) = Some e"
    if "(k, n, e) \<in> set (count_error err m)" for k n e
    using that assms new [of k] unfolding count_error_entries [OF d] error_table_def
    by (auto simp: error_count_def find_append split: if_splits option.splits)
  then show ?thesis using assms by (auto simp: error_table_def count_error_keys)
qed

lemma error_table_fold: "error_table errors (fold count_error errors [])"
proof (induction errors rule: rev_induct)
  case (snoc e es)
  then show ?case using error_table_step by simp
qed (simp add: error_table_def)

lemma max_by_count_spec:
  "xs \<noteq> [] \<Longrightarrow> \<exists>x \<in> set xs. max_by_count xs = Some x \<and> (\<forall>y \<in> set xs. fst (snd y) \<le> fst (snd x))"
proof (induction xs)
  case (Cons x xs)
  show ?case
  proof (cases "xs = []")
    case False
    with Cons.IH obtain y where "y \<in> set xs" "max_by_count xs = Some y" "\<forall>z \<in> set xs. fst (snd z) \<le> fst (snd y)" by blast
    then show ?thesis by (auto simp: not_less intro: order_trans less_imp_le)
  qed simp
qed simp

subsection \<open>Properties\<close>

text \<open>C2: What the aggregator returns is right even when members misbehave. The members' partial
  public keys are those of shares of one polynomial with at most \<open>threshold\<close> coefficients. If
  the handler answers, the answer holds exactly one key for each id of the transaction, and each
  decrypts, under the requester's secret key, to the user secret key of that id under the
  committee's master key, whatever the members sent and in whatever order.\<close>

theorem aggregator_sound:
  assumes "bls_laws B" and "pairing_nondegenerate B" and "permutes (ao_iter_shares A)" and "permutes completion"
    and "committee_key B scalar cs (as_committee state)" and "recover_law B recover_c0 scalar (as_committee state)"
    and "fkr_enc_verification_key request = VerificationKey (smul (g2 B) (generator (g2 B)) sk)"
    and "agg_returns A http request"
    and "fst (agg_handle_fetch_key B A recover_c0 K client http completion state headers request cache) = Ok resp"
  shows "\<exists>ids. fst (get_expected_full_ids K client cache (fkr_ptb request)) = Ok ids \<and>
    distinct (map dk_id resp) \<and> set (map dk_id resp) = ids \<and>
    (\<forall>dk \<in> set resp. eg_decrypt (g1 B) (SecretKey sk) (dk_encrypted_key dk) = ibe_extract B (cs ! 0) (dk_id dk))"
  by (rule agg_handle_sound [OF assms])

text \<open>C31: The aggregator answers exactly when enough members do. With distinct party ids below
  \<open>u16::MAX\<close>, a request with valid headers and a valid transaction is answered if and only if the
  tasks of at least \<open>threshold\<close> members succeed, whichever they are.\<close>

theorem aggregator_live:
  assumes "bls_laws B" and "pairing_nondegenerate B" and "permutes (ao_iter_shares A)" and "permutes completion"
    and "committee_key B scalar cs (as_committee state)" and "recover_law B recover_c0 scalar (as_committee state)"
    and "fkr_enc_verification_key request = VerificationKey (smul (g2 B) (generator (g2 B)) sk)"
    and "rs = task_results B A http completion state headers request ids" and "agg_returns A http request"
    and "distinct (map pks_party_id (cs_members (as_committee state)))"
    and "U16_MAX \<notin> pks_party_id ` set (cs_members (as_committee state))"
    and "validate_client_sdk_headers A headers (agg_ts_sdk_version_requirement (as_options state))
      (agg_rust_sdk_version_requirement (as_options state)) = Ok sdk"
    and "fst (get_expected_full_ids K client cache (fkr_ptb request)) = Ok ids" and "ids \<noteq> {}"
  shows "is_ok (fst (agg_handle_fetch_key B A recover_c0 K client http completion state headers request cache)) \<longleftrightarrow>
    unat (cs_threshold (as_committee state)) \<le> length (filter is_ok rs)"
  by (rule agg_handle_live [OF assms])

text \<open>C32: The collection loop against waiting for all members: it keeps the first \<open>threshold\<close>
  successes whenever all the answers contain that many, so stopping early never loses a request
  that could succeed. Otherwise it stops with fewer, at the very error that puts the threshold out
  of reach. It always ends, and what it returns are the answers it has seen.\<close>

theorem collection_refines:
  assumes "Panic \<notin> set rs" and "0 < t"
  shows "case collect_responses t (length rs) rs [] [] 0 of
      Ok (responses, errors, completed) \<Rightarrow>
        completed \<le> length rs \<and> responses = successes (take completed rs) \<and> errors = failures (take completed rs) \<and>
        (if t \<le> length (successes rs) then responses = take t (successes rs)
         else length responses < t \<and> (t \<le> length rs \<longrightarrow> length errors = length rs - t + 1))
    | _ \<Rightarrow> False"
proof -
  obtain responses errors k where c: "collect_responses t (length rs) rs [] [] 0 = Ok (responses, errors, k)"
    "collected t rs responses errors k" using collect_responses_collected [OF assms] by blast
  then show ?thesis using collected_take [OF c(2)] by (auto simp: collected_def)
qed

theorem collection_refines_witness:
  "\<exists>errors. collect_responses 2 4 [Err ''a'', Ok (1 :: nat), Ok 2, Ok 3] [] [] 0 = Ok ([1, 2], errors, 3)"
  using collection_refines [of "[Err ''a'', Ok (1 :: nat), Ok 2, Ok 3]" 2] by simp

text \<open>The error of a failed request: one the members returned, of a type no other type
  outnumbers, and the first one of its type.\<close>

theorem majority_error:
  assumes "permutes (ao_iter_errors A)" and "errors \<noteq> []"
  shows "handle_insufficient_responses A got threshold errors \<in> set errors \<and>
    (\<forall>e \<in> set errors. error_count errors (er_error e) \<le>
       error_count errors (er_error (handle_insufficient_responses A got threshold errors))) \<and>
    find (\<lambda>e. er_error e = er_error (handle_insufficient_responses A got threshold errors)) errors =
      Some (handle_insufficient_responses A got threshold errors)"
proof -
  let ?m = "fold count_error errors []"
  have tab: "error_table errors ?m" by (rule error_table_fold)
  have set_m: "set (ao_iter_errors A ?m) = set ?m" using assms(1) by (simp add: permutes_set)
  have keys: "fst ` set ?m = er_error ` set errors" using tab by (simp add: error_table_def)
  then have "ao_iter_errors A ?m \<noteq> []" using assms(2) set_m by force
  from max_by_count_spec [OF this] obtain k n e where
    kne: "(k, n, e) \<in> set ?m" "max_by_count (ao_iter_errors A ?m) = Some (k, n, e)"
    and most: "\<And>k' n' e'. (k', n', e') \<in> set ?m \<Longrightarrow> n' \<le> n" unfolding set_m by fastforce
  have first: "n = error_count errors k" "find (\<lambda>e. er_error e = k) errors = Some e"
    using tab kne(1) by (auto simp: error_table_def)
  then have e: "er_error e = k" "e \<in> set errors" by (auto simp: find_Some_iff)
  have res: "handle_insufficient_responses A got threshold errors = e"
    by (simp add: handle_insufficient_responses_def kne(2))
  have "error_count errors (er_error e') \<le> error_count errors k" if e': "e' \<in> set errors" for e'
  proof -
    have "er_error e' \<in> fst ` set ?m" using e' by (simp add: keys)
    then obtain n' f where "(er_error e', n', f) \<in> set ?m" by auto
    then show ?thesis using most tab first(1) by (metis error_table_def)
  qed
  then show ?thesis unfolding res e(1) using first(2) e(2) by blast
qed

text \<open>A transaction that asks twice for one id: every member's answer is rejected, since it has a
  key per command and the expected ids are a set.\<close>

theorem duplicate_ids_rejected:
  assumes "map dk_id dks = ids" and "\<not> distinct ids"
  shows "verify_decryption_keys B A dks partial_pk vk p (set ids) =
    Err (Failure (''party '' @ decimal (unat p) @ '' returned '' @ decimal (length ids) @
      '' key(s), expected '' @ decimal (card (set ids))))"
proof -
  have "length dks = length ids" using assms(1) by (metis length_map)
  moreover have "length ids \<noteq> card (set ids)" using assms(2) by (metis card_distinct)
  ultimately show ?thesis by (simp add: verify_decryption_keys_def)
qed

subsection \<open>A concrete committee\<close>

definition gf_scalar :: "u16 \<Rightarrow> gf256" where
  "gf_scalar i = GF256 (ucast i)"

definition gf_recover_c0 :: "u16 \<Rightarrow> (u16 \<times> gf256) list \<Rightarrow> (gf256, fc_error) res" where
  "gf_recover_c0 t shares = Ok (sum_list (map (\<lambda>(i, v). v * prod_list
     (map (\<lambda>j. gf_scalar j / (gf_scalar j - gf_scalar i)) (filter (\<lambda>j. j \<noteq> i) (map fst shares)))) shares))"

definition demo_share_keys :: "gf256 \<Rightarrow> gf256 fetch_key_response" where
  "demo_share_keys share = map (\<lambda>i. \<lparr>dk_id = i, dk_encrypted_key = fst (eg_encrypt gf_group [7] (ibe_extract gf_bls share i) (PublicKey (GF256 2)))\<rparr>)
     (case full_ids demo_server_codec (ValidPtb demo_ptb) [9] of Ok ids \<Rightarrow> ids | _ \<Rightarrow> [])"

definition demo_agg :: "(unit, unit, gf256, gf256) agg_ops" where
  "demo_agg = \<lparr>ao_parse_version = (\<lambda>_. Some ()), ao_matches = (\<lambda>_ _. True), ao_show_version = (\<lambda>_. []), ao_show_req = (\<lambda>_. []),
     ao_hex = (\<lambda>_. []), ao_show_ids = (\<lambda>_. []), ao_show_fc = (\<lambda>_. []), ao_show_errors = (\<lambda>_. []),
     ao_request_json = (\<lambda>_. Ok []), ao_parse_error = (\<lambda>_. None),
     ao_parse_response = (\<lambda>b. Ok (demo_share_keys (GF256 (hd b)))), ao_iter_shares = rev, ao_iter_errors = rev,
     ao_package_version = ''1''\<rparr>"

text \<open>Two members with the shares \<open>6\<close> and \<open>3\<close> of the polynomial \<open>5 + 3 x\<close>.\<close>

definition demo_http :: "http_request \<Rightarrow> (http_response, string) res" where
  "demo_http req = (if hr_url req = ''a/v1/fetch_key'' then Ok \<lparr>hp_status = [], hp_success = True,
         hp_headers = [HEADER_KEYSERVER_VERSION \<mapsto> Some ''1''], hp_body = [6]\<rparr>
     else if hr_url req = ''b/v1/fetch_key'' then Ok \<lparr>hp_status = [], hp_success = True,
         hp_headers = [HEADER_KEYSERVER_VERSION \<mapsto> Some ''1''], hp_body = [3]\<rparr>
     else Err ''down'')"

definition demo_app_state :: "(unit, gf256) app_state" where
  "demo_app_state = \<lparr>as_committee = \<lparr>cs_threshold = 2, cs_members =
       [\<lparr>pks_name = ''a'', pks_url = ''a'', pks_partial_pk = GF256 6, pks_party_id = 0\<rparr>,
        \<lparr>pks_name = ''b'', pks_url = ''b'', pks_partial_pk = GF256 3, pks_party_id = 1\<rparr>]\<rparr>,
     as_options = \<lparr>agg_network = Testnet, agg_node_url = None, agg_key_server_object_id = [10],
       agg_ts_sdk_version_requirement = (), agg_rust_sdk_version_requirement = (), agg_key_server_version_requirement = (),
       agg_key_server_timeout_secs = 8, agg_api_credentials = (\<lambda>_. Some \<lparr>api_key_name = ''k'', api_key = ''v''\<rparr>),
       agg_rpc_config = default_rpc_config\<rparr>\<rparr>"

definition demo_headers :: "string \<rightharpoonup> string option" where
  "demo_headers = [HEADER_CLIENT_SDK_TYPE \<mapsto> Some SDK_TYPE_RUST, HEADER_CLIENT_SDK_VERSION \<mapsto> Some ''1'']"

lemma demo_agg_simps:
  "ao_request_json demo_agg r = Ok []" "ao_parse_response demo_agg b = Ok (demo_share_keys (GF256 (hd b)))"
  "ao_parse_version demo_agg v = Some ()" "ao_matches demo_agg u w" "ao_iter_shares demo_agg = rev" "ao_iter_errors demo_agg = rev"
  by (simp_all add: demo_agg_def)

lemma demo_share_keys_eval:
  "demo_share_keys (GF256 6) = [\<lparr>dk_id = [9, 7, 8], dk_encrypted_key = Encryption (GF256 7) (GF256 62)\<rparr>]"
  "demo_share_keys (GF256 3) = [\<lparr>dk_id = [9, 7, 8], dk_encrypted_key = Encryption (GF256 7) (GF256 22)\<rparr>]"
  by code_simp+

lemma demo_signatures:
  "verify_encrypted_signature gf_bls (Encryption (GF256 7) (GF256 62)) (VerificationKey (GF256 2)) (GF256 6) [9, 7, 8] = Ok ()"
  "verify_encrypted_signature gf_bls (Encryption (GF256 7) (GF256 22)) (VerificationKey (GF256 2)) (GF256 3) [9, 7, 8] = Ok ()"
  by code_simp+

lemma demo_verified:
  "verify_decryption_keys gf_bls demo_agg (demo_share_keys (GF256 6)) (GF256 6) (VerificationKey (GF256 2)) p {[9, 7, 8]} = Ok ()"
  "verify_decryption_keys gf_bls demo_agg (demo_share_keys (GF256 3)) (GF256 3) (VerificationKey (GF256 2)) p {[9, 7, 8]} = Ok ()"
  by (simp_all add: verify_decryption_keys_Ok complete_response_def demo_share_keys_eval demo_signatures)

lemma demo_expected: "fst (get_expected_full_ids demo_server_codec demo_client Map.empty (fkr_ptb demo_request)) = Ok {[9, 7, 8]}"
proof -
  have "pkg_id (ValidPtb demo_ptb) = Ok [1]" "full_ids demo_server_codec (ValidPtb demo_ptb) [9] = Ok [[9, 7, 8]]" by code_simp+
  moreover have "fst (fetch_first_pkg_id demo_client Map.empty [1]) = Ok [9]" by (simp add: fetch_first_pkg_id_def demo_client_def)
  moreover have "fkr_ptb demo_request = []" by (simp add: demo_request_def)
  ultimately show ?thesis by (simp add: get_expected_full_ids_def demo_ptb_decoded case_prod_beta Let_def)
qed

lemma demo_vk: "fkr_enc_verification_key demo_request = VerificationKey (smul (g2 gf_bls) (generator (g2 gf_bls)) (GF256 2))"
  by code_simp

lemma demo_task_results:
  "task_results gf_bls demo_agg demo_http rev demo_app_state demo_headers demo_request {[9, 7, 8]} =
     [Ok (1, demo_share_keys (GF256 3)), Ok (0, demo_share_keys (GF256 6))]"
  by (simp add: task_results_def demo_app_state_def member_task_def fetch_from_member_def demo_http_def demo_agg_simps
      validate_key_server_version_def demo_verified demo_request_def)

lemma demo_committee_key: "committee_key gf_bls gf_scalar [GF256 5, GF256 3] (as_committee demo_app_state)"
proof -
  have "GF256 6 = public_key_from_master_key gf_bls (peval [GF256 5, GF256 3] (gf_scalar 1))"
    "GF256 3 = public_key_from_master_key gf_bls (peval [GF256 5, GF256 3] (gf_scalar 2))" by code_simp+
  then show ?thesis by (simp add: committee_key_def demo_app_state_def)
qed

lemma gf_recover_law: "recover_law gf_bls gf_recover_c0 gf_scalar (as_committee demo_app_state)"
  unfolding recover_law_def
proof (intro allI impI)
  fix indices :: "u16 list"
  assume "distinct indices \<and> 0 \<notin> set indices \<and> length indices = unat (cs_threshold (as_committee demo_app_state)) \<and>
    set indices \<subseteq> (\<lambda>m. pks_party_id m + 1) ` set (cs_members (as_committee demo_app_state))"
  then have "distinct indices" "length indices = 2" "set indices \<subseteq> {1, 2}" by (simp_all add: demo_app_state_def)
  then have "indices = [1, 2] \<or> indices = [2, 1]" by (auto simp: length_Suc_conv numeral_2_eq_2)
  moreover have "recovers_c0 (smul (g1 gf_bls)) gf_recover_c0 2 [i, j] gf_scalar"
    if "(i, j) = (1, 2) \<or> (i, j) = (2, 1)" for i j
  proof -
    let ?w = "\<lambda>i j. gf_scalar j / (gf_scalar j - gf_scalar i)"
    have "?w 1 2 + ?w 2 1 = 1" "?w 1 2 * gf_scalar 1 + ?w 2 1 * gf_scalar 2 = 0" by code_simp+
    then have one: "?w i j + ?w j i = 1 \<and> ?w i j * gf_scalar i + ?w j i * gf_scalar j = 0"
      using that by (elim disjE) (simp_all only: prod.inject add.commute)
    show ?thesis unfolding recovers_c0_def
    proof (intro exI [of _ "[?w i j, ?w j i]"] conjI allI impI)
      fix vs :: "gf256 list" assume "length vs = length [i, j]"
      then obtain a b where "vs = [a, b]" by (auto simp: length_Suc_conv)
      then show "gf_recover_c0 2 (zip [i, j] vs) = Ok (\<Sum>k < length [i, j]. smul (g1 gf_bls) (vs ! k) ([?w i j, ?w j i] ! k))"
        using that by (auto simp: gf_recover_c0_def gf_bls_def gf_group_def numeral_2_eq_2)
    next
      fix k assume "k < unat (2 :: u16)"
      then have "k = 0 \<or> k = 1" by auto
      then show "(\<Sum>n < length [i, j]. [?w i j, ?w j i] ! n * gf_scalar ([i, j] ! n) ^ k) = (if k = 0 then 1 else 0)"
        using one by (auto simp: numeral_2_eq_2 simp del: times_divide_eq_left)
    qed simp
  qed
  ultimately show "recovers_c0 (smul (g1 gf_bls)) gf_recover_c0 (cs_threshold (as_committee demo_app_state)) indices gf_scalar"
    by (auto simp: demo_app_state_def)
qed

lemma demo_agg_returns: "agg_returns demo_agg demo_http demo_request"
  by (simp add: agg_returns_def demo_agg_simps demo_http_def)

lemma distinct_singleton: "distinct xs \<Longrightarrow> set xs = {a} \<Longrightarrow> xs = [a]"
proof (cases xs)
  case (Cons x ys)
  assume "distinct xs" "set xs = {a}"
  then have "x = a" "a \<notin> set ys" "set ys \<subseteq> {a}" using Cons by auto
  then have "ys = []" by (cases ys) auto
  then show ?thesis using Cons \<open>x = a\<close> by simp
qed simp

lemma rev_permutes: "permutes rev"
  by (simp add: permutes_def)

lemma demo_sdk_headers: "validate_client_sdk_headers demo_agg demo_headers () () = Ok (RustSdk, ''1'')"
  by (simp add: validate_client_sdk_headers_def demo_headers_def HEADER_CLIENT_SDK_TYPE_def HEADER_CLIENT_SDK_VERSION_def
      SDK_TYPE_RUST_def SDK_TYPE_AGGREGATOR_def SDK_TYPE_TYPESCRIPT_def from_header_def validate_client_sdk_version_def demo_agg_simps)

lemma demo_rest:
  "distinct (map pks_party_id (cs_members (as_committee demo_app_state)))"
  "U16_MAX \<notin> pks_party_id ` set (cs_members (as_committee demo_app_state))"
  "validate_client_sdk_headers demo_agg demo_headers (agg_ts_sdk_version_requirement (as_options demo_app_state))
     (agg_rust_sdk_version_requirement (as_options demo_app_state)) = Ok (RustSdk, ''1'')"
  "{[9, 7, 8]} \<noteq> ({} :: bytes set)" "permutes (ao_iter_shares demo_agg)"
  by (simp_all add: demo_app_state_def U16_MAX_def demo_sdk_headers demo_agg_simps rev_permutes)

lemmas demo_agg_live = agg_handle_live [OF gf_bls_laws demo_rest(5) rev_permutes demo_committee_key gf_recover_law demo_vk refl
  demo_agg_returns demo_rest(1-3) demo_expected demo_rest(4)]

theorem aggregator_live_witness:
  "is_ok (fst (agg_handle_fetch_key gf_bls demo_agg gf_recover_c0 demo_server_codec demo_client demo_http rev
     demo_app_state demo_headers demo_request Map.empty))"
  using aggregator_live [OF gf_bls_laws demo_rest(5) rev_permutes demo_committee_key gf_recover_law demo_vk refl
    demo_agg_returns demo_rest(1-3) demo_expected demo_rest(4)]
  by (simp add: demo_task_results) (simp add: demo_app_state_def)

theorem aggregator_sound_witness:
  "\<exists>resp. fst (agg_handle_fetch_key gf_bls demo_agg gf_recover_c0 demo_server_codec demo_client demo_http rev
     demo_app_state demo_headers demo_request Map.empty) = Ok resp \<and> map dk_id resp = [[9, 7, 8]] \<and>
     (\<forall>dk \<in> set resp. eg_decrypt (g1 gf_bls) (SecretKey (GF256 2)) (dk_encrypted_key dk) = ibe_extract gf_bls (GF256 5) (dk_id dk))"
proof -
  have "is_ok (fst (agg_handle_fetch_key gf_bls demo_agg gf_recover_c0 demo_server_codec demo_client demo_http rev
     demo_app_state demo_headers demo_request Map.empty))"
    by (subst demo_agg_live, simp add: demo_task_results, simp add: demo_app_state_def)
  then obtain resp where run: "fst (agg_handle_fetch_key gf_bls demo_agg gf_recover_c0 demo_server_codec demo_client demo_http rev
     demo_app_state demo_headers demo_request Map.empty) = Ok resp" by (auto simp: is_ok_iff)
  from aggregator_sound [OF gf_bls_laws demo_rest(5) rev_permutes demo_committee_key gf_recover_law demo_vk demo_agg_returns run]
  obtain ids where "Ok {[9, 7, 8]} = (Ok ids :: (bytes set, internal_error) res)" "distinct (map dk_id resp)" "set (map dk_id resp) = ids"
    "\<forall>dk \<in> set resp. eg_decrypt (g1 gf_bls) (SecretKey (GF256 2)) (dk_encrypted_key dk) = ibe_extract gf_bls ([GF256 5, GF256 3] ! 0) (dk_id dk)"
    unfolding demo_expected by blast
  moreover from this have "map dk_id resp = [[9, 7, 8]]" by (intro distinct_singleton) (simp_all only: res.inject)
  moreover have "[GF256 5, GF256 3] ! 0 = GF256 5" by simp
  ultimately show ?thesis using run by (intro exI [of _ resp] conjI) (simp_all only:)
qed

theorem majority_error_witness:
  "handle_insufficient_responses demo_agg 0 2 [\<lparr>er_error = ''x'', er_message = ''1''\<rparr>, \<lparr>er_error = ''y'', er_message = ''2''\<rparr>,
     \<lparr>er_error = ''y'', er_message = ''3''\<rparr>] = \<lparr>er_error = ''y'', er_message = ''2''\<rparr>"
proof -
  let ?es = "[\<lparr>er_error = ''x'', er_message = ''1''\<rparr>, \<lparr>er_error = ''y'', er_message = ''2''\<rparr>, \<lparr>er_error = ''y'', er_message = ''3''\<rparr>]"
  have "permutes (ao_iter_errors demo_agg)" by (simp add: demo_agg_simps rev_permutes)
  from majority_error [OF this, of ?es 0 2] show ?thesis
    by (auto simp: error_count_def split: if_splits)
qed

theorem duplicate_ids_rejected_witness:
  "verify_decryption_keys gf_bls demo_agg [\<lparr>dk_id = [9], dk_encrypted_key = Encryption 1 1\<rparr>, \<lparr>dk_id = [9], dk_encrypted_key = Encryption 1 1\<rparr>]
     1 (VerificationKey 1) 0 (set [[9], [9]]) \<noteq> Ok ()"
  using duplicate_ids_rejected [of "[\<lparr>dk_id = [9], dk_encrypted_key = Encryption 1 1\<rparr>, \<lparr>dk_id = [9], dk_encrypted_key = Encryption 1 1\<rparr>]"
      "[[9], [9]]" gf_bls demo_agg 1 "VerificationKey 1" 0] by simp

end
