(* ===== verification/DkgConfig.thy ===== *)
theory DkgConfig
  imports SealCommittee MasterKeys "HOL-Library.Countable"
begin

text \<open>
  The configuration file \<^verbatim>\<open>dkg.yaml\<close> of the committee command line tool
  (\<^verbatim>\<open>crates/seal-committee-cli/src/main.rs\<close>): its typed fields, the updates the commands write
  back into it, and the checks that keep a finished distributed key generation from being
  overwritten.

  An operation that touches files is a function on the state \<open>'w\<close> of the outside world. The
  file system, the YAML library, the Hex codec and the parser of addresses are the fields of
  the record \<open>cli_env\<close>; \<open>'y\<close> is the type of YAML values. Errors, text in the code, are
  constructors of \<open>dkg_config_error\<close>.
\<close>

subsection \<open>Operations on the outside world\<close>

type_synonym ('w, 'e, 'a) io = "'w \<Rightarrow> ('a, 'e) res \<times> 'w"

fun io_bind :: "('w, 'e, 'a) io \<Rightarrow> ('a \<Rightarrow> ('w, 'e, 'b) io) \<Rightarrow> ('w, 'e, 'b) io" where
  "io_bind m f w =
     (case m w of
        (Ok x, w') \<Rightarrow> f x w'
      | (Err e, w') \<Rightarrow> (Err e, w')
      | (Panic, w') \<Rightarrow> (Panic, w'))"

declare io_bind.simps [simp del]

definition io_lift :: "('a, 'e) res \<Rightarrow> ('w, 'e, 'a) io" where
  "io_lift r w = (r, w)"

definition io_map_err :: "('e \<Rightarrow> 'f) \<Rightarrow> ('w, 'e, 'a) io \<Rightarrow> ('w, 'f, 'a) io" where
  "io_map_err f m w = (map_err f (fst (m w)), snd (m w))"

text \<open>A \<open>for\<close> loop over a list whose body may return early.\<close>

fun io_fold :: "('a \<Rightarrow> 's \<Rightarrow> ('w, 'e, 's) io) \<Rightarrow> 'a list \<Rightarrow> 's \<Rightarrow> ('w, 'e, 's) io" where
  "io_fold f [] s = io_lift (Ok s)"
| "io_fold f (x # xs) s = io_bind (f x s) (io_fold f xs)"

lemma io_bind_Ok_iff:
  "io_bind m f w = (Ok y, v) \<longleftrightarrow> (\<exists>x u. m w = (Ok x, u) \<and> f x u = (Ok y, v))"
  by (auto simp: io_bind.simps split: prod.splits res.splits)

lemma io_bind_Panic_iff:
  "fst (io_bind m f w) = Panic \<longleftrightarrow> fst (m w) = Panic \<or> (\<exists>x u. m w = (Ok x, u) \<and> fst (f x u) = Panic)"
  by (auto simp: io_bind.simps split: prod.splits res.splits)

lemma io_bind_Ok [simp]: "m w = (Ok x, u) \<Longrightarrow> io_bind m f w = f x u"
  by (simp add: io_bind.simps)

lemma io_lift_Ok_iff: "io_lift r w = (Ok y, v) \<longleftrightarrow> r = Ok y \<and> v = w"
  by (auto simp: io_lift_def)

lemma io_lift_bind [simp]: "io_bind (io_lift (Ok x)) f = f x"
  by (auto simp: io_bind.simps io_lift_def)

lemma io_lift_apply [simp]: "fst (io_lift r w) = r" "snd (io_lift r w) = w"
  by (simp_all add: io_lift_def)

lemma io_map_err_Ok_iff: "io_map_err f m w = (Ok y, v) \<longleftrightarrow> m w = (Ok y, v)"
  by (cases "m w") (auto simp: io_map_err_def map_err_Ok_iff)

lemma io_map_err_Panic_iff: "fst (io_map_err f m w) = Panic \<longleftrightarrow> fst (m w) = Panic"
  by (cases "fst (m w)") (auto simp: io_map_err_def)

lemmas io_Ok_iffs = io_bind_Ok_iff io_lift_Ok_iff io_map_err_Ok_iff map_err_Ok_iff ok_or_Ok_iff

subsection \<open>Paths and strings\<close>

text \<open>\<open>Path::join\<close> with a relative component: a separator is added unless the path is empty or
  ends in one.\<close>

definition path_join :: "string \<Rightarrow> string \<Rightarrow> string" where
  "path_join p c = (if p = [] \<or> last p = CHR ''/'' then p @ c else p @ ''/'' @ c)"

text \<open>\<open>Path::extension\<close>: what follows the last dot of the file name, if the dot is not its first
  character.\<close>

definition file_name :: "string \<Rightarrow> string" where
  "file_name p = rev (takeWhile (\<lambda>c. c \<noteq> CHR ''/'') (rev p))"

definition path_extension :: "string \<Rightarrow> string option" where
  "path_extension p =
     (let name = file_name p;
          after = rev (takeWhile (\<lambda>c. c \<noteq> CHR ''.'') (rev name));
          before = take (length name - length after - 1) name
      in if name = ''..'' \<or> CHR ''.'' \<notin> set name \<or> before = [] then None else Some after)"

text \<open>\<open>str::trim\<close>: the characters with the Unicode property White_Space, in UTF-8, are removed
  at both ends.\<close>

definition white_space :: "string list" where
  "white_space =
     [[CHR 0x09], [CHR 0x0A], [CHR 0x0B], [CHR 0x0C], [CHR 0x0D], [CHR 0x20], [CHR 0xC2, CHR 0x85],
      [CHR 0xC2, CHR 0xA0], [CHR 0xE1, CHR 0x9A, CHR 0x80], [CHR 0xE2, CHR 0x80, CHR 0x80],
      [CHR 0xE2, CHR 0x80, CHR 0x81], [CHR 0xE2, CHR 0x80, CHR 0x82], [CHR 0xE2, CHR 0x80, CHR 0x83],
      [CHR 0xE2, CHR 0x80, CHR 0x84], [CHR 0xE2, CHR 0x80, CHR 0x85], [CHR 0xE2, CHR 0x80, CHR 0x86],
      [CHR 0xE2, CHR 0x80, CHR 0x87], [CHR 0xE2, CHR 0x80, CHR 0x88], [CHR 0xE2, CHR 0x80, CHR 0x89],
      [CHR 0xE2, CHR 0x80, CHR 0x8A], [CHR 0xE2, CHR 0x80, CHR 0xA8], [CHR 0xE2, CHR 0x80, CHR 0xA9],
      [CHR 0xE2, CHR 0x80, CHR 0xAF], [CHR 0xE2, CHR 0x81, CHR 0x9F], [CHR 0xE3, CHR 0x80, CHR 0x80]]"

fun strip_prefixes :: "nat \<Rightarrow> string list \<Rightarrow> string \<Rightarrow> string" where
  "strip_prefixes 0 ps s = s"
| "strip_prefixes (Suc n) ps s =
     (case find (\<lambda>p. take (length p) s = p) ps of
        Some p \<Rightarrow> strip_prefixes n ps (drop (length p) s)
      | None \<Rightarrow> s)"

definition trim :: "string \<Rightarrow> string" where
  "trim s =
     (let front = strip_prefixes (length s) white_space s
      in rev (strip_prefixes (length front) (map rev white_space) (rev front)))"

subsection \<open>The environment of the tool\<close>

record ('w, 'y) cli_env =
  fs_read_to_string :: "string \<Rightarrow> 'w \<Rightarrow> (string, string) res \<times> 'w"
  fs_write :: "string \<Rightarrow> string \<Rightarrow> 'w \<Rightarrow> (unit, string) res \<times> 'w"
  fs_create_dir_all :: "string \<Rightarrow> 'w \<Rightarrow> (unit, string) res \<times> 'w"
  fs_read_dir :: "string \<Rightarrow> 'w \<Rightarrow> ((string, string) res list, string) res \<times> 'w"
  fs_mode :: "string \<Rightarrow> 'w \<Rightarrow> (nat, string) res \<times> 'w"
  fs_set_mode :: "string \<Rightarrow> nat \<Rightarrow> 'w \<Rightarrow> (unit, string) res \<times> 'w"
  y_from_str :: "string \<Rightarrow> ('y, string) res"
  y_to_string :: "'y \<Rightarrow> (string, string) res"
  y_list_to_string :: "string list \<Rightarrow> (string, string) res"
  y_get :: "'y \<Rightarrow> string \<Rightarrow> 'y option"
  y_assign :: "'y \<Rightarrow> string list \<Rightarrow> 'y \<Rightarrow> 'y option"
  y_as_str :: "'y \<Rightarrow> string option"
  y_as_u64 :: "'y \<Rightarrow> u64 option"
  y_as_sequence :: "'y \<Rightarrow> 'y list option"
  y_string :: "string \<Rightarrow> 'y"
  y_mapping :: 'y
  hex_encode :: "bytes \<Rightarrow> string"
  hex_encode_with_format :: "bytes \<Rightarrow> string"
  hex_decode :: "string \<Rightarrow> (bytes, string) res"
  parse_address :: "string \<Rightarrow> (object_id, string) res"

text \<open>\<open>y_assign c [k\<^sub>1, \<dots>, k\<^sub>n] v\<close> is the assignment \<open>c[k\<^sub>1]\<dots>[k\<^sub>n] = v\<close>, which panics when one of
  the indexed values is neither a mapping nor null; the panic is \<open>None\<close>.\<close>

datatype dkg_config_error =
    ReadConfigFailed string string
  | ParseConfigFailed string string
  | IoFailed string
  | YamlFailed string
  | FieldMissing string
  | InvalidNetworkName string string
  | MembersEmpty
  | MemberNotString nat
  | InvalidAddress string
  | ThresholdTooSmall u64
  | OutputFieldsExist u32 "string list"
  | OutputFieldsMissing u32 "string list"
  | OldPkRequired u32
  | ConfigPkNotHex string
  | ConfigPkMismatch bytes bytes
  | KeyServerPkMismatch bytes bytes

definition load_config :: "('w, 'y) cli_env \<Rightarrow> string \<Rightarrow> ('w, dkg_config_error, 'y) io" where
  "load_config V path =
     io_bind (io_map_err (ReadConfigFailed path) (fs_read_to_string V path)) (\<lambda>content.
       io_lift (map_err (ParseConfigFailed path) (y_from_str V content)))"

subsection \<open>Reading fields\<close>

definition get_config_field :: "('w, 'y) cli_env \<Rightarrow> 'y \<Rightarrow> string \<Rightarrow> string \<Rightarrow> 'y option" where
  "get_config_field V config sec field = Option.bind (y_get V config sec) (\<lambda>s. y_get V s field)"

definition config_str :: "('w, 'y) cli_env \<Rightarrow> 'y \<Rightarrow> string \<Rightarrow> string \<Rightarrow> string option" where
  "config_str V config sec field = Option.bind (get_config_field V config sec field) (y_as_str V)"

definition get_network :: "('w, 'y) cli_env \<Rightarrow> 'y \<Rightarrow> (dkg_network, dkg_config_error) res" where
  "get_network V config =
     and_then (ok_or (FieldMissing ''NETWORK'') (config_str V config ''init-params'' ''NETWORK'')) (\<lambda>network_str.
       map_err (InvalidNetworkName network_str) (dkg_network_from_str network_str))"

definition get_node_url :: "('w, 'y) cli_env \<Rightarrow> 'y \<Rightarrow> string option" where
  "get_node_url V config = config_str V config ''init-params'' ''NODE_URL''"

definition get_members :: "('w, 'y) cli_env \<Rightarrow> 'y \<Rightarrow> (object_id list, dkg_config_error) res" where
  "get_members V config =
     and_then (ok_or (FieldMissing ''MEMBERS'')
         (Option.bind (get_config_field V config ''init-params'' ''MEMBERS'') (y_as_sequence V))) (\<lambda>members.
     if members = [] then Err MembersEmpty
     else collect_res (\<lambda>(index, member).
         and_then (ok_or (MemberNotString index) (y_as_str V member)) (\<lambda>addr_str.
           map_err InvalidAddress (parse_address V addr_str)))
       (enumerate 0 members))"

definition get_threshold :: "('w, 'y) cli_env \<Rightarrow> 'y \<Rightarrow> (u16, dkg_config_error) res" where
  "get_threshold V config =
     and_then (ok_or (FieldMissing ''THRESHOLD'')
         (Option.bind (get_config_field V config ''init-params'' ''THRESHOLD'') (y_as_u64 V))) (\<lambda>threshold.
     if threshold \<le> 1 then Err (ThresholdTooSmall threshold)
     else Ok (ucast threshold))"

definition get_address :: "('w, 'y) cli_env \<Rightarrow> 'y \<Rightarrow> string \<Rightarrow> string \<Rightarrow> (object_id, dkg_config_error) res" where
  "get_address V config sec field =
     and_then (ok_or (FieldMissing field) (config_str V config sec field)) (\<lambda>id_str.
       map_err InvalidAddress (parse_address V id_str))"

definition get_key_server_obj_id :: "('w, 'y) cli_env \<Rightarrow> 'y \<Rightarrow> (object_id, dkg_config_error) res" where
  "get_key_server_obj_id V config = get_address V config ''init-rotation-params'' ''KEY_SERVER_OBJ_ID''"

definition committee_id_section :: "('w, 'y) cli_env \<Rightarrow> 'y \<Rightarrow> string" where
  "committee_id_section V config =
     (if get_config_field V config ''init-rotation-params'' ''KEY_SERVER_OBJ_ID'' \<noteq> None
      then ''init-rotation'' else ''publish-and-init'')"

definition get_committee_pkg :: "('w, 'y) cli_env \<Rightarrow> 'y \<Rightarrow> (object_id, dkg_config_error) res" where
  "get_committee_pkg V config = get_address V config (committee_id_section V config) ''COMMITTEE_PKG''"

definition get_committee_id :: "('w, 'y) cli_env \<Rightarrow> 'y \<Rightarrow> (object_id, dkg_config_error) res" where
  "get_committee_id V config = get_address V config (committee_id_section V config) ''COMMITTEE_ID''"

definition get_my_address :: "('w, 'y) cli_env \<Rightarrow> 'y \<Rightarrow> (object_id, dkg_config_error) res" where
  "get_my_address V config = get_address V config ''genkey-and-register'' ''MY_ADDRESS''"

subsection \<open>Updating fields\<close>

fun assign_or_panic :: "'y option \<Rightarrow> ('y, dkg_config_error) res" where
  "assign_or_panic (Some c) = Ok c"
| "assign_or_panic None = Panic"

fun set_fields :: "('w, 'y) cli_env \<Rightarrow> string \<Rightarrow> (string \<times> 'y) list \<Rightarrow> 'y \<Rightarrow> ('y, dkg_config_error) res" where
  "set_fields V sec [] config = Ok config"
| "set_fields V sec ((key, v) # updates) config =
     and_then (assign_or_panic (y_assign V config [sec, key] v)) (set_fields V sec updates)"

definition ensure_section :: "('w, 'y) cli_env \<Rightarrow> string \<Rightarrow> 'y \<Rightarrow> ('y, dkg_config_error) res" where
  "ensure_section V sec config =
     (if y_get V config sec = None then assign_or_panic (y_assign V config [sec] (y_mapping V)) else Ok config)"

definition update_config :: "('w, 'y) cli_env \<Rightarrow> string \<Rightarrow> string \<Rightarrow> (string \<times> 'y) list \<Rightarrow> ('w, dkg_config_error, unit) io" where
  "update_config V path sec updates =
     io_bind (io_map_err IoFailed (fs_read_to_string V path)) (\<lambda>content.
     io_bind (io_lift (map_err YamlFailed (y_from_str V content))) (\<lambda>config.
     io_bind (io_lift (and_then (ensure_section V sec config) (set_fields V sec updates))) (\<lambda>config.
     io_bind (io_lift (map_err YamlFailed (y_to_string V config))) (\<lambda>updated.
       io_map_err IoFailed (fs_write V path updated)))))"

definition update_config_bytes_val ::
  "('w, 'y) cli_env \<Rightarrow> string \<Rightarrow> string \<Rightarrow> (string \<times> bytes) list \<Rightarrow> ('w, dkg_config_error, unit) io" where
  "update_config_bytes_val V path sec updates =
     update_config V path sec (map (\<lambda>(key, b). (key, y_string V (hex_encode_with_format V b))) updates)"

definition yaml_value :: "('w, 'y) cli_env \<Rightarrow> string \<Rightarrow> 'y" where
  "yaml_value V s = (case y_from_str V s of Ok v \<Rightarrow> v | _ \<Rightarrow> y_string V s)"

definition update_config_string_val ::
  "('w, 'y) cli_env \<Rightarrow> string \<Rightarrow> string \<Rightarrow> (string \<times> string) list \<Rightarrow> ('w, dkg_config_error, unit) io" where
  "update_config_string_val V path sec updates =
     update_config V path sec (map (\<lambda>(key, s). (key, yaml_value V s)) updates)"

subsection \<open>The outputs of a distributed key generation\<close>

definition process_section :: string where
  "process_section = ''process-all-and-propose''"

definition master_share_key :: "u32 \<Rightarrow> string" where
  "master_share_key next_version = ''MASTER_SHARE_V'' @ decimal (unat next_version)"

definition partial_pks_key :: "u32 \<Rightarrow> string" where
  "partial_pks_key next_version = ''PARTIAL_PKS_V'' @ decimal (unat next_version)"

definition persist_process_outputs ::
  "('w, 'y) cli_env \<Rightarrow> string \<Rightarrow> u32 \<Rightarrow> bytes \<Rightarrow> bytes option \<Rightarrow> string \<Rightarrow> bytes \<Rightarrow> ('w, dkg_config_error, unit) io" where
  "persist_process_outputs V config next_version key_server_pk_bytes old_key_server_pk partial_pks_yaml master_share_bytes =
     io_bind
       (if next_version = 0 then
          update_config_bytes_val V config process_section [(''KEY_SERVER_PK'', key_server_pk_bytes)]
        else io_lift (case old_key_server_pk of
            None \<Rightarrow> Panic
          | Some onchain_pk \<Rightarrow>
              if onchain_pk \<noteq> key_server_pk_bytes then Err (KeyServerPkMismatch onchain_pk key_server_pk_bytes)
              else Ok ())) (\<lambda>_.
     io_bind (update_config_string_val V config process_section [(partial_pks_key next_version, trim partial_pks_yaml)]) (\<lambda>_.
       update_config_bytes_val V config process_section [(master_share_key next_version, master_share_bytes)]))"

definition expected_process_output_fields :: "u32 \<Rightarrow> string list" where
  "expected_process_output_fields next_version =
     [master_share_key next_version, partial_pks_key next_version] @
     (if next_version = 0 then [''KEY_SERVER_PK''] else [])"

definition existing_process_output_fields :: "('w, 'y) cli_env \<Rightarrow> 'y \<Rightarrow> u32 \<Rightarrow> string list" where
  "existing_process_output_fields V config next_version =
     filter (\<lambda>field. get_config_field V config process_section field \<noteq> None)
       (expected_process_output_fields next_version)"

definition validate_process_section ::
  "('w, 'y) cli_env \<Rightarrow> 'y \<Rightarrow> u32 \<Rightarrow> bytes option \<Rightarrow> (unit, dkg_config_error) res" where
  "validate_process_section V config next_version old_key_server_pk =
     (let existing_output_fields = existing_process_output_fields V config next_version in
      if existing_output_fields \<noteq> [] then Err (OutputFieldsExist next_version existing_output_fields)
      else
        let existing_key_server_pk = config_str V config process_section ''KEY_SERVER_PK'' in
        if next_version = 0 then Ok ()
        else
          and_then (ok_or (OldPkRequired next_version) old_key_server_pk) (\<lambda>onchain_pk.
          case existing_key_server_pk of
            Some config_pk \<Rightarrow>
              and_then (map_err ConfigPkNotHex (hex_decode V config_pk)) (\<lambda>config_pk_bytes.
                if config_pk_bytes \<noteq> onchain_pk then Err (ConfigPkMismatch onchain_pk config_pk_bytes)
                else Ok ())
          | None \<Rightarrow> Ok ()))"

definition validate_process_outputs_added :: "('w, 'y) cli_env \<Rightarrow> 'y \<Rightarrow> u32 \<Rightarrow> (unit, dkg_config_error) res" where
  "validate_process_outputs_added V config next_version =
     (let missing_fields = filter (\<lambda>field. get_config_field V config process_section field = None)
            (expected_process_output_fields next_version)
      in if missing_fields \<noteq> [] then Err (OutputFieldsMissing next_version missing_fields) else Ok ())"

subsection \<open>What the libraries promise\<close>

text \<open>A value written as YAML reads back; an indexed assignment sets the value at its path and
  keeps every other one; the empty mapping has no keys; a string value is a string.\<close>

definition yaml_laws :: "('w, 'y) cli_env \<Rightarrow> bool" where
  "yaml_laws V \<longleftrightarrow>
     (\<forall>c s. y_to_string V c = Ok s \<longrightarrow> y_from_str V s = Ok c) \<and>
     (\<forall>c k v c'. y_assign V c [k] v = Some c' \<longrightarrow> y_get V c' = (y_get V c)(k \<mapsto> v)) \<and>
     (\<forall>c s k v c'. y_assign V c [s, k] v = Some c' \<longrightarrow>
        get_config_field V c' = (get_config_field V c)(s := (get_config_field V c s)(k \<mapsto> v))) \<and>
     y_get V (y_mapping V) = Map.empty \<and>
     (\<forall>s. y_as_str V (y_string V s) = Some s)"

text \<open>A file that was written reads back, and reading changes nothing.\<close>

definition fs_laws :: "('w, 'y) cli_env \<Rightarrow> string \<Rightarrow> bool" where
  "fs_laws V path \<longleftrightarrow>
     (\<forall>t w w'. fs_write V path t w = (Ok (), w') \<longrightarrow> fs_read_to_string V path w' = (Ok t, w')) \<and>
     (\<forall>w r w'. fs_read_to_string V path w = (r, w') \<longrightarrow> w' = w)"

lemma assign_or_panic_Ok_iff [res_simps]: "assign_or_panic r = Ok c \<longleftrightarrow> r = Some c"
  by (cases r) simp_all

lemma load_config_Ok_iff:
  "load_config V path w = (Ok c, v) \<longleftrightarrow> (\<exists>t. fs_read_to_string V path w = (Ok t, v) \<and> y_from_str V t = Ok c)"
  by (auto simp: load_config_def io_Ok_iffs)

subsection \<open>Updates\<close>

lemma set_fields_get:
  assumes "yaml_laws V" and "set_fields V sec updates c = Ok c'"
  shows "get_config_field V c' =
    (get_config_field V c)(sec := get_config_field V c sec ++ map_of (rev updates))"
  using assms(2)
proof (induction updates arbitrary: c)
  case (Cons u updates)
  obtain key v where u: "u = (key, v)" by (cases u)
  with Cons.prems obtain d where d: "y_assign V c [sec, key] v = Some d" "set_fields V sec updates d = Ok c'"
    by (auto simp: res_simps)
  then have "get_config_field V d = (get_config_field V c)(sec := (get_config_field V c sec)(key \<mapsto> v))"
    using assms(1) by (simp add: yaml_laws_def)
  with Cons.IH [OF d(2)] show ?case by (simp add: u map_add_def fun_eq_iff split: option.split)
qed (simp add: fun_eq_iff)

lemma ensure_section_get:
  assumes "yaml_laws V" and "ensure_section V sec c = Ok c'"
  shows "get_config_field V c' = get_config_field V c"
proof (cases "y_get V c sec")
  case None
  then have "y_get V c' = (y_get V c)(sec \<mapsto> y_mapping V)"
    using assms by (simp add: ensure_section_def res_simps yaml_laws_def)
  then show ?thesis using assms(1) None by (auto simp: fun_eq_iff get_config_field_def yaml_laws_def)
next
  case (Some s)
  then show ?thesis using assms(2) by (simp add: ensure_section_def)
qed

lemma update_config_get:
  assumes "yaml_laws V" and "fs_laws V path" and "update_config V path sec updates w = (Ok (), w')"
  obtains c c' where "load_config V path w = (Ok c, w)" and "load_config V path w' = (Ok c', w')"
    and "get_config_field V c' = (get_config_field V c)(sec := get_config_field V c sec ++ map_of (rev updates))"
proof -
  obtain t u c d c' t' where u: "fs_read_to_string V path w = (Ok t, u)" "y_from_str V t = Ok c"
      "ensure_section V sec c = Ok d" "set_fields V sec updates d = Ok c'" "y_to_string V c' = Ok t'"
      "fs_write V path t' u = (Ok (), w')"
    using assms(3) unfolding update_config_def by (auto simp: io_Ok_iffs and_then_Ok_iff)
  then have "load_config V path w = (Ok c, w)" using assms(2) by (auto simp: load_config_Ok_iff fs_laws_def)
  moreover have "load_config V path w' = (Ok c', w')"
    using u(5,6) assms(1,2) by (auto simp: load_config_Ok_iff fs_laws_def yaml_laws_def)
  moreover have "get_config_field V c' = (get_config_field V c)(sec := get_config_field V c sec ++ map_of (rev updates))"
    using set_fields_get [OF assms(1) u(4)] ensure_section_get [OF assms(1) u(3)] by simp
  ultimately show ?thesis using that by blast
qed

lemma update_bytes_get:
  assumes "yaml_laws V" and "fs_laws V path" and "update_config_bytes_val V path sec [(key, b)] w = (Ok (), w')"
  obtains c c' where "load_config V path w = (Ok c, w)" and "load_config V path w' = (Ok c', w')"
    and "get_config_field V c' = (get_config_field V c)(sec := (get_config_field V c sec)(key \<mapsto> y_string V (hex_encode_with_format V b)))"
  using update_config_get [OF assms(1,2) assms(3) [unfolded update_config_bytes_val_def]] by (auto intro: that)

lemma update_string_get:
  assumes "yaml_laws V" and "fs_laws V path" and "update_config_string_val V path sec [(key, s)] w = (Ok (), w')"
  obtains c c' where "load_config V path w = (Ok c, w)" and "load_config V path w' = (Ok c', w')"
    and "get_config_field V c' = (get_config_field V c)(sec := (get_config_field V c sec)(key \<mapsto> yaml_value V s))"
  using update_config_get [OF assms(1,2) assms(3) [unfolded update_config_string_val_def]] by (auto intro: that)

lemma output_keys_distinct:
  "master_share_key n \<noteq> partial_pks_key m" "master_share_key n \<noteq> ''KEY_SERVER_PK''" "partial_pks_key n \<noteq> ''KEY_SERVER_PK''"
  by (simp_all add: master_share_key_def partial_pks_key_def)

text \<open>The fields after the outputs were persisted.\<close>

lemma persist_get:
  assumes "yaml_laws V" and "fs_laws V path"
    and "persist_process_outputs V path n pk old_pk pks share w = (Ok (), w')"
  obtains c c' where "load_config V path w = (Ok c, w)" and "load_config V path w' = (Ok c', w')"
    and "get_config_field V c' = (get_config_field V c)(process_section :=
      (get_config_field V c process_section ++
        (if n = 0 then [''KEY_SERVER_PK'' \<mapsto> y_string V (hex_encode_with_format V pk)] else Map.empty))
        (partial_pks_key n \<mapsto> yaml_value V (trim pks),
         master_share_key n \<mapsto> y_string V (hex_encode_with_format V share)))"
    and "n \<noteq> 0 \<longrightarrow> old_pk = Some pk"
proof -
  obtain u v where u:
      "(if n = 0 then update_config_bytes_val V path process_section [(''KEY_SERVER_PK'', pk)] w
        else (case old_pk of None \<Rightarrow> Panic
          | Some onchain_pk \<Rightarrow> if onchain_pk \<noteq> pk then Err (KeyServerPkMismatch onchain_pk pk) else Ok (), w)) = (Ok (), u)"
      and v: "update_config_string_val V path process_section [(partial_pks_key n, trim pks)] u = (Ok (), v)"
      and w': "update_config_bytes_val V path process_section [(master_share_key n, share)] v = (Ok (), w')"
    using assms(3) unfolding persist_process_outputs_def
    by (cases "n = 0") (auto simp: io_Ok_iffs)
  obtain c2 c3 where v': "load_config V path u = (Ok c2, u)" "load_config V path v = (Ok c3, v)"
      "get_config_field V c3 = (get_config_field V c2)(process_section :=
         (get_config_field V c2 process_section)(partial_pks_key n \<mapsto> yaml_value V (trim pks)))"
    using update_string_get [OF assms(1,2) v] by metis
  obtain c3' c4 where w'': "load_config V path v = (Ok c3', v)" "load_config V path w' = (Ok c4, w')"
      "get_config_field V c4 = (get_config_field V c3')(process_section :=
         (get_config_field V c3' process_section)(master_share_key n \<mapsto> y_string V (hex_encode_with_format V share)))"
    using update_bytes_get [OF assms(1,2) w'] by metis
  have c3: "c3' = c3" using v'(2) w''(1) by simp
  obtain c1 where c1: "load_config V path w = (Ok c1, w)"
      "get_config_field V c2 = (get_config_field V c1)(process_section := get_config_field V c1 process_section ++
        (if n = 0 then [''KEY_SERVER_PK'' \<mapsto> y_string V (hex_encode_with_format V pk)] else Map.empty))"
      "n \<noteq> 0 \<longrightarrow> old_pk = Some pk"
  proof (cases "n = 0")
    case True
    then obtain c c' where "load_config V path w = (Ok c, w)" "load_config V path u = (Ok c', u)"
      "get_config_field V c' = (get_config_field V c)(process_section :=
        (get_config_field V c process_section)(''KEY_SERVER_PK'' \<mapsto> y_string V (hex_encode_with_format V pk)))"
      using update_bytes_get [OF assms(1,2), of process_section "''KEY_SERVER_PK''" pk w u] u by auto
    with v'(1) True show ?thesis using that [of c] by (simp del: list.inject char.inject)
  next
    case False
    then have "u = w" "old_pk = Some pk" using u by (auto split: option.splits if_splits)
    with v'(1) False show ?thesis using that [of c2] by simp
  qed
  show ?thesis
    using that [OF c1(1) w''(2) _ c1(3)] by (simp add: w''(3) c3 v'(3) c1(2))
qed

lemma persist_added:
  assumes get: "get_config_field V c' = (get_config_field V c)(process_section :=
      (get_config_field V c process_section ++
        (if n = 0 then [''KEY_SERVER_PK'' \<mapsto> y_string V (hex_encode_with_format V pk)] else Map.empty))
        (partial_pks_key n \<mapsto> v, master_share_key n \<mapsto> v'))"
  shows "validate_process_outputs_added V c' n = Ok ()"
  by (cases "n = 0")
    (simp_all add: validate_process_outputs_added_def expected_process_output_fields_def get output_keys_distinct
      output_keys_distinct [symmetric] del: list.inject char.inject)

lemma persist_only_outputs:
  assumes get: "get_config_field V c' = (get_config_field V c)(process_section :=
      (get_config_field V c process_section ++
        (if n = 0 then [''KEY_SERVER_PK'' \<mapsto> y_string V (hex_encode_with_format V pk)] else Map.empty))
        (partial_pks_key n \<mapsto> v, master_share_key n \<mapsto> v'))"
  shows "get_config_field V c' s k \<noteq> get_config_field V c s k \<Longrightarrow>
    s = process_section \<and> k \<in> set (expected_process_output_fields n)"
proof -
  assume diff: "get_config_field V c' s k \<noteq> get_config_field V c s k"
  have sec: "s = process_section" using diff by (cases "s = process_section") (simp_all add: get)
  have "k \<in> set (expected_process_output_fields n)"
  proof (rule ccontr)
    assume "k \<notin> set (expected_process_output_fields n)"
    then have "k \<noteq> master_share_key n" "k \<noteq> partial_pks_key n" "n = 0 \<Longrightarrow> k \<noteq> ''KEY_SERVER_PK''"
      by (simp_all add: expected_process_output_fields_def del: list.inject char.inject)
    then have "get_config_field V c' s k = get_config_field V c s k"
      unfolding get sec by (cases "n = 0")
        (simp_all only: if_True if_False fun_upd_same fun_upd_other map_add_empty map_add_upd not_False_eq_True simp_thms)
    with diff show False by simp
  qed
  with sec show ?thesis by blast
qed

subsection \<open>Properties\<close>

text \<open>C14: The outputs of a key generation. When the section passed its check and the outputs were
  written, the file reads back with the master share, the partial public keys and (for a
  fresh key generation) the public key of the key server; no field that was there before has
  changed, no other field was added, in a rotation the new public key is the one on chain, and
  the final check of the command accepts the file.\<close>

theorem process_outputs_persisted:
  assumes "yaml_laws V" and "fs_laws V path" and "load_config V path w = (Ok c, w)"
    and "validate_process_section V c n old_pk = Ok ()"
    and "persist_process_outputs V path n pk old_pk pks share w = (Ok (), w')"
  shows "\<exists>c'. load_config V path w' = (Ok c', w') \<and> validate_process_outputs_added V c' n = Ok () \<and>
    config_str V c' process_section (master_share_key n) = Some (hex_encode_with_format V share) \<and>
    get_config_field V c' process_section (partial_pks_key n) = Some (yaml_value V (trim pks)) \<and>
    (if n = 0 then config_str V c' process_section ''KEY_SERVER_PK'' = Some (hex_encode_with_format V pk) else old_pk = Some pk) \<and>
    (\<forall>s k. get_config_field V c' s k \<noteq> get_config_field V c s k \<longrightarrow>
       get_config_field V c s k = None \<and> s = process_section \<and> k \<in> set (expected_process_output_fields n))"
proof -
  obtain d c' where d: "load_config V path w = (Ok d, w)" and c': "load_config V path w' = (Ok c', w')"
    and getd: "get_config_field V c' = (get_config_field V d)(process_section :=
      (get_config_field V d process_section ++
        (if n = 0 then [''KEY_SERVER_PK'' \<mapsto> y_string V (hex_encode_with_format V pk)] else Map.empty))
        (partial_pks_key n \<mapsto> yaml_value V (trim pks),
         master_share_key n \<mapsto> y_string V (hex_encode_with_format V share)))"
    and old: "n \<noteq> 0 \<longrightarrow> old_pk = Some pk"
    by (rule persist_get [OF assms(1,2,5)])
  from d assms(3) have "d = c" by simp
  note get = getd [unfolded this]
  have new: "get_config_field V c process_section k = None" if "k \<in> set (expected_process_output_fields n)" for k
    using assms(4) that by (auto simp: validate_process_section_def existing_process_output_fields_def Let_def
        filter_empty_conv split: if_splits)
  have added: "validate_process_outputs_added V c' n = Ok ()" using get by (rule persist_added)
  have str: "y_as_str V (y_string V s) = Some s" for s using assms(1) by (simp add: yaml_laws_def)
  have kept: "get_config_field V c s k = None \<and> s = process_section \<and> k \<in> set (expected_process_output_fields n)"
    if diff: "get_config_field V c' s k \<noteq> get_config_field V c s k" for s k
    using persist_only_outputs [OF get diff] new [of k] by simp
  have share: "config_str V c' process_section (master_share_key n) = Some (hex_encode_with_format V share)"
    by (simp add: config_str_def get str)
  have pks: "get_config_field V c' process_section (partial_pks_key n) = Some (yaml_value V (trim pks))"
    by (simp add: get output_keys_distinct [symmetric])
  have pk: "if n = 0 then config_str V c' process_section ''KEY_SERVER_PK'' = Some (hex_encode_with_format V pk) else old_pk = Some pk"
    by (cases "n = 0") (simp_all add: old config_str_def get output_keys_distinct [symmetric] str del: list.inject char.inject)
  show ?thesis
    using c' added share pks pk kept by (intro exI [of _ c'] conjI allI impI) blast+
qed

text \<open>C15: The share that the tool stores is the one the key server loads: with the variable
  \<open>MASTER_SHARE_V\<close>\<open>n\<close> set to the value of the configuration file, the key server of version
  \<open>n\<close> gets exactly the scalar that the key generation produced.\<close>

theorem master_share_handover:
  assumes "yaml_laws V" and "fs_laws V path"
    and "persist_process_outputs V path n pk old_pk pks share w = (Ok (), w')"
    and "load_config V path w' = (Ok c', w')"
    and "env_var env (master_share_var n) = config_str V c' process_section (master_share_key n)"
    and "\<And>b. env_hex_decode env (hex_encode_with_format V b) = Some b"
    and "length share = MASTER_KEY_LENGTH" and "scalar_from_bytes B share = Ok s"
  shows "load_committee B env ActiveState n = Ok (ActiveKey s)"
proof -
  obtain c d where cd: "load_config V path w' = (Ok d, w')"
    "get_config_field V d = (get_config_field V c)(process_section :=
      (get_config_field V c process_section ++
        (if n = 0 then [''KEY_SERVER_PK'' \<mapsto> y_string V (hex_encode_with_format V pk)] else Map.empty))
        (partial_pks_key n \<mapsto> yaml_value V (trim pks),
         master_share_key n \<mapsto> y_string V (hex_encode_with_format V share)))"
    using persist_get [OF assms(1-3)] by metis
  then have "d = c'" using assms(4) by simp
  with cd assms(1,5) have "env_var env (master_share_var n) = Some (hex_encode_with_format V share)"
    by (simp add: config_str_def yaml_laws_def)
  with assms(6-8) have "load_master_share B env n = Ok s"
    by (simp add: load_master_share_def decode_master_key_def decode_byte_array_def prefixed_hex_decode_def)
  then show ?thesis by (simp add: load_committee_def)
qed

text \<open>C28: The threshold of the configuration. The check only rejects 0 and 1; the value is then cut
  to 16 bits. It is the configured one exactly below 65536, and it is 0 or 1 although the check
  passed exactly when the configured one is at least 65536 and 0 or 1 modulo 65536.\<close>

theorem threshold_read:
  assumes "Option.bind (get_config_field V c ''init-params'' ''THRESHOLD'') (y_as_u64 V) = Some t"
  shows "case get_threshold V c of
      Ok r \<Rightarrow> 1 < unat t \<and> unat r = unat t mod 65536 \<and> (r \<le> 1 \<longleftrightarrow> 65536 \<le> unat t \<and> unat t mod 65536 \<le> 1)
    | Err e \<Rightarrow> unat t \<le> 1 \<and> e = ThresholdTooSmall t
    | Panic \<Rightarrow> False"
proof (cases "t \<le> 1")
  case True
  then show ?thesis using assms by (simp add: get_threshold_def word_le_nat_alt)
next
  case False
  have r: "unat (ucast t :: u16) = unat t mod 65536" by (simp add: unsigned_ucast_eq take_bit_nat_def)
  have "(ucast t :: u16) \<le> 1 \<longleftrightarrow> unat t mod 65536 \<le> 1" by (simp add: word_le_nat_alt r)
  moreover have "unat t mod 65536 \<le> 1 \<longleftrightarrow> 65536 \<le> unat t \<and> unat t mod 65536 \<le> 1"
    using False by (cases "unat t < 65536") (auto simp: word_le_nat_alt)
  ultimately show ?thesis using assms False r by (simp add: get_threshold_def word_le_nat_alt not_le)
qed

subsection \<open>A concrete environment\<close>

text \<open>Files are a map from paths to contents; a YAML value is written as the unary form of its
  number. Byte strings are their own Hex form.\<close>

datatype yaml = YStr string | YNum u64 | YSeq "yaml list" | YMap "(string \<times> yaml) list"

instance yaml :: countable
  by countable_datatype

fun yaml_get :: "yaml \<Rightarrow> string \<Rightarrow> yaml option" where
  "yaml_get (YMap m) k = map_of m k"
| "yaml_get _ k = None"

fun yaml_assign :: "yaml \<Rightarrow> string list \<Rightarrow> yaml \<Rightarrow> yaml option" where
  "yaml_assign _ [] v = Some v"
| "yaml_assign (YMap m) (k # ks) v =
     map_option (\<lambda>x. YMap ((k, x) # m)) (yaml_assign (case map_of m k of Some c \<Rightarrow> c | None \<Rightarrow> YMap []) ks v)"
| "yaml_assign _ _ v = None"

definition yaml_print :: "yaml \<Rightarrow> string" where
  "yaml_print c = replicate (to_nat c) CHR ''y''"

definition yaml_parse :: "string \<Rightarrow> (yaml, string) res" where
  "yaml_parse s = Ok (from_nat (length s))"

definition bytes_string :: "bytes \<Rightarrow> string" where
  "bytes_string b = map (\<lambda>x. char_of (unat x)) b"

definition string_bytes :: "string \<Rightarrow> bytes" where
  "string_bytes s = map (\<lambda>c. of_nat (of_char c)) s"

lemma string_bytes_inverse: "string_bytes (bytes_string b) = b"
proof -
  have "of_nat (of_char (char_of (unat x) :: char)) = (x :: u8)" for x
    using unat_u8_less [of x] by (simp add: of_char_of)
  then show ?thesis by (simp add: string_bytes_def bytes_string_def comp_def)
qed

definition demo_cli_env :: "(string \<rightharpoonup> string, yaml) cli_env" where
  "demo_cli_env = \<lparr>
     fs_read_to_string = (\<lambda>p w. (ok_or ''not found'' (w p), w)),
     fs_write = (\<lambda>p t w. (Ok (), w(p \<mapsto> t))),
     fs_create_dir_all = (\<lambda>p w. (Ok (), w)),
     fs_read_dir = (\<lambda>p w. (Ok [Ok ''2.json'', Ok ''notes.txt'', Ok ''0.json'', Ok ''1.json''], w)),
     fs_mode = (\<lambda>p w. (Ok 0, w)),
     fs_set_mode = (\<lambda>p m w. (Ok (), w)),
     y_from_str = yaml_parse,
     y_to_string = (\<lambda>c. Ok (yaml_print c)),
     y_list_to_string = (\<lambda>ss. Ok (yaml_print (YSeq (map YStr ss)))),
     y_get = yaml_get,
     y_assign = yaml_assign,
     y_as_str = (\<lambda>y. case y of YStr s \<Rightarrow> Some s | _ \<Rightarrow> None),
     y_as_u64 = (\<lambda>y. case y of YNum n \<Rightarrow> Some n | _ \<Rightarrow> None),
     y_as_sequence = (\<lambda>y. case y of YSeq ys \<Rightarrow> Some ys | _ \<Rightarrow> None),
     y_string = YStr,
     y_mapping = YMap [],
     hex_encode = bytes_string,
     hex_encode_with_format = bytes_string,
     hex_decode = (\<lambda>s. Ok (string_bytes s)),
     parse_address = (\<lambda>s. Ok (string_bytes s))\<rparr>"

lemma yaml_parse_print [simp]: "yaml_parse (yaml_print c) = Ok c"
  by (simp add: yaml_parse_def yaml_print_def)

lemma demo_yaml_laws: "yaml_laws demo_cli_env"
proof -
  have "yaml_get c' = (yaml_get c)(k \<mapsto> v)" if "yaml_assign c [k] v = Some c'" for c k v c'
    using that by (cases c) auto
  moreover have "get_config_field demo_cli_env c' = (get_config_field demo_cli_env c)(s := (get_config_field demo_cli_env c s)(k \<mapsto> v))"
    if "yaml_assign c [s, k] v = Some c'" for c s k v c'
  proof (cases c)
    case (YMap m)
    show ?thesis
    proof (cases "map_of m s")
      case None
      then show ?thesis using that YMap by (auto simp: fun_eq_iff get_config_field_def demo_cli_env_def)
    next
      case (Some d)
      then show ?thesis using that YMap by (cases d) (auto simp: fun_eq_iff get_config_field_def demo_cli_env_def)
    qed
  qed (use that in simp_all)
  ultimately show ?thesis by (auto simp: yaml_laws_def demo_cli_env_def)
qed

lemma demo_fs_laws: "fs_laws demo_cli_env path"
  by (simp add: fs_laws_def demo_cli_env_def)

lemma demo_config_load: "w p = Some (yaml_print c) \<Longrightarrow> load_config demo_cli_env p w = (Ok c, w)"
  by (simp add: load_config_Ok_iff demo_cli_env_def)

text \<open>A rotation to version 1 with an earlier fresh key generation in the file.\<close>

definition demo_dkg_config :: yaml where
  "demo_dkg_config = YMap [(process_section, YMap [(''KEY_SERVER_PK'', YStr (bytes_string [7]))])]"

definition demo_dkg_files :: "string \<rightharpoonup> string" where
  "demo_dkg_files = [''dkg.yaml'' \<mapsto> yaml_print demo_dkg_config]"

lemma demo_dkg_load: "load_config demo_cli_env ''dkg.yaml'' demo_dkg_files = (Ok demo_dkg_config, demo_dkg_files)"
  by (rule demo_config_load) (simp add: demo_dkg_files_def)

lemma demo_dkg_validate: "validate_process_section demo_cli_env demo_dkg_config 1 (Some [7]) = Ok ()"
  by (simp add: validate_process_section_def existing_process_output_fields_def expected_process_output_fields_def
      master_share_key_def partial_pks_key_def config_str_def get_config_field_def demo_dkg_config_def demo_cli_env_def string_bytes_inverse)

lemma demo_update:
  assumes "w p = Some (yaml_print (YMap m))" and "map_of m sec = Some (YMap n)"
  shows "update_config demo_cli_env p sec [(k, v)] w =
    (Ok (), w(p \<mapsto> yaml_print (YMap ((sec, YMap ((k, v) # n)) # m))))"
  using assms by (simp add: update_config_def io_bind.simps io_lift_def io_map_err_def ensure_section_def demo_cli_env_def)

lemma demo_update_new:
  assumes "w p = Some (yaml_print (YMap m))" and "map_of m sec = None"
  shows "update_config demo_cli_env p sec [(k, v)] w =
    (Ok (), w(p \<mapsto> yaml_print (YMap ((sec, YMap [(k, v)]) # (sec, YMap []) # m))))"
  using assms by (simp add: update_config_def io_bind.simps io_lift_def io_map_err_def ensure_section_def demo_cli_env_def)

lemma demo_dkg_persist:
  obtains w' where "persist_process_outputs demo_cli_env ''dkg.yaml'' 1 [7] (Some [7]) pks share demo_dkg_files = (Ok (), w')"
proof -
  let ?p = "''dkg.yaml''" and ?n = "[(''KEY_SERVER_PK'', YStr (bytes_string [7]))]"
  have 1: "update_config_string_val demo_cli_env ?p process_section [(partial_pks_key 1, trim pks)] demo_dkg_files =
      (Ok (), demo_dkg_files(?p \<mapsto> yaml_print (YMap ((process_section, YMap ((partial_pks_key 1, yaml_value demo_cli_env (trim pks)) # ?n)) #
        [(process_section, YMap ?n)]))))" (is "_ = (_, ?w)")
    unfolding update_config_string_val_def by (simp add: demo_update demo_dkg_files_def demo_dkg_config_def)
  have 2: "\<exists>w'. update_config_bytes_val demo_cli_env ?p process_section [(master_share_key 1, share)] ?w = (Ok (), w')"
    unfolding update_config_bytes_val_def by (simp add: demo_update)
  show ?thesis using 1 2 that unfolding persist_process_outputs_def
    by (auto simp del: list.inject char.inject)
qed

theorem process_outputs_persisted_witness:
  "\<exists>w' c'. load_config demo_cli_env ''dkg.yaml'' w' = (Ok c', w') \<and>
     config_str demo_cli_env c' process_section (master_share_key 1) = Some (bytes_string [5]) \<and>
     config_str demo_cli_env c' process_section ''KEY_SERVER_PK'' = Some (bytes_string [7])"
proof -
  obtain w' where w': "persist_process_outputs demo_cli_env ''dkg.yaml'' 1 [7] (Some [7]) [] [5] demo_dkg_files = (Ok (), w')"
    by (rule demo_dkg_persist)
  obtain c' where c': "load_config demo_cli_env ''dkg.yaml'' w' = (Ok c', w')"
      "config_str demo_cli_env c' process_section (master_share_key 1) = Some (hex_encode_with_format demo_cli_env [5])"
      "\<forall>s k. get_config_field demo_cli_env c' s k \<noteq> get_config_field demo_cli_env demo_dkg_config s k \<longrightarrow>
         get_config_field demo_cli_env demo_dkg_config s k = None \<and> s = process_section \<and> k \<in> set (expected_process_output_fields 1)"
    using process_outputs_persisted [OF demo_yaml_laws demo_fs_laws demo_dkg_load demo_dkg_validate w'] by blast
  have old: "get_config_field demo_cli_env demo_dkg_config process_section ''KEY_SERVER_PK'' = Some (YStr (bytes_string [7]))"
    by (simp add: get_config_field_def demo_cli_env_def demo_dkg_config_def)
  have "get_config_field demo_cli_env c' process_section ''KEY_SERVER_PK'' =
      get_config_field demo_cli_env demo_dkg_config process_section ''KEY_SERVER_PK''"
  proof (rule ccontr)
    assume "get_config_field demo_cli_env c' process_section ''KEY_SERVER_PK'' \<noteq>
      get_config_field demo_cli_env demo_dkg_config process_section ''KEY_SERVER_PK''"
    with c'(3) have "get_config_field demo_cli_env demo_dkg_config process_section ''KEY_SERVER_PK'' = None" by blast
    with old show False by simp
  qed
  with old have "get_config_field demo_cli_env c' process_section ''KEY_SERVER_PK'' = Some (YStr (bytes_string [7]))" by simp
  then have "config_str demo_cli_env c' process_section ''KEY_SERVER_PK'' = Some (bytes_string [7])"
    by (simp add: config_str_def demo_cli_env_def)
  moreover have "hex_encode_with_format demo_cli_env [5] = bytes_string [5]" by (simp add: demo_cli_env_def)
  ultimately show ?thesis using c'(1,2) by auto
qed

theorem master_share_handover_witness:
  "load_committee gf_bls \<lparr>env_var = (\<lambda>_. Some (bytes_string (replicate 31 0 @ [3]))), env_hex_decode = (\<lambda>s. Some (string_bytes s)),
     env_base64_decode = (\<lambda>_. None)\<rparr> ActiveState 1 = Ok (ActiveKey (GF256 3))"
proof -
  let ?share = "replicate 31 0 @ [3 :: u8]"
  obtain w' where w': "persist_process_outputs demo_cli_env ''dkg.yaml'' 1 [7] (Some [7]) [] ?share demo_dkg_files = (Ok (), w')"
    by (rule demo_dkg_persist)
  obtain c c' where c': "load_config demo_cli_env ''dkg.yaml'' w' = (Ok c', w')"
      "config_str demo_cli_env c' process_section (master_share_key 1) = Some (bytes_string ?share)"
  proof (rule persist_get [OF demo_yaml_laws demo_fs_laws w'])
    fix c c'
    assume c': "load_config demo_cli_env ''dkg.yaml'' w' = (Ok c', w')"
      and get: "get_config_field demo_cli_env c' = (get_config_field demo_cli_env c)(process_section :=
      (get_config_field demo_cli_env c process_section ++
        (if (1 :: u32) = 0 then [''KEY_SERVER_PK'' \<mapsto> y_string demo_cli_env (hex_encode_with_format demo_cli_env [7])] else Map.empty))
        (partial_pks_key 1 \<mapsto> yaml_value demo_cli_env (trim []),
         master_share_key 1 \<mapsto> y_string demo_cli_env (hex_encode_with_format demo_cli_env ?share)))"
    show thesis by (rule that [OF c']) (simp add: config_str_def get, simp add: demo_cli_env_def)
  qed
  show ?thesis
    by (rule master_share_handover [OF demo_yaml_laws demo_fs_laws w' c'(1)])
      (simp_all add: c'(2) string_bytes_inverse MASTER_KEY_LENGTH_def gf_bls_def, simp_all add: demo_cli_env_def string_bytes_inverse)
qed

theorem threshold_read_witness:
  "get_threshold demo_cli_env (YMap [(''init-params'', YMap [(''THRESHOLD'', YNum 65537)])]) = Ok 1"
  using threshold_read [of demo_cli_env "YMap [(''init-params'', YMap [(''THRESHOLD'', YNum 65537)])]" 65537]
  by (auto simp: get_threshold_def get_config_field_def demo_cli_env_def)

end
