(* ===== verification/DkgParty.thy ===== *)
theory DkgParty
  imports DkgConfig
begin

text \<open>
  One member's part in a distributed key generation: \<^verbatim>\<open>crates/seal-committee-cli/src/types.rs\<close>
  (the local state, signed messages) and, of \<^verbatim>\<open>main.rs\<close>, \<open>create_dkg_state_and_message\<close>,
  \<open>load_messages_from_dir\<close> and \<open>process_dkg_messages\<close>.

  The protocol itself is the library \<^verbatim>\<open>fastcrypto_tbls\<close>: the record \<open>dkg_lib\<close> holds its
  operations, the BLS signatures, the hash and the BCS and JSON codecs. Operations that draw
  randomness act on the state \<open>'w\<close> of the outside world. The types of keys, messages and
  protocol objects are type variables.
\<close>

subsection \<open>Local data\<close>

record ('esk, 'epk, 'ssk, 'spk) keys_file =
  kf_enc_sk :: 'esk
  kf_enc_pk :: 'epk
  kf_signing_sk :: 'ssk
  kf_signing_pk :: 'spk

record ('nodes, 'spk, 'g2, 'sc) initialized_config =
  ic_my_party_id :: u16
  ic_nodes :: 'nodes
  ic_committee_id :: object_id
  ic_threshold :: u16
  ic_signing_pks :: "u16 \<rightharpoonup> 'spk"
  ic_old_threshold :: "u16 option"
  ic_new_to_old_mapping :: "(u16 \<rightharpoonup> u16) option"
  ic_expected_old_pks :: "(u16 \<rightharpoonup> 'g2) option"
  ic_my_old_share :: "'sc option"
  ic_my_old_pk :: "'g2 option"

record ('nodes, 'spk, 'g2, 'sc, 'msg, 'pm, 'conf, 'used, 'out) dkg_state =
  ds_config :: "('nodes, 'spk, 'g2, 'sc) initialized_config"
  ds_my_message :: "'msg option"
  ds_received_messages :: "u16 \<rightharpoonup> 'msg"
  ds_processed_messages :: "'pm list"
  ds_confirmation :: "('conf \<times> 'used) option"
  ds_output :: "'out option"

record ('msg, 'nz) message_signature_payload =
  mp_domain :: string
  mp_committee_id :: object_id
  mp_message :: 'msg
  mp_nizk_proof :: 'nz

record ('msg, 'nz, 'sig) dkg_signed_message =
  sm_message :: 'msg
  sm_signature :: 'sig
  sm_nizk_proof :: 'nz

record 'epk dkg_node =
  nd_id :: u16
  nd_pk :: 'epk
  nd_weight :: u16

subsection \<open>The protocol library\<close>

record ('w, 'esk, 'epk, 'ssk, 'spk, 'sig, 'nodes, 'sc, 'g2, 'party, 'msg, 'nz, 'pm, 'conf, 'used, 'out) dkg_lib =
  nodes_new :: "'epk dkg_node list \<Rightarrow> ('nodes, string) res"
  num_nodes :: "'nodes \<Rightarrow> nat"
  party_new_advanced :: "'esk \<Rightarrow> 'nodes \<Rightarrow> u16 \<Rightarrow> string \<Rightarrow> 'sc option \<Rightarrow> u16 option \<Rightarrow> 'w \<Rightarrow> ('party, string) res \<times> 'w"
  create_message :: "'party \<Rightarrow> 'w \<Rightarrow> ('msg, string) res \<times> 'w"
  nizk_pop_of_secret :: "'party \<Rightarrow> 'w \<Rightarrow> 'nz \<times> 'w"
  process_message_with_checks :: "'party \<Rightarrow> 'msg \<Rightarrow> 'g2 option \<Rightarrow> 'nz option \<Rightarrow> 'w \<Rightarrow> ('pm, string) res \<times> 'w"
  party_merge :: "'party \<Rightarrow> 'pm list \<Rightarrow> ('conf \<times> 'used, string) res"
  complete_optimistic :: "'party \<Rightarrow> 'used \<Rightarrow> ('out, string) res"
  complete_optimistic_key_rotation :: "'party \<Rightarrow> 'used \<Rightarrow> (u16 \<rightharpoonup> u16) \<Rightarrow> ('out, string) res"
  msg_sender :: "'msg \<Rightarrow> u16"
  pm_sender :: "'pm \<Rightarrow> u16"
  pm_complaint_bcs :: "'pm \<Rightarrow> (bytes, string) res option"
  conf_complaints :: "'conf \<Rightarrow> nat"
  out_c0 :: "'out \<Rightarrow> 'g2"
  out_eval :: "'out \<Rightarrow> u16 \<Rightarrow> 'g2"
  out_shares :: "'out \<Rightarrow> 'sc list option"
  g2_of_share :: "'sc \<Rightarrow> 'g2"
  g2_bcs :: "'g2 \<Rightarrow> (bytes, string) res"
  sc_bcs :: "'sc \<Rightarrow> (bytes, string) res"
  bls_sign :: "'ssk \<Rightarrow> bytes \<Rightarrow> 'sig"
  bls_verify :: "'spk \<Rightarrow> bytes \<Rightarrow> 'sig \<Rightarrow> (unit, string) res"
  blake2b256 :: "bytes \<Rightarrow> bytes"
  payload_bcs :: "('msg, 'nz) message_signature_payload \<Rightarrow> (bytes, string) res"
  signed_message_bcs :: "('msg, 'nz, 'sig) dkg_signed_message \<Rightarrow> (bytes, string) res"
  signed_message_from_bcs :: "bytes \<Rightarrow> (('msg, 'nz, 'sig) dkg_signed_message, string) res"
  messages_bcs :: "('msg, 'nz, 'sig) dkg_signed_message list \<Rightarrow> (bytes, string) res"
  keys_to_json :: "('esk, 'epk, 'ssk, 'spk) keys_file \<Rightarrow> (string, string) res"
  keys_from_json :: "string \<Rightarrow> (('esk, 'epk, 'ssk, 'spk) keys_file, string) res"
  state_to_json :: "('nodes, 'spk, 'g2, 'sc, 'msg, 'pm, 'conf, 'used, 'out) dkg_state \<Rightarrow> (string, string) res"
  state_from_json :: "string \<Rightarrow> (('nodes, 'spk, 'g2, 'sc, 'msg, 'pm, 'conf, 'used, 'out) dkg_state, string) res"
  message_to_json :: "string \<Rightarrow> (string, string) res"
  message_from_json :: "string \<Rightarrow> (string option, string) res"

datatype dkg_error =
    WrongRotationCount u16 nat
  | InvalidSenders "u16 list"
  | DuplicateSender u16
  | MissingMapping
  | WrongFreshCount nat nat
  | SigningPkNotFound u16
  | NotInOldCommittee u16
  | MissingOldPks
  | OldPkNotFound u16
  | RotationCheckFailed u16 string
  | ComplaintAgainst u16 string
  | ComplaintsFound nat
  | LibFailed string

datatype file_error =
    ReadMessagesDirFailed string string
  | ReadMessageFailed string string
  | ParseMessageFailed string string
  | MessageFieldMissing string
  | DecodeMessageFailed string string
  | NoMessages string
  | KeysFileUnreadable string string
  | KeysFileUnparsable string string
  | FileFailed string

subsection \<open>Signed messages\<close>

definition DST_DKG_MESSAGE_SIGNATURE :: string where
  "DST_DKG_MESSAGE_SIGNATURE = ''SEAL_DKG_MESSAGE_SIGNATURE_V0''"

definition signature_payload :: "object_id \<Rightarrow> 'msg \<Rightarrow> 'nz \<Rightarrow> ('msg, 'nz) message_signature_payload" where
  "signature_payload committee_id message nizk_proof =
     \<lparr>mp_domain = DST_DKG_MESSAGE_SIGNATURE, mp_committee_id = committee_id, mp_message = message, mp_nizk_proof = nizk_proof\<rparr>"

definition sign_message where
  "sign_message lib committee_id message sk nizk_proof =
     (let payload = signature_payload committee_id message nizk_proof in
      and_then (expect (payload_bcs lib payload)) (\<lambda>payload_bytes.
        Ok \<lparr>sm_message = message, sm_signature = bls_sign lib sk payload_bytes, sm_nizk_proof = nizk_proof\<rparr>))"

definition verify_signature where
  "verify_signature lib committee_id signed_msg pk =
     (let payload = signature_payload committee_id (sm_message signed_msg) (sm_nizk_proof signed_msg) in
      and_then (map_err LibFailed (payload_bcs lib payload)) (\<lambda>payload_bytes.
        map_err LibFailed (bls_verify lib pk payload_bytes (sm_signature signed_msg))))"

subsection \<open>Files\<close>

definition keys_file_load where
  "keys_file_load V lib path =
     io_bind (io_map_err (KeysFileUnreadable path) (fs_read_to_string V path)) (\<lambda>keys_content.
       io_lift (map_err (KeysFileUnparsable path) (keys_from_json lib keys_content)))"

definition dkg_state_save where
  "dkg_state_save V lib state state_dir =
     io_bind (io_map_err FileFailed (fs_create_dir_all V state_dir)) (\<lambda>_.
     let path = path_join state_dir ''state.json'' in
     io_bind (io_lift (map_err FileFailed (state_to_json lib state))) (\<lambda>json.
       io_map_err FileFailed (fs_write V path json)))"

definition dkg_state_load where
  "dkg_state_load V lib state_dir =
     (let path = path_join state_dir ''state.json'' in
      io_bind (io_map_err FileFailed (fs_read_to_string V path)) (\<lambda>json.
        io_lift (map_err FileFailed (state_from_json lib json))))"

text \<open>\<open>derive_paths\<close>: the configuration file and the keys file of a state directory.\<close>

definition derive_paths :: "string \<Rightarrow> string \<times> string" where
  "derive_paths state_dir = (path_join state_dir ''dkg.yaml'', path_join state_dir ''dkg.key'')"

definition write_secret_file :: "('w, 'y) cli_env \<Rightarrow> string \<Rightarrow> string \<Rightarrow> ('w, file_error, unit) io" where
  "write_secret_file V path content =
     io_bind (io_map_err FileFailed (fs_write V path content)) (\<lambda>_.
     io_bind (io_map_err FileFailed (fs_mode V path)) (\<lambda>_.
       io_map_err FileFailed (fs_set_mode V path 0x180)))"

text \<open>The body of the loop over the directory entries. Entries without the extension \<open>json\<close> are
  skipped.\<close>

definition load_message where
  "load_message V lib entry messages =
     io_bind (io_lift (map_err FileFailed entry)) (\<lambda>path.
     if path_extension path \<noteq> Some ''json'' then io_lift (Ok messages)
     else
       io_bind (io_map_err (ReadMessageFailed path) (fs_read_to_string V path)) (\<lambda>content.
       io_bind (io_lift (map_err (ParseMessageFailed path) (message_from_json lib content))) (\<lambda>json.
       io_bind (io_lift (ok_or (MessageFieldMissing path) json)) (\<lambda>message_hex.
       io_bind (io_lift (map_err (DecodeMessageFailed path)
           (and_then (hex_decode V message_hex) (signed_message_from_bcs lib)))) (\<lambda>signed_msg.
         io_lift (Ok (messages @ [signed_msg])))))))"

definition load_messages_from_dir where
  "load_messages_from_dir V lib messages_dir =
     io_bind (io_map_err (ReadMessagesDirFailed messages_dir) (fs_read_dir V messages_dir)) (\<lambda>entries.
     io_bind (io_fold (load_message V lib) entries []) (\<lambda>messages.
       io_lift (if messages = [] then Err (NoMessages messages_dir) else Ok messages)))"

subsection \<open>Processing the messages of all members\<close>

definition DST_DKG :: string where
  "DST_DKG = ''SEAL_DKG_V0:''"

definition create_dkg_random_oracle :: "(object_id \<Rightarrow> string) \<Rightarrow> object_id \<Rightarrow> string" where
  "create_dkg_random_oracle show_address committee_id = DST_DKG @ show_address committee_id"

definition validate_rotation_message_senders ::
  "u16 \<Rightarrow> (u16 \<rightharpoonup> u16) \<Rightarrow> u16 set \<Rightarrow> (unit, dkg_error) res" where
  "validate_rotation_message_senders old_threshold new_to_old_mapping message_senders =
     (if card message_senders \<noteq> unat old_threshold then Err (WrongRotationCount old_threshold (card message_senders))
      else
        let invalid_senders = sorted_list_of_set (Set.filter (\<lambda>sender. new_to_old_mapping sender = None) message_senders) in
        if invalid_senders \<noteq> [] then Err (InvalidSenders invalid_senders) else Ok ())"

fun insert_senders :: "u16 list \<Rightarrow> u16 set \<Rightarrow> (u16 set, dkg_error) res" where
  "insert_senders [] seen = Ok seen"
| "insert_senders (sender # senders) seen =
     (if sender \<in> seen then Err (DuplicateSender sender) else insert_senders senders (insert sender seen))"

definition signed_sender where
  "signed_sender lib signed_msg = msg_sender lib (sm_message signed_msg)"

definition validate_message_count where
  "validate_message_count lib config seen_senders messages =
     (case ic_old_threshold config of
        Some old_threshold \<Rightarrow>
          and_then (ok_or MissingMapping (ic_new_to_old_mapping config)) (\<lambda>new_to_old_mapping.
            validate_rotation_message_senders old_threshold new_to_old_mapping seen_senders)
      | None \<Rightarrow>
          let n = num_nodes lib (ic_nodes config) in
          if length messages \<noteq> n then Err (WrongFreshCount n (length messages)) else Ok ())"

text \<open>The old partial public key a message of a rotation is checked against.\<close>

definition expected_old_pk where
  "expected_old_pk config sender =
     and_then (ok_or MissingMapping (ic_new_to_old_mapping config)) (\<lambda>new_to_old_mapping.
     and_then (ok_or (NotInOldCommittee sender) (new_to_old_mapping sender)) (\<lambda>old_party_id.
     and_then (ok_or MissingOldPks (ic_expected_old_pks config)) (\<lambda>expected_old_pks.
       ok_or (OldPkNotFound old_party_id) (expected_old_pks old_party_id))))"

definition process_signed_message where
  "process_signed_message V lib config party signed_msg processed_messages =
     (let sender = signed_sender lib signed_msg in
      io_bind (io_lift (ok_or (SigningPkNotFound sender) (ic_signing_pks config sender))) (\<lambda>sender_signing_pk.
      io_bind (io_lift (verify_signature lib (ic_committee_id config) signed_msg sender_signing_pk)) (\<lambda>_.
      io_bind
        (if ic_old_threshold config \<noteq> None then
           io_bind (io_lift (expected_old_pk config sender)) (\<lambda>expected_pk.
             io_map_err (RotationCheckFailed sender)
               (process_message_with_checks lib party (sm_message signed_msg) (Some expected_pk) (Some (sm_nizk_proof signed_msg))))
         else io_map_err LibFailed
               (process_message_with_checks lib party (sm_message signed_msg) None (Some (sm_nizk_proof signed_msg)))) (\<lambda>processed.
      case pm_complaint_bcs lib processed of
        Some complaint \<Rightarrow> io_lift (and_then (map_err LibFailed complaint) (\<lambda>b.
          Err (ComplaintAgainst (pm_sender lib processed) (hex_encode V b))))
      | None \<Rightarrow> io_lift (Ok (processed_messages @ [processed]))))))"

definition complete_dkg where
  "complete_dkg lib config party used_msgs =
     (if ic_old_threshold config \<noteq> None then
        and_then (ok_or MissingMapping (ic_new_to_old_mapping config)) (\<lambda>new_to_old_mapping.
          map_err LibFailed (complete_optimistic_key_rotation lib party used_msgs new_to_old_mapping))
      else map_err LibFailed (complete_optimistic lib party used_msgs))"

text \<open>On success the updated state is returned with the output and the hash; after an error the
  caller discards the state.\<close>

definition process_dkg_messages ::
  "('w, 'y) cli_env \<Rightarrow> ('w, 'esk, 'epk, 'ssk, 'spk, 'sig, 'nodes, 'sc, 'g2, 'party, 'msg, 'nz, 'pm, 'conf, 'used, 'out) dkg_lib \<Rightarrow> 
   (object_id \<Rightarrow> string) \<Rightarrow> ('nodes, 'spk, 'g2, 'sc, 'msg, 'pm, 'conf, 'used, 'out) dkg_state \<Rightarrow> 
   ('msg, 'nz, 'sig) dkg_signed_message list \<Rightarrow> ('esk, 'epk, 'ssk, 'spk) keys_file \<Rightarrow> 
   ('w, dkg_error, 'out \<times> bytes \<times> ('nodes, 'spk, 'g2, 'sc, 'msg, 'pm, 'conf, 'used, 'out) dkg_state) io" where
  "process_dkg_messages V lib show_address state messages local_keys =
     (let config = ds_config state in
      io_bind (io_lift (insert_senders (map (signed_sender lib) messages) {})) (\<lambda>seen_senders.
      let messages = sort_key (signed_sender lib) messages in
      io_bind (io_lift (map_err LibFailed (messages_bcs lib messages))) (\<lambda>hash_input.
      let messages_hash = blake2b256 lib hash_input in
      io_bind (io_lift (validate_message_count lib config seen_senders messages)) (\<lambda>_.
      io_bind (io_map_err LibFailed (party_new_advanced lib (kf_enc_sk local_keys) (ic_nodes config) (ic_threshold config)
          (create_dkg_random_oracle show_address (ic_committee_id config)) (ic_my_old_share config) (ic_old_threshold config))) (\<lambda>party.
      io_bind (io_fold (process_signed_message V lib config party) messages (ds_processed_messages state)) (\<lambda>processed_messages.
      io_bind (io_lift (map_err LibFailed (party_merge lib party processed_messages))) (\<lambda>(confirmation, used_msgs).
      if conf_complaints lib confirmation \<noteq> 0 then io_lift (Err (ComplaintsFound (conf_complaints lib confirmation)))
      else
        io_bind (io_lift (complete_dkg lib config party used_msgs)) (\<lambda>output.
          io_lift (Ok (output, messages_hash,
            state\<lparr>ds_processed_messages := processed_messages, ds_confirmation := Some (confirmation, used_msgs),
              ds_output := Some output\<rparr>))))))))))"

subsection \<open>Initialising the state and creating a message\<close>

datatype create_error =
    ConfigFailed dkg_config_error
  | StateFileFailed file_error
  | GrpcFailed string
  | QueryFailed rpc_error
  | ObjectFailed committee_error
  | NotCommitteeMember object_id object_id
  | MemberInfoMissing object_id
  | MismatchedPk object_id
  | UnexpectedOldShare
  | TooFewContinuing object_id u16 nat
  | OldShareFromNewMember object_id object_id
  | OldShareInvalid object_id object_id u16
  | OldShareRequired object_id object_id
  | PartyFailed string

text \<open>How a gRPC client is made for a URL, and the default URLs.\<close>

record 'w grpc_factory =
  gf_mainnet_url :: string
  gf_testnet_url :: string
  gf_client_new :: "string \<Rightarrow> ('w grpc_node, string) res"

definition connect :: "'w grpc_factory \<Rightarrow> dkg_network \<Rightarrow> string option \<Rightarrow> ('w grpc_node, string) res" where
  "connect G network rpc_url =
     create_grpc_client_with_url (gf_mainnet_url G) (gf_testnet_url G) (gf_client_new G) network rpc_url"

text \<open>Indexing a \<open>HashMap\<close> panics on a missing key.\<close>

definition map_index :: "('k \<rightharpoonup> 'v) \<Rightarrow> 'k \<Rightarrow> ('v, 'e) res" where
  "map_index m k = (case m k of Some v \<Rightarrow> Ok v | None \<Rightarrow> Panic)"

text \<open>The entries of a map over member addresses in the order of iteration, which the code leaves
  to the hash map: \<open>hord\<close> permutes the keys.\<close>

definition map_values :: "(object_id list \<Rightarrow> object_id list) \<Rightarrow> object_id list \<Rightarrow> (object_id \<rightharpoonup> 'v) \<Rightarrow> 'v list" where
  "map_values hord members m = List.map_filter m (hord (remdups members))"

definition old_pks_by_party ::
  "(object_id list \<Rightarrow> object_id list) \<Rightarrow> object_id list \<Rightarrow> (object_id \<rightharpoonup> 'g2 partial_key_server_info) \<Rightarrow> (u16 \<rightharpoonup> 'g2)" where
  "old_pks_by_party hord members infos =
     map_of (rev (map (\<lambda>info. (pki_party_id info, pki_partial_pk info)) (map_values hord members infos)))"

definition check_old_share ::
  "object_id \<Rightarrow> object_id \<Rightarrow> ('epk, 'spk) seal_committee \<Rightarrow> u16 \<Rightarrow> (u16 \<rightharpoonup> u16) \<Rightarrow> (u16 \<rightharpoonup> 'g2) \<Rightarrow> 'sc option \<Rightarrow> 'g2 option \<Rightarrow>
   (unit, create_error) res" where
  "check_old_share my_address old_committee_id old_committee my_party_id new_to_old_mapping expected_old_pks my_old_share my_old_pk =
     (case my_old_share of
        Some _ \<Rightarrow>
          if \<not> contains_member old_committee my_address then Err (OldShareFromNewMember my_address old_committee_id)
          else
            and_then (case my_old_pk of Some pk \<Rightarrow> Ok pk | None \<Rightarrow> Panic) (\<lambda>my_old_pk.
            and_then (map_index new_to_old_mapping my_party_id) (\<lambda>old_party_id.
            and_then (map_index expected_old_pks old_party_id) (\<lambda>expected_old_pk.
              if expected_old_pk \<noteq> my_old_pk then Err (OldShareInvalid my_address old_committee_id old_party_id) else Ok ())))
      | None \<Rightarrow>
          if contains_member old_committee my_address then Err (OldShareRequired my_address old_committee_id) else Ok ())"

definition rotation_params ::
  "'w grpc_node \<Rightarrow> ('g2, 'epk, 'spk) sui_codec \<Rightarrow> (object_id list \<Rightarrow> object_id list) \<Rightarrow> ('epk, 'spk) seal_committee \<Rightarrow>
   object_id \<Rightarrow> u16 \<Rightarrow> 'sc option \<Rightarrow> 'g2 option \<Rightarrow>
   ('w, create_error, u16 option \<times> (u16 \<rightharpoonup> u16) option \<times> (u16 \<rightharpoonup> 'g2) option) io" where
  "rotation_params N K hord committee my_address my_party_id my_old_share my_old_pk =
     (case sc_old_committee_id committee of
        None \<Rightarrow> io_lift (if my_old_share \<noteq> None then Err UnexpectedOldShare else Ok (None, None, None))
      | Some old_committee_id \<Rightarrow>
          io_bind (io_map_err QueryFailed (fetch_committee_data N K old_committee_id)) (\<lambda>old_committee.
          let old_threshold = sc_threshold old_committee;
              new_to_old_mapping = build_new_to_old_map committee old_committee;
              continuing = card (dom new_to_old_mapping) in
          if continuing < unat old_threshold then io_lift (Err (TooFewContinuing old_committee_id old_threshold continuing))
          else
            io_bind (io_map_err QueryFailed (fetch_key_server_by_committee N K old_committee_id)) (\<lambda>(_, ks).
            io_bind (io_lift (map_err ObjectFailed (to_partial_key_servers ks (sc_members old_committee)))) (\<lambda>infos.
            let expected_old_pks = old_pks_by_party hord (sc_members old_committee) infos in
            io_bind (io_lift (check_old_share my_address old_committee_id old_committee my_party_id new_to_old_mapping
                expected_old_pks my_old_share my_old_pk)) (\<lambda>_.
              io_lift (Ok (Some old_threshold, Some new_to_old_mapping, Some expected_old_pks)))))))"

definition committee_nodes ::
  "(object_id list \<Rightarrow> object_id list) \<Rightarrow> object_id list \<Rightarrow> (object_id \<rightharpoonup> ('epk, 'spk) parsed_member_info) \<Rightarrow> 'epk dkg_node list" where
  "committee_nodes hord members infos =
     map (\<lambda>m. \<lparr>nd_id = pmi_party_id m, nd_pk = pmi_enc_pk m, nd_weight = 1\<rparr>) (map_values hord members infos)"

definition committee_signing_pks ::
  "(object_id list \<Rightarrow> object_id list) \<Rightarrow> object_id list \<Rightarrow> (object_id \<rightharpoonup> ('epk, 'spk) parsed_member_info) \<Rightarrow> (u16 \<rightharpoonup> 'spk)" where
  "committee_signing_pks hord members infos =
     map_of (rev (map (\<lambda>m. (pmi_party_id m, pmi_signing_pk m)) (map_values hord members infos)))"

definition message_file :: "string \<Rightarrow> u16 \<Rightarrow> string" where
  "message_file state_dir my_party_id = path_join state_dir (''message_'' @ decimal (unat my_party_id) @ ''.json'')"

definition create_own_message ::
  "('w, 'y) cli_env \<Rightarrow> ('w, 'esk, 'epk, 'ssk, 'spk, 'sig, 'nodes, 'sc, 'g2, 'party, 'msg, 'nz, 'pm, 'conf, 'used, 'out) dkg_lib \<Rightarrow> 
   (object_id \<Rightarrow> string) \<Rightarrow> string \<Rightarrow> object_id \<Rightarrow> ('esk, 'epk, 'ssk, 'spk) keys_file \<Rightarrow> 'epk dkg_node list \<Rightarrow> 
   u16 \<Rightarrow> u16 \<Rightarrow> 'sc option \<Rightarrow> u16 option \<Rightarrow> ('w, create_error, 'msg) io" where
  "create_own_message V lib show_address state_dir committee_id local_keys nodes threshold my_party_id my_old_share old_threshold =
     io_bind (io_lift (map_err PartyFailed (nodes_new lib nodes))) (\<lambda>all_nodes.
     io_bind (io_map_err PartyFailed (party_new_advanced lib (kf_enc_sk local_keys) all_nodes threshold
         (create_dkg_random_oracle show_address committee_id) my_old_share old_threshold)) (\<lambda>party.
     io_bind (io_map_err PartyFailed (create_message lib party)) (\<lambda>message.
     io_bind (\<lambda>w. (Ok (fst (nizk_pop_of_secret lib party w)), snd (nizk_pop_of_secret lib party w))) (\<lambda>nizk_proof.
     io_bind (io_lift (sign_message lib committee_id message (kf_signing_sk local_keys) nizk_proof)) (\<lambda>signed_msg.
     io_bind (io_lift (map_err PartyFailed (signed_message_bcs lib signed_msg))) (\<lambda>b.
     io_bind (io_lift (map_err PartyFailed (message_to_json lib (hex_encode V b)))) (\<lambda>json.
     io_bind (io_map_err (\<lambda>e. StateFileFailed (FileFailed e)) (fs_write V (message_file state_dir my_party_id) json)) (\<lambda>_.
       io_lift (Ok message)))))))))"

definition init_dkg_state ::
  "('w, 'y) cli_env \<Rightarrow> ('w, 'esk, 'epk, 'ssk, 'spk, 'sig, 'nodes, 'sc, 'g2, 'party, 'msg, 'nz, 'pm, 'conf, 'used, 'out) dkg_lib \<Rightarrow> 
   'w grpc_factory \<Rightarrow> ('g2, 'epk, 'spk) sui_codec \<Rightarrow> (object_id list \<Rightarrow> object_id list) \<Rightarrow> 
   string \<Rightarrow> string \<Rightarrow> string \<Rightarrow> 'sc option \<Rightarrow> ('w, create_error, ('nodes, 'spk, 'g2, 'sc, 'msg, 'pm, 'conf, 'used, 'out) dkg_state) io" where
  "init_dkg_state V lib G K hord state_dir config keys_file my_old_share =
     io_bind (io_map_err ConfigFailed (load_config V config)) (\<lambda>config_content.
     io_bind (io_lift (map_err ConfigFailed (get_my_address V config_content))) (\<lambda>my_address.
     io_bind (io_lift (map_err ConfigFailed (get_committee_id V config_content))) (\<lambda>committee_id.
     io_bind (io_lift (map_err ConfigFailed (get_network V config_content))) (\<lambda>network.
     let rpc_url = get_node_url V config_content in
     io_bind (io_map_err StateFileFailed (keys_file_load V lib keys_file)) (\<lambda>local_keys.
     let my_old_pk = map_option (g2_of_share lib) my_old_share in
     io_bind (io_lift (map_err GrpcFailed (connect G network rpc_url))) (\<lambda>N.
     io_bind (io_map_err QueryFailed (fetch_committee_data N K committee_id)) (\<lambda>committee.
     if \<not> contains_member committee my_address then io_lift (Err (NotCommitteeMember my_address committee_id))
     else
       io_bind (io_lift (map_err ObjectFailed (get_members_info committee))) (\<lambda>members_info.
       io_bind (io_lift (ok_or (MemberInfoMissing my_address) (members_info my_address))) (\<lambda>my_member_info.
       let my_party_id = pmi_party_id my_member_info in
       if kf_enc_pk local_keys \<noteq> pmi_enc_pk my_member_info \<or> kf_signing_pk local_keys \<noteq> pmi_signing_pk my_member_info
       then io_lift (Err (MismatchedPk my_address))
       else
         io_bind (rotation_params N K hord committee my_address my_party_id my_old_share my_old_pk)
           (\<lambda>(old_threshold, new_to_old_mapping, expected_old_pks).
         let nodes = committee_nodes hord (sc_members committee) members_info;
             signing_pks = committee_signing_pks hord (sc_members committee) members_info in
         io_bind (if old_threshold = None \<or> my_old_share \<noteq> None
             then io_bind (create_own_message V lib (codec_show_address K) state_dir committee_id local_keys nodes
                 (sc_threshold committee) my_party_id my_old_share old_threshold) (\<lambda>m. io_lift (Ok (Some m)))
             else io_lift (Ok None)) (\<lambda>my_message.
         io_bind (io_lift (map_err PartyFailed (nodes_new lib nodes))) (\<lambda>all_nodes.
           io_lift (Ok \<lparr>
             ds_config = \<lparr>ic_my_party_id = my_party_id, ic_nodes = all_nodes, ic_committee_id = committee_id,
               ic_threshold = sc_threshold committee, ic_signing_pks = signing_pks, ic_old_threshold = old_threshold,
               ic_new_to_old_mapping = new_to_old_mapping, ic_expected_old_pks = expected_old_pks,
               ic_my_old_share = my_old_share, ic_my_old_pk = my_old_pk\<rparr>,
             ds_my_message = my_message, ds_received_messages = Map.empty, ds_processed_messages = [],
             ds_confirmation = None, ds_output = None\<rparr>)))))))))))))"

definition create_dkg_state_and_message where
  "create_dkg_state_and_message V lib G K hord state_dir config keys_file my_old_share =
     io_bind (init_dkg_state V lib G K hord state_dir config keys_file my_old_share) (\<lambda>state.
       io_map_err StateFileFailed (dkg_state_save V lib state state_dir))"

subsection \<open>Facts about the steps\<close>

lemma insert_senders_Ok:
  "insert_senders senders seen = Ok s \<longleftrightarrow> distinct senders \<and> set senders \<inter> seen = {} \<and> s = seen \<union> set senders"
  by (induction senders seen rule: insert_senders.induct) auto

lemma io_fold_appends:
  assumes "\<And>x s w t w'. f x s w = (Ok t, w') \<Longrightarrow> \<exists>y. R x y \<and> t = s @ [y]"
  shows "io_fold f xs s w = (Ok t, w') \<Longrightarrow> \<exists>ys. t = s @ ys \<and> list_all2 R xs ys"
proof (induction xs arbitrary: s w)
  case (Cons x xs)
  then obtain s2 w2 where "f x s w = (Ok s2, w2)" "io_fold f xs s2 w2 = (Ok t, w')" by (auto simp: io_Ok_iffs)
  moreover obtain y where "R x y" "s2 = s @ [y]" using assms calculation(1) by blast
  moreover obtain ys where "t = s2 @ ys" "list_all2 R xs ys" using Cons.IH calculation(2) by blast
  ultimately show ?case by (intro exI [of _ "y # ys"]) simp
qed (auto simp: io_Ok_iffs)

lemma validate_rotation_message_senders_Ok:
  assumes "finite senders"
  shows "validate_rotation_message_senders t m senders = Ok () \<longleftrightarrow> card senders = unat t \<and> senders \<subseteq> dom m"
  using assms by (auto simp: validate_rotation_message_senders_def Let_def split: if_splits)

lemma expected_old_pk_Ok:
  "expected_old_pk config sender = Ok pk \<longleftrightarrow>
   (\<exists>m old pks. ic_new_to_old_mapping config = Some m \<and> m sender = Some old \<and> ic_expected_old_pks config = Some pks \<and> pks old = Some pk)"
  by (auto simp: expected_old_pk_def res_simps)

text \<open>What it takes for one message to be accepted by a party, with the outcome of the protocol's checks.\<close>

definition message_accepted where
  "message_accepted lib config party signed_msg processed \<longleftrightarrow>
     (\<exists>pk. ic_signing_pks config (signed_sender lib signed_msg) = Some pk \<and>
        verify_signature lib (ic_committee_id config) signed_msg pk = Ok ()) \<and>
     (\<exists>expected w w'.
        process_message_with_checks lib party (sm_message signed_msg) expected (Some (sm_nizk_proof signed_msg)) w = (Ok processed, w') \<and>
        pm_complaint_bcs lib processed = None \<and>
        (if ic_old_threshold config = None then expected = None
         else \<exists>pk. expected = Some pk \<and> expected_old_pk config (signed_sender lib signed_msg) = Ok pk))"

lemma process_signed_message_Ok:
  assumes "process_signed_message V lib config party signed_msg pms w = (Ok pms', w')"
  shows "\<exists>p. message_accepted lib config party signed_msg p \<and> pms' = pms @ [p]"
proof -
  let ?sender = "signed_sender lib signed_msg"
  obtain pk u processed where pk: "ic_signing_pks config ?sender = Some pk"
      "verify_signature lib (ic_committee_id config) signed_msg pk = Ok ()"
    and p: "(if ic_old_threshold config \<noteq> None then
           io_bind (io_lift (expected_old_pk config ?sender)) (\<lambda>expected_pk.
             io_map_err (RotationCheckFailed ?sender)
               (process_message_with_checks lib party (sm_message signed_msg) (Some expected_pk) (Some (sm_nizk_proof signed_msg))))
         else io_map_err LibFailed
               (process_message_with_checks lib party (sm_message signed_msg) None (Some (sm_nizk_proof signed_msg)))) w = (Ok processed, u)"
    and c: "(case pm_complaint_bcs lib processed of
        Some complaint \<Rightarrow> io_lift (and_then (map_err LibFailed complaint) (\<lambda>b.
          Err (ComplaintAgainst (pm_sender lib processed) (hex_encode V b))))
      | None \<Rightarrow> io_lift (Ok (pms @ [processed]))) u = (Ok pms', w')"
    using assms unfolding process_signed_message_def Let_def by (auto simp: io_bind_Ok_iff io_lift_Ok_iff ok_or_Ok_iff)
  have none: "pm_complaint_bcs lib processed = None" and pms': "pms' = pms @ [processed]"
    using c by (auto simp: io_lift_Ok_iff res_simps split: option.splits)
  have "message_accepted lib config party signed_msg processed"
  proof (cases "ic_old_threshold config")
    case None
    then show ?thesis using p none pk unfolding message_accepted_def by (auto simp: io_Ok_iffs)
  next
    case (Some t)
    then show ?thesis using p none pk unfolding message_accepted_def by (auto simp: io_Ok_iffs)
  qed
  with pms' show ?thesis by blast
qed

text \<open>The member's own instance of the protocol for a committee, made from its keys file.\<close>

definition own_party where
  "own_party lib show_address config keys w = party_new_advanced lib (kf_enc_sk keys) (ic_nodes config) (ic_threshold config)
     (create_dkg_random_oracle show_address (ic_committee_id config)) (ic_my_old_share config) (ic_old_threshold config) w"

lemma process_dkg_messages_OkE:
  assumes "process_dkg_messages V lib show_address state messages keys w = (Ok (output, h, state'), w')"
  obtains hash_input party u pms where "distinct (map (signed_sender lib) messages)"
    and "messages_bcs lib (sort_key (signed_sender lib) messages) = Ok hash_input" and "h = blake2b256 lib hash_input"
    and "validate_message_count lib (ds_config state) (signed_sender lib ` set messages) (sort_key (signed_sender lib) messages) = Ok ()"
    and "own_party lib show_address (ds_config state) keys w = (Ok party, u)"
    and "list_all2 (message_accepted lib (ds_config state) party) (sort_key (signed_sender lib) messages) pms"
    and "ds_processed_messages state' = ds_processed_messages state @ pms"
    and "ds_config state' = ds_config state" and "ds_output state' = Some output"
proof -
  obtain hash_input party pms u v where
      1: "insert_senders (map (signed_sender lib) messages) {} = Ok (signed_sender lib ` set messages)"
      "messages_bcs lib (sort_key (signed_sender lib) messages) = Ok hash_input" "h = blake2b256 lib hash_input"
      "validate_message_count lib (ds_config state) (signed_sender lib ` set messages) (sort_key (signed_sender lib) messages) = Ok ()"
      "own_party lib show_address (ds_config state) keys w = (Ok party, u)"
      "io_fold (process_signed_message V lib (ds_config state) party) (sort_key (signed_sender lib) messages) (ds_processed_messages state) u = (Ok pms, v)"
      "ds_processed_messages state' = pms" "ds_config state' = ds_config state" "ds_output state' = Some output"
    using assms unfolding process_dkg_messages_def Let_def own_party_def
    by (auto simp: io_Ok_iffs insert_senders_Ok split: if_splits prod.splits)
  have "\<exists>ys. pms = ds_processed_messages state @ ys \<and>
      list_all2 (message_accepted lib (ds_config state) party) (sort_key (signed_sender lib) messages) ys"
    by (rule io_fold_appends [OF _ 1(6)]) (rule process_signed_message_Ok)
  then obtain ys where "pms = ds_processed_messages state @ ys"
      "list_all2 (message_accepted lib (ds_config state) party) (sort_key (signed_sender lib) messages) ys" by blast
  with 1 show ?thesis by (intro that [of hash_input party u ys]) (auto simp: insert_senders_Ok)
qed

lemma accepted_signature:
  assumes "list_all2 (message_accepted lib config party) (sort_key f messages) pms" and "m \<in> set messages"
  shows "\<exists>pk. ic_signing_pks config (signed_sender lib m) = Some pk \<and> verify_signature lib (ic_committee_id config) m pk = Ok ()"
proof -
  obtain i where "i < length (sort_key f messages)" "sort_key f messages ! i = m" using assms(2) by (metis in_set_conv_nth set_sort)
  then have "message_accepted lib config party m (pms ! i)" using list_all2_nthD [OF assms(1)] by blast
  then show ?thesis by (simp add: message_accepted_def)
qed

subsection \<open>Properties of the processing\<close>

text \<open>C10: Only authentic and complete sets of messages give an output. The senders are distinct,
  each message carries a valid signature by the key recorded for its sender over this
  committee's id, passed the checks of the protocol by the member's own party without a complaint, and was checked
  against the sender's old partial public key in a rotation. A fresh key generation has one
  message per party; a rotation has as many as the old threshold, all from continuing
  members. What the checks made of the messages, in the order of the senders, is what the
  resulting state has in addition.\<close>

theorem dkg_output_authentic:
  assumes "process_dkg_messages V lib show_address state messages keys w = (Ok (output, h, state'), w')"
  shows "distinct (map (signed_sender lib) messages) \<and>
    (\<exists>party u pms. own_party lib show_address (ds_config state) keys w = (Ok party, u) \<and>
       list_all2 (message_accepted lib (ds_config state) party) (sort_key (signed_sender lib) messages) pms \<and>
       ds_processed_messages state' = ds_processed_messages state @ pms) \<and>
    (case ic_old_threshold (ds_config state) of
       None \<Rightarrow> length messages = num_nodes lib (ic_nodes (ds_config state))
     | Some t \<Rightarrow> length messages = unat t \<and>
         (\<exists>mapping. ic_new_to_old_mapping (ds_config state) = Some mapping \<and> signed_sender lib ` set messages \<subseteq> dom mapping))"
proof -
  let ?senders = "signed_sender lib ` set messages"
  obtain party u pms where 1: "distinct (map (signed_sender lib) messages)"
    "validate_message_count lib (ds_config state) ?senders (sort_key (signed_sender lib) messages) = Ok ()"
    "own_party lib show_address (ds_config state) keys w = (Ok party, u)"
    "list_all2 (message_accepted lib (ds_config state) party) (sort_key (signed_sender lib) messages) pms"
    "ds_processed_messages state' = ds_processed_messages state @ pms"
    by (rule process_dkg_messages_OkE [OF assms])
  have "card ?senders = length messages" using distinct_card [OF 1(1)] by simp
  then show ?thesis using 1
    by (auto simp: validate_message_count_def Let_def res_simps validate_rotation_message_senders_Ok split: option.splits if_splits)
qed

text \<open>C13: The order in which the messages were read does not matter. If processing succeeds, it
  succeeds with the same output, the same hash and the same state on every permutation of the
  messages, so all members that hold the same messages propose the same hash.\<close>

theorem dkg_order_irrelevant:
  assumes "process_dkg_messages V lib show_address state messages keys w = (Ok r, w')"
    and "mset messages' = mset messages"
  shows "process_dkg_messages V lib show_address state messages' keys w = (Ok r, w')"
proof -
  let ?sender = "signed_sender lib"
  obtain outp h state' where "r = (outp, h, state')" by (cases r)
  then have d: "distinct (map ?sender messages)" using assms(1) by (auto elim: process_dkg_messages_OkE)
  have set_eq: "set messages' = set messages" using assms(2) by (rule mset_eq_setD)
  have "mset (map ?sender messages') = mset (map ?sender messages)" using assms(2) by simp
  then have d': "distinct (map ?sender messages')" using d by (metis mset_eq_imp_distinct_iff)
  have "sort_key ?sender messages' = sort_key ?sender messages"
    by (rule sort_key_inj_key_eq) (use assms(2) d' in \<open>simp_all add: distinct_map\<close>)
  moreover have "insert_senders (map ?sender messages') {} = Ok (?sender ` set messages)"
    "insert_senders (map ?sender messages) {} = Ok (?sender ` set messages)"
    by (simp_all add: insert_senders_Ok d d' set_eq)
  ultimately show ?thesis using assms(1) by (simp add: process_dkg_messages_def)
qed

text \<open>A message verifies under the public key of the signer, for the committee it was signed for.\<close>

definition bls_signature_laws where
  "bls_signature_laws lib is_key_pair \<longleftrightarrow>
     (\<forall>sk pk b. is_key_pair sk pk \<longrightarrow> bls_verify lib pk b (bls_sign lib sk b) = Ok ())"

lemma sign_message_verifies:
  assumes "bls_signature_laws lib is_key_pair" and "is_key_pair sk pk"
    and "sign_message lib committee_id message sk nizk = Ok signed_msg"
  shows "verify_signature lib committee_id signed_msg pk = Ok () \<and> sm_message signed_msg = message \<and> sm_nizk_proof signed_msg = nizk"
  using assms by (auto simp: sign_message_def verify_signature_def bls_signature_laws_def res_simps Let_def)

subsection \<open>The registered members\<close>

lemma map_of_rev_functional:
  assumes "\<And>x y. x \<in> set xs \<Longrightarrow> y \<in> set xs \<Longrightarrow> fst x = fst y \<Longrightarrow> x = y"
  shows "map_of (rev xs) k = Some v \<longleftrightarrow> (k, v) \<in> set xs"
proof
  assume "(k, v) \<in> set xs"
  then obtain v' where "map_of (rev xs) k = Some v'" by (metis set_rev weak_map_of_SomeI)
  then show "map_of (rev xs) k = Some v"
    using assms \<open>(k, v) \<in> set xs\<close> by (metis fst_conv map_of_SomeD set_rev snd_conv)
qed (use map_of_SomeD in fastforce)

lemma set_map_values:
  "permutes hord \<Longrightarrow> set (map_values hord members m) = {v. \<exists>a \<in> set members. m a = Some v}"
  by (auto simp: map_values_def List.map_filter_def permutes_set) force

text \<open>The signing and encryption keys that the member with a party id has registered on chain.\<close>

definition registered :: "('epk, 'spk) seal_committee \<Rightarrow> object_id \<Rightarrow> ('epk, 'spk) member_info \<Rightarrow> bool" where
  "registered c a info \<longleftrightarrow>
     contains_member c a \<and> (\<exists>infos. committee_infos (sc_state c) = Some infos \<and> map_of (rev infos) a = Some info)"

lemma members_info_registered:
  assumes "members_wf (sc_members c)" and "get_members_info c = Ok m" and "m a = Some i"
  shows "get_party_id c a = Ok (pmi_party_id i) \<and>
    (\<exists>info. registered c a info \<and> pmi_enc_pk i = mi_enc_pk info \<and> pmi_signing_pk i = mi_signing_pk info)"
proof -
  obtain infos where 1: "committee_infos (sc_state c) = Some infos" "contains_member c a"
      "get_party_id c a = Ok (pmi_party_id i)"
      "\<exists>info. map_of (rev infos) a = Some info \<and> pmi_enc_pk i = mi_enc_pk info \<and> pmi_signing_pk i = mi_signing_pk info"
    using get_members_info_OkD [OF assms(1,2)] assms(3) by blast
  then show ?thesis unfolding registered_def by blast
qed

lemma members_info_complete:
  assumes "members_wf (sc_members c)" and "get_members_info c = Ok m" and "contains_member c a"
  shows "\<exists>i. m a = Some i"
  using get_members_info_OkD [OF assms(1,2)] assms(3) by blast

lemma party_id_injective:
  assumes "members_wf (sc_members c)" and "get_party_id c a = Ok n" and "get_party_id c b = Ok n"
  shows "a = b"
  using assms by (simp add: get_party_id_Ok)

lemma signing_pks_exact:
  assumes "permutes hord" and wf: "members_wf (sc_members c)" and m: "get_members_info c = Ok m"
  shows "committee_signing_pks hord (sc_members c) m n = Some pk \<longleftrightarrow>
    (\<exists>a info. get_party_id c a = Ok n \<and> registered c a info \<and> mi_signing_pk info = pk)"
proof -
  let ?xs = "map (\<lambda>m. (pmi_party_id m, pmi_signing_pk m)) (map_values hord (sc_members c) m)"
  have mem: "(\<exists>a \<in> set (sc_members c). m a = Some i) \<longleftrightarrow> (\<exists>a. m a = Some i)" for i
    using get_members_info_OkD [OF wf m] by (auto simp: contains_member_def)
  have uniq: "i = j" if "m a = Some i" "m b = Some j" "pmi_party_id i = pmi_party_id j" for a b i j
    using members_info_registered [OF wf m that(1)] members_info_registered [OF wf m that(2)] that party_id_injective [OF wf]
    by (metis option.inject)
  have fn: "x = y" if xy: "x \<in> set ?xs" "y \<in> set ?xs" "fst x = fst y" for x y
  proof -
    obtain a i b j where "m a = Some i" "m b = Some j" "x = (pmi_party_id i, pmi_signing_pk i)" "y = (pmi_party_id j, pmi_signing_pk j)"
      using xy(1,2) by (auto simp: set_map_values [OF assms(1)] mem)
    then show ?thesis using uniq xy(3) by auto
  qed
  have "committee_signing_pks hord (sc_members c) m n = Some pk \<longleftrightarrow> (\<exists>a i. m a = Some i \<and> n = pmi_party_id i \<and> pk = pmi_signing_pk i)"
    unfolding committee_signing_pks_def
    by (subst map_of_rev_functional [OF fn]) (auto simp: set_map_values [OF assms(1)] mem)
  also have "\<dots> \<longleftrightarrow> (\<exists>a info. get_party_id c a = Ok n \<and> registered c a info \<and> mi_signing_pk info = pk)"
  proof
    assume "\<exists>a i. m a = Some i \<and> n = pmi_party_id i \<and> pk = pmi_signing_pk i"
    then show "\<exists>a info. get_party_id c a = Ok n \<and> registered c a info \<and> mi_signing_pk info = pk"
      using members_info_registered [OF wf m] by metis
  next
    assume "\<exists>a info. get_party_id c a = Ok n \<and> registered c a info \<and> mi_signing_pk info = pk"
    then obtain a info where a: "get_party_id c a = Ok n" "registered c a info" "mi_signing_pk info = pk" by blast
    then obtain i where i: "m a = Some i" using members_info_complete [OF wf m] by (auto simp: registered_def)
    then have "get_party_id c a = Ok (pmi_party_id i)" "pmi_signing_pk i = pk"
      using members_info_registered [OF wf m i] a by (auto simp: registered_def)
    then show "\<exists>a i. m a = Some i \<and> n = pmi_party_id i \<and> pk = pmi_signing_pk i" using a i by auto
  qed
  finally show ?thesis .
qed

text \<open>The nodes of the protocol: one for each member that has registered, with its party id and encryption key.\<close>

definition registered_nodes where
  "registered_nodes lib c all_nodes \<longleftrightarrow> (\<exists>nodes. nodes_new lib nodes = Ok all_nodes \<and> length nodes = length (sc_members c) \<and>
     (\<forall>n. n \<in> set nodes \<longleftrightarrow> nd_weight n = 1 \<and> (\<exists>a info. get_party_id c a = Ok (nd_id n) \<and> registered c a info \<and> mi_enc_pk info = nd_pk n)))"

lemma committee_nodes_registered:
  assumes "permutes hord" and wf: "members_wf (sc_members c)" and m: "get_members_info c = Ok m"
    and nodes: "nodes_new lib (committee_nodes hord (sc_members c) m) = Ok all_nodes"
  shows "registered_nodes lib c all_nodes"
proof -
  have dom: "\<forall>a \<in> set (sc_members c). m a \<noteq> None" using members_info_complete [OF wf m] by (fastforce simp: contains_member_def)
  have "List.map_filter m xs = map (the \<circ> m) xs" if "set xs \<subseteq> set (sc_members c)" for xs
    using that dom by (induction xs) (auto simp: List.map_filter_simps)
  moreover have "set (hord (remdups (sc_members c))) = set (sc_members c)" "length (hord (remdups (sc_members c))) = length (sc_members c)"
    using assms(1) wf by (auto simp: permutes_set members_wf_def distinct_remdups_id)
  ultimately have len: "length (committee_nodes hord (sc_members c) m) = length (sc_members c)"
    by (simp add: committee_nodes_def map_values_def)
  have "n \<in> set (committee_nodes hord (sc_members c) m) \<longleftrightarrow>
      nd_weight n = 1 \<and> (\<exists>a info. get_party_id c a = Ok (nd_id n) \<and> registered c a info \<and> mi_enc_pk info = nd_pk n)" for n
  proof
    assume "n \<in> set (committee_nodes hord (sc_members c) m)"
    then obtain a i where "m a = Some i" "n = \<lparr>nd_id = pmi_party_id i, nd_pk = pmi_enc_pk i, nd_weight = 1\<rparr>"
      by (auto simp: committee_nodes_def set_map_values [OF assms(1)])
    with members_info_registered [OF wf m, of a i]
    show "nd_weight n = 1 \<and> (\<exists>a info. get_party_id c a = Ok (nd_id n) \<and> registered c a info \<and> mi_enc_pk info = nd_pk n)"
      by (auto intro!: exI [of _ a])
  next
    assume n: "nd_weight n = 1 \<and> (\<exists>a info. get_party_id c a = Ok (nd_id n) \<and> registered c a info \<and> mi_enc_pk info = nd_pk n)"
    then obtain a info where a: "get_party_id c a = Ok (nd_id n)" "registered c a info" "mi_enc_pk info = nd_pk n" by blast
    then obtain i where i: "m a = Some i" "a \<in> set (sc_members c)"
      using members_info_complete [OF wf m] by (auto simp: registered_def contains_member_def)
    then have "n = \<lparr>nd_id = pmi_party_id i, nd_pk = pmi_enc_pk i, nd_weight = 1\<rparr>"
      using members_info_registered [OF wf m i(1)] a n by (auto simp: registered_def)
    then show "n \<in> set (committee_nodes hord (sc_members c) m)" using i by (auto simp: committee_nodes_def set_map_values [OF assms(1)])
  qed
  with len nodes show ?thesis unfolding registered_nodes_def by (intro exI [of _ "committee_nodes hord (sc_members c) m"]) simp
qed

subsection \<open>The initial state\<close>

text \<open>Committee objects on chain have distinct members, no more than there are party ids.\<close>

definition committees_wf :: "('g2, 'epk, 'spk) sui_codec \<Rightarrow> bool" where
  "committees_wf K \<longleftrightarrow> (\<forall>b c. codec_committee K b = Ok c \<longrightarrow> members_wf (sc_members c))"

lemma rpc_bind_Ok_iff: "rpc_bind m f w = (Ok y, v) \<longleftrightarrow> (\<exists>x u. m w = (Ok x, u) \<and> f x u = (Ok y, v))"
  by (auto split: prod.splits res.splits)

lemma fetched_committee_wf:
  assumes "committees_wf K" and "fetch_committee_data N K i w = (Ok c, w')"
  shows "members_wf (sc_members c)"
proof -
  have "\<exists>b. codec_committee K b = Ok c"
    using assms(2) unfolding fetch_committee_data_def fetch_object_def
    by (auto simp: rpc_bind_Ok_iff rpc_lift_def res_simps simp del: rpc_bind.simps split: sui_data.split_asm)
      (metis sui_data.exhaust)
  then show ?thesis using assms(1) by (auto simp: committees_wf_def)
qed

lemma check_old_share_Ok:
  "check_old_share addr old_id old pid m pks share pk = Ok () \<longleftrightarrow>
   (if share = None then \<not> contains_member old addr
    else contains_member old addr \<and> (\<exists>o' k. m pid = Some o' \<and> pks o' = Some k \<and> pk = Some k))"
  by (auto simp: check_old_share_def map_index_def res_simps split: option.splits if_splits)

text \<open>The old partial public keys are those of the key server object, the last entry of a party.\<close>

lemma map_of_inj_keys:
  assumes "inj_on h (insert q (k ` set xs))"
  shows "map_of (map (\<lambda>x. (h (k x), f x)) xs) (h q) = map_of (map (\<lambda>x. (k x, f x)) xs) q"
  using assms by (induction xs) (auto simp: inj_on_def)

lemma option_eqI: "(\<And>x. a = Some x \<longleftrightarrow> b = Some x) \<Longrightarrow> a = b"
  by (metis not_None_eq)

lemma map_of_map_values: "map_of (map (\<lambda>x. (k x, f (g x))) xs) q = map_option f (map_of (map (\<lambda>x. (k x, g x)) xs) q)"
  by (induction xs) auto

lemma party_ids_inj:
  "members_wf members \<Longrightarrow> inj_on (\<lambda>n :: u16. members ! unat n) {n. unat n < length members}"
  by (auto simp: inj_on_def members_wf_def nth_eq_iff_index_eq word_unat_eq_iff)

lemma old_pks_lookup:
  assumes "permutes hord" and wf: "members_wf members"
    and at: "\<And>a i. infos a = Some i \<Longrightarrow> a = members ! unat (pki_party_id i) \<and> unat (pki_party_id i) < length members"
  shows "old_pks_by_party hord members infos n =
    (if unat n < length members then map_option pki_partial_pk (infos (members ! unat n)) else None)"
proof -
  let ?xs = "map (\<lambda>i. (pki_party_id i, pki_partial_pk i)) (map_values hord members infos)"
  have xs: "(n, pk) \<in> set ?xs \<longleftrightarrow> unat n < length members \<and> (\<exists>i. infos (members ! unat n) = Some i \<and> pki_partial_pk i = pk)" for n pk
  proof
    assume "(n, pk) \<in> set ?xs"
    then obtain a i where i: "infos a = Some i" "n = pki_party_id i" "pki_partial_pk i = pk"
      by (auto simp: set_map_values [OF assms(1)])
    with at [OF i(1)] show "unat n < length members \<and> (\<exists>i. infos (members ! unat n) = Some i \<and> pki_partial_pk i = pk)" by simp
  next
    assume "unat n < length members \<and> (\<exists>i. infos (members ! unat n) = Some i \<and> pki_partial_pk i = pk)"
    then obtain i where i: "unat n < length members" "infos (members ! unat n) = Some i" "pki_partial_pk i = pk" by blast
    have "n = pki_party_id i" using inj_onD [OF party_ids_inj [OF wf], of n "pki_party_id i"] i(1) at [OF i(2)] by simp
    then show "(n, pk) \<in> set ?xs" using i by (force simp: set_map_values [OF assms(1)])
  qed
  have rev_xs: "map_of (rev ?xs) n = Some pk \<longleftrightarrow> (n, pk) \<in> set ?xs" for pk
  proof (rule map_of_rev_functional)
    fix x y
    assume xy: "x \<in> set ?xs" "y \<in> set ?xs" "fst x = fst y"
    then have "(fst x, snd x) \<in> set ?xs" "(fst x, snd y) \<in> set ?xs" by (metis prod.collapse)+
    then show "x = y" using xy(3) unfolding xs by (auto simp: prod_eq_iff)
  qed
  show ?thesis unfolding old_pks_by_party_def by (rule option_eqI) (unfold rev_xs xs, auto)
qed

lemma old_pks_exact:
  assumes "permutes hord" and wf: "members_wf members" and Ok: "to_partial_key_servers ks members = Ok infos"
  shows "\<exists>v t ps. ks_server_type ks = Committee v t ps \<and>
    old_pks_by_party hord members infos = map_of (rev (map (\<lambda>p. (pks_party_id p, pks_partial_pk p)) ps))"
proof -
  obtain v t ps where ps: "ks_server_type ks = Committee v t ps" and range: "\<forall>p \<in> set ps. unat (pks_party_id p) < length members"
    using to_partial_key_servers_Ok [of ks members] Ok by auto
  let ?a = "\<lambda>n :: u16. members ! unat n"
  let ?info = "\<lambda>p. \<lparr>pki_party_id = pks_party_id p, pki_partial_pk = pks_partial_pk p, pki_name = pks_name p, pki_url = pks_url p\<rparr>"
  have infos: "infos = map_of (map (\<lambda>p. (?a (pks_party_id p), ?info p)) (rev ps))"
    using Ok range by (simp add: to_partial_key_servers_def ps collect_map_def Let_def rev_map
        collect_res_Ok [where g = "\<lambda>p. (?a (pks_party_id p), ?info p)"])
  have at: "a = ?a (pki_party_id i) \<and> unat (pki_party_id i) < length members" if "infos a = Some i" for a i
    using map_of_SomeD [OF that [unfolded infos]] range by auto
  have "old_pks_by_party hord members infos n = map_of (map (\<lambda>p. (pks_party_id p, pks_partial_pk p)) (rev ps)) n" for n
  proof (cases "unat n < length members")
    case True
    have "infos (?a n) = map_of (map (\<lambda>p. (pks_party_id p, ?info p)) (rev ps)) n"
      unfolding infos by (rule map_of_inj_keys, rule inj_on_subset [OF party_ids_inj [OF wf]]) (use True range in auto)
    then show ?thesis using True by (simp add: old_pks_lookup [OF assms(1) wf at] flip: map_of_map_values)
  next
    case False
    then have "map_of (map (\<lambda>p. (pks_party_id p, pks_partial_pk p)) (rev ps)) n = None"
      using range by (auto simp: map_of_eq_None_iff)
    then show ?thesis using False by (simp add: old_pks_lookup [OF assms(1) wf at])
  qed
  then show ?thesis using ps by (auto simp: rev_map)
qed

text \<open>What the parameters of a rotation are made of: the old committee object, and the key server object of the
  old committee.\<close>

lemma rotation_params_Ok:
  assumes "rotation_params N K hord c addr pid share pk w = (Ok (t, m, e), w')"
  shows "(t = None \<longleftrightarrow> sc_old_committee_id c = None) \<and> (t = None \<longrightarrow> share = None) \<and>
    (\<forall>t'. t = Some t' \<longrightarrow> (\<exists>old_id old w2 mapping pks ks_id ks w3 infos. sc_old_committee_id c = Some old_id \<and>
       fetch_committee_data N K old_id w = (Ok old, w2) \<and> t' = sc_threshold old \<and>
       mapping = build_new_to_old_map c old \<and> m = Some mapping \<and>
       fetch_key_server_by_committee N K old_id w2 = (Ok (ks_id, ks), w3) \<and> to_partial_key_servers ks (sc_members old) = Ok infos \<and>
       e = Some pks \<and> pks = old_pks_by_party hord (sc_members old) infos \<and> unat t' \<le> card (dom mapping) \<and>
       check_old_share addr old_id old pid mapping pks share pk = Ok ()))"
proof (cases "sc_old_committee_id c")
  case None
  then show ?thesis using assms by (auto simp: rotation_params_def io_Ok_iffs split: if_splits)
next
  case (Some old_id)
  let ?m = "build_new_to_old_map c"
  obtain old u infos ks_id ks u' where 1: "fetch_committee_data N K old_id w = (Ok old, u)"
      "t = Some (sc_threshold old)" "m = Some (?m old)" "e = Some (old_pks_by_party hord (sc_members old) infos)"
      "unat (sc_threshold old) \<le> card (dom (?m old))"
      "fetch_key_server_by_committee N K old_id u = (Ok (ks_id, ks), u')" "to_partial_key_servers ks (sc_members old) = Ok infos"
      "check_old_share addr old_id old pid (?m old) (old_pks_by_party hord (sc_members old) infos) share pk = Ok ()"
    using assms Some unfolding rotation_params_def
    by (auto simp: io_bind_Ok_iff io_map_err_Ok_iff io_lift_Ok_iff map_err_Ok_iff Let_def not_less split: if_splits prod.splits)
  then show ?thesis using Some by auto
qed

lemma io_bind_OkE:
  assumes "io_bind m f w = (Ok y, v)"
  obtains x u where "m w = (Ok x, u)" and "f x u = (Ok y, v)"
  using assms by (auto simp: io_bind_Ok_iff)

lemma if_err_OkE:
  assumes "(if b then io_lift (Err e) else m) w = (Ok y, v)"
  obtains "\<not> b" and "m w = (Ok y, v)"
  using assms by (auto simp: io_lift_Ok_iff split: if_splits)

lemma case_triple_OkE:
  assumes "(case x of (a, b, c) \<Rightarrow> f a b c) u = r"
  obtains a b c where "x = (a, b, c)" and "f a b c u = r"
  using assms by (cases x) auto

lemma init_dkg_state_OkE:
  assumes "init_dkg_state V lib G K hord dir config kf share w = (Ok st, w')"
  obtains N c keys addr infos info w1 w2 w3 w4 cfg network where
    "load_config V config w = (Ok cfg, w1)" "get_my_address V cfg = Ok addr" "get_committee_id V cfg = Ok (ic_committee_id (ds_config st))"
    "get_network V cfg = Ok network" "connect G network (get_node_url V cfg) = Ok N"
    "keys_file_load V lib kf w1 = (Ok keys, w2)"
    "fetch_committee_data N K (ic_committee_id (ds_config st)) w2 = (Ok c, w3)"
    "contains_member c addr" "get_members_info c = Ok infos" "infos addr = Some info"
    "kf_enc_pk keys = pmi_enc_pk info" "kf_signing_pk keys = pmi_signing_pk info"
    "ic_my_party_id (ds_config st) = pmi_party_id info" "ic_threshold (ds_config st) = sc_threshold c"
    "ic_signing_pks (ds_config st) = committee_signing_pks hord (sc_members c) infos"
    "rotation_params N K hord c addr (pmi_party_id info) share (map_option (g2_of_share lib) share) w3 =
       (Ok (ic_old_threshold (ds_config st), ic_new_to_old_mapping (ds_config st), ic_expected_old_pks (ds_config st)), w4)"
    "ds_my_message st \<noteq> None \<longleftrightarrow> ic_old_threshold (ds_config st) = None \<or> share \<noteq> None"
    "ic_my_old_share (ds_config st) = share" "ic_my_old_pk (ds_config st) = map_option (g2_of_share lib) share"
    "nodes_new lib (committee_nodes hord (sc_members c) infos) = Ok (ic_nodes (ds_config st))"
  using assms unfolding init_dkg_state_def Let_def
proof (elim io_bind_OkE if_err_OkE case_triple_OkE, goal_cases)
  case (1 cc u1 addr u2 cid u3 net u4 keys u5 N u6 c u7 infos u8 info u9 x u10 t m e msg u11 ns u12)
  then show ?case
    by (intro that [of cc u1 addr net N keys u5 c u7 infos info u10]) (auto simp: io_Ok_iffs split: if_splits)
qed

subsection \<open>Properties of the initial state\<close>

lemma init_dkg_state_registered:
  assumes "permutes hord" and "committees_wf K"
    and "init_dkg_state V lib G K hord dir config kf share w = (Ok st, w')"
  obtains N c keys addr info w1 w2 w3 w4 cfg network where
    "load_config V config w = (Ok cfg, w1)" "get_my_address V cfg = Ok addr" "get_committee_id V cfg = Ok (ic_committee_id (ds_config st))"
    "get_network V cfg = Ok network" "connect G network (get_node_url V cfg) = Ok N"
    "keys_file_load V lib kf w1 = (Ok keys, w2)"
    "fetch_committee_data N K (ic_committee_id (ds_config st)) w2 = (Ok c, w3)" "members_wf (sc_members c)"
    "get_party_id c addr = Ok (ic_my_party_id (ds_config st))"
    "registered c addr info" "mi_enc_pk info = kf_enc_pk keys" "mi_signing_pk info = kf_signing_pk keys"
    "ic_threshold (ds_config st) = sc_threshold c"
    "\<forall>n pk. ic_signing_pks (ds_config st) n = Some pk \<longleftrightarrow>
       (\<exists>a info. get_party_id c a = Ok n \<and> registered c a info \<and> mi_signing_pk info = pk)"
    "rotation_params N K hord c addr (ic_my_party_id (ds_config st)) share (map_option (g2_of_share lib) share) w3 =
       (Ok (ic_old_threshold (ds_config st), ic_new_to_old_mapping (ds_config st), ic_expected_old_pks (ds_config st)), w4)"
    "ds_my_message st \<noteq> None \<longleftrightarrow> ic_old_threshold (ds_config st) = None \<or> share \<noteq> None"
    "ic_my_old_share (ds_config st) = share" "ic_my_old_pk (ds_config st) = map_option (g2_of_share lib) share"
    "registered_nodes lib c (ic_nodes (ds_config st))"
  using assms(3)
proof (rule init_dkg_state_OkE)
  fix N c keys addr infos i w1 w2 w3 w4 cfg network
  assume 1: "load_config V config w = (Ok cfg, w1)" "get_my_address V cfg = Ok addr" "get_committee_id V cfg = Ok (ic_committee_id (ds_config st))"
    "get_network V cfg = Ok network" "connect G network (get_node_url V cfg) = Ok N"
    "keys_file_load V lib kf w1 = (Ok keys, w2)"
    and c: "fetch_committee_data N K (ic_committee_id (ds_config st)) w2 = (Ok c, w3)"
    and infos: "get_members_info c = Ok infos" "infos addr = Some i"
    and keys: "kf_enc_pk keys = pmi_enc_pk i" "kf_signing_pk keys = pmi_signing_pk i"
    and cfg: "ic_my_party_id (ds_config st) = pmi_party_id i" "ic_threshold (ds_config st) = sc_threshold c"
    "ic_signing_pks (ds_config st) = committee_signing_pks hord (sc_members c) infos"
    and r: "rotation_params N K hord c addr (pmi_party_id i) share (map_option (g2_of_share lib) share) w3 =
       (Ok (ic_old_threshold (ds_config st), ic_new_to_old_mapping (ds_config st), ic_expected_old_pks (ds_config st)), w4)"
    and msg: "ds_my_message st \<noteq> None \<longleftrightarrow> ic_old_threshold (ds_config st) = None \<or> share \<noteq> None"
      "ic_my_old_share (ds_config st) = share" "ic_my_old_pk (ds_config st) = map_option (g2_of_share lib) share"
    and nodes: "nodes_new lib (committee_nodes hord (sc_members c) infos) = Ok (ic_nodes (ds_config st))"
  have wf: "members_wf (sc_members c)" using assms(2) c by (rule fetched_committee_wf)
  obtain info where info: "get_party_id c addr = Ok (pmi_party_id i)" "registered c addr info"
      "pmi_enc_pk i = mi_enc_pk info" "pmi_signing_pk i = mi_signing_pk info"
    using members_info_registered [OF wf infos] by blast
  show thesis
    by (rule that [OF 1 c wf _ info(2)])
      (use info keys cfg r msg signing_pks_exact [OF assms(1) wf infos(1)] committee_nodes_registered [OF assms(1) wf infos(1) nodes] in auto)
qed

lemma connect_client: "connect G network rpc_url = Ok N \<Longrightarrow> \<exists>url. gf_client_new G url = Ok N"
  by (auto simp: connect_def create_grpc_client_with_url_def)

text \<open>Two projections of these facts: the recorded signing keys, and the member's own keys.\<close>

lemma init_dkg_state_signing:
  fixes V :: "('w, 'y) cli_env"
  assumes "permutes hord" and "committees_wf K"
    and "init_dkg_state V lib G K hord dir config kf share w = (Ok st, w')"
  shows "\<exists>N url c (w1 :: 'w) w2. gf_client_new G url = Ok N \<and> fetch_committee_data N K (ic_committee_id (ds_config st)) w1 = (Ok c, w2) \<and>
    (\<forall>n pk. ic_signing_pks (ds_config st) n = Some pk \<longleftrightarrow>
       (\<exists>a info. get_party_id c a = Ok n \<and> registered c a info \<and> mi_signing_pk info = pk))"
  by (rule init_dkg_state_registered [OF assms], drule connect_client, elim exE, intro exI conjI) assumption+

lemma init_dkg_state_own:
  assumes "permutes hord" and "committees_wf K"
    and "init_dkg_state V lib G K hord dir config kf share w = (Ok st, w')"
  shows "\<exists>N url c keys addr info w1 w2 w3. keys_file_load V lib kf w1 = (Ok keys, w2) \<and> gf_client_new G url = Ok N \<and>
    fetch_committee_data N K (ic_committee_id (ds_config st)) w2 = (Ok c, w3) \<and>
    get_party_id c addr = Ok (ic_my_party_id (ds_config st)) \<and> registered c addr info \<and> mi_signing_pk info = kf_signing_pk keys"
  by (rule init_dkg_state_registered [OF assms], drule connect_client, elim exE, intro exI conjI) assumption+

text \<open>The parameters of a rotation are those of the old committee on chain: its threshold, the members that
  continue, and the partial public keys that its key server object has for the party ids (the last entry, if it has
  several for one).\<close>

definition rotation_params_match where
  "rotation_params_match lib N K w c addr share config \<longleftrightarrow>
     (case ic_old_threshold config of
        None \<Rightarrow> sc_old_committee_id c = None \<and> share = None
      | Some t \<Rightarrow> \<exists>old_id old w' mapping pks ks_id ks w'' v t' ps. sc_old_committee_id c = Some old_id \<and>
          fetch_committee_data N K old_id w = (Ok old, w') \<and> t = sc_threshold old \<and>
          ic_new_to_old_mapping config = Some mapping \<and> unat t \<le> card (dom mapping) \<and>
          (\<forall>n k. mapping n = Some k \<longleftrightarrow> (\<exists>a. get_party_id c a = Ok n \<and> get_party_id old a = Ok k)) \<and>
          fetch_key_server_by_committee N K old_id w' = (Ok (ks_id, ks), w'') \<and> ks_server_type ks = Committee v t' ps \<and>
          ic_expected_old_pks config = Some pks \<and> pks = map_of (rev (map (\<lambda>p. (pks_party_id p, pks_partial_pk p)) ps)) \<and>
          (share \<noteq> None \<longleftrightarrow> contains_member old addr) \<and>
          (\<forall>s. share = Some s \<longrightarrow> (\<exists>old_party. get_party_id old addr = Ok old_party \<and>
             pks old_party = Some (g2_of_share lib s))))"

lemma rotation_params_ready:
  assumes "permutes hord" and "committees_wf K" and c: "members_wf (sc_members c)" "get_party_id c addr = Ok (ic_my_party_id config)"
    and params: "rotation_params N K hord c addr (ic_my_party_id config) share (map_option (g2_of_share lib) share) w =
     (Ok (ic_old_threshold config, ic_new_to_old_mapping config, ic_expected_old_pks config), w')"
  shows "rotation_params_match lib N K w c addr share config"
proof (cases "ic_old_threshold config")
  case None
  then show ?thesis using rotation_params_Ok [OF params] by (simp add: rotation_params_match_def)
next
  case (Some t)
  then obtain old_id old w2 mapping pks ks_id ks w3 infos where 1: "sc_old_committee_id c = Some old_id"
      "fetch_committee_data N K old_id w = (Ok old, w2)" "t = sc_threshold old" "mapping = build_new_to_old_map c old"
      "ic_new_to_old_mapping config = Some mapping" "ic_expected_old_pks config = Some pks" "unat t \<le> card (dom mapping)"
      "check_old_share addr old_id old (ic_my_party_id config) mapping pks share (map_option (g2_of_share lib) share) = Ok ()"
      "fetch_key_server_by_committee N K old_id w2 = (Ok (ks_id, ks), w3)" "to_partial_key_servers ks (sc_members old) = Ok infos"
      "pks = old_pks_by_party hord (sc_members old) infos"
    using rotation_params_Ok [OF params] by blast
  have old: "members_wf (sc_members old)" using assms(2) 1(2) by (rule fetched_committee_wf)
  have mapping: "mapping n = Some k \<longleftrightarrow> (\<exists>a. get_party_id c a = Ok n \<and> get_party_id old a = Ok k)" for n k
    unfolding 1(4) by (rule new_to_old_Some [OF c(1) old])
  obtain v t' ps where ps: "ks_server_type ks = Committee v t' ps" "pks = map_of (rev (map (\<lambda>p. (pks_party_id p, pks_partial_pk p)) ps))"
    using old_pks_exact [OF assms(1) old 1(10)] 1(11) by blast
  have own: "get_party_id old addr = Ok k" if "mapping (ic_my_party_id config) = Some k" for k
    using that c party_id_injective [OF c(1)] unfolding mapping by blast
  have "share \<noteq> None \<longleftrightarrow> contains_member old addr" "\<forall>s. share = Some s \<longrightarrow>
      (\<exists>old_party. get_party_id old addr = Ok old_party \<and> pks old_party = Some (g2_of_share lib s))"
    using 1(8) own by (auto simp: check_old_share_Ok split: if_splits)
  then show ?thesis unfolding rotation_params_match_def Some option.case
    using 1(1-3,5-7,9) mapping ps by (intro exI [of _ old_id] exI [of _ old] exI [of _ w2] exI [of _ mapping] exI [of _ pks] exI [of _ ks_id]
      exI [of _ ks] exI [of _ w3] exI [of _ v] exI [of _ t'] exI [of _ ps] conjI) simp_all
qed

text \<open>C12: The state a member starts from agrees with the chain. Its keys are the ones registered
  under the address of its configuration in the committee of its configuration, its party id and the threshold are
  the committee's, and a signing key is recorded for a party exactly if that member registered it; the nodes of the protocol are
  the members with their registered encryption keys, all of weight one. A member creates
  a message unless it is new in a rotation. In a rotation the old threshold, the mapping to old party ids and the old
  partial public keys are those of the old committee and of its key server object; enough old members continue to
  reach the old threshold; and an old share was accepted only if it belongs to the member's own
  partial public key in the old committee.\<close>

theorem dkg_state_registered:
  assumes "permutes hord" and "committees_wf K"
    and "init_dkg_state V lib G K hord dir config kf share w = (Ok st, w')"
  shows "\<exists>N c keys addr info w1 w2 w3 cfg network.
    load_config V config w = (Ok cfg, w1) \<and> get_my_address V cfg = Ok addr \<and> get_committee_id V cfg = Ok (ic_committee_id (ds_config st)) \<and>
    get_network V cfg = Ok network \<and> connect G network (get_node_url V cfg) = Ok N \<and>
    keys_file_load V lib kf w1 = (Ok keys, w2) \<and>
    fetch_committee_data N K (ic_committee_id (ds_config st)) w2 = (Ok c, w3) \<and>
    get_party_id c addr = Ok (ic_my_party_id (ds_config st)) \<and> registered c addr info \<and>
    mi_enc_pk info = kf_enc_pk keys \<and> mi_signing_pk info = kf_signing_pk keys \<and>
    ic_threshold (ds_config st) = sc_threshold c \<and>
    (\<forall>n pk. ic_signing_pks (ds_config st) n = Some pk \<longleftrightarrow>
       (\<exists>a info. get_party_id c a = Ok n \<and> registered c a info \<and> mi_signing_pk info = pk)) \<and>
    registered_nodes lib c (ic_nodes (ds_config st)) \<and>
    (ds_my_message st \<noteq> None \<longleftrightarrow> ic_old_threshold (ds_config st) = None \<or> share \<noteq> None) \<and>
    ic_my_old_share (ds_config st) = share \<and> ic_my_old_pk (ds_config st) = map_option (g2_of_share lib) share \<and>
    rotation_params_match lib N K w3 c addr share (ds_config st)"
  by (rule init_dkg_state_registered [OF assms], intro exI conjI) (assumption | erule (2) rotation_params_ready [OF assms(1,2)])+

text \<open>C11: From the chain to the output. If a member initialises its state, and later processes the
  messages of all members with it successfully, then every message was signed, for this
  committee, with the signing key that the member with the sender's party id registered on
  chain.\<close>

theorem dkg_messages_registered:
  fixes V :: "('w, 'y) cli_env"
  assumes "permutes hord" and "committees_wf K"
    and "init_dkg_state V lib G K hord dir config kf share w = (Ok st, w')"
    and "process_dkg_messages V lib show_address st messages keys v = (Ok (outp, h, st'), v')"
  shows "\<exists>N url c (w1 :: 'w) w2. gf_client_new G url = Ok N \<and> fetch_committee_data N K (ic_committee_id (ds_config st)) w1 = (Ok c, w2) \<and>
    (\<forall>m \<in> set messages. \<exists>a info. get_party_id c a = Ok (signed_sender lib m) \<and> registered c a info \<and>
       verify_signature lib (ic_committee_id (ds_config st)) m (mi_signing_pk info) = Ok ())"
proof -
  obtain N c url and w1 w2 :: 'w where url: "gf_client_new G url = Ok N" and c: "fetch_committee_data N K (ic_committee_id (ds_config st)) w1 = (Ok c, w2)"
    and pks: "\<forall>n pk. ic_signing_pks (ds_config st) n = Some pk \<longleftrightarrow>
       (\<exists>a info. get_party_id c a = Ok n \<and> registered c a info \<and> mi_signing_pk info = pk)"
    using init_dkg_state_signing [OF assms(1-3)] by blast
  obtain party pms where acc: "list_all2 (message_accepted lib (ds_config st) party) (sort_key (signed_sender lib) messages) pms"
    using assms(4) by (rule process_dkg_messages_OkE)
  have "\<exists>a info. get_party_id c a = Ok (signed_sender lib m) \<and> registered c a info \<and>
       verify_signature lib (ic_committee_id (ds_config st)) m (mi_signing_pk info) = Ok ()" if "m \<in> set messages" for m
  proof -
    obtain pk where pk: "ic_signing_pks (ds_config st) (signed_sender lib m) = Some pk"
        "verify_signature lib (ic_committee_id (ds_config st)) m pk = Ok ()"
      using accepted_signature [OF acc \<open>m \<in> set messages\<close>] by blast
    then show ?thesis using pks by metis
  qed
  with c url show ?thesis by blast
qed

text \<open>The messages of honest members are accepted. If two members initialised their states from
  the same committee object, then a message that the first signs under its own party id passes
  the signature check of the second.\<close>

theorem honest_signature_accepted:
  fixes V :: "('w, 'y) cli_env" and V' :: "('w, 'y) cli_env" and w v :: 'w
  assumes "permutes hord" and "committees_wf K" and "bls_signature_laws lib is_key_pair"
    and "init_dkg_state V lib G K hord dir config kf share w = (Ok st, w')"
    and "init_dkg_state V' lib G' K hord dir' config' kf' share' v = (Ok st', v')"
    and "ic_committee_id (ds_config st) = i" and "ic_committee_id (ds_config st') = i"
    and "\<And>url N u c' u'. gf_client_new G url = Ok N \<or> gf_client_new G' url = Ok N \<Longrightarrow>
      fetch_committee_data N K i u = (Ok c', u') \<Longrightarrow> c' = c"
    and "\<And>u keys' u'. keys_file_load V lib kf u = (Ok keys', u') \<Longrightarrow> keys' = keys" and "is_key_pair (kf_signing_sk keys) (kf_signing_pk keys)"
    and "sign_message lib i message (kf_signing_sk keys) nizk = Ok signed_msg"
    and "msg_sender lib message = ic_my_party_id (ds_config st)"
  shows "\<exists>pk. ic_signing_pks (ds_config st') (signed_sender lib signed_msg) = Some pk \<and> verify_signature lib i signed_msg pk = Ok ()"
proof -
  obtain N url addr info w1 w2 w3 keys' c1 where 1: "keys_file_load V lib kf w1 = (Ok keys', w2)" "gf_client_new G url = Ok N"
      "fetch_committee_data N K (ic_committee_id (ds_config st)) w2 = (Ok c1, w3)"
      "get_party_id c1 addr = Ok (ic_my_party_id (ds_config st))" "registered c1 addr info" "mi_signing_pk info = kf_signing_pk keys'"
    using init_dkg_state_own [OF assms(1,2,4)] by blast
  obtain N' url' c2 and v2 v3 :: 'w where 2: "gf_client_new G' url' = Ok N'"
      "fetch_committee_data N' K (ic_committee_id (ds_config st')) v2 = (Ok c2, v3)"
      "\<forall>n pk. ic_signing_pks (ds_config st') n = Some pk \<longleftrightarrow>
       (\<exists>a info. get_party_id c2 a = Ok n \<and> registered c2 a info \<and> mi_signing_pk info = pk)"
    using init_dkg_state_signing [OF assms(1,2,5)] by blast
  have eqs: "c1 = c" "c2 = c" "keys' = keys"
    using 1(1,3) 2(2) assms(6,7) assms(8) [of url N w2 c1] assms(8) [of url' N' v2 c2] 1(2) 2(1) assms(9) by auto
  have sm: "verify_signature lib i signed_msg (kf_signing_pk keys) = Ok ()" "sm_message signed_msg = message"
    using sign_message_verifies [OF assms(3,10,11)] by blast+
  then have "ic_signing_pks (ds_config st') (signed_sender lib signed_msg) = Some (kf_signing_pk keys)"
    using 1(4-6) 2(3) assms(12) by (auto simp: eqs signed_sender_def)
  with sm(1) show ?thesis by blast
qed

subsection \<open>A concrete run\<close>

text \<open>A committee of three members, the state of the first, and signed messages.\<close>

definition demo_infos :: "object_id \<rightharpoonup> (nat, nat) parsed_member_info" where
  "demo_infos = map_of (map (\<lambda>(i, a). (a, \<lparr>pmi_name = ''n'', pmi_party_id = i, pmi_address = a, pmi_enc_pk = 1, pmi_signing_pk = 7\<rparr>))
     [(2, [3]), (1, [2]), (0, [1])])"

definition demo_state where
  "demo_state = \<lparr>ds_config = \<lparr>ic_my_party_id = 0, ic_nodes = committee_nodes (\<lambda>xs. xs) [[1], [2], [3]] demo_infos, ic_committee_id = [9],
       ic_threshold = 2, ic_signing_pks = committee_signing_pks (\<lambda>xs. xs) [[1], [2], [3]] demo_infos, ic_old_threshold = None,
       ic_new_to_old_mapping = None, ic_expected_old_pks = (None :: (u16 \<rightharpoonup> gf256) option), ic_my_old_share = (None :: gf256 option),
       ic_my_old_pk = None\<rparr>,
     ds_my_message = Some (0 :: u16), ds_received_messages = Map.empty, ds_processed_messages = ([] :: u16 list),
     ds_confirmation = (None :: (unit \<times> u16 list) option), ds_output = (None :: u16 list option)\<rparr>"

definition demo_signed :: "u16 \<Rightarrow> (u16, unit, nat \<times> bytes) dkg_signed_message" where
  "demo_signed n = \<lparr>sm_message = n, sm_signature = (7, [9, ucast n]), sm_nizk_proof = ()\<rparr>"

text \<open>A protocol library in which a message is the party id of its sender, a signature is the
  signing key with the signed bytes, and the output lists the senders.\<close>

definition demo_dkg_lib ::
  "(string \<rightharpoonup> string, nat, nat, nat, nat, nat \<times> bytes, nat dkg_node list, gf256, gf256, unit, u16, unit, u16, unit, u16 list, u16 list) dkg_lib" where
  "demo_dkg_lib = \<lparr>
     nodes_new = Ok, num_nodes = length,
     party_new_advanced = (\<lambda>_ _ _ _ _ _ w. (Ok (), w)),
     create_message = (\<lambda>_ w. (Ok 0, w)), nizk_pop_of_secret = (\<lambda>_ w. ((), w)),
     process_message_with_checks = (\<lambda>_ m _ _ w. (Ok m, w)),
     party_merge = (\<lambda>_ pms. Ok ((), pms)),
     complete_optimistic = (\<lambda>_. Ok), complete_optimistic_key_rotation = (\<lambda>_ used _. Ok used),
     msg_sender = (\<lambda>m. m), pm_sender = (\<lambda>m. m), pm_complaint_bcs = (\<lambda>_. None), conf_complaints = (\<lambda>_. 0),
     out_c0 = (\<lambda>_. 1), out_eval = (\<lambda>_ _. 1), out_shares = (\<lambda>_. Some [1]),
     g2_of_share = (\<lambda>s. s), g2_bcs = (\<lambda>_. Ok [1]), sc_bcs = (\<lambda>_. Ok [1]),
     bls_sign = Pair, bls_verify = (\<lambda>pk b sig. if sig = (pk, b) then Ok () else Err ''bad''),
     blake2b256 = (\<lambda>b. b),
     payload_bcs = (\<lambda>p. Ok (mp_committee_id p @ [ucast (mp_message p)])),
     signed_message_bcs = (\<lambda>m. Ok [ucast (sm_message m)]),
     signed_message_from_bcs = (\<lambda>b. Ok (demo_signed (ucast (hd b)))),
     messages_bcs = (\<lambda>ms. Ok (map (\<lambda>m. ucast (sm_message m)) ms)),
     keys_to_json = (\<lambda>_. Ok []),
     keys_from_json = (\<lambda>_. Ok \<lparr>kf_enc_sk = 0, kf_enc_pk = 1, kf_signing_sk = 7, kf_signing_pk = 7\<rparr>),
     state_to_json = (\<lambda>_. Ok []), state_from_json = (\<lambda>_. Ok demo_state),
     message_to_json = Ok, message_from_json = (\<lambda>s. Ok (Some s))\<rparr>"

definition demo_member_config :: yaml where
  "demo_member_config = YMap [
     (''init-params'', YMap [(''NETWORK'', YStr ''testnet'')]),
     (''publish-and-init'', YMap [(''COMMITTEE_PKG'', YStr (bytes_string [8])), (''COMMITTEE_ID'', YStr (bytes_string [9]))]),
     (''genkey-and-register'', YMap [(''MY_ADDRESS'', YStr (bytes_string [1]))])]"

definition demo_member_files :: "string \<rightharpoonup> string" where
  "demo_member_files = [''dkg.yaml'' \<mapsto> yaml_print demo_member_config, ''dkg.key'' \<mapsto> [], ''state.json'' \<mapsto> [],
     ''0.json'' \<mapsto> bytes_string [0], ''1.json'' \<mapsto> bytes_string [1], ''2.json'' \<mapsto> bytes_string [2]]"

definition demo_grpc_node :: "(string \<rightharpoonup> string) grpc_node" where
  "demo_grpc_node = \<lparr>node_get_object = (\<lambda>req w. (Ok (Some \<lparr>go_bcs = Some (Some [12]), go_owner = Some (Some []),
     go_owner_version = Some 1, go_object_type = Some ''T''\<rparr>), w))\<rparr>"

definition demo_factory :: "(string \<rightharpoonup> string) grpc_factory" where
  "demo_factory = \<lparr>gf_mainnet_url = ''m'', gf_testnet_url = ''t'', gf_client_new = (\<lambda>_. Ok demo_grpc_node)\<rparr>"

lemma demo_committees_wf: "committees_wf demo_sui_codec"
  by (simp add: committees_wf_def demo_sui_codec_def members_wf_def demo_committee_of_def)

lemma demo_permutes: "permutes (\<lambda>xs. xs)"
  by (simp add: permutes_def)

lemma demo_config_fields:
  "get_my_address demo_cli_env demo_member_config = Ok [1]"
  "get_committee_id demo_cli_env demo_member_config = Ok [9]"
  "get_network demo_cli_env demo_member_config = Ok DkgTestnet"
  "get_node_url demo_cli_env demo_member_config = None"
  "get_committee_pkg demo_cli_env demo_member_config = Ok [8]"
proof -
  have "dkg_network_from_str ''testnet'' = Ok DkgTestnet" by code_simp
  then show "get_network demo_cli_env demo_member_config = Ok DkgTestnet"
    by (simp add: get_network_def config_str_def get_config_field_def demo_cli_env_def demo_member_config_def)
qed (simp_all add: get_my_address_def get_committee_id_def get_committee_pkg_def get_address_def committee_id_section_def get_node_url_def
      config_str_def get_config_field_def demo_cli_env_def demo_member_config_def string_bytes_inverse)

lemma demo_fetch_committee:
  "fetch_committee_data demo_grpc_node demo_sui_codec i w = (Ok (demo_committee_of [[1], [2], [3]]), w)"
  by (simp add: fetch_committee_data_def fetch_object_def get_object_grpc_def demo_grpc_node_def extract_object_def
      demo_sui_codec_def rpc_lift_def)

lemma demo_member_load: 
  "load_config demo_cli_env ''dkg.yaml'' demo_member_files = (Ok demo_member_config, demo_member_files)"
  "keys_file_load demo_cli_env demo_dkg_lib ''dkg.key'' demo_member_files =
     (Ok \<lparr>kf_enc_sk = 0, kf_enc_pk = 1, kf_signing_sk = 7, kf_signing_pk = 7\<rparr>, demo_member_files)"
  by (simp_all add: load_config_Ok_iff keys_file_load_def io_bind.simps io_lift_def io_map_err_def demo_cli_env_def
      demo_member_files_def demo_dkg_lib_def)

lemma demo_members_info: "get_members_info (demo_committee_of [[1], [2], [3]]) = Ok demo_infos"
  by (simp add: get_members_info_def demo_committee_of_def collect_map_def demo_infos_def)

lemma demo_own_message: "\<exists>w'. create_own_message demo_cli_env demo_dkg_lib sa dir [9] keys nodes t 0 None None w = (Ok 0, w')"
  by (simp add: create_own_message_def io_bind.simps io_lift_def io_map_err_def demo_dkg_lib_def demo_cli_env_def sign_message_def Let_def)

lemma demo_init:
  obtains w' where "init_dkg_state demo_cli_env demo_dkg_lib demo_factory demo_sui_codec (\<lambda>xs. xs) ''.'' ''dkg.yaml'' ''dkg.key'' None demo_member_files =
    (Ok demo_state, w')"
proof -
  let ?c = "demo_committee_of [[1], [2], [3]]"
  have c: "contains_member ?c [1]" "sc_old_committee_id ?c = None" "sc_members ?c = [[1], [2], [3]]" "sc_threshold ?c = 2"
    by (simp_all add: contains_member_def demo_committee_of_def)
  have i: "demo_infos [1] = Some \<lparr>pmi_name = ''n'', pmi_party_id = 0, pmi_address = [1], pmi_enc_pk = 1, pmi_signing_pk = 7\<rparr>"
    by (simp add: demo_infos_def)
  have conn: "connect demo_factory DkgTestnet u = Ok demo_grpc_node" for u
    by (cases u) (simp_all add: connect_def create_grpc_client_with_url_def demo_factory_def)
  have nodes: "nodes_new demo_dkg_lib = Ok" by (simp add: demo_dkg_lib_def)
  obtain w' where own: "create_own_message demo_cli_env demo_dkg_lib (codec_show_address demo_sui_codec) ''.'' [9]
      (\<lparr>kf_enc_sk = 0, kf_enc_pk = 1, kf_signing_sk = 7, kf_signing_pk = 7\<rparr> :: (nat, nat, nat, nat) keys_file)
      (committee_nodes (\<lambda>xs. xs) [[1], [2], [3]] demo_infos) 2 0 None None demo_member_files = (Ok 0, w')"
    using demo_own_message by blast
  have "init_dkg_state demo_cli_env demo_dkg_lib demo_factory demo_sui_codec (\<lambda>xs. xs) ''.'' ''dkg.yaml'' ''dkg.key'' None demo_member_files =
      (Ok demo_state, w')"
    unfolding init_dkg_state_def
    by (simp add: io_bind.simps io_lift_def io_map_err_def Let_def demo_member_load demo_config_fields conn demo_fetch_committee demo_members_info
        c i nodes rotation_params_def own demo_state_def del: One_nat_def)
  then show ?thesis by (rule that)
qed

lemma demo_signing_pks: "ic_signing_pks (ds_config demo_state) n = (if n \<in> {0, 1, 2} then Some 7 else None)"
  by (simp add: demo_state_def committee_signing_pks_def map_values_def List.map_filter_simps demo_infos_def)

lemma demo_process_one:
  assumes "n \<in> {0, 1, 2}"
  shows "process_signed_message demo_cli_env demo_dkg_lib (ds_config demo_state) () (demo_signed n) pms w = (Ok (pms @ [n]), w)"
proof -
  have "ic_old_threshold (ds_config demo_state) = None" "ic_committee_id (ds_config demo_state) = [9]" by (simp_all add: demo_state_def)
  then show ?thesis using assms
    by (simp add: process_signed_message_def io_bind.simps io_lift_def io_map_err_def demo_signing_pks
      verify_signature_def signature_payload_def demo_signed_def signed_sender_def demo_dkg_lib_def)
qed

lemma demo_process:
  "process_dkg_messages demo_cli_env demo_dkg_lib sa demo_state (map demo_signed [2, 0, 1]) keys w =
     (Ok ([0, 1, 2], [0, 1, 2], demo_state\<lparr>ds_processed_messages := [0, 1, 2], ds_confirmation := Some ((), [0, 1, 2]), ds_output := Some [0, 1, 2]\<rparr>), w)"
proof -
  have senders: "signed_sender demo_dkg_lib (demo_signed n) = n" for n
    by (simp add: signed_sender_def demo_signed_def demo_dkg_lib_def)
  have sorted: "sort_key (signed_sender demo_dkg_lib) [demo_signed 2, demo_signed 0, demo_signed 1] = [demo_signed 0, demo_signed 1, demo_signed 2]"
    by (simp add: senders word_le_nat_alt)
  have count: "validate_message_count demo_dkg_lib (ds_config demo_state) s [demo_signed 0, demo_signed 1, demo_signed 2] = Ok ()" for s
    by (simp add: validate_message_count_def demo_state_def demo_dkg_lib_def committee_nodes_def map_values_def
        List.map_filter_simps demo_infos_def)
  have rest: "messages_bcs demo_dkg_lib [demo_signed 0, demo_signed 1, demo_signed 2] = Ok [0, 1, 2]" "blake2b256 demo_dkg_lib b = b"
    "party_new_advanced demo_dkg_lib a1 a2 a3 a4 a5 a6 w = (Ok (), w)" "party_merge demo_dkg_lib p pms = Ok ((), pms)"
    "conf_complaints demo_dkg_lib cf = 0" "complete_optimistic demo_dkg_lib p u = Ok u" for b a1 a2 a3 a4 a5 a6 p pms cf u
    by (simp_all add: demo_dkg_lib_def demo_signed_def)
  have fold: "io_fold (process_signed_message demo_cli_env demo_dkg_lib (ds_config demo_state) ()) [demo_signed 0, demo_signed 1, demo_signed 2] [] w =
      (Ok [0, 1, 2], w)"
    by (simp add: io_bind.simps io_lift_def demo_process_one)
  have st: "ds_processed_messages demo_state = []" "ic_old_threshold (ds_config demo_state) = None" by (simp_all add: demo_state_def)
  have ins: "insert_senders (map (signed_sender demo_dkg_lib) [demo_signed 2, demo_signed 0, demo_signed 1]) {} = Ok {0, 1, 2}"
    by (auto simp: senders)
  have ms: "map demo_signed [2, 0, 1] = [demo_signed 2, demo_signed 0, demo_signed 1]" by simp
  show ?thesis unfolding process_dkg_messages_def Let_def ms sorted ins
    by (simp add: io_bind.simps io_lift_def io_map_err_def count rest fold st complete_dkg_def del: io_fold.simps)
qed

theorem dkg_output_authentic_witness:
  "distinct (map (signed_sender demo_dkg_lib) (map demo_signed [2, 0, 1])) \<and>
   (\<exists>party pms. list_all2 (message_accepted demo_dkg_lib (ds_config demo_state) party)
      (sort_key (signed_sender demo_dkg_lib) (map demo_signed [2, 0, 1])) pms)"
  using dkg_output_authentic [OF demo_process] by blast

theorem dkg_order_irrelevant_witness:
  "is_ok (fst (process_dkg_messages demo_cli_env demo_dkg_lib (\<lambda>_. []) demo_state (map demo_signed [0, 1, 2])
     (\<lparr>kf_enc_sk = 0, kf_enc_pk = 1, kf_signing_sk = 7, kf_signing_pk = 7\<rparr> :: (nat, nat, nat, nat) keys_file) Map.empty))"
  by (subst dkg_order_irrelevant [OF demo_process, of "map demo_signed [0, 1, 2]"]) simp_all

text \<open>A rotation. The first two of the three members continue from the committee \<open>[5]\<close>, in which they have the
  party ids 1 and 0; its key server object has the partial public keys 5 and 3 for them.\<close>

definition demo_rotation_codec :: "(gf256, nat, nat) sui_codec" where
  "demo_rotation_codec = demo_sui_codec\<lparr>codec_committee := (\<lambda>b. Ok (if b = [12]
     then (demo_committee_of [[1], [2], [3]])\<lparr>sc_old_committee_id := Some [5]\<rparr> else demo_committee_of [[2], [1]]))\<rparr>"

definition demo_rotation_node :: "(string \<rightharpoonup> string) grpc_node" where
  "demo_rotation_node = \<lparr>node_get_object = (\<lambda>req w. (Ok (Some \<lparr>go_bcs = Some (Some
       (if gr_object_id req = Some (codec_show_address demo_sui_codec [9]) then [12] else [6])), go_owner = Some (Some []),
     go_owner_version = Some 1, go_object_type = Some ''T''\<rparr>), w))\<rparr>"

definition demo_rotation_factory :: "(string \<rightharpoonup> string) grpc_factory" where
  "demo_rotation_factory = \<lparr>gf_mainnet_url = ''m'', gf_testnet_url = ''t'', gf_client_new = (\<lambda>_. Ok demo_rotation_node)\<rparr>"

lemma demo_rotation_committees_wf: "committees_wf demo_rotation_codec"
  by (simp add: committees_wf_def demo_rotation_codec_def members_wf_def demo_committee_of_def)

lemma demo_rotation_fetch:
  "fetch_committee_data demo_rotation_node demo_rotation_codec [9] w =
     (Ok ((demo_committee_of [[1], [2], [3]])\<lparr>sc_old_committee_id := Some [5]\<rparr>), w)"
  "fetch_committee_data demo_rotation_node demo_rotation_codec [5] w = (Ok (demo_committee_of [[2], [1]]), w)"
  "fetch_key_server_by_committee demo_rotation_node demo_rotation_codec [5] w = (Ok ([10], demo_key_server 3 5), w)"
  by (simp_all add: fetch_committee_data_def fetch_object_def get_object_grpc_def demo_rotation_node_def extract_object_def
      demo_sui_codec_def demo_rotation_codec_def rpc_lift_def object_request_def fetch_key_server_by_committee_def fetch_key_server_by_id_def)

lemma demo_rotation_params:
  assumes "new = (demo_committee_of [[1], [2], [3]])\<lparr>sc_old_committee_id := Some [5]\<rparr>"
  shows "\<exists>m pks. rotation_params demo_rotation_node demo_rotation_codec (\<lambda>xs. xs) new [1] 0 (Some (5 :: gf256)) (Some 5) w =
    (Ok (Some 2, Some m, Some pks), w)"
proof -
  have m: "build_new_to_old_map new (demo_committee_of [[2], [1]]) = [0 \<mapsto> 1, 1 \<mapsto> 0]"
    by (simp add: assms build_new_to_old_map_def get_party_id_def demo_committee_of_def List.map_filter_simps fun_upd_twist)
  have old: "sc_old_committee_id new = Some [5]" "sc_threshold (demo_committee_of [[2], [1]]) = 2"
    "contains_member (demo_committee_of [[2], [1]]) [1]" "sc_members (demo_committee_of [[2], [1]]) = [[2], [1]]"
    by (simp_all add: assms demo_committee_of_def contains_member_def)
  obtain infos where infos: "to_partial_key_servers (demo_key_server 3 5) [[2], [1]] = Ok infos"
      "old_pks_by_party (\<lambda>xs. xs) [[2], [1]] infos 1 = Some (5 :: gf256)"
    by (simp add: to_partial_key_servers_def demo_key_server_def collect_map_def old_pks_by_party_def map_values_def List.map_filter_simps)
  then show ?thesis unfolding rotation_params_def
    by (simp add: old m demo_rotation_fetch io_bind.simps io_lift_def io_map_err_def Let_def check_old_share_def map_index_def)
qed

lemma demo_rotation_init:
  obtains st w' where "init_dkg_state demo_cli_env demo_dkg_lib demo_rotation_factory demo_rotation_codec (\<lambda>xs. xs)
      ''.'' ''dkg.yaml'' ''dkg.key'' (Some 5) demo_member_files = (Ok st, w')" and "ic_old_threshold (ds_config st) = Some 2"
    and "ic_committee_id (ds_config st) = [9]"
proof -
  let ?c = "(demo_committee_of [[1], [2], [3]])\<lparr>sc_old_committee_id := Some [5]\<rparr>"
  have c: "contains_member ?c [1]" "sc_members ?c = [[1], [2], [3]]" "sc_threshold ?c = 2" "get_members_info ?c = Ok demo_infos"
    using demo_members_info by (simp_all add: contains_member_def demo_committee_of_def get_members_info_def)
  have i: "demo_infos [1] = Some \<lparr>pmi_name = ''n'', pmi_party_id = 0, pmi_address = [1], pmi_enc_pk = 1, pmi_signing_pk = 7\<rparr>"
    by (simp add: demo_infos_def)
  have conn: "connect demo_rotation_factory DkgTestnet u = Ok demo_rotation_node" for u
    by (cases u) (simp_all add: connect_def create_grpc_client_with_url_def demo_rotation_factory_def)
  have lib: "nodes_new demo_dkg_lib = Ok" "g2_of_share demo_dkg_lib s = s" for s by (simp_all add: demo_dkg_lib_def)
  let ?keys = "\<lparr>kf_enc_sk = 0, kf_enc_pk = 1, kf_signing_sk = 7, kf_signing_pk = 7\<rparr> :: (nat, nat, nat, nat) keys_file"
  let ?nodes = "committee_nodes (\<lambda>xs. xs) [[1], [2], [3]] demo_infos"
  obtain m pks where params: "rotation_params demo_rotation_node demo_rotation_codec (\<lambda>xs. xs) ?c [1] 0 (Some (5 :: gf256)) (Some 5) demo_member_files =
      (Ok (Some 2, Some m, Some pks), demo_member_files)"
    using demo_rotation_params [OF refl] by blast
  have "\<exists>w'. create_own_message demo_cli_env demo_dkg_lib (codec_show_address demo_rotation_codec) ''.'' [9] ?keys ?nodes 2 0 (Some 5) (Some 2)
      demo_member_files = (Ok 0, w')"
    by (simp add: create_own_message_def io_bind.simps io_lift_def io_map_err_def demo_dkg_lib_def demo_cli_env_def sign_message_def Let_def)
  then obtain w' where own: "create_own_message demo_cli_env demo_dkg_lib (codec_show_address demo_rotation_codec) ''.'' [9] ?keys ?nodes 2 0
      (Some 5) (Some 2) demo_member_files = (Ok 0, w')" by blast
  have "\<exists>st. init_dkg_state demo_cli_env demo_dkg_lib demo_rotation_factory demo_rotation_codec (\<lambda>xs. xs)
      ''.'' ''dkg.yaml'' ''dkg.key'' (Some 5) demo_member_files = (Ok st, w') \<and> ic_old_threshold (ds_config st) = Some 2 \<and>
      ic_committee_id (ds_config st) = [9]"
    unfolding init_dkg_state_def
    by (simp add: io_bind.simps io_lift_def io_map_err_def Let_def demo_member_load demo_config_fields conn demo_rotation_fetch
        c i lib params own del: One_nat_def)
  then show ?thesis using that by blast
qed

theorem dkg_state_registered_witness:
  "\<exists>st w'. init_dkg_state demo_cli_env demo_dkg_lib demo_rotation_factory demo_rotation_codec (\<lambda>xs. xs)
     ''.'' ''dkg.yaml'' ''dkg.key'' (Some 5) demo_member_files = (Ok st, w') \<and>
   get_party_id (demo_committee_of [[1], [2], [3]]) [1] = Ok (ic_my_party_id (ds_config st)) \<and>
   ic_expected_old_pks (ds_config st) = Some [1 \<mapsto> 5, 0 \<mapsto> 3]"
proof -
  obtain st w' where i: "init_dkg_state demo_cli_env demo_dkg_lib demo_rotation_factory demo_rotation_codec (\<lambda>xs. xs)
      ''.'' ''dkg.yaml'' ''dkg.key'' (Some 5) demo_member_files = (Ok st, w')" and t: "ic_old_threshold (ds_config st) = Some 2"
    and id: "ic_committee_id (ds_config st) = [9]"
    by (rule demo_rotation_init)
  have conn: "connect demo_rotation_factory net u = Ok N \<Longrightarrow> N = demo_rotation_node" for net u N
    by (auto simp: connect_def create_grpc_client_with_url_def demo_rotation_factory_def split: option.splits dkg_network.splits)
  obtain N c addr w1 w2 w3 cfg network where 1: "load_config demo_cli_env ''dkg.yaml'' demo_member_files = (Ok cfg, w1)"
      "get_my_address demo_cli_env cfg = Ok addr" "connect demo_rotation_factory network (get_node_url demo_cli_env cfg) = Ok N"
      "fetch_committee_data N demo_rotation_codec (ic_committee_id (ds_config st)) w2 = (Ok c, w3)"
      "get_party_id c addr = Ok (ic_my_party_id (ds_config st))"
      "rotation_params_match demo_dkg_lib N demo_rotation_codec w3 c addr (Some 5) (ds_config st)"
    using dkg_state_registered [OF demo_permutes demo_rotation_committees_wf i] by blast
  have c: "N = demo_rotation_node" "addr = [1]" "c = (demo_committee_of [[1], [2], [3]])\<lparr>sc_old_committee_id := Some [5]\<rparr>"
    using 1(1,2,4) conn [OF 1(3)] by (simp_all add: demo_member_load demo_config_fields id demo_rotation_fetch)
  have pks: "ic_expected_old_pks (ds_config st) = Some [1 \<mapsto> 5, 0 \<mapsto> 3]"
    using 1(6) by (auto simp: rotation_params_match_def t c demo_rotation_fetch demo_key_server_def)
  have "get_party_id (demo_committee_of [[1], [2], [3]]) [1] = Ok (ic_my_party_id (ds_config st))"
    using 1(5) by (simp add: c get_party_id_def)
  with i pks show ?thesis by blast
qed

theorem dkg_messages_registered_witness:
  "\<exists>(c :: (nat, nat) seal_committee) a info. get_party_id c a = Ok 2 \<and> registered c a info \<and>
     verify_signature demo_dkg_lib [9] (demo_signed 2) (mi_signing_pk info) = Ok ()"
proof -
  obtain w' where i: "init_dkg_state demo_cli_env demo_dkg_lib demo_factory demo_sui_codec (\<lambda>xs. xs) ''.'' ''dkg.yaml'' ''dkg.key'' None demo_member_files =
    (Ok demo_state, w')" by (rule demo_init)
  have "ic_committee_id (ds_config demo_state) = [9]" "signed_sender demo_dkg_lib (demo_signed 2) = 2"
    by (simp_all add: demo_state_def signed_sender_def demo_signed_def demo_dkg_lib_def)
  then show ?thesis using dkg_messages_registered [OF demo_permutes demo_committees_wf i demo_process] by fastforce
qed

theorem honest_signature_accepted_witness:
  "\<exists>pk. ic_signing_pks (ds_config demo_state) (signed_sender demo_dkg_lib (demo_signed 0)) = Some pk \<and>
     verify_signature demo_dkg_lib [9] (demo_signed 0) pk = Ok ()"
proof -
  obtain w' where i: "init_dkg_state demo_cli_env demo_dkg_lib demo_factory demo_sui_codec (\<lambda>xs. xs) ''.'' ''dkg.yaml'' ''dkg.key'' None demo_member_files =
    (Ok demo_state, w')" by (rule demo_init)
  let ?keys = "\<lparr>kf_enc_sk = 0, kf_enc_pk = 1, kf_signing_sk = 7, kf_signing_pk = 7\<rparr>"
  have keys: "k = ?keys" if "keys_file_load demo_cli_env demo_dkg_lib ''dkg.key'' u = (Ok k, u')" for u k u'
    using that by (auto simp: keys_file_load_def io_Ok_iffs demo_dkg_lib_def)
  show ?thesis
    by (rule honest_signature_accepted [OF demo_permutes demo_committees_wf _ i i _ _ _ keys, where c = "demo_committee_of [[1], [2], [3]]"
        and is_key_pair = "(=)" and message = 0 and nizk = "()"])
      (auto simp: bls_signature_laws_def demo_dkg_lib_def demo_state_def demo_factory_def demo_fetch_committee sign_message_def
        signature_payload_def demo_signed_def)
qed

end
