(* ===== verification/DkgCli.thy ===== *)
theory DkgCli
  imports DkgParty
begin

text \<open>
  The commands of the committee tool: \<open>main\<close> of \<^verbatim>\<open>crates/seal-committee-cli/src/main.rs\<close>, one
  definition per command, with the wallet, the gas and the transactions they build.

  A programmable transaction is the sequence of calls made on its builder; what the builder
  returns for a call is a function of the calls so far, the parameter \<open>ptb_result\<close>. The wallet,
  the Move compiler, the file operations the other theories do not use and the codec of
  transactions are the record \<open>cli_lib\<close>. The progress messages are left out; what a command
  reports to the user is its result, of type \<open>outcome\<close>.
\<close>

subsection \<open>Transactions\<close>

type_synonym object_ref = "object_id \<times> u64 \<times> bytes"

datatype object_arg =
    ImmOrOwnedObject object_ref
  | SharedObject (shared_id: object_id) (initial_shared_version: u64) (shared_mutable: bool)

datatype pure_arg =
    PureU16 u16
  | PureAddresses "object_id list"
  | PureBytes bytes
  | PureBytesList "bytes list"
  | PureString string

datatype 'arg ptb_call =
    PtbObj object_arg
  | PtbPure pure_arg
  | PtbMoveCall object_id string string "'arg list"
  | PtbPublishUpgradeable "bytes list" "object_id list"
  | PtbTransferArg object_id 'arg
  | PtbUpgrade object_id 'arg "object_id list" "bytes list"

record 'arg transaction_data =
  td_sender :: object_id
  td_gas_payment :: "object_ref list"
  td_calls :: "'arg ptb_call list"
  td_gas_budget :: u64
  td_gas_price :: u64

text \<open>What the commands read of an executed transaction.\<close>

record executed_transaction =
  et_digest :: string
  et_status_ok :: bool
  et_new_package :: "object_id option"
  et_new_upgrade_cap :: "object_id option"
  et_changed_objects :: "(string option \<times> string option) list"

record ('w, 'wal, 'arg, 'stx, 'sgn, 'pkg) cli_lib =
  ptb_result :: "'arg ptb_call list \<Rightarrow> ('arg, string) res"
  reference_gas_price :: "'w grpc_node \<Rightarrow> 'w \<Rightarrow> (u64, string) res \<times> 'w"
  home_dir :: "string option"
  wallet_new :: "string \<Rightarrow> 'w \<Rightarrow> ('wal, string) res \<times> 'w"
  wallet_set_active :: "object_id \<Rightarrow> 'wal \<Rightarrow> 'wal"
  wallet_envs :: "'wal \<Rightarrow> (string \<times> string) list"
  wallet_with_env :: "string \<Rightarrow> 'wal \<Rightarrow> 'wal"
  wallet_active_address :: "'wal \<Rightarrow> (object_id, string) res"
  wallet_active_env :: "'wal \<Rightarrow> (string, string) res"
  wallet_gas_for_owner :: "'wal \<Rightarrow> object_id \<Rightarrow> u64 \<Rightarrow> 'w \<Rightarrow> (object_ref, string) res \<times> 'w"
  wallet_object_ref :: "'wal \<Rightarrow> object_id \<Rightarrow> 'w \<Rightarrow> (object_ref, string) res \<times> 'w"
  wallet_sign :: "'wal \<Rightarrow> 'arg transaction_data \<Rightarrow> 'w \<Rightarrow> 'stx \<times> 'w"
  wallet_sign_secure :: "'wal \<Rightarrow> object_id \<Rightarrow> 'arg transaction_data \<Rightarrow> 'w \<Rightarrow> ('sgn, string) res \<times> 'w"
  transaction_from_data :: "'arg transaction_data \<Rightarrow> 'sgn list \<Rightarrow> 'stx"
  wallet_execute :: "'wal \<Rightarrow> 'stx \<Rightarrow> 'w \<Rightarrow> (executed_transaction, string) res \<times> 'w"
  wallet_generate :: "'wal \<Rightarrow> 'w \<Rightarrow> (object_id \<times> 'wal, string) res \<times> 'w"
  wallet_save :: "'wal \<Rightarrow> 'w \<Rightarrow> (unit, string) res \<times> 'w"
  wallet_gas_objects :: "'wal \<Rightarrow> object_id \<Rightarrow> 'w \<Rightarrow> ((u64 \<times> object_id) list, string) res \<times> 'w"
  move_build :: "dkg_network \<Rightarrow> string \<Rightarrow> 'w \<Rightarrow> ('pkg, string) res \<times> 'w"
  package_bytes :: "'pkg \<Rightarrow> bytes list"
  package_dependencies :: "'pkg \<Rightarrow> object_id list"
  package_digest :: "'pkg \<Rightarrow> bytes"
  current_dir :: "'w \<Rightarrow> (string, string) res \<times> 'w"
  canonicalize :: "string \<Rightarrow> 'w \<Rightarrow> (string, string) res \<times> 'w"
  path_exists :: "string \<Rightarrow> 'w \<Rightarrow> bool"
  remove_file :: "string \<Rightarrow> 'w \<Rightarrow> (unit, string) res \<times> 'w"
  tx_to_base64 :: "'arg transaction_data \<Rightarrow> (string, string) res"
  tx_base64_decode :: "string \<Rightarrow> (bytes, string) res"
  parse_object_id :: "string \<Rightarrow> (object_id, string) res"
  tx_from_bcs :: "bytes \<Rightarrow> ('arg transaction_data, string) res"

record cli_args =
  arg_wallet :: "string option"
  arg_active_address :: "object_id option"
  arg_sender_address :: "object_id option"
  arg_gas_budget :: "u64 option"

datatype tx_error =
    CreateFailed create_error
  | ProcessFailed dkg_error
  | SenderRequired
  | NoActiveAddress string
  | NoHomeDir
  | WalletFailed string
  | RpcUrlNotInWallet string
  | NodeFailed string
  | BuilderFailed string
  | TransactionFailed string
  | NoCreatedObject string
  | NoCommitteeObject object_id
  | NoCommitteeOwner object_id
  | NoSharedVersion object_id
  | PackageBuildFailed string
  | InvalidTxBase64 string
  | InvalidTxBytes string

datatype cli_error =
    TxFailed tx_error
  | CliConfig dkg_config_error
  | CliFile file_error
  | CliGrpc string
  | CliQuery rpc_error
  | CliObject committee_error
  | ServerUrlOrNameEmpty
  | StateCommitteeMismatch object_id object_id
  | SenderMismatch object_id object_id
  | NoMasterShare
  | EncodingFailed string
  | PackageNotFound string
  | NoPublishedPackage
  | NoUpgradeCap
  | NoUpgradedPackage

subsection \<open>Gas\<close>

definition PACKAGE_OPS_TESTNET :: u64 where "PACKAGE_OPS_TESTNET = 100000000"
definition PACKAGE_OPS_MAINNET :: u64 where "PACKAGE_OPS_MAINNET = 100000000"
definition REGULAR_TESTNET :: u64 where "REGULAR_TESTNET = 10000000"
definition REGULAR_MAINNET :: u64 where "REGULAR_MAINNET = 10000000"

definition package_ops_budget :: "u64 option \<Rightarrow> dkg_network \<Rightarrow> u64" where
  "package_ops_budget gas_budget network =
     (case gas_budget of Some b \<Rightarrow> b
      | None \<Rightarrow> (case network of DkgTestnet \<Rightarrow> PACKAGE_OPS_TESTNET | DkgMainnet \<Rightarrow> PACKAGE_OPS_MAINNET))"

definition regular_gas_budget :: "u64 option \<Rightarrow> dkg_network \<Rightarrow> u64" where
  "regular_gas_budget gas_budget network =
     (case gas_budget of Some b \<Rightarrow> b
      | None \<Rightarrow> (case network of DkgTestnet \<Rightarrow> REGULAR_TESTNET | DkgMainnet \<Rightarrow> REGULAR_MAINNET))"

definition get_gas_params where
  "get_gas_params T N wallet address gas_budget =
     io_bind (io_map_err NodeFailed (reference_gas_price T N)) (\<lambda>gas_price.
     io_bind (io_map_err WalletFailed (wallet_gas_for_owner T wallet address gas_budget)) (\<lambda>gas_coin.
       io_lift (Ok (gas_price, gas_budget, gas_coin))))"

subsection \<open>Wallet\<close>

definition transaction_sender_address where
  "transaction_sender_address T wallet sender_address is_unsigned =
     (if is_unsigned then ok_or SenderRequired sender_address
      else map_err NoActiveAddress (wallet_active_address T wallet))"

definition load_wallet where
  "load_wallet T wallet_path active_address =
     io_bind (io_lift (case wallet_path of
         Some path \<Rightarrow> Ok path
       | None \<Rightarrow> and_then (ok_or NoHomeDir (home_dir T)) (\<lambda>default.
           Ok (path_join (path_join (path_join default ''.sui'') ''sui_config'') ''client.yaml'')))) (\<lambda>config_path.
     io_bind (io_map_err WalletFailed (wallet_new T config_path)) (\<lambda>wallet.
       io_lift (Ok (case active_address of Some addr \<Rightarrow> wallet_set_active T addr wallet | None \<Rightarrow> wallet))))"

definition network_env :: "dkg_network \<Rightarrow> string" where
  "network_env network = (case network of DkgTestnet \<Rightarrow> ''testnet'' | DkgMainnet \<Rightarrow> ''mainnet'')"

definition load_wallet_for_network where
  "load_wallet_for_network T wallet_path active_address network rpc_url =
     io_bind (load_wallet T wallet_path active_address) (\<lambda>wallet.
     case rpc_url of
       Some url \<Rightarrow>
         io_bind (io_lift (ok_or (RpcUrlNotInWallet url)
             (map_option fst (find (\<lambda>(alias, rpc). rpc = url) (wallet_envs T wallet))))) (\<lambda>target_env.
           io_lift (Ok (wallet_with_env T target_env wallet)))
     | None \<Rightarrow> io_lift (Ok (wallet_with_env T (network_env network) wallet)))"

subsection \<open>Building and executing transactions\<close>

definition ptb_step where
  "ptb_step T call ptb =
     (let ptb' = ptb @ [call] in
      and_then (map_err BuilderFailed (ptb_result T ptb')) (\<lambda>arg. Ok (arg, ptb')))"

definition get_shared_committee_arg ::
  "'w grpc_node \<Rightarrow> (object_id \<Rightarrow> string) \<Rightarrow> object_id \<Rightarrow> bool \<Rightarrow> ('w, tx_error, object_arg) io" where
  "get_shared_committee_arg N show_address committee_id is_mutable =
     io_bind (io_map_err (\<lambda>(c, m). NodeFailed m)
         (node_get_object N \<lparr>gr_object_id = Some (show_address committee_id), gr_read_mask = Some [''owner'']\<rparr>)) (\<lambda>response.
     io_lift (
       and_then (ok_or (NoCommitteeObject committee_id) response) (\<lambda>object.
       and_then (ok_or (NoCommitteeOwner committee_id) (go_owner object)) (\<lambda>_.
       and_then (ok_or (NoSharedVersion committee_id) (go_owner_version object)) (\<lambda>version.
         Ok (SharedObject committee_id version is_mutable))))))"

definition ptb_committee where
  "ptb_committee T N K committee_id is_mutable ptb =
     io_bind (get_shared_committee_arg N (codec_show_address K) committee_id is_mutable) (\<lambda>arg.
       io_lift (ptb_step T (PtbObj arg) ptb))"

definition execute_signed_txn_and_log where
  "execute_signed_txn_and_log T wallet stx =
     io_bind (io_map_err WalletFailed (wallet_execute T wallet stx)) (\<lambda>response.
       io_lift (if \<not> et_status_ok response then Err (TransactionFailed (et_digest response)) else Ok response))"

definition sign_and_execute_txn_and_log where
  "sign_and_execute_txn_and_log T wallet tx =
     io_bind (\<lambda>w. (Ok (fst (wallet_sign T wallet tx w)), snd (wallet_sign T wallet tx w))) (\<lambda>stx.
       execute_signed_txn_and_log T wallet stx)"

definition print_unsigned_tx_bytes where
  "print_unsigned_tx_bytes T tx = map_err InvalidTxBytes (tx_to_base64 T tx)"

definition decode_unsigned_tx_bytes where
  "decode_unsigned_tx_bytes T tx_bytes =
     and_then (map_err InvalidTxBase64 (tx_base64_decode T tx_bytes)) (\<lambda>b. map_err InvalidTxBytes (tx_from_bcs T b))"

text \<open>\<open>str::contains\<close>\<close>

fun str_contains :: "string \<Rightarrow> string \<Rightarrow> bool" where
  "str_contains [] pat \<longleftrightarrow> pat = []"
| "str_contains (c # s) pat \<longleftrightarrow> take (length pat) (c # s) = pat \<or> str_contains s pat"

definition created_object_id :: "(string \<Rightarrow> (object_id, string) res) \<Rightarrow> string \<Rightarrow> string option \<times> string option \<Rightarrow> object_id option" where
  "created_object_id parse type_name changed =
     (case changed of
        (Some object_type, Some object_id_str) \<Rightarrow>
          if str_contains object_type type_name
          then (case parse object_id_str of Ok i \<Rightarrow> Some i | _ \<Rightarrow> None)
          else None
      | _ \<Rightarrow> None)"

definition extract_created_object_by_type where
  "extract_created_object_by_type parse response type_name =
     (case List.map_filter (created_object_id parse type_name) (et_changed_objects response) of
        i # _ \<Rightarrow> Ok i
      | [] \<Rightarrow> Err (NoCreatedObject type_name))"

definition extract_created_committee_id where
  "extract_created_committee_id parse response = extract_created_object_by_type parse response ''Committee''"

definition get_package_digest where
  "get_package_digest T V package_path network =
     io_bind (io_map_err PackageBuildFailed (canonicalize T package_path)) (\<lambda>path.
     io_bind (io_map_err PackageBuildFailed (move_build T network path)) (\<lambda>compiled_package.
       io_lift (Ok (hex_encode_with_format V (package_digest T compiled_package)))))"

subsection \<open>Commands of the coordinator\<close>

text \<open>What a command reports.\<close>

datatype 'arg outcome =
    AlreadyDone
  | Executed "'arg transaction_data"
  | PrintedUnsigned "'arg transaction_data" string
  | PublishedAndInitialized object_id object_id
  | RotationInitialized object_id object_id
  | StateCreated
  | InitReport "(u16 \<times> object_id) list" "(u16 \<times> object_id) list"
  | ApprovalReport "object_id list" "object_id list"
  | FinalizedReport "object_id option" "u32 option"
  | StatusReport object_id "object_id option" "object_id option" "upgrade_proposal option option"
  | PackageDigestReport string
  | AddressReport object_id
  | GasReport "(u64 \<times> object_id) list"

definition new_programmable where
  "new_programmable sender gas_coin ptb gas_budget gas_price =
     \<lparr>td_sender = sender, td_gas_payment = [gas_coin], td_calls = ptb, td_gas_budget = gas_budget, td_gas_price = gas_price\<rparr>"

definition seal_committee_call :: "object_id \<Rightarrow> string \<Rightarrow> 'arg list \<Rightarrow> 'arg ptb_call" where
  "seal_committee_call package function_name args = PtbMoveCall package ''seal_committee'' function_name args"

definition publish_package where
  "publish_package T N cli network wallet coordinator_address compiled_package =
     io_bind (get_gas_params T N wallet coordinator_address (package_ops_budget (arg_gas_budget cli) network))
       (\<lambda>(gas_price, gas_budget, gas_coin_ref).
     io_bind (io_lift (ptb_step T (PtbPublishUpgradeable (package_bytes T compiled_package) (package_dependencies T compiled_package)) []))
       (\<lambda>(upgrade_cap, ptb).
     let tx_data = new_programmable coordinator_address gas_coin_ref (ptb @ [PtbTransferArg coordinator_address upgrade_cap])
           gas_budget gas_price in
     io_bind (sign_and_execute_txn_and_log T wallet tx_data) (\<lambda>response.
       io_lift (Ok (response, gas_price, gas_budget)))))"

definition init_committee_tx where
  "init_committee_tx T wallet coordinator_address new_pkg upgrade_cap_id threshold members gas_price gas_budget =
     io_bind (io_map_err WalletFailed (wallet_object_ref T wallet upgrade_cap_id)) (\<lambda>upgrade_cap_ref.
     io_bind (io_lift (ptb_step T (PtbObj (ImmOrOwnedObject upgrade_cap_ref)) [])) (\<lambda>(upgrade_cap_arg, ptb).
     io_bind (io_lift (ptb_step T (PtbPure (PureU16 threshold)) ptb)) (\<lambda>(threshold_arg, ptb).
     io_bind (io_lift (ptb_step T (PtbPure (PureAddresses members)) ptb)) (\<lambda>(members_arg, ptb).
     io_bind (io_map_err WalletFailed (wallet_gas_for_owner T wallet coordinator_address gas_budget)) (\<lambda>init_gas_coin_ref.
       io_lift (Ok (new_programmable coordinator_address init_gas_coin_ref
         (ptb @ [seal_committee_call new_pkg ''init_committee'' [upgrade_cap_arg, threshold_arg, members_arg]])
         gas_budget gas_price)))))))"

definition publish_and_init where
  "publish_and_init V T G cli state_dir =
     (let (config, _) = derive_paths state_dir in
      io_bind (io_map_err CliConfig (load_config V config)) (\<lambda>config_content.
      if get_config_field V config_content ''publish-and-init'' ''COMMITTEE_PKG'' \<noteq> None \<or>
         get_config_field V config_content ''publish-and-init'' ''COMMITTEE_ID'' \<noteq> None
      then io_lift (Ok AlreadyDone)
      else
        io_bind (io_lift (map_err CliConfig (get_network V config_content))) (\<lambda>network.
        let rpc_url = get_node_url V config_content in
        io_bind (io_lift (map_err CliConfig (get_members V config_content))) (\<lambda>members.
        io_bind (io_lift (map_err CliConfig (get_threshold V config_content))) (\<lambda>threshold.
        io_bind (io_map_err TxFailed (load_wallet_for_network T (arg_wallet cli) (arg_active_address cli) network rpc_url)) (\<lambda>wallet.
        io_bind (io_lift (map_err (\<lambda>e. TxFailed (WalletFailed e)) (wallet_active_address T wallet))) (\<lambda>coordinator_address.
        io_bind (io_lift (map_err (\<lambda>e. TxFailed (WalletFailed e)) (wallet_active_env T wallet))) (\<lambda>_.
        io_bind (io_map_err (\<lambda>e. CliFile (FileFailed e)) (current_dir T)) (\<lambda>dir.
        let committee_path = path_join dir ''move/committee'' in
        io_bind (\<lambda>w. (if path_exists T committee_path w then Ok () else Err (PackageNotFound committee_path), w)) (\<lambda>_.
        let published_toml = path_join committee_path ''Published.toml'' in
        io_bind (\<lambda>w. if path_exists T published_toml w
                     then io_map_err (\<lambda>e. CliFile (FileFailed e)) (remove_file T published_toml) w else (Ok (), w)) (\<lambda>_.
        io_bind (io_map_err (\<lambda>e. TxFailed (PackageBuildFailed e)) (move_build T network committee_path)) (\<lambda>compiled_package.
        io_bind (io_lift (map_err CliGrpc (connect G network rpc_url))) (\<lambda>N.
        io_bind (io_map_err TxFailed (publish_package T N cli network wallet coordinator_address compiled_package))
          (\<lambda>(response, gas_price, gas_budget).
        io_bind (io_lift (ok_or NoPublishedPackage (et_new_package response))) (\<lambda>new_pkg.
        io_bind (io_lift (ok_or NoUpgradeCap (et_new_upgrade_cap response))) (\<lambda>upgrade_cap_id.
        io_bind (io_map_err TxFailed (init_committee_tx T wallet coordinator_address new_pkg upgrade_cap_id threshold members
            gas_price gas_budget)) (\<lambda>init_tx_data.
        io_bind (io_map_err TxFailed (sign_and_execute_txn_and_log T wallet init_tx_data)) (\<lambda>init_response.
        io_bind (io_lift (map_err TxFailed (extract_created_committee_id (parse_object_id T) init_response))) (\<lambda>committee_id.
        io_bind (io_map_err CliConfig (update_config_bytes_val V config ''publish-and-init''
            [(''COMMITTEE_PKG'', new_pkg), (''COMMITTEE_ID'', committee_id), (''COORDINATOR_ADDRESS'', coordinator_address)])) (\<lambda>_.
          io_lift (Ok (PublishedAndInitialized new_pkg committee_id))))))))))))))))))))))"

definition init_rotation_tx where
  "init_rotation_tx T N K cli network wallet coordinator_address current_committee_id new_pkg threshold members =
     io_bind (ptb_committee T N K current_committee_id False []) (\<lambda>(current_committee_arg, ptb).
     io_bind (io_lift (ptb_step T (PtbPure (PureU16 threshold)) ptb)) (\<lambda>(threshold_arg, ptb).
     io_bind (io_lift (ptb_step T (PtbPure (PureAddresses members)) ptb)) (\<lambda>(members_arg, ptb).
     io_bind (get_gas_params T N wallet coordinator_address (regular_gas_budget (arg_gas_budget cli) network))
       (\<lambda>(gas_price, gas_budget, gas_coin_ref).
       io_lift (Ok (new_programmable coordinator_address gas_coin_ref
         (ptb @ [seal_committee_call new_pkg ''init_rotation'' [current_committee_arg, threshold_arg, members_arg]])
         gas_budget gas_price))))))"

definition init_rotation where
  "init_rotation V T G K cli state_dir =
     (let (config, _) = derive_paths state_dir in
      io_bind (io_map_err CliConfig (load_config V config)) (\<lambda>config_content.
      if get_config_field V config_content ''init-rotation'' ''COMMITTEE_ID'' \<noteq> None then io_lift (Ok AlreadyDone)
      else
        io_bind (io_lift (map_err CliConfig (get_key_server_obj_id V config_content))) (\<lambda>key_server_obj_id.
        io_bind (io_lift (map_err CliConfig (get_network V config_content))) (\<lambda>network.
        let rpc_url = get_node_url V config_content in
        io_bind (io_lift (map_err CliConfig (get_members V config_content))) (\<lambda>members.
        io_bind (io_lift (map_err CliConfig (get_threshold V config_content))) (\<lambda>threshold.
        io_bind (io_map_err TxFailed (load_wallet_for_network T (arg_wallet cli) (arg_active_address cli) network rpc_url)) (\<lambda>wallet.
        io_bind (io_lift (map_err (\<lambda>e. TxFailed (WalletFailed e)) (wallet_active_address T wallet))) (\<lambda>coordinator_address.
        io_bind (io_lift (map_err CliGrpc (connect G network rpc_url))) (\<lambda>N.
        io_bind (io_map_err CliQuery (fetch_committee_from_key_server N K key_server_obj_id)) (\<lambda>(current_committee_id, new_pkg).
        io_bind (io_map_err CliConfig (update_config_bytes_val V config ''init-rotation''
            [(''COMMITTEE_PKG'', new_pkg), (''CURRENT_COMMITTEE_ID'', current_committee_id),
             (''COORDINATOR_ADDRESS'', coordinator_address)])) (\<lambda>_.
        io_bind (io_map_err TxFailed (init_rotation_tx T N K cli network wallet coordinator_address current_committee_id new_pkg
            threshold members)) (\<lambda>rotation_tx_data.
        io_bind (io_map_err TxFailed (sign_and_execute_txn_and_log T wallet rotation_tx_data)) (\<lambda>rotation_response.
        io_bind (io_lift (map_err TxFailed (extract_created_committee_id (parse_object_id T) rotation_response))) (\<lambda>new_committee_id.
        io_bind (io_map_err CliConfig (update_config_bytes_val V config ''init-rotation'' [(''COMMITTEE_ID'', new_committee_id)])) (\<lambda>_.
          io_lift (Ok (RotationInitialized current_committee_id new_committee_id)))))))))))))))))"

subsection \<open>Commands of a member\<close>

text \<open>Executes a transaction, or prints its bytes with \<^verbatim>\<open>--unsigned\<close>.\<close>

definition execute_or_print where
  "execute_or_print T wallet is_unsigned tx_data =
     (if is_unsigned
      then io_bind (io_lift (print_unsigned_tx_bytes T tx_data)) (\<lambda>tx_bytes. io_lift (Ok (PrintedUnsigned tx_data tx_bytes)))
      else io_bind (sign_and_execute_txn_and_log T wallet tx_data) (\<lambda>_. io_lift (Ok (Executed tx_data))))"

definition register_tx where
  "register_tx T N K cli network wallet my_address committee_pkg committee_id enc_pk_bytes signing_pk_bytes server_url server_name =
     io_bind (ptb_committee T N K committee_id True []) (\<lambda>(committee_arg, ptb).
     io_bind (io_lift (ptb_step T (PtbPure (PureBytes enc_pk_bytes)) ptb)) (\<lambda>(enc_pk_arg, ptb).
     io_bind (io_lift (ptb_step T (PtbPure (PureBytes signing_pk_bytes)) ptb)) (\<lambda>(signing_pk_arg, ptb).
     io_bind (io_lift (ptb_step T (PtbPure (PureString server_url)) ptb)) (\<lambda>(url_arg, ptb).
     io_bind (io_lift (ptb_step T (PtbPure (PureString server_name)) ptb)) (\<lambda>(name_arg, ptb).
     io_bind (get_gas_params T N wallet my_address (regular_gas_budget (arg_gas_budget cli) network))
       (\<lambda>(gas_price, gas_budget, gas_coin_ref).
       io_lift (Ok (new_programmable my_address gas_coin_ref
         (ptb @ [seal_committee_call committee_pkg ''register'' [committee_arg, enc_pk_arg, signing_pk_arg, url_arg, name_arg]])
         gas_budget gas_price))))))))"

text \<open>New keys, drawn from the outside world: a keys file with the BCS bytes of the two public keys.
  \<open>keys_file.parent()\<close> is the state directory, to which the file name was joined.\<close>

definition genkey_and_register where
  "genkey_and_register V lib T G K generate_keys cli state_dir server_url server_name is_unsigned =
     (let (config, keys_file) = derive_paths state_dir in
      io_bind (io_map_err CliConfig (load_config V config)) (\<lambda>config_content.
      if get_config_field V config_content ''genkey-and-register'' ''DKG_ENC_PK'' \<noteq> None \<or>
         get_config_field V config_content ''genkey-and-register'' ''DKG_SIGNING_PK'' \<noteq> None
      then io_lift (Ok AlreadyDone)
      else if trim server_url = [] \<or> trim server_name = [] then io_lift (Err ServerUrlOrNameEmpty)
      else
        io_bind (io_lift (map_err CliConfig (get_network V config_content))) (\<lambda>network.
        let rpc_url = get_node_url V config_content in
        io_bind (io_map_err TxFailed (load_wallet_for_network T (arg_wallet cli) (arg_active_address cli) network rpc_url)) (\<lambda>wallet.
        io_bind (io_lift (map_err TxFailed (transaction_sender_address T wallet (arg_sender_address cli) is_unsigned))) (\<lambda>my_address.
        io_bind (io_map_err CliConfig (update_config_bytes_val V config ''genkey-and-register'' [(''MY_ADDRESS'', my_address)])) (\<lambda>_.
        io_bind (io_map_err CliConfig (update_config_string_val V config ''genkey-and-register''
            [(''MY_SERVER_URL'', server_url), (''MY_SERVER_NAME'', server_name)])) (\<lambda>_.
        io_bind (io_map_err CliConfig (load_config V config)) (\<lambda>config_content.
        io_bind (io_lift (map_err CliConfig (get_committee_pkg V config_content))) (\<lambda>committee_pkg.
        io_bind (io_lift (map_err CliConfig (get_committee_id V config_content))) (\<lambda>committee_id.
        io_bind (io_map_err EncodingFailed generate_keys) (\<lambda>(created_keys_file, enc_pk_bytes, signing_pk_bytes).
        io_bind (io_lift (map_err EncodingFailed (keys_to_json lib created_keys_file))) (\<lambda>json_content.
        io_bind (io_map_err (\<lambda>e. CliFile (FileFailed e)) (fs_create_dir_all V state_dir)) (\<lambda>_.
        io_bind (io_map_err CliFile (write_secret_file V keys_file json_content)) (\<lambda>_.
        io_bind (io_map_err CliConfig (update_config_bytes_val V config ''genkey-and-register''
            [(''DKG_ENC_PK'', enc_pk_bytes), (''DKG_SIGNING_PK'', signing_pk_bytes)])) (\<lambda>_.
        io_bind (io_lift (map_err CliGrpc (connect G network rpc_url))) (\<lambda>N.
        io_bind (io_map_err TxFailed (register_tx T N K cli network wallet my_address committee_pkg committee_id enc_pk_bytes
            signing_pk_bytes server_url server_name)) (\<lambda>register_tx_data.
          io_map_err TxFailed (execute_or_print T wallet is_unsigned register_tx_data))))))))))))))))))"

definition init_state where
  "init_state V lib G K hord state_dir =
     (let (config, keys_file) = derive_paths state_dir in
      io_bind (io_map_err (\<lambda>e. TxFailed (CreateFailed e)) (create_dkg_state_and_message V lib G K hord state_dir config keys_file None))
        (\<lambda>_. io_lift (Ok StateCreated)))"

definition create_message_command where
  "create_message_command V lib G K hord state_dir share =
     (let (config, keys_file) = derive_paths state_dir in
      io_bind (io_map_err (\<lambda>e. TxFailed (CreateFailed e)) (create_dkg_state_and_message V lib G K hord state_dir config keys_file share))
        (\<lambda>_. io_lift (Ok StateCreated)))"

text \<open>The Hex form of the partial public key of each party. The index of a party is its id plus
  one, as a 16-bit number that must not be zero.\<close>

definition partial_pk_hex where
  "partial_pk_hex V lib outp party_id =
     (let share_index = of_nat party_id + (1 :: u16) in
      if share_index = 0 then Panic
      else and_then (map_err EncodingFailed (g2_bcs lib (out_eval lib outp share_index))) (\<lambda>b. Ok (hex_encode_with_format V b)))"

definition partial_pks_of where
  "partial_pks_of V lib outp n = collect_res (partial_pk_hex V lib outp) [0 ..< n]"

definition master_share_of where
  "master_share_of lib outp =
     (case Option.bind (out_shares lib outp) (\<lambda>shares. case shares of s # _ \<Rightarrow> Some s | [] \<Rightarrow> None) of
        Some share \<Rightarrow> map_err EncodingFailed (sc_bcs lib share)
      | None \<Rightarrow> Err NoMasterShare)"

definition propose_tx where
  "propose_tx V T N K cli network wallet my_address committee_pkg committee_id current_committee_id partial_pks key_server_pk_bytes messages_hash =
     io_bind (ptb_committee T N K committee_id True []) (\<lambda>(committee_arg, ptb).
     io_bind (io_lift (map_err BuilderFailed (collect_res (hex_decode V) partial_pks))) (\<lambda>partial_pks_bytes.
     io_bind (io_lift (ptb_step T (PtbPure (PureBytesList partial_pks_bytes)) ptb)) (\<lambda>(partial_pks_arg, ptb).
     io_bind (io_lift (ptb_step T (PtbPure (PureBytes messages_hash)) ptb)) (\<lambda>(messages_hash_arg, ptb).
     io_bind (case current_committee_id of
         Some current_committee_id \<Rightarrow>
           io_bind (ptb_committee T N K current_committee_id True ptb) (\<lambda>(current_committee_arg, ptb).
             io_lift (Ok (ptb @ [seal_committee_call committee_pkg ''propose_for_rotation''
               [committee_arg, partial_pks_arg, messages_hash_arg, current_committee_arg]])))
       | None \<Rightarrow>
           io_bind (io_lift (ptb_step T (PtbPure (PureBytes key_server_pk_bytes)) ptb)) (\<lambda>(key_server_pk_arg, ptb).
             io_lift (Ok (ptb @ [seal_committee_call committee_pkg ''propose''
               [committee_arg, partial_pks_arg, key_server_pk_arg, messages_hash_arg]])))) (\<lambda>ptb.
     io_bind (get_gas_params T N wallet my_address (regular_gas_budget (arg_gas_budget cli) network))
       (\<lambda>(gas_price, gas_budget, gas_coin_ref).
       io_lift (Ok (new_programmable my_address gas_coin_ref ptb gas_budget gas_price))))))))"

definition process_all_and_propose where
  "process_all_and_propose V lib T G K cli state_dir messages_dir is_unsigned =
     (let (config, keys_file) = derive_paths state_dir;
          full_messages_dir = (case messages_dir of Some d \<Rightarrow> d | None \<Rightarrow> path_join state_dir ''dkg-messages'') in
      io_bind (io_map_err CliConfig (load_config V config)) (\<lambda>config_content.
      io_bind (io_lift (map_err CliConfig (get_committee_pkg V config_content))) (\<lambda>committee_pkg.
      io_bind (io_lift (map_err CliConfig (get_committee_id V config_content))) (\<lambda>committee_id.
      io_bind (io_lift (map_err CliConfig (get_my_address V config_content))) (\<lambda>my_address.
      io_bind (io_lift (map_err CliConfig (get_network V config_content))) (\<lambda>network.
      let rpc_url = get_node_url V config_content in
      io_bind (io_map_err CliFile (dkg_state_load V lib state_dir)) (\<lambda>state.
      if committee_id \<noteq> ic_committee_id (ds_config state)
      then io_lift (Err (StateCommitteeMismatch committee_id (ic_committee_id (ds_config state))))
      else
        io_bind (io_map_err CliFile (keys_file_load V lib keys_file)) (\<lambda>local_keys.
        io_bind (io_lift (map_err CliGrpc (connect G network rpc_url))) (\<lambda>N.
        io_bind (io_map_err CliQuery (get_committee_rotation_info N K (ic_committee_id (ds_config state))))
          (\<lambda>(next_version, old_key_server_pk, current_committee_id).
        io_bind (io_lift (map_err CliConfig (validate_process_section V config_content next_version old_key_server_pk))) (\<lambda>_.
        io_bind (io_map_err TxFailed (load_wallet_for_network T (arg_wallet cli) (arg_active_address cli) network rpc_url)) (\<lambda>wallet.
        io_bind (io_lift (map_err TxFailed (transaction_sender_address T wallet (arg_sender_address cli) is_unsigned))) (\<lambda>sender_address.
        if my_address \<noteq> sender_address then io_lift (Err (SenderMismatch sender_address my_address))
        else
          io_bind (io_map_err CliFile (load_messages_from_dir V lib full_messages_dir)) (\<lambda>messages.
          io_bind (io_map_err (\<lambda>e. TxFailed (ProcessFailed e))
              (process_dkg_messages V lib (codec_show_address K) state messages local_keys)) (\<lambda>(outp, messages_hash, state').
          io_bind (io_lift (map_err EncodingFailed (g2_bcs lib (out_c0 lib outp)))) (\<lambda>key_server_pk_bytes.
          io_bind (io_lift (master_share_of lib outp)) (\<lambda>master_share_bytes.
          io_bind (io_lift (partial_pks_of V lib outp (num_nodes lib (ic_nodes (ds_config state'))))) (\<lambda>partial_pks.
          io_bind (io_lift (map_err EncodingFailed (y_list_to_string V partial_pks))) (\<lambda>partial_pks_yaml.
          io_bind (io_map_err CliConfig (persist_process_outputs V config next_version key_server_pk_bytes old_key_server_pk
              (trim partial_pks_yaml) master_share_bytes)) (\<lambda>_.
          io_bind (io_map_err CliConfig (load_config V config)) (\<lambda>written.
          io_bind (io_lift (map_err CliConfig (validate_process_outputs_added V written next_version))) (\<lambda>_.
          io_bind (io_map_err TxFailed (propose_tx V T N K cli network wallet my_address committee_pkg committee_id current_committee_id
              partial_pks key_server_pk_bytes messages_hash)) (\<lambda>propose_tx_data.
            io_map_err TxFailed (execute_or_print T wallet is_unsigned propose_tx_data))))))))))))))))))))))))"

subsection \<open>Status, upgrades and wallet commands\<close>

text \<open>The members that are in a set of addresses, and the others.\<close>

definition partition_members :: "object_id list \<Rightarrow> object_id list \<Rightarrow> object_id list \<times> object_id list" where
  "partition_members members addrs = (filter (List.member addrs) members, filter (\<lambda>a. \<not> List.member addrs a) members)"

definition with_party_ids where
  "with_party_ids committee addrs =
     collect_res (\<lambda>a. and_then (map_err CliObject (get_party_id committee a)) (\<lambda>n. Ok (n, a))) addrs"

definition server_version :: "'g2 key_server_v2 \<Rightarrow> u32 option" where
  "server_version key_server = (case ks_server_type key_server of Committee version _ _ \<Rightarrow> Some version | _ \<Rightarrow> None)"

definition check_committee where
  "check_committee V G K state_dir =
     (let (config, _) = derive_paths state_dir in
      io_bind (io_map_err CliConfig (load_config V config)) (\<lambda>config_content.
      io_bind (io_lift (map_err CliConfig (get_committee_id V config_content))) (\<lambda>committee_id.
      io_bind (io_lift (map_err CliConfig (get_network V config_content))) (\<lambda>network.
      let rpc_url = get_node_url V config_content in
      io_bind (io_lift (map_err CliGrpc (connect G network rpc_url))) (\<lambda>N.
      io_bind (io_map_err CliQuery (fetch_committee_data N K committee_id)) (\<lambda>committee.
      case sc_state committee of
        Init members_info \<Rightarrow>
          let (registered_addrs, not_registered) = partition_members (sc_members committee) (map fst members_info) in
          io_lift (and_then (with_party_ids committee registered_addrs) (\<lambda>present.
            and_then (with_party_ids committee not_registered) (\<lambda>missing. Ok (InitReport present missing))))
      | PostDKG _ _ _ _ approvals \<Rightarrow>
          let (approved, not_approved) = partition_members (sc_members committee) approvals in
          io_lift (Ok (ApprovalReport approved not_approved))
      | Finalized \<Rightarrow>
          (\<lambda>w. case fetch_key_server_by_committee N K committee_id w of
             (Ok (ks_obj_id, key_server), w') \<Rightarrow> (Ok (FinalizedReport (Some ks_obj_id) (server_version key_server)), w')
           | (Err _, w') \<Rightarrow> (Ok (FinalizedReport None None), w')
           | (Panic, w') \<Rightarrow> (Panic, w'))))))))"

definition package_digest_command where
  "package_digest_command T V package_path network =
     io_bind (get_package_digest T V package_path network) (\<lambda>digest. io_lift (Ok (PackageDigestReport digest)))"

datatype vote_choice = VoteApprove string | VoteReject

definition current_package where
  "current_package N K key_server_id =
     io_bind (io_map_err CliQuery (fetch_committee_from_key_server N K key_server_id)) (\<lambda>(committee_id, _).
     io_bind (io_map_err CliQuery (fetch_upgrade_manager N K committee_id)) (\<lambda>upgrade_manager.
       io_lift (Ok (committee_id, cap_package (um_cap upgrade_manager)))))"

definition vote_for_upgrade where
  "vote_for_upgrade V T G K vote wallet key_server_id network budget rpc_url sender_address is_unsigned =
     io_bind (io_lift (map_err TxFailed (transaction_sender_address T wallet sender_address is_unsigned))) (\<lambda>voter_address.
     io_bind (case vote of
         VoteApprove package_path \<Rightarrow>
           io_bind (io_map_err TxFailed (get_package_digest T V package_path network)) (\<lambda>digest.
             io_lift (Ok (Some digest, ''approve_digest_for_upgrade'')))
       | VoteReject \<Rightarrow> io_lift (Ok (None, ''reject_digest_for_upgrade''))) (\<lambda>(digest, function_name).
     io_bind (io_lift (map_err CliGrpc (connect G network rpc_url))) (\<lambda>N.
     io_bind (current_package N K key_server_id) (\<lambda>(committee_id, committee_pkg).
     io_bind (io_map_err TxFailed (ptb_committee T N K committee_id True [])) (\<lambda>(committee_arg, ptb).
     io_bind (case digest of
         Some digest_str \<Rightarrow>
           io_bind (io_lift (map_err EncodingFailed (hex_decode V digest_str))) (\<lambda>digest_bytes.
           io_bind (io_lift (map_err TxFailed (ptb_step T (PtbPure (PureBytes digest_bytes)) ptb))) (\<lambda>(digest_arg, ptb).
             io_lift (Ok ([committee_arg, digest_arg], ptb))))
       | None \<Rightarrow> io_lift (Ok ([committee_arg], ptb))) (\<lambda>(args, ptb).
     io_bind (io_map_err TxFailed (get_gas_params T N wallet voter_address budget)) (\<lambda>(gas_price, gas_budget, gas_coin_ref).
     let vote_tx_data = new_programmable voter_address gas_coin_ref (ptb @ [seal_committee_call committee_pkg function_name args])
           gas_budget gas_price in
       io_map_err TxFailed (execute_or_print T wallet is_unsigned vote_tx_data))))))))"

definition approve_upgrade where
  "approve_upgrade V T G K cli package_path key_server_id network rpc_url is_unsigned =
     io_bind (io_map_err TxFailed (load_wallet_for_network T (arg_wallet cli) (arg_active_address cli) network rpc_url)) (\<lambda>wallet.
       vote_for_upgrade V T G K (VoteApprove package_path) wallet key_server_id network
         (regular_gas_budget (arg_gas_budget cli) network) rpc_url (arg_sender_address cli) is_unsigned)"

definition reject_upgrade where
  "reject_upgrade V T G K cli key_server_id network rpc_url is_unsigned =
     io_bind (io_map_err TxFailed (load_wallet_for_network T (arg_wallet cli) (arg_active_address cli) network rpc_url)) (\<lambda>wallet.
       vote_for_upgrade V T G K VoteReject wallet key_server_id network
         (regular_gas_budget (arg_gas_budget cli) network) rpc_url (arg_sender_address cli) is_unsigned)"

definition upgrade_tx where
  "upgrade_tx T N K cli network wallet executor_address committee_id committee_pkg compiled_package =
     io_bind (ptb_committee T N K committee_id True []) (\<lambda>(committee_arg_auth, ptb).
     io_bind (io_lift (ptb_step T (seal_committee_call committee_pkg ''authorize_upgrade'' [committee_arg_auth]) ptb)) (\<lambda>(upgrade_ticket, ptb).
     io_bind (io_lift (ptb_step T (PtbUpgrade committee_pkg upgrade_ticket (package_dependencies T compiled_package)
         (package_bytes T compiled_package)) ptb)) (\<lambda>(upgrade_receipt, ptb).
     io_bind (ptb_committee T N K committee_id True ptb) (\<lambda>(committee_arg_commit, ptb).
     io_bind (get_gas_params T N wallet executor_address (package_ops_budget (arg_gas_budget cli) network))
       (\<lambda>(gas_price, gas_budget, gas_coin_ref).
       io_lift (Ok (new_programmable executor_address gas_coin_ref
         (ptb @ [seal_committee_call committee_pkg ''commit_upgrade'' [committee_arg_commit, upgrade_receipt]])
         gas_budget gas_price)))))))"

definition authorize_and_upgrade where
  "authorize_and_upgrade V T G K cli package_path key_server_id network rpc_url is_unsigned =
     io_bind (io_map_err TxFailed (load_wallet_for_network T (arg_wallet cli) (arg_active_address cli) network rpc_url)) (\<lambda>wallet.
     io_bind (io_lift (map_err TxFailed (transaction_sender_address T wallet (arg_sender_address cli) is_unsigned))) (\<lambda>executor_address.
     io_bind (io_map_err TxFailed (get_package_digest T V package_path network)) (\<lambda>_.
     io_bind (io_map_err (\<lambda>e. TxFailed (PackageBuildFailed e)) (move_build T network package_path)) (\<lambda>compiled_package.
     io_bind (io_lift (map_err CliGrpc (connect G network rpc_url))) (\<lambda>N.
     io_bind (current_package N K key_server_id) (\<lambda>(committee_id, committee_pkg).
     io_bind (io_map_err TxFailed (upgrade_tx T N K cli network wallet executor_address committee_id committee_pkg compiled_package))
       (\<lambda>upgrade_tx_data.
     if is_unsigned
     then io_bind (io_lift (map_err TxFailed (print_unsigned_tx_bytes T upgrade_tx_data))) (\<lambda>tx_bytes.
       io_lift (Ok (PrintedUnsigned upgrade_tx_data tx_bytes)))
     else
       io_bind (io_map_err TxFailed (sign_and_execute_txn_and_log T wallet upgrade_tx_data)) (\<lambda>upgrade_response.
       io_bind (io_lift (ok_or NoUpgradedPackage (et_new_package upgrade_response))) (\<lambda>_.
         io_lift (Ok (Executed upgrade_tx_data)))))))))))"

definition reset_proposal where
  "reset_proposal T G K cli key_server_id network rpc_url =
     io_bind (io_map_err TxFailed (load_wallet_for_network T (arg_wallet cli) (arg_active_address cli) network rpc_url)) (\<lambda>wallet.
     io_bind (io_lift (map_err (\<lambda>e. TxFailed (WalletFailed e)) (wallet_active_address T wallet))) (\<lambda>member_address.
     io_bind (io_lift (map_err CliGrpc (connect G network rpc_url))) (\<lambda>N.
     io_bind (current_package N K key_server_id) (\<lambda>(committee_id, committee_pkg).
     io_bind (io_map_err TxFailed (ptb_committee T N K committee_id True [])) (\<lambda>(committee_arg, ptb).
     io_bind (io_map_err TxFailed (get_gas_params T N wallet member_address (regular_gas_budget (arg_gas_budget cli) network)))
       (\<lambda>(gas_price, gas_budget, gas_coin_ref).
     let reset_tx_data = new_programmable member_address gas_coin_ref
           (ptb @ [seal_committee_call committee_pkg ''reset_proposal'' [committee_arg]]) gas_budget gas_price in
     io_bind (io_map_err TxFailed (sign_and_execute_txn_and_log T wallet reset_tx_data)) (\<lambda>_.
       io_lift (Ok (Executed reset_tx_data)))))))))"

definition new_address where
  "new_address T cli =
     io_bind (io_map_err TxFailed (load_wallet T (arg_wallet cli) (arg_active_address cli))) (\<lambda>wallet.
     io_bind (io_map_err (\<lambda>e. TxFailed (WalletFailed e)) (wallet_generate T wallet)) (\<lambda>(address, wallet).
     io_bind (io_map_err (\<lambda>e. TxFailed (WalletFailed e)) (wallet_save T (wallet_set_active T address wallet))) (\<lambda>_.
       io_lift (Ok (AddressReport address)))))"

definition active_address_command where
  "active_address_command T cli =
     io_bind (io_map_err TxFailed (load_wallet T (arg_wallet cli) (arg_active_address cli))) (\<lambda>wallet.
       io_lift (map_err (\<lambda>e. TxFailed (WalletFailed e)) (and_then (wallet_active_address T wallet) (\<lambda>a. Ok (AddressReport a)))))"

definition sign_and_execute where
  "sign_and_execute T cli tx_bytes =
     io_bind (io_map_err TxFailed (load_wallet T (arg_wallet cli) (arg_active_address cli))) (\<lambda>wallet.
     io_bind (io_lift (map_err TxFailed (decode_unsigned_tx_bytes T tx_bytes))) (\<lambda>tx_data.
     let tx_sender = td_sender tx_data in
     io_bind (io_map_err (\<lambda>e. TxFailed (WalletFailed e)) (wallet_sign_secure T wallet tx_sender tx_data)) (\<lambda>sig.
     io_bind (io_map_err TxFailed (execute_signed_txn_and_log T wallet (transaction_from_data T tx_data [sig]))) (\<lambda>_.
       io_lift (Ok (Executed tx_data))))))"

definition gas_command where
  "gas_command T cli =
     io_bind (io_map_err TxFailed (load_wallet T (arg_wallet cli) (arg_active_address cli))) (\<lambda>wallet.
     io_bind (io_lift (map_err (\<lambda>e. TxFailed (WalletFailed e)) (wallet_active_address T wallet))) (\<lambda>active.
     let address = (case arg_sender_address cli of Some a \<Rightarrow> a | None \<Rightarrow> active) in
     io_bind (io_map_err (\<lambda>e. TxFailed (WalletFailed e)) (wallet_gas_objects T wallet address)) (\<lambda>gas_objects.
       io_lift (Ok (GasReport gas_objects)))))"

text \<open>A query whose failure is only reported.\<close>

definition io_try :: "('w, 'e, 'a) io \<Rightarrow> ('w, 'f, 'a option) io" where
  "io_try m w = (case m w of (Ok x, w') \<Rightarrow> (Ok (Some x), w') | (Err _, w') \<Rightarrow> (Ok None, w') | (Panic, w') \<Rightarrow> (Panic, w'))"

definition check_key_server_status where
  "check_key_server_status G K key_server_id network rpc_url =
     io_bind (io_lift (map_err CliGrpc (connect G network rpc_url))) (\<lambda>N.
     io_bind (io_map_err CliQuery (fetch_committee_from_key_server N K key_server_id)) (\<lambda>(committee_id, _).
     io_bind (io_map_err CliQuery (fetch_committee_data N K committee_id)) (\<lambda>committee.
     io_bind (io_try (fetch_key_server_by_committee N K committee_id)) (\<lambda>ks.
     io_bind (io_try (fetch_upgrade_manager N K committee_id)) (\<lambda>upgrade_manager.
     io_bind (io_try (fetch_upgrade_proposal N K committee_id)) (\<lambda>proposal.
       io_lift (Ok (StatusReport committee_id (map_option fst ks)
         (map_option (\<lambda>m. cap_package (um_cap m)) upgrade_manager) proposal))))))))"

subsection \<open>Dispatch\<close>

datatype 'sc commands =
    PublishAndInit string
  | InitRotation string
  | GenkeyAndRegister string string string bool
  | InitState string
  | CreateMessage string "'sc option"
  | ProcessAllAndPropose string "string option" bool
  | CheckCommittee string
  | PackageDigest string dkg_network
  | ApproveUpgrade string object_id dkg_network "string option" bool
  | RejectUpgrade object_id dkg_network "string option" bool
  | AuthorizeAndUpgrade string object_id dkg_network "string option" bool
  | ResetProposal object_id dkg_network "string option"
  | NewAddress
  | ActiveAddress
  | SignAndExecute string
  | Gas
  | CheckKeyServerStatus object_id dkg_network "string option"

definition run_command where
  "run_command V lib T G K hord generate_keys cli command =
     (case command of
        PublishAndInit state_dir \<Rightarrow> publish_and_init V T G cli state_dir
      | InitRotation state_dir \<Rightarrow> init_rotation V T G K cli state_dir
      | GenkeyAndRegister state_dir server_url server_name is_unsigned \<Rightarrow>
          genkey_and_register V lib T G K generate_keys cli state_dir server_url server_name is_unsigned
      | InitState state_dir \<Rightarrow> init_state V lib G K hord state_dir
      | CreateMessage state_dir share \<Rightarrow> create_message_command V lib G K hord state_dir share
      | ProcessAllAndPropose state_dir messages_dir is_unsigned \<Rightarrow>
          process_all_and_propose V lib T G K cli state_dir messages_dir is_unsigned
      | CheckCommittee state_dir \<Rightarrow> check_committee V G K state_dir
      | PackageDigest package_path network \<Rightarrow> io_map_err TxFailed (package_digest_command T V package_path network)
      | ApproveUpgrade package_path key_server_id network rpc_url is_unsigned \<Rightarrow>
          approve_upgrade V T G K cli package_path key_server_id network rpc_url is_unsigned
      | RejectUpgrade key_server_id network rpc_url is_unsigned \<Rightarrow> reject_upgrade V T G K cli key_server_id network rpc_url is_unsigned
      | AuthorizeAndUpgrade package_path key_server_id network rpc_url is_unsigned \<Rightarrow>
          authorize_and_upgrade V T G K cli package_path key_server_id network rpc_url is_unsigned
      | ResetProposal key_server_id network rpc_url \<Rightarrow> reset_proposal T G K cli key_server_id network rpc_url
      | NewAddress \<Rightarrow> new_address T cli
      | ActiveAddress \<Rightarrow> active_address_command T cli
      | SignAndExecute tx_bytes \<Rightarrow> sign_and_execute T cli tx_bytes
      | Gas \<Rightarrow> gas_command T cli
      | CheckKeyServerStatus key_server_id network rpc_url \<Rightarrow> check_key_server_status G K key_server_id network rpc_url)"

subsection \<open>Facts about the commands\<close>

lemma case_pair_OkE:
  assumes "(case x of (a, b) \<Rightarrow> f a b) u = r"
  obtains a b where "x = (a, b)" and "f a b u = r"
  using assms by (cases x) auto

lemma if_lift_OkE:
  assumes "(if b then io_lift (Ok x) else m) w = (Ok y, v)"
  obtains (yes) "b" "y = x" "v = w" | (no) "\<not> b" and "m w = (Ok y, v)"
  using assms by (auto simp: io_lift_Ok_iff split: if_splits)

lemmas io_elims = io_bind_OkE if_err_OkE case_pair_OkE

lemma ptb_step_Ok_iff:
  "ptb_step T call ptb = Ok (arg, ptb') \<longleftrightarrow> ptb_result T ptb' = Ok arg \<and> ptb' = ptb @ [call]"
  by (auto simp: ptb_step_def Let_def res_simps)

lemma ptb_committee_OkD:
  "ptb_committee T N K i m ptb w = (Ok (arg, ptb'), w') \<Longrightarrow>
    \<exists>v. ptb' = ptb @ [PtbObj (SharedObject i v m)] \<and> ptb_result T (ptb @ [PtbObj (SharedObject i v m)]) = Ok arg"
  by (auto simp: ptb_committee_def get_shared_committee_arg_def io_Ok_iffs res_simps ptb_step_Ok_iff)

text \<open>The calls of a proposal, in order. The arguments of the Move call are what the builder returned for the committee, the
  partial public keys, the hash of the messages, and the current committee or the public key.\<close>

definition proposal_calls where
  "proposal_calls T committee_pkg committee_id current pks pk h ptb \<longleftrightarrow>
     (\<exists>v committee_arg pks_arg h_arg.
        let committee = PtbObj (SharedObject committee_id v True); pks_call = PtbPure (PureBytesList pks); h_call = PtbPure (PureBytes h) in
        ptb_result T [committee] = Ok committee_arg \<and> ptb_result T [committee, pks_call] = Ok pks_arg \<and>
        ptb_result T [committee, pks_call, h_call] = Ok h_arg \<and>
        (case current of
           Some i \<Rightarrow> \<exists>v' current_arg.
             ptb_result T [committee, pks_call, h_call, PtbObj (SharedObject i v' True)] = Ok current_arg \<and>
             ptb = [committee, pks_call, h_call, PtbObj (SharedObject i v' True),
               PtbMoveCall committee_pkg ''seal_committee'' ''propose_for_rotation'' [committee_arg, pks_arg, h_arg, current_arg]]
         | None \<Rightarrow> \<exists>pk_arg.
             ptb_result T [committee, pks_call, h_call, PtbPure (PureBytes pk)] = Ok pk_arg \<and>
             ptb = [committee, pks_call, h_call, PtbPure (PureBytes pk),
               PtbMoveCall committee_pkg ''seal_committee'' ''propose'' [committee_arg, pks_arg, pk_arg, h_arg]]))"

lemma propose_tx_OkD:
  assumes "propose_tx V T N K cli network wallet addr committee_pkg committee_id current pks pk h w = (Ok tx, w')"
  shows "td_sender tx = addr \<and> (\<exists>bs. collect_res (hex_decode V) pks = Ok bs \<and>
    proposal_calls T committee_pkg committee_id current bs pk h (td_calls tx))"
proof (cases current)
  case None
  show ?thesis using assms unfolding propose_tx_def None option.case
    by (elim io_elims) (clarsimp simp: io_Ok_iffs ptb_step_Ok_iff new_programmable_def seal_committee_call_def dest!: ptb_committee_OkD,
      simp add: proposal_calls_def Let_def)
next
  case (Some i)
  show ?thesis using assms unfolding propose_tx_def Some option.case
    by (elim io_elims) (clarsimp simp: io_Ok_iffs ptb_step_Ok_iff new_programmable_def seal_committee_call_def dest!: ptb_committee_OkD,
      simp add: proposal_calls_def Let_def)
qed

text \<open>What becomes of a transaction: with \<^verbatim>\<open>--unsigned\<close> only its bytes are printed, otherwise it is signed and
  executed.\<close>

definition settled where
  "settled T wallet is_unsigned tx v r w' \<longleftrightarrow>
     (if is_unsigned then w' = v \<and> (\<exists>s. r = PrintedUnsigned tx s \<and> tx_to_base64 T tx = Ok s)
      else r = Executed tx \<and> (\<exists>stx u response. wallet_sign T wallet tx v = (stx, u) \<and>
        wallet_execute T wallet stx u = (Ok response, w') \<and> et_status_ok response))"

lemma execute_or_print_Ok:
  assumes "execute_or_print T wallet is_unsigned tx v = (Ok r, w')"
  shows "settled T wallet is_unsigned tx v r w'"
proof (cases is_unsigned)
  case True
  then show ?thesis using assms by (auto simp: settled_def execute_or_print_def io_Ok_iffs print_unsigned_tx_bytes_def)
next
  case False
  obtain stx u where "wallet_sign T wallet tx v = (stx, u)" by (cases "wallet_sign T wallet tx v")
  with False assms show ?thesis
    by (auto simp: settled_def execute_or_print_def sign_and_execute_txn_and_log_def execute_signed_txn_and_log_def io_Ok_iffs split: if_splits)
qed

text \<open>What a successful run of \<open>process-all-and-propose\<close> went through, from world to world.\<close>

lemma process_all_OkE:
  assumes "process_all_and_propose V lib T G K cli dir mdir is_unsigned w = (Ok r, w')"
  obtains c w0 pkg addr network st w1 keys w2 N n old_pk current w3 wallet w4 messages w5 outp h st' w6 pk share pks yaml w7 written w8 tx v where
    "load_config V (path_join dir ''dkg.yaml'') w = (Ok c, w0)" "get_committee_pkg V c = Ok pkg"
    "get_committee_id V c = Ok (ic_committee_id (ds_config st))" "get_my_address V c = Ok addr" "get_network V c = Ok network"
    "dkg_state_load V lib dir w0 = (Ok st, w1)" "keys_file_load V lib (path_join dir ''dkg.key'') w1 = (Ok keys, w2)"
    "connect G network (get_node_url V c) = Ok N"
    "get_committee_rotation_info N K (ic_committee_id (ds_config st)) w2 = (Ok (n, old_pk, current), w3)"
    "validate_process_section V c n old_pk = Ok ()"
    "load_wallet_for_network T (arg_wallet cli) (arg_active_address cli) network (get_node_url V c) w3 = (Ok wallet, w4)"
    "transaction_sender_address T wallet (arg_sender_address cli) is_unsigned = Ok addr"
    "load_messages_from_dir V lib (case mdir of Some d \<Rightarrow> d | None \<Rightarrow> path_join dir ''dkg-messages'') w4 = (Ok messages, w5)"
    "process_dkg_messages V lib (codec_show_address K) st messages keys w5 = (Ok (outp, h, st'), w6)"
    "g2_bcs lib (out_c0 lib outp) = Ok pk" "master_share_of lib outp = Ok share"
    "partial_pks_of V lib outp (num_nodes lib (ic_nodes (ds_config st'))) = Ok pks"
    "persist_process_outputs V (path_join dir ''dkg.yaml'') n pk old_pk (trim yaml) share w6 = (Ok (), w7)"
    "load_config V (path_join dir ''dkg.yaml'') w7 = (Ok written, w8)"
    "propose_tx V T N K cli network wallet addr pkg (ic_committee_id (ds_config st)) current pks pk h w8 = (Ok tx, v)"
    "execute_or_print T wallet is_unsigned tx v = (Ok r, w')"
  using assms unfolding process_all_and_propose_def derive_paths_def Let_def prod.case
proof (elim io_elims, goal_cases)
  case (1 c w1 pkg a1 i a2 addr a3 network a4 st u1 keys a6 N u2 inf u3 n x1 old_pk current x2 a9 wallet a10 sender a11 messages u4
      res u5 outp x3 h st' pk a12 share a13 pks a14 yaml a15 x4 u6 written u7 x5 a16 tx a17)
  then show ?case
    by (intro that [of c w1 pkg st addr network u1 keys a6 N n old_pk current u3 wallet a10 messages u4 outp h st' u5 pk share pks yaml u6 written
        u7 tx a17]) (auto simp: io_Ok_iffs)
qed

lemma persist_changes:
  assumes "yaml_laws V" and "fs_laws V path"
    and "persist_process_outputs V path n pk old_pk pks share w = (Ok (), w')"
  shows "\<exists>c c'. load_config V path w = (Ok c, w) \<and> load_config V path w' = (Ok c', w') \<and>
    config_str V c' process_section (master_share_key n) = Some (hex_encode_with_format V share) \<and>
    (\<forall>s k. get_config_field V c' s k \<noteq> get_config_field V c s k \<longrightarrow>
       s = process_section \<and> k \<in> set (expected_process_output_fields n))"
proof (rule persist_get [OF assms], goal_cases)
  case (1 c c')
  have "config_str V c' process_section (master_share_key n) = Some (hex_encode_with_format V share)"
    using assms(1) by (simp add: config_str_def 1(3) yaml_laws_def)
  then show ?case using 1(1,2) persist_only_outputs [OF 1(3)] by blast
qed

lemma partial_pks_decode:
  assumes "partial_pks_of V lib outp n = Ok pks" and "collect_res (hex_decode V) pks = Ok bs"
    and "\<And>b. hex_decode V (hex_encode_with_format V b) = Ok b"
  shows "length bs = n \<and> (\<forall>i < n. g2_bcs lib (out_eval lib outp (of_nat i + 1)) = Ok (bs ! i))"
proof -
  have pks: "length pks = n" "\<forall>i < n. partial_pk_hex V lib outp i = Ok (pks ! i)"
    using collect_res_all_Ok [OF assms(1) [unfolded partial_pks_of_def]] by auto
  have bs: "length bs = n" "\<forall>i < n. hex_decode V (pks ! i) = Ok (bs ! i)"
    using collect_res_all_Ok [OF assms(2)] pks(1) by auto
  have "g2_bcs lib (out_eval lib outp (of_nat i + 1)) = Ok (bs ! i)" if "i < n" for i
  proof -
    obtain b where b: "g2_bcs lib (out_eval lib outp (of_nat i + 1)) = Ok b" "pks ! i = hex_encode_with_format V b"
      using pks(2) \<open>i < n\<close> by (fastforce simp: partial_pk_hex_def Let_def res_simps split: if_splits)
    then show ?thesis using bs(2) \<open>i < n\<close> assms(3) [of b] by (metis res.inject(1))
  qed
  with bs(1) show ?thesis by blast
qed

subsection \<open>What an operation leaves as it is\<close>

text \<open>Operations after which an observation of the world, say the contents of a file, is what it was.\<close>

definition keeps :: "('w \<Rightarrow> 'o) \<Rightarrow> ('w \<Rightarrow> 'r \<times> 'w) \<Rightarrow> bool" where
  "keeps obs m \<longleftrightarrow> (\<forall>w. obs (snd (m w)) = obs w)"

abbreviation keeps_file :: "('w, 'y) cli_env \<Rightarrow> string \<Rightarrow> ('w \<Rightarrow> 'r \<times> 'w) \<Rightarrow> bool" where
  "keeps_file V path \<equiv> keeps (\<lambda>w. fst (fs_read_to_string V path w))"

lemma keepsD: "keeps obs m \<Longrightarrow> m w = (r, w') \<Longrightarrow> obs w' = obs w"
  by (metis keeps_def snd_conv)

lemma keeps_pair: "keeps (\<lambda>w. (obs w, obs' w)) m \<longleftrightarrow> keeps obs m \<and> keeps obs' m"
  by (auto simp: keeps_def)

lemma keeps_lift: "keeps obs (io_lift r)" "keeps obs (rpc_lift r')"
  by (simp_all add: keeps_def rpc_lift_def)

lemma keeps_map_err: "keeps obs m \<Longrightarrow> keeps obs (io_map_err f m)"
  by (simp add: keeps_def io_map_err_def)

lemma keeps_bind:
  assumes "keeps obs m" and "\<And>x. keeps obs (f x)"
  shows "keeps obs (io_bind m f)"
  unfolding keeps_def
proof
  fix w
  obtain r u where m: "m w = (r, u)" by (cases "m w")
  then show "obs (snd (io_bind m f w)) = obs w"
    using assms(2) keepsD [OF assms(1) m] by (cases r) (simp_all add: io_bind.simps keeps_def)
qed

lemma keeps_rpc_bind:
  assumes "keeps obs m" and "\<And>x. keeps obs (f x)"
  shows "keeps obs (rpc_bind m f)"
  unfolding keeps_def
proof
  fix w
  obtain r u where m: "m w = (r, u)" by (cases "m w")
  then show "obs (snd (rpc_bind m f w)) = obs w"
    using assms(2) keepsD [OF assms(1) m] by (cases r) (simp_all add: keeps_def)
qed

lemma keeps_case_prod: "(\<And>a b. keeps obs (f a b)) \<Longrightarrow> keeps obs (case x of (a, b) \<Rightarrow> f a b)"
  by (cases x) simp

lemma keeps_case_option: "keeps obs m \<Longrightarrow> (\<And>a. keeps obs (f a)) \<Longrightarrow> keeps obs (case x of None \<Rightarrow> m | Some a \<Rightarrow> f a)"
  by (cases x) simp_all

lemma keeps_if: "keeps obs m \<Longrightarrow> keeps obs m' \<Longrightarrow> keeps obs (if b then m else m')"
  by simp

lemma keeps_fold:
  assumes "\<And>x s. keeps obs (f x s)"
  shows "keeps obs (io_fold f xs s)"
  by (induction xs arbitrary: s) (simp_all add: keeps_lift keeps_bind assms)

lemmas keeps_intros = keeps_lift keeps_map_err keeps_bind keeps_rpc_bind keeps_case_prod keeps_case_option keeps_if keeps_fold

lemma load_config_world:
  "fs_laws V path \<Longrightarrow> load_config V path w = (Ok c, w') \<Longrightarrow> w' = w"
  by (auto simp: load_config_Ok_iff fs_laws_def)

lemma same_file_load_config:
  assumes "fst (fs_read_to_string V path w') = fst (fs_read_to_string V path w)" and "fs_laws V path" and "load_config V path w = (Ok c, w)"
  shows "load_config V path w' = (Ok c, w')"
proof -
  obtain t where t: "fs_read_to_string V path w = (Ok t, w)" "y_from_str V t = Ok c" using assms(3) by (auto simp: load_config_Ok_iff)
  then have "fs_read_to_string V path w' = (Ok t, w')"
    using assms(1,2) by (cases "fs_read_to_string V path w'") (auto simp: fs_laws_def)
  then show ?thesis using t(2) by (simp add: load_config_Ok_iff)
qed

lemma keeps_load_config:
  assumes "keeps_file V path m" and "fs_laws V path" and "m w = (r, w')" and "load_config V path w = (Ok c, w)"
  shows "load_config V path w' = (Ok c, w')"
  using keepsD [OF assms(1,3)] assms(2,4) by (rule same_file_load_config)

text \<open>Reading files and directories, queries to the full node, opening the wallet, looking for gas coins, and the protocol
  library: what the commands do besides writing files, signing and executing.\<close>

definition reads_keep where
  "reads_keep obs V lib T G \<longleftrightarrow>
     (\<forall>p. keeps obs (fs_read_to_string V p)) \<and> (\<forall>d. keeps obs (fs_read_dir V d)) \<and>
     (\<forall>url N req. gf_client_new G url = Ok N \<longrightarrow> keeps obs (node_get_object N req)) \<and>
     (\<forall>N. keeps obs (reference_gas_price T N)) \<and> (\<forall>p. keeps obs (wallet_new T p)) \<and>
     (\<forall>wallet a b. keeps obs (wallet_gas_for_owner T wallet a b)) \<and>
     (\<forall>a b c d e f. keeps obs (party_new_advanced lib a b c d e f)) \<and>
     (\<forall>a b c d. keeps obs (process_message_with_checks lib a b c d))"

lemma keeps_reads:
  assumes "reads_keep obs V lib T G"
  shows "keeps obs (load_config V p)" "keeps obs (dkg_state_load V lib dir)" "keeps obs (keys_file_load V lib kf)"
    "keeps obs (load_wallet_for_network T wp a network url)" "keeps obs (load_messages_from_dir V lib mdir)"
    "keeps obs (process_dkg_messages V lib sa st messages keys)" "keeps obs (get_gas_params T N wallet addr b)"
proof -
  have fs: "keeps obs (fs_read_to_string V p)" "keeps obs (fs_read_dir V p)" "keeps obs (wallet_new T p)" for p
    using assms by (simp_all add: reads_keep_def)
  show "keeps obs (load_config V p)" unfolding load_config_def by (intro keeps_intros fs)
  show "keeps obs (dkg_state_load V lib dir)" unfolding dkg_state_load_def Let_def by (intro keeps_intros fs)
  show "keeps obs (keys_file_load V lib kf)" unfolding keys_file_load_def by (intro keeps_intros fs)
  show "keeps obs (load_wallet_for_network T wp a network url)"
    unfolding load_wallet_for_network_def load_wallet_def by (intro keeps_intros fs)
  show "keeps obs (load_messages_from_dir V lib mdir)" unfolding load_messages_from_dir_def load_message_def by (intro keeps_intros fs)
  have lib: "keeps obs (party_new_advanced lib a b c d e f)" "keeps obs (process_message_with_checks lib a' b' c' d')" for a b c d e f a' b' c' d'
    using assms by (simp_all add: reads_keep_def)
  show "keeps obs (process_dkg_messages V lib sa st messages keys)"
    unfolding process_dkg_messages_def process_signed_message_def Let_def by (intro keeps_intros lib)
  have "keeps obs (reference_gas_price T N)" "keeps obs (wallet_gas_for_owner T wallet a b)" for a b using assms by (simp_all add: reads_keep_def)
  then show "keeps obs (get_gas_params T N wallet addr b)" unfolding get_gas_params_def by (intro keeps_intros)
qed

lemma keeps_node:
  assumes "\<And>req. keeps obs (node_get_object N req)"
  shows "keeps obs (get_committee_rotation_info N K i)"
proof -
  have req: "keeps obs (get_object_grpc N req)" for req
    using assms [of req] by (simp add: keeps_def get_object_grpc_def case_prod_beta)
  have data: "keeps obs (fetch_committee_data N K j)" for j
    unfolding fetch_committee_data_def fetch_object_def by (intro keeps_intros req)
  have ks: "keeps obs (fetch_key_server_by_committee N K j)" for j
    unfolding fetch_key_server_by_committee_def fetch_key_server_by_id_def fetch_object_def Let_def by (intro keeps_intros req)
  have ty: "keeps obs (case ks_server_type k of Committee version x y \<Rightarrow> rpc_lift (g version) | _ \<Rightarrow> rpc_lift e)" for k g e
    by (cases "ks_server_type k") (simp_all add: keeps_lift)
  show "keeps obs (get_committee_rotation_info N K i)" unfolding get_committee_rotation_info_def Let_def
    by (intro keeps_intros data ks ty)
qed

lemma keeps_shared_committee:
  "(\<And>req. keeps obs (node_get_object N req)) \<Longrightarrow> keeps obs (ptb_committee T N K i m ptb)"
  unfolding ptb_committee_def get_shared_committee_arg_def by (intro keeps_intros)

lemma reads_keep_node: "reads_keep obs V lib T G \<Longrightarrow> gf_client_new G url = Ok N \<Longrightarrow> keeps obs (node_get_object N req)"
  unfolding reads_keep_def by metis

lemma keeps_propose_tx:
  assumes "\<And>req. keeps obs (node_get_object N req)" and "\<And>a b. keeps obs (get_gas_params T N wallet a b)"
  shows "keeps obs (propose_tx V T N K cli network wallet addr pkg i current pks pk h)"
  unfolding propose_tx_def by (intro keeps_intros keeps_shared_committee assms)

lemma keeps_persist:
  assumes "keeps obs (fs_read_to_string V path)" and "\<And>t. keeps obs (fs_write V path t)"
  shows "keeps obs (persist_process_outputs V path n pk old_pk pks share)"
  unfolding persist_process_outputs_def update_config_bytes_val_def update_config_string_val_def update_config_def by (intro keeps_intros assms)

text \<open>Apart from signing and executing a transaction and from writing to the configuration file, nothing changes that file or the
  part \<open>chain\<close> of the world; writing to the file does not change \<open>chain\<close> either.\<close>

definition chain_laws where
  "chain_laws chain V lib T G path \<longleftrightarrow>
     reads_keep (\<lambda>w. (fst (fs_read_to_string V path w), chain w)) V lib T G \<and> (\<forall>t. keeps chain (fs_write V path t))"

lemma reads_keep_pair: "reads_keep (\<lambda>w. (obs w, obs' w)) V lib T G \<longleftrightarrow> reads_keep obs V lib T G \<and> reads_keep obs' V lib T G"
  unfolding reads_keep_def keeps_pair imp_conjR all_conj_distrib by (simp only: conj_ac)

subsection \<open>Proposals\<close>

text \<open>Up to its last step the command only reads, and writes the outputs.\<close>

lemma process_all_reads:
  assumes "reads_keep obs V lib T G" and "\<And>req. keeps obs (node_get_object N req)"
    and "dkg_state_load V lib dir w0 = (Ok st, w1)" and "keys_file_load V lib kf w1 = (Ok keys, w2)"
    and "get_committee_rotation_info N K i w2 = (Ok info, w3)" and "load_wallet_for_network T wp a network url w3 = (Ok wallet, w4)"
    and "load_messages_from_dir V lib d w4 = (Ok messages, w5)"
    and "process_dkg_messages V lib sa st messages keys w5 = (Ok res, w6)"
  shows "obs w6 = obs w0"
  using keepsD [OF keeps_reads(2) [OF assms(1)] assms(3)] keepsD [OF keeps_reads(3) [OF assms(1)] assms(4)]
    keepsD [OF keeps_node [OF assms(2)] assms(5)] keepsD [OF keeps_reads(4) [OF assms(1)] assms(6)]
    keepsD [OF keeps_reads(5) [OF assms(1)] assms(7)] keepsD [OF keeps_reads(6) [OF assms(1)] assms(8)] by simp

lemma process_all_until_execution:
  assumes "yaml_laws V" and "fs_laws V (path_join dir ''dkg.yaml'')" and "chain_laws chain V lib T G (path_join dir ''dkg.yaml'')"
    and "load_config V (path_join dir ''dkg.yaml'') w = (Ok c, w0)" "dkg_state_load V lib dir w0 = (Ok st, w1)"
    and "keys_file_load V lib kf w1 = (Ok keys, w2)" and "connect G network url = Ok N"
    and "get_committee_rotation_info N K i w2 = (Ok info, w3)"
    and "load_wallet_for_network T wp a network url w3 = (Ok wallet, w4)"
    and "load_messages_from_dir V lib d w4 = (Ok messages, w5)"
    and "process_dkg_messages V lib sa st messages keys w5 = (Ok res, w6)"
    and "persist_process_outputs V (path_join dir ''dkg.yaml'') n pk old_pk yaml share w6 = (Ok (), w7)"
    and "load_config V (path_join dir ''dkg.yaml'') w7 = (Ok written, w8)"
    and "propose_tx V T N K cli network wallet addr pkg i current pks pk h w8 = (Ok tx, v)"
  shows "w0 = w" and "chain v = chain w"
    and "\<exists>c'. load_config V (path_join dir ''dkg.yaml'') v = (Ok c', v) \<and>
      config_str V c' process_section (master_share_key n) = Some (hex_encode_with_format V share) \<and>
      (\<forall>s k. get_config_field V c' s k \<noteq> get_config_field V c s k \<longrightarrow>
         s = process_section \<and> k \<in> set (expected_process_output_fields n))"
proof -
  let ?p = "path_join dir ''dkg.yaml''"
  let ?file = "\<lambda>w. fst (fs_read_to_string V ?p w)"
  have keep: "reads_keep ?file V lib T G" "reads_keep chain V lib T G" "\<And>t. keeps chain (fs_write V ?p t)"
    using assms(3) by (simp_all add: chain_laws_def reads_keep_pair)
  obtain u where N: "gf_client_new G u = Ok N" using connect_client [OF assms(7)] by blast
  have node: "keeps ?file (node_get_object N req)" "keeps chain (node_get_object N req)" for req
    using reads_keep_node [OF keep(1) N] reads_keep_node [OF keep(2) N] .
  have w8: "w8 = w7" using assms(2,13) by (rule load_config_world)
  have persist: "keeps chain (persist_process_outputs V ?p n pk old_pk yaml share)"
    using keep(2) by (intro keeps_persist keep(3)) (simp add: reads_keep_def)
  show w0: "w0 = w" using assms(2,4) by (rule load_config_world)
  have file6: "?file w6 = ?file w" and chain6: "chain w6 = chain w"
    using w0 by (simp_all add: process_all_reads [OF keep(1) node(1) assms(5,6,8-11)] process_all_reads [OF keep(2) node(2) assms(5,6,8-11)])
  have tx: "keeps ?file (propose_tx V T N K cli network wallet addr pkg i current pks pk h)"
    "keeps chain (propose_tx V T N K cli network wallet addr pkg i current pks pk h)"
    by (intro keeps_propose_tx node keeps_reads(7) [OF keep(1)] keeps_reads(7) [OF keep(2)])+
  show "chain v = chain w" using chain6 keepsD [OF persist assms(12)] keepsD [OF tx(2) assms(14)] w8 by simp
  obtain c1 c' where c1: "load_config V ?p w6 = (Ok c1, w6)" and c': "load_config V ?p w7 = (Ok c', w7)"
      "config_str V c' process_section (master_share_key n) = Some (hex_encode_with_format V share)"
      "\<forall>s k. get_config_field V c' s k \<noteq> get_config_field V c1 s k \<longrightarrow>
         s = process_section \<and> k \<in> set (expected_process_output_fields n)"
    using persist_changes [OF assms(1,2,12)] by blast
  have "c1 = c" using same_file_load_config [OF file6 assms(2)] assms(4) c1 w0 by simp
  moreover have "load_config V ?p v = (Ok c', v)" using keeps_load_config [OF tx(1) assms(2,14)] c'(1) w8 by simp
  ultimately show "\<exists>c'. load_config V ?p v = (Ok c', v) \<and>
      config_str V c' process_section (master_share_key n) = Some (hex_encode_with_format V share) \<and>
      (\<forall>s k. get_config_field V c' s k \<noteq> get_config_field V c s k \<longrightarrow>
         s = process_section \<and> k \<in> set (expected_process_output_fields n))" using c'(2,3) by blast
qed

text \<open>C9: A proposal on chain is the outcome of an authentic key generation. When
  \<open>process-all-and-propose\<close> succeeds, it has read the configuration, the state, the keys and the messages of their
  files, one after the other, and processed these messages. Its transaction is sent by the address of the
  configuration. It calls the package of the configuration, with the committee of the member's state, for each party the
  partial public key of the output at the party's share index, and the hash of exactly the
  processed messages; and in a rotation with the current committee as the chain has it, otherwise with the public key of
  the output: each in its place among the arguments. The transaction is executed, or only printed, as the last step. When
  that step begins, nothing has been executed, and the member's master share is stored in
  the configuration, where only the output fields of this version were written.\<close>

theorem proposal_sound:
  assumes "yaml_laws V" and "fs_laws V (path_join dir ''dkg.yaml'')" and "chain_laws chain V lib T G (path_join dir ''dkg.yaml'')"
    and "\<And>b. hex_decode V (hex_encode_with_format V b) = Ok b"
    and "process_all_and_propose V lib T G K cli dir mdir is_unsigned w = (Ok r, w')"
  shows "\<exists>c pkg network st w1 keys w2 N n old_pk current w3 wallet w4 messages w5 outp h st' w6 pk share bs tx v c'.
    load_config V (path_join dir ''dkg.yaml'') w = (Ok c, w) \<and> get_committee_pkg V c = Ok pkg \<and>
    get_committee_id V c = Ok (ic_committee_id (ds_config st)) \<and> get_my_address V c = Ok (td_sender tx) \<and>
    get_network V c = Ok network \<and> connect G network (get_node_url V c) = Ok N \<and>
    dkg_state_load V lib dir w = (Ok st, w1) \<and> keys_file_load V lib (path_join dir ''dkg.key'') w1 = (Ok keys, w2) \<and>
    get_committee_rotation_info N K (ic_committee_id (ds_config st)) w2 = (Ok (n, old_pk, current), w3) \<and>
    load_wallet_for_network T (arg_wallet cli) (arg_active_address cli) network (get_node_url V c) w3 = (Ok wallet, w4) \<and>
    load_messages_from_dir V lib (case mdir of Some d \<Rightarrow> d | None \<Rightarrow> path_join dir ''dkg-messages'') w4 = (Ok messages, w5) \<and>
    process_dkg_messages V lib (codec_show_address K) st messages keys w5 = (Ok (outp, h, st'), w6) \<and>
    g2_bcs lib (out_c0 lib outp) = Ok pk \<and> length bs = num_nodes lib (ic_nodes (ds_config st)) \<and>
    (\<forall>i < length bs. g2_bcs lib (out_eval lib outp (of_nat i + 1)) = Ok (bs ! i)) \<and>
    proposal_calls T pkg (ic_committee_id (ds_config st)) current bs pk h (td_calls tx) \<and>
    chain v = chain w \<and> master_share_of lib outp = Ok share \<and> load_config V (path_join dir ''dkg.yaml'') v = (Ok c', v) \<and>
    config_str V c' process_section (master_share_key n) = Some (hex_encode_with_format V share) \<and>
    (\<forall>s k. get_config_field V c' s k \<noteq> get_config_field V c s k \<longrightarrow>
       s = process_section \<and> k \<in> set (expected_process_output_fields n)) \<and>
    settled T wallet is_unsigned tx v r w'"
proof (rule process_all_OkE [OF assms(5)], goal_cases)
  case (1 c w0 pkg addr network st w1 keys w2 N n old_pk current w3 wallet w4 messages w5 outp h st' w6 pk share pks yaml w7 written w8 tx v)
  note until = process_all_until_execution [OF assms(1-3) 1(1,6-9,11,13,14,18-20)]
  obtain bs where bs: "collect_res (hex_decode V) pks = Ok bs" "td_sender tx = addr"
      "proposal_calls T pkg (ic_committee_id (ds_config st)) current bs pk h (td_calls tx)"
    using propose_tx_OkD [OF 1(20)] by blast
  have st': "ds_config st' = ds_config st" using 1(14) by (rule process_dkg_messages_OkE)
  have pks: "length bs = num_nodes lib (ic_nodes (ds_config st))" "\<forall>j < length bs. g2_bcs lib (out_eval lib outp (of_nat j + 1)) = Ok (bs ! j)"
    using partial_pks_decode [OF 1(17) bs(1) assms(4)] by (simp_all add: st')
  obtain c' where c': "load_config V (path_join dir ''dkg.yaml'') v = (Ok c', v)"
      "config_str V c' process_section (master_share_key n) = Some (hex_encode_with_format V share)"
      "\<forall>s k. get_config_field V c' s k \<noteq> get_config_field V c s k \<longrightarrow>
         s = process_section \<and> k \<in> set (expected_process_output_fields n)"
    using until(3) by blast
  note facts = 1(1) [unfolded until(1)] 1(2,3) 1(4) [folded bs(2)] 1(5,8) 1(6) [unfolded until(1)] 1(7,9,11,13-15) pks bs(3) until(2) 1(16) c'
    execute_or_print_Ok [OF 1(21)]
  show ?case by (intro exI conjI) (rule facts)+
qed
subsection \<open>Commands that run once\<close>

text \<open>A field of a list that was just written is there.\<close>

lemma update_bytes_present:
  assumes "yaml_laws V" and "fs_laws V path" and "update_config_bytes_val V path sec updates w = (Ok (), w')"
    and "key \<in> fst ` set updates"
  shows "\<exists>c. load_config V path w' = (Ok c, w') \<and> get_config_field V c sec key \<noteq> None"
proof -
  obtain c c' where c: "load_config V path w' = (Ok c', w')"
    "get_config_field V c' = (get_config_field V c)(sec := get_config_field V c sec ++
       map_of (rev (map (\<lambda>(key, b). (key, y_string V (hex_encode_with_format V b))) updates)))"
    using update_config_get [OF assms(1,2) assms(3) [unfolded update_config_bytes_val_def]] by metis
  have "key \<in> fst ` set (rev (map (\<lambda>(key, b). (key, y_string V (hex_encode_with_format V b))) updates))"
    using assms(4) by (force simp: image_iff)
  then have "get_config_field V c' sec key \<noteq> None"
    by (auto simp: c(2) map_add_None map_of_eq_None_iff)
  with c(1) show ?thesis by blast
qed

lemma last_update_present:
  assumes "io_map_err CliConfig (update_config_bytes_val V path sec updates) u = (Ok x, u')" and "io_lift (Ok y) u' = (Ok z, w')"
    and "yaml_laws V" and "fs_laws V path" and "key \<in> fst ` set updates"
  shows "\<exists>c. load_config V path w' = (Ok c, w') \<and> get_config_field V c sec key \<noteq> None"
  using assms update_bytes_present [OF assms(3,4), of sec updates u u' key] by (auto simp: io_map_err_Ok_iff io_lift_Ok_iff)

text \<open>The coordinator's commands run once. After \<open>publish-and-init\<close> or \<open>init-rotation\<close> has
  succeeded, running it again reports that it was done and changes nothing.\<close>

theorem coordinator_commands_once:
  assumes "yaml_laws V" and "fs_laws V (path_join dir ''dkg.yaml'')"
  shows "(publish_and_init V T G cli dir w = (Ok r, w') \<longrightarrow> publish_and_init V T G cli' dir w' = (Ok AlreadyDone, w')) \<and>
    (init_rotation V T G K cli dir v = (Ok r', v') \<longrightarrow> init_rotation V T G K cli' dir v' = (Ok AlreadyDone, v'))"
proof (intro conjI impI)
  let ?p = "path_join dir ''dkg.yaml''"
  assume run: "publish_and_init V T G cli dir w = (Ok r, w')"
  have "\<exists>c. load_config V ?p w' = (Ok c, w') \<and> (get_config_field V c ''publish-and-init'' ''COMMITTEE_PKG'' \<noteq> None \<or>
      get_config_field V c ''publish-and-init'' ''COMMITTEE_ID'' \<noteq> None)"
    using run unfolding publish_and_init_def derive_paths_def Let_def prod.case
  proof (elim io_elims if_lift_OkE, goal_cases)
    case 1
    then show ?case using load_config_world [OF assms(2)] by (auto simp: io_Ok_iffs)
  next
    case 2
    have "\<exists>c. load_config V ?p w' = (Ok c, w') \<and> get_config_field V c ''publish-and-init'' ''COMMITTEE_PKG'' \<noteq> None"
      by (rule last_update_present [OF _ _ assms]) (fact 2, fact 2, simp)
    then show ?case by blast
  qed
  then show "publish_and_init V T G cli' dir w' = (Ok AlreadyDone, w')"
    by (auto simp: publish_and_init_def derive_paths_def io_bind.simps io_map_err_def io_lift_def)
next
  let ?p = "path_join dir ''dkg.yaml''"
  assume run: "init_rotation V T G K cli dir v = (Ok r', v')"
  have "\<exists>c. load_config V ?p v' = (Ok c, v') \<and> get_config_field V c ''init-rotation'' ''COMMITTEE_ID'' \<noteq> None"
    using run unfolding init_rotation_def derive_paths_def Let_def prod.case
  proof (elim io_elims if_lift_OkE, goal_cases)
    case 1
    then show ?case using load_config_world [OF assms(2)] by (auto simp: io_Ok_iffs)
  next
    case 2
    show ?case by (rule last_update_present [OF _ _ assms]) (fact 2, fact 2, simp)
  qed
  then show "init_rotation V T G K cli' dir v' = (Ok AlreadyDone, v')"
    by (auto simp: init_rotation_def derive_paths_def io_bind.simps io_map_err_def io_lift_def)
qed

text \<open>The full node and the wallet do not write to the configuration file.\<close>

definition outside_keeps where
  "outside_keeps V T G path \<longleftrightarrow>
     (\<forall>url N req. gf_client_new G url = Ok N \<longrightarrow> keeps_file V path (node_get_object N req)) \<and>
     (\<forall>N. keeps_file V path (reference_gas_price T N)) \<and>
     (\<forall>wallet a b. keeps_file V path (wallet_gas_for_owner T wallet a b)) \<and>
     (\<forall>wallet tx. keeps_file V path (wallet_sign T wallet tx)) \<and>
     (\<forall>wallet stx. keeps_file V path (wallet_execute T wallet stx))"

lemma keeps_ptb_committee:
  "outside_keeps V T G path \<Longrightarrow> gf_client_new G url = Ok N \<Longrightarrow> keeps_file V path (ptb_committee T N K i m ptb)"
  by (rule keeps_shared_committee) (auto simp: outside_keeps_def)

lemma keeps_gas_params:
  "outside_keeps V T G path \<Longrightarrow> keeps_file V path (get_gas_params T N wallet a b)"
  unfolding get_gas_params_def by (intro keeps_intros) (auto simp: outside_keeps_def)

lemma keeps_sign_and_execute:
  assumes "outside_keeps V T G path"
  shows "keeps_file V path (sign_and_execute_txn_and_log T wallet tx)"
proof -
  have sig: "keeps_file V path (\<lambda>w. (Ok (fst (wallet_sign T wallet tx w)), snd (wallet_sign T wallet tx w)))"
    using assms by (simp add: keeps_def outside_keeps_def)
  show ?thesis unfolding sign_and_execute_txn_and_log_def execute_signed_txn_and_log_def
    by (intro keeps_intros sig) (use assms in \<open>auto simp: outside_keeps_def\<close>)
qed

lemma keeps_execute_or_print:
  "outside_keeps V T G path \<Longrightarrow> keeps_file V path (execute_or_print T wallet is_unsigned tx)"
  unfolding execute_or_print_def by (intro keeps_intros keeps_sign_and_execute)

lemma keeps_register_tx:
  "outside_keeps V T G path \<Longrightarrow> gf_client_new G url = Ok N \<Longrightarrow>
   keeps_file V path (register_tx T N K cli network wallet a pkg i e s u n)"
  unfolding register_tx_def by (intro keeps_intros keeps_ptb_committee keeps_gas_params)

lemma register_keeps_update:
  assumes "io_map_err CliConfig (update_config_bytes_val V path sec updates) u = (Ok x, u1)"
    and "io_lift (map_err CliGrpc (connect G network rpc_url)) u1 = (Ok N, u2)"
    and "io_map_err TxFailed (register_tx T N K cli network' wallet a pkg i e s url name) u2 = (Ok tx, u3)"
    and "io_map_err TxFailed (execute_or_print T wallet is_unsigned tx) u3 = (Ok r, w')"
    and "yaml_laws V" and "fs_laws V path" and "outside_keeps V T G path" and "key \<in> fst ` set updates"
  shows "\<exists>c. load_config V path w' = (Ok c, w') \<and> get_config_field V c sec key \<noteq> None"
proof -
  have N: "\<exists>url. gf_client_new G url = Ok N" and u2: "u2 = u1"
    using assms(2) by (auto simp: io_lift_Ok_iff map_err_Ok_iff connect_def create_grpc_client_with_url_def)
  obtain c where c: "load_config V path u1 = (Ok c, u1)" "get_config_field V c sec key \<noteq> None"
    using update_bytes_present [OF assms(5,6) _ assms(8), of sec u u1] assms(1) by (auto simp: io_map_err_Ok_iff)
  have "load_config V path u3 = (Ok c, u3)"
    using N keeps_load_config [OF keeps_register_tx [OF assms(7)] assms(6) _ c(1)] assms(3) u2 by (auto simp: io_map_err_Ok_iff)
  then have "load_config V path w' = (Ok c, w')"
    using keeps_load_config [OF keeps_execute_or_print [OF assms(7)] assms(6)] assms(4) by (simp add: io_map_err_Ok_iff)
  with c(2) show ?thesis by blast
qed

text \<open>A member's keys are generated once. After \<open>genkey-and-register\<close> has succeeded, running it
  again reports that it was done and changes nothing, so registered keys are not overwritten.\<close>

theorem genkey_once:
  assumes "yaml_laws V" and "fs_laws V (path_join dir ''dkg.yaml'')" and "outside_keeps V T G (path_join dir ''dkg.yaml'')"
    and "genkey_and_register V lib T G K gen cli dir url name is_unsigned w = (Ok r, w')"
  shows "genkey_and_register V lib T G K gen' cli' dir url' name' is_unsigned' w' = (Ok AlreadyDone, w')"
proof -
  let ?p = "path_join dir ''dkg.yaml''"
  have "\<exists>c. load_config V ?p w' = (Ok c, w') \<and> (get_config_field V c ''genkey-and-register'' ''DKG_ENC_PK'' \<noteq> None \<or>
      get_config_field V c ''genkey-and-register'' ''DKG_SIGNING_PK'' \<noteq> None)"
    using assms(4) unfolding genkey_and_register_def derive_paths_def Let_def prod.case
  proof (elim io_elims if_lift_OkE, goal_cases)
    case 1
    then show ?case using load_config_world [OF assms(2)] by (auto simp: io_Ok_iffs)
  next
    case 2
    have "\<exists>c. load_config V ?p w' = (Ok c, w') \<and> get_config_field V c ''genkey-and-register'' ''DKG_ENC_PK'' \<noteq> None"
      by (rule register_keeps_update [OF _ _ _ _ assms(1-3)]) (fact 2, fact 2, fact 2, fact 2, simp)
    then show ?case by blast
  qed
  then show ?thesis
    by (auto simp: genkey_and_register_def derive_paths_def io_bind.simps io_map_err_def io_lift_def)
qed

subsection \<open>Offline signing\<close>

text \<open>A transaction printed as Base64 is decoded to itself.\<close>

definition tx_codec_laws where
  "tx_codec_laws T \<longleftrightarrow> (\<forall>tx s. tx_to_base64 T tx = Ok s \<longrightarrow> (\<exists>b. tx_base64_decode T s = Ok b \<and> tx_from_bcs T b = Ok tx))"

text \<open>C27: Unsigned transactions. With \<^verbatim>\<open>--unsigned\<close>, \<open>process-all-and-propose\<close> prints the
  bytes of a transaction whose sender is the member's address and executes nothing: whatever only signing and executing can
  change is what it was. \<open>sign-and-execute\<close> on these
  bytes, run anywhere, signs exactly that transaction for its sender with the wallet it loads, and executes it as its last
  step.\<close>

theorem offline_proposal:
  assumes "yaml_laws V" and "fs_laws V (path_join dir ''dkg.yaml'')" and "chain_laws chain V lib T G (path_join dir ''dkg.yaml'')"
    and "tx_codec_laws T" and "process_all_and_propose V lib T G K cli dir mdir True w = (Ok r, w')"
  shows "chain w' = chain w \<and> (\<exists>tx s. r = PrintedUnsigned tx s \<and> arg_sender_address cli = Some (td_sender tx) \<and>
    (\<forall>cli' v r' v'. sign_and_execute T cli' s v = (Ok r', v') \<longrightarrow>
       r' = Executed tx \<and> (\<exists>wallet sig u u' response. load_wallet T (arg_wallet cli') (arg_active_address cli') v = (Ok wallet, u) \<and>
         wallet_sign_secure T wallet (td_sender tx) tx u = (Ok sig, u') \<and>
         wallet_execute T wallet (transaction_from_data T tx [sig]) u' = (Ok response, v') \<and> et_status_ok response)))"
proof (rule process_all_OkE [OF assms(5)], goal_cases)
  case (1 c w0 pkg addr network st w1 keys w2 N n old_pk current w3 wallet w4 messages w5 outp h st' w6 pk share pks yaml w7 written w8 tx v)
  obtain s where s: "r = PrintedUnsigned tx s" "tx_to_base64 T tx = Ok s" and w': "w' = v"
    using execute_or_print_Ok [OF 1(21)] by (auto simp: settled_def)
  have chain: "chain w' = chain w" unfolding w' by (rule process_all_until_execution(2) [OF assms(1-3) 1(1,6-9,11,13,14,18-20)])
  have "td_sender tx = addr" using propose_tx_OkD [OF 1(20)] by blast
  then have addr: "arg_sender_address cli = Some (td_sender tx)"
    using 1(12) by (simp add: transaction_sender_address_def ok_or_Ok_iff)
  have dec: "decode_unsigned_tx_bytes T s = Ok tx"
    using assms(4) s(2) by (auto simp: tx_codec_laws_def decode_unsigned_tx_bytes_def res_simps)
  have "r' = Executed tx \<and> (\<exists>wallet sig u u' response. load_wallet T (arg_wallet cli') (arg_active_address cli') v = (Ok wallet, u) \<and>
         wallet_sign_secure T wallet (td_sender tx) tx u = (Ok sig, u') \<and>
         wallet_execute T wallet (transaction_from_data T tx [sig]) u' = (Ok response, v') \<and> et_status_ok response)"
    if "sign_and_execute T cli' s v = (Ok r', v')" for cli' v r' v'
    using that by (auto simp: sign_and_execute_def io_Ok_iffs dec execute_signed_txn_and_log_def Let_def split: if_splits)
  then show ?case using chain s(1) addr by blast
qed

subsection \<open>Concrete runs\<close>

definition demo_proposal :: "nat transaction_data" where
  "demo_proposal = \<lparr>td_sender = [1], td_gas_payment = [([1], 0, [])],
     td_calls = [PtbObj (SharedObject [9] 1 True), PtbPure (PureBytesList [[1], [1], [1]]), PtbPure (PureBytes [0, 1, 2]),
       PtbPure (PureBytes [1]), seal_committee_call [8] ''propose'' [1, 2, 4, 3]],
     td_gas_budget = 10000000, td_gas_price = 1\<rparr>"

text \<open>The chain of the concrete world is the entry \<open>chain\<close>, with a mark for each executed transaction.\<close>

definition demo_executed :: "(string \<rightharpoonup> string) \<Rightarrow> string \<rightharpoonup> string" where
  "demo_executed w = w(''chain'' \<mapsto> CHR ''x'' # (case w ''chain'' of None \<Rightarrow> [] | Some s \<Rightarrow> s))"

lemma demo_executed_file: "p \<noteq> ''chain'' \<Longrightarrow> demo_executed w p = w p"
  by (simp add: demo_executed_def)

definition demo_cli_lib :: "(string \<rightharpoonup> string, unit, nat, nat transaction_data, unit, unit) cli_lib" where
  "demo_cli_lib = \<lparr>
     ptb_result = (\<lambda>ptb. Ok (length ptb)),
     reference_gas_price = (\<lambda>_ w. (Ok 1, w)),
     home_dir = None, wallet_new = (\<lambda>_ w. (Ok (), w)), wallet_set_active = (\<lambda>_ wal. wal), wallet_envs = (\<lambda>_. []),
     wallet_with_env = (\<lambda>_ wal. wal), wallet_active_address = (\<lambda>_. Ok [1]), wallet_active_env = (\<lambda>_. Ok []),
     wallet_gas_for_owner = (\<lambda>_ a _ w. (Ok (a, 0, []), w)), wallet_object_ref = (\<lambda>_ i w. (Ok (i, 0, []), w)),
     wallet_sign = (\<lambda>_ tx w. (tx, w)), wallet_sign_secure = (\<lambda>_ _ _ w. (Ok (), w)), transaction_from_data = (\<lambda>tx _. tx),
     wallet_execute = (\<lambda>_ _ w. (Ok \<lparr>et_digest = [], et_status_ok = True, et_new_package = Some [8], et_new_upgrade_cap = Some [7],
        et_changed_objects = [(Some ''x::Committee'', Some (bytes_string [9]))]\<rparr>, demo_executed w)),
     wallet_generate = (\<lambda>wal w. (Ok ([1], wal), w)), wallet_save = (\<lambda>_ w. (Ok (), w)), wallet_gas_objects = (\<lambda>_ _ w. (Ok [], w)),
     move_build = (\<lambda>_ _ w. (Ok (), w)), package_bytes = (\<lambda>_. []), package_dependencies = (\<lambda>_. []), package_digest = (\<lambda>_. []),
     current_dir = (\<lambda>w. (Ok [], w)), canonicalize = (\<lambda>p w. (Ok p, w)), path_exists = (\<lambda>p w. True),
     remove_file = (\<lambda>_ w. (Ok (), w)),
     tx_to_base64 = (\<lambda>tx. if tx = demo_proposal then Ok [] else Err ''none''), tx_base64_decode = (\<lambda>s. Ok (string_bytes s)),
     parse_object_id = (\<lambda>s. Ok (string_bytes s)),
     tx_from_bcs = (\<lambda>_. Ok demo_proposal)\<rparr>"

definition demo_args :: cli_args where
  "demo_args = \<lparr>arg_wallet = Some ''w'', arg_active_address = None, arg_sender_address = Some [1], arg_gas_budget = None\<rparr>"

lemmas demo_io = io_bind.simps io_lift_def io_map_err_def Let_def

lemma demo_wallet: "load_wallet_for_network demo_cli_lib (arg_wallet demo_args) (arg_active_address demo_args) network None w = (Ok (), w)"
  by (simp add: load_wallet_for_network_def load_wallet_def demo_io demo_cli_lib_def demo_args_def)

lemma demo_sender: "transaction_sender_address demo_cli_lib wal (arg_sender_address demo_args) b = Ok [1]"
  by (simp add: transaction_sender_address_def demo_cli_lib_def demo_args_def)

lemma demo_gas: "get_gas_params demo_cli_lib N wal a b w = (Ok (1, b, (a, 0, [])), w)"
  by (simp add: get_gas_params_def demo_io demo_cli_lib_def)

lemma demo_ptb_step: "ptb_step demo_cli_lib call ptb = Ok (Suc (length ptb), ptb @ [call])"
  by (simp add: ptb_step_def demo_cli_lib_def)

lemma demo_ptb_committee: "ptb_committee demo_cli_lib demo_grpc_node K i m ptb w = (Ok (Suc (length ptb), ptb @ [PtbObj (SharedObject i 1 m)]), w)"
  by (simp add: ptb_committee_def get_shared_committee_arg_def demo_ptb_step demo_grpc_node_def io_bind.simps io_lift_def io_map_err_def)

lemma demo_execute:
  "sign_and_execute_txn_and_log demo_cli_lib wal tx w = (Ok \<lparr>et_digest = [], et_status_ok = True, et_new_package = Some [8],
     et_new_upgrade_cap = Some [7], et_changed_objects = [(Some ''x::Committee'', Some (bytes_string [9]))]\<rparr>, demo_executed w)"
  by (simp add: sign_and_execute_txn_and_log_def execute_signed_txn_and_log_def demo_io demo_cli_lib_def)

lemma demo_execute_or_print:
  "execute_or_print demo_cli_lib wal False tx w = (Ok (Executed tx), demo_executed w)"
  "execute_or_print demo_cli_lib wal True demo_proposal w = (Ok (PrintedUnsigned demo_proposal []), w)"
proof -
  have "print_unsigned_tx_bytes demo_cli_lib demo_proposal = Ok []" by (simp add: print_unsigned_tx_bytes_def demo_cli_lib_def)
  then show "execute_or_print demo_cli_lib wal True demo_proposal w = (Ok (PrintedUnsigned demo_proposal []), w)"
    by (simp add: execute_or_print_def io_bind.simps io_lift_def)
qed (simp add: execute_or_print_def io_bind.simps io_lift_def demo_execute)

lemma demo_connect: "connect demo_factory network u = Ok demo_grpc_node"
  by (cases u; cases network) (simp_all add: connect_def create_grpc_client_with_url_def demo_factory_def)

text \<open>The committee of the first member is processed and proposed.\<close>

lemma demo_messages:
  "load_messages_from_dir demo_cli_env demo_dkg_lib d demo_member_files = (Ok (map demo_signed [2, 0, 1]), demo_member_files)"
proof -
  have ext: "path_extension ''2.json'' = Some ''json''" "path_extension ''0.json'' = Some ''json''" "path_extension ''1.json'' = Some ''json''"
    "path_extension ''notes.txt'' = Some ''txt''"
    by code_simp+
  have one: "load_message demo_cli_env demo_dkg_lib (Ok p) ms demo_member_files = (Ok (ms @ [demo_signed (ucast (b :: u8))]), demo_member_files)"
    if "path_extension p = Some ''json''" "demo_member_files p = Some (bytes_string [b])" for p ms b
    using that by (simp add: load_message_def io_bind.simps io_lift_def io_map_err_def demo_cli_env_def demo_dkg_lib_def string_bytes_inverse)
  have skip: "load_message demo_cli_env demo_dkg_lib (Ok ''notes.txt'') ms demo_member_files = (Ok ms, demo_member_files)" for ms
    by (simp add: load_message_def io_bind.simps io_lift_def ext)
  have files: "demo_member_files ''2.json'' = Some (bytes_string [2])" "demo_member_files ''0.json'' = Some (bytes_string [0])"
    "demo_member_files ''1.json'' = Some (bytes_string [1])"
    by (simp_all add: demo_member_files_def)
  have dir: "fs_read_dir demo_cli_env d demo_member_files = (Ok [Ok ''2.json'', Ok ''notes.txt'', Ok ''0.json'', Ok ''1.json''], demo_member_files)"
    by (simp add: demo_cli_env_def)
  show ?thesis unfolding load_messages_from_dir_def
    by (simp add: io_bind.simps io_lift_def io_map_err_def dir skip one [OF ext(1) files(1)] one [OF ext(2) files(2)] one [OF ext(3) files(3)])
qed

lemma demo_state_loaded: "dkg_state_load demo_cli_env demo_dkg_lib [] demo_member_files = (Ok demo_state, demo_member_files)"
  by (simp add: dkg_state_load_def path_join_def io_bind.simps io_lift_def io_map_err_def demo_cli_env_def demo_dkg_lib_def demo_member_files_def)

lemma demo_rotation_info:
  "get_committee_rotation_info demo_grpc_node demo_sui_codec i w = (Ok (0, None, None), w)"
  by (simp add: get_committee_rotation_info_def demo_fetch_committee, simp add: demo_committee_of_def rpc_lift_def)

lemma demo_persist:
  "\<exists>w' c'. persist_process_outputs demo_cli_env ''dkg.yaml'' 0 [1] None y [1] demo_member_files = (Ok (), w') \<and>
     load_config demo_cli_env ''dkg.yaml'' w' = (Ok c', w') \<and> validate_process_outputs_added demo_cli_env c' 0 = Ok ()"
proof -
  let ?p = "''dkg.yaml''"
  obtain m where m: "demo_member_config = YMap m" "map_of m process_section = None"
    by (simp add: demo_member_config_def process_section_def)
  have f: "demo_member_files ?p = Some (yaml_print (YMap m))" by (simp add: demo_member_files_def m(1) [symmetric])
  obtain w1 m1 n1 where 1: "update_config_bytes_val demo_cli_env ?p process_section [(''KEY_SERVER_PK'', [1])] demo_member_files = (Ok (), w1)"
      "w1 ?p = Some (yaml_print (YMap m1))" "map_of m1 process_section = Some (YMap n1)"
    unfolding update_config_bytes_val_def by (simp add: demo_update_new [where w = demo_member_files and p = ?p, OF f m(2)])
  obtain w2 m2 n2 where 2: "update_config_string_val demo_cli_env ?p process_section [(partial_pks_key 0, trim y)] w1 = (Ok (), w2)"
      "w2 ?p = Some (yaml_print (YMap m2))" "map_of m2 process_section = Some (YMap n2)"
    unfolding update_config_string_val_def by (simp add: demo_update [where w = w1 and p = ?p, OF 1(2,3)])
  obtain w3 where 3: "update_config_bytes_val demo_cli_env ?p process_section [(master_share_key 0, [1])] w2 = (Ok (), w3)"
    unfolding update_config_bytes_val_def by (simp add: demo_update [where w = w2 and p = ?p, OF 2(2,3)])
  have "persist_process_outputs demo_cli_env ?p 0 [1] None y [1] demo_member_files = (Ok (), w3)"
    unfolding persist_process_outputs_def using 1(1) 2(1) 3 by (simp del: list.inject char.inject)
  then show ?thesis using persist_get [OF demo_yaml_laws demo_fs_laws] persist_added by metis
qed

lemma demo_propose_tx:
  "propose_tx demo_cli_env demo_cli_lib demo_grpc_node demo_sui_codec demo_args DkgTestnet () [1] [8] [9] None
     [bytes_string [1], bytes_string [1], bytes_string [1]] [1] [0, 1, 2] w = (Ok demo_proposal, w)"
proof -
  have "collect_res (hex_decode demo_cli_env) [bytes_string [1], bytes_string [1], bytes_string [1]] = Ok [[1], [1], [1 :: u8]]"
    by (simp add: demo_cli_env_def string_bytes_inverse)
  then show ?thesis
    by (simp add: propose_tx_def io_bind.simps io_lift_def io_map_err_def demo_ptb_committee demo_ptb_step demo_gas
        new_programmable_def demo_proposal_def regular_gas_budget_def REGULAR_TESTNET_def demo_args_def)
      (simp add: eval_nat_numeral)
qed

lemma demo_outputs:
  "g2_bcs demo_dkg_lib (out_c0 demo_dkg_lib outp) = Ok [1]" "master_share_of demo_dkg_lib outp = Ok [1]"
  "partial_pks_of demo_cli_env demo_dkg_lib outp (num_nodes demo_dkg_lib (ic_nodes (ds_config demo_state))) =
     Ok [bytes_string [1], bytes_string [1], bytes_string [1]]"
proof -
  have "num_nodes demo_dkg_lib (ic_nodes (ds_config demo_state)) = 3"
    by (simp add: demo_state_def demo_dkg_lib_def committee_nodes_def map_values_def List.map_filter_simps demo_infos_def)
  moreover have "[0 ..< 3] = [0, 1, 2 :: nat]" by (simp add: upt_rec)
  moreover have "partial_pk_hex demo_cli_env demo_dkg_lib outp i = Ok (bytes_string [1])" if "i \<in> {0, 1, 2}" for i
    using that by (auto simp: partial_pk_hex_def demo_dkg_lib_def demo_cli_env_def)
  ultimately show "partial_pks_of demo_cli_env demo_dkg_lib outp (num_nodes demo_dkg_lib (ic_nodes (ds_config demo_state))) =
     Ok [bytes_string [1], bytes_string [1], bytes_string [1]]" by (simp add: partial_pks_of_def)
qed (simp_all add: master_share_of_def demo_dkg_lib_def)

lemma demo_process_all:
  obtains w' where "process_all_and_propose demo_cli_env demo_dkg_lib demo_cli_lib demo_factory demo_sui_codec demo_args [] None True
    demo_member_files = (Ok (PrintedUnsigned demo_proposal []), w')"
    and "process_all_and_propose demo_cli_env demo_dkg_lib demo_cli_lib demo_factory demo_sui_codec demo_args [] None False
    demo_member_files = (Ok (Executed demo_proposal), demo_executed w')"
proof -
  have paths: "derive_paths [] = (''dkg.yaml'', ''dkg.key'')" by (simp add: derive_paths_def path_join_def)
  have cid: "ic_committee_id (ds_config demo_state) = [9]" by (simp add: demo_state_def)
  have sec: "validate_process_section demo_cli_env demo_member_config 0 None = Ok ()"
    by (simp add: validate_process_section_def existing_process_output_fields_def expected_process_output_fields_def
      master_share_key_def partial_pks_key_def get_config_field_def demo_member_config_def demo_cli_env_def process_section_def)
  have yaml: "y_list_to_string demo_cli_env xs = Ok (yaml_print (YSeq (map YStr xs)))" for xs by (simp add: demo_cli_env_def)
  have cfg: "ds_config (demo_state\<lparr>ds_processed_messages := a, ds_confirmation := b, ds_output := c\<rparr>) = ds_config demo_state" for a b c
    by simp
  obtain w' c' where w': "persist_process_outputs demo_cli_env ''dkg.yaml'' 0 [1] None
      (trim (yaml_print (YSeq (map YStr [bytes_string [1], bytes_string [1], bytes_string [1]])))) [1] demo_member_files = (Ok (), w')"
      "load_config demo_cli_env ''dkg.yaml'' w' = (Ok c', w')" "validate_process_outputs_added demo_cli_env c' 0 = Ok ()"
    using demo_persist by blast
  have "process_all_and_propose demo_cli_env demo_dkg_lib demo_cli_lib demo_factory demo_sui_codec demo_args [] None True
      demo_member_files = (Ok (PrintedUnsigned demo_proposal []), w')"
    "process_all_and_propose demo_cli_env demo_dkg_lib demo_cli_lib demo_factory demo_sui_codec demo_args [] None False
      demo_member_files = (Ok (Executed demo_proposal), demo_executed w')"
    unfolding process_all_and_propose_def paths prod.case Let_def option.case
    by (simp_all only: io_bind.simps io_lift_def io_map_err_def demo_member_load demo_config_fields demo_state_loaded cid demo_connect
        demo_rotation_info sec demo_wallet demo_sender demo_messages demo_process demo_outputs cfg yaml w' demo_propose_tx
        demo_execute_or_print map_err.simps prod.case res.case fst_conv snd_conv if_False simp_thms not_True_eq_False)
  then show ?thesis by (rule that)
qed

text \<open>A coordinator publishes; a member generates keys.\<close>

definition demo_coordinator_config :: yaml where
  "demo_coordinator_config = YMap [(''init-params'', YMap [(''NETWORK'', YStr ''testnet''), (''THRESHOLD'', YNum 2),
     (''MEMBERS'', YSeq [YStr (bytes_string [1]), YStr (bytes_string [2])])])]"

lemma demo_coordinator_fields:
  "get_network demo_cli_env demo_coordinator_config = Ok DkgTestnet" "get_node_url demo_cli_env demo_coordinator_config = None"
  "get_members demo_cli_env demo_coordinator_config = Ok [[1], [2]]" "get_threshold demo_cli_env demo_coordinator_config = Ok 2"
  "get_config_field demo_cli_env demo_coordinator_config ''publish-and-init'' k = None"
proof -
  have "dkg_network_from_str ''testnet'' = Ok DkgTestnet" by code_simp
  then show "get_network demo_cli_env demo_coordinator_config = Ok DkgTestnet"
    by (simp add: get_network_def config_str_def get_config_field_def demo_cli_env_def demo_coordinator_config_def)
qed (simp_all add: get_members_def get_threshold_def get_node_url_def config_str_def get_config_field_def demo_cli_env_def
      demo_coordinator_config_def string_bytes_inverse word_le_nat_alt)

lemma demo_publish:
  obtains w' where "publish_and_init demo_cli_env demo_cli_lib demo_factory demo_args [] [''dkg.yaml'' \<mapsto> yaml_print demo_coordinator_config] =
    (Ok (PublishedAndInitialized [8] [9]), w')"
proof -
  let ?w = "[''dkg.yaml'' \<mapsto> yaml_print demo_coordinator_config]"
  have paths: "derive_paths [] = (''dkg.yaml'', ''dkg.key'')" by (simp add: derive_paths_def path_join_def)
  have load: "load_config demo_cli_env ''dkg.yaml'' ?w = (Ok demo_coordinator_config, ?w)" by (rule demo_config_load) simp
  have pub: "publish_package demo_cli_lib N demo_args net wal a pkg w = (Ok (\<lparr>et_digest = [], et_status_ok = True, et_new_package = Some [8],
      et_new_upgrade_cap = Some [7], et_changed_objects = [(Some ''x::Committee'', Some (bytes_string [9]))]\<rparr>, 1,
      package_ops_budget (arg_gas_budget demo_args) net), demo_executed w)" for N net wal a pkg w
    by (simp add: publish_package_def demo_io demo_gas demo_ptb_step demo_execute)
  have init: "\<exists>tx. init_committee_tx demo_cli_lib wal a p c t ms gp gb w = (Ok tx, w)" for wal a p c t ms gp gb w
    by (simp add: init_committee_tx_def io_bind.simps io_lift_def io_map_err_def demo_ptb_step) (simp add: demo_cli_lib_def io_lift_def)
  then obtain tx where tx: "init_committee_tx demo_cli_lib () [1] [8] [7] 2 [[1], [2]] 1 (package_ops_budget (arg_gas_budget demo_args) DkgTestnet)
      (demo_executed ?w) = (Ok tx, demo_executed ?w)"
    by blast
  have cid: "extract_created_committee_id (parse_object_id demo_cli_lib) \<lparr>et_digest = [], et_status_ok = True, et_new_package = Some [8],
      et_new_upgrade_cap = Some [7], et_changed_objects = [(Some ''x::Committee'', Some (bytes_string [9]))]\<rparr> = Ok [9]"
    by (simp add: extract_created_committee_id_def extract_created_object_by_type_def created_object_id_def List.map_filter_simps
        demo_cli_lib_def string_bytes_inverse)
  have lib: "wallet_active_address demo_cli_lib wal = Ok [1]" "wallet_active_env demo_cli_lib wal = Ok []" "current_dir demo_cli_lib w = (Ok [], w)"
    "path_exists demo_cli_lib p w" "remove_file demo_cli_lib p w = (Ok (), w)" "move_build demo_cli_lib net p w = (Ok (), w)" for wal w p net
    by (simp_all add: demo_cli_lib_def)
  have upd: "\<exists>w'. update_config_bytes_val demo_cli_env ''dkg.yaml'' ''publish-and-init''
      [(''COMMITTEE_PKG'', [8]), (''COMMITTEE_ID'', [9]), (''COORDINATOR_ADDRESS'', [1])] u = (Ok (), w')" if "u ''dkg.yaml'' = Some (yaml_print demo_coordinator_config)" for u
    using that
    by (simp add: update_config_bytes_val_def update_config_def demo_io ensure_section_def demo_coordinator_config_def)
      (simp add: demo_cli_env_def io_map_err_def)
  have "demo_executed (demo_executed ?w) ''dkg.yaml'' = Some (yaml_print demo_coordinator_config)"
    by (simp add: demo_executed_file)
  then obtain w' where w': "update_config_bytes_val demo_cli_env ''dkg.yaml'' ''publish-and-init''
      [(''COMMITTEE_PKG'', [8]), (''COMMITTEE_ID'', [9]), (''COORDINATOR_ADDRESS'', [1])] (demo_executed (demo_executed ?w)) = (Ok (), w')" using upd by blast
  have "publish_and_init demo_cli_env demo_cli_lib demo_factory demo_args [] ?w = (Ok (PublishedAndInitialized [8] [9]), w')"
    unfolding publish_and_init_def paths prod.case Let_def
    by (simp only: io_bind.simps io_lift_def io_map_err_def load demo_coordinator_fields demo_wallet lib demo_connect pub tx demo_execute cid w'
        map_err.simps ok_or.simps prod.case res.case fst_conv snd_conv if_False if_True simp_thms executed_transaction.simps)
  then show ?thesis by (rule that)
qed

lemma demo_chain_laws: "chain_laws (\<lambda>w. w ''chain'') demo_cli_env demo_dkg_lib demo_cli_lib demo_factory (path_join [] ''dkg.yaml'')"
proof -
  have fs: "snd (fs_read_to_string demo_cli_env p w) = w" "snd (fs_read_dir demo_cli_env p w) = w" "snd (fs_write demo_cli_env p t w) = w(p \<mapsto> t)"
    for p t and w :: "string \<rightharpoonup> string"
    by (simp_all add: demo_cli_env_def split: option.split)
  have "reads_keep obs demo_cli_env demo_dkg_lib demo_cli_lib demo_factory" for obs :: "(string \<rightharpoonup> string) \<Rightarrow> 'o"
    unfolding reads_keep_def keeps_def fs by (simp add: demo_cli_lib_def demo_dkg_lib_def demo_factory_def demo_grpc_node_def)
  then show ?thesis unfolding chain_laws_def keeps_def fs by (simp add: path_join_def)
qed

lemma demo_hex: "hex_decode demo_cli_env (hex_encode_with_format demo_cli_env b) = Ok b" "hex_encode_with_format demo_cli_env b = bytes_string b"
  by (simp_all add: demo_cli_env_def string_bytes_inverse)

lemma demo_fs_laws_dir: "fs_laws demo_cli_env (path_join [] ''dkg.yaml'')"
  by (simp only: demo_fs_laws)

theorem proposal_sound_witness:
  "\<exists>w' v c' bs. process_all_and_propose demo_cli_env demo_dkg_lib demo_cli_lib demo_factory demo_sui_codec demo_args [] None False
     demo_member_files = (Ok (Executed demo_proposal), w') \<and> w' ''chain'' = Some ''x'' \<and>
   v ''chain'' = None \<and> load_config demo_cli_env ''dkg.yaml'' v = (Ok c', v) \<and>
   config_str demo_cli_env c' process_section (master_share_key 0) = Some (bytes_string [1]) \<and>
   length bs = 3 \<and> proposal_calls demo_cli_lib [8] [9] None bs [1] [0, 1, 2] (td_calls demo_proposal)"
proof (rule demo_process_all)
  fix w'
  assume run: "process_all_and_propose demo_cli_env demo_dkg_lib demo_cli_lib demo_factory demo_sui_codec demo_args [] None False
    demo_member_files = (Ok (Executed demo_proposal), demo_executed w')"
  obtain c pkg network st w1 keys w2 N n old_pk current w3 wallet w4 messages w5 outp h st' w6 pk share bs tx v c' where
    1: "load_config demo_cli_env (path_join [] ''dkg.yaml'') demo_member_files = (Ok c, demo_member_files)" "get_committee_pkg demo_cli_env c = Ok pkg"
      "get_committee_id demo_cli_env c = Ok (ic_committee_id (ds_config st))"
      "connect demo_factory network (get_node_url demo_cli_env c) = Ok N"
      "dkg_state_load demo_cli_env demo_dkg_lib [] demo_member_files = (Ok st, w1)"
      "keys_file_load demo_cli_env demo_dkg_lib (path_join [] ''dkg.key'') w1 = (Ok keys, w2)"
      "get_committee_rotation_info N demo_sui_codec (ic_committee_id (ds_config st)) w2 = (Ok (n, old_pk, current), w3)"
      "load_wallet_for_network demo_cli_lib (arg_wallet demo_args) (arg_active_address demo_args) network (get_node_url demo_cli_env c) w3 = (Ok wallet, w4)"
      "load_messages_from_dir demo_cli_env demo_dkg_lib (case None of Some d \<Rightarrow> d | None \<Rightarrow> path_join [] ''dkg-messages'') w4 = (Ok messages, w5)"
      "process_dkg_messages demo_cli_env demo_dkg_lib (codec_show_address demo_sui_codec) st messages keys w5 = (Ok (outp, h, st'), w6)"
      "g2_bcs demo_dkg_lib (out_c0 demo_dkg_lib outp) = Ok pk" "length bs = num_nodes demo_dkg_lib (ic_nodes (ds_config st))"
      "proposal_calls demo_cli_lib pkg (ic_committee_id (ds_config st)) current bs pk h (td_calls tx)"
      "v ''chain'' = demo_member_files ''chain''" "master_share_of demo_dkg_lib outp = Ok share"
      "load_config demo_cli_env (path_join [] ''dkg.yaml'') v = (Ok c', v)"
      "config_str demo_cli_env c' process_section (master_share_key n) = Some (hex_encode_with_format demo_cli_env share)"
      "settled demo_cli_lib wallet False tx v (Executed demo_proposal) (demo_executed w')"
    using proposal_sound [OF demo_yaml_laws demo_fs_laws_dir demo_chain_laws demo_hex(1) run]
    by (elim exE conjE) (rule that; assumption)
  have p: "path_join [] ''dkg.yaml'' = ''dkg.yaml''" "path_join [] ''dkg.key'' = ''dkg.key''" by (simp_all add: path_join_def)
  have c: "c = demo_member_config" using 1(1) by (simp add: p demo_member_load)
  have st: "st = demo_state" "w1 = demo_member_files" using 1(5) by (simp_all add: demo_state_loaded)
  have keys: "w2 = demo_member_files" using 1(6) by (simp add: st p demo_member_load)
  have info: "n = 0" "current = None" "w3 = demo_member_files" using 1(4,7) by (simp_all add: demo_connect demo_rotation_info keys)
  have w4: "w4 = demo_member_files" using 1(8) by (simp add: c demo_config_fields demo_wallet info)
  have msgs: "messages = map demo_signed [2, 0, 1]" using 1(9) by (simp add: w4 demo_messages)
  have h: "h = [0, 1, 2]" using 1(10) unfolding msgs st demo_process by simp
  have tx: "tx = demo_proposal" and w': "demo_executed w' = demo_executed v"
    using 1(18) by (auto simp: settled_def demo_cli_lib_def)
  have ids: "pkg = [8]" "ic_committee_id (ds_config st) = [9]" "pk = [1]" "share = [1]"
    using 1(2,3,11,15) by (simp_all add: c demo_config_fields demo_outputs)
  have n: "length bs = 3" using 1(12) by (simp add: st demo_state_def demo_dkg_lib_def committee_nodes_def map_values_def List.map_filter_simps demo_infos_def)
  have v: "v ''chain'' = None" using 1(14) by (simp add: demo_member_files_def)
  then have "demo_executed w' ''chain'' = Some ''x''" unfolding w' by (simp add: demo_executed_def)
  moreover have "proposal_calls demo_cli_lib [8] [9] None bs [1] [0, 1, 2] (td_calls demo_proposal)"
    using 1(13) by (simp only: ids info h tx)
  moreover have "config_str demo_cli_env c' process_section (master_share_key 0) = Some (bytes_string [1])"
    using 1(17) by (simp only: info ids demo_hex)
  ultimately show ?thesis using run v n 1(16) [unfolded p]
    by (intro exI [of _ "demo_executed w'"] exI [of _ v] exI [of _ c'] exI [of _ bs] conjI)
qed

theorem offline_proposal_witness:
  "\<exists>w'. process_all_and_propose demo_cli_env demo_dkg_lib demo_cli_lib demo_factory demo_sui_codec demo_args [] None True
     demo_member_files = (Ok (PrintedUnsigned demo_proposal []), w') \<and> w' ''chain'' = None \<and>
   arg_sender_address demo_args = Some (td_sender demo_proposal) \<and> tx_codec_laws demo_cli_lib"
proof (rule demo_process_all)
  fix w'
  assume run: "process_all_and_propose demo_cli_env demo_dkg_lib demo_cli_lib demo_factory demo_sui_codec demo_args [] None True
    demo_member_files = (Ok (PrintedUnsigned demo_proposal []), w')"
  have laws: "tx_codec_laws demo_cli_lib" by (auto simp: tx_codec_laws_def demo_cli_lib_def split: if_splits)
  have "w' ''chain'' = demo_member_files ''chain''" "arg_sender_address demo_args = Some (td_sender demo_proposal)"
    using offline_proposal [OF demo_yaml_laws demo_fs_laws_dir demo_chain_laws laws run] by auto
  moreover have "demo_member_files ''chain'' = None" by (simp add: demo_member_files_def)
  ultimately show ?thesis using run laws by auto
qed

theorem coordinator_commands_once_witness:
  "\<exists>w'. publish_and_init demo_cli_env demo_cli_lib demo_factory demo_args [] w' = (Ok AlreadyDone, w')"
proof -
  obtain w' where run: "publish_and_init demo_cli_env demo_cli_lib demo_factory demo_args [] [''dkg.yaml'' \<mapsto> yaml_print demo_coordinator_config] =
    (Ok (PublishedAndInitialized [8] [9]), w')" by (rule demo_publish)
  show ?thesis using coordinator_commands_once [OF demo_yaml_laws demo_fs_laws, where cli = demo_args and cli' = demo_args] run by blast
qed

definition demo_new_member_map :: "(string \<times> yaml) list" where
  "demo_new_member_map = [(''init-params'', YMap [(''NETWORK'', YStr ''testnet'')]),
     (''publish-and-init'', YMap [(''COMMITTEE_PKG'', YStr (bytes_string [8])), (''COMMITTEE_ID'', YStr (bytes_string [9]))])]"

lemma demo_outside_keeps:
  assumes "path \<noteq> ''chain''"
  shows "outside_keeps demo_cli_env demo_cli_lib demo_factory path"
proof -
  have "fs_read_to_string demo_cli_env path (demo_executed w) = (fst (fs_read_to_string demo_cli_env path w), demo_executed w)" for w
    using assms by (simp add: demo_cli_env_def demo_executed_file split: option.split)
  then show ?thesis unfolding outside_keeps_def keeps_def by (simp add: demo_factory_def demo_grpc_node_def demo_cli_lib_def)
qed

lemma demo_update_two:
  assumes "w p = Some (yaml_print (YMap m))" and "map_of m sec = Some (YMap n)"
  shows "update_config demo_cli_env p sec [(k, v), (k', v')] w =
    (Ok (), w(p \<mapsto> yaml_print (YMap ((sec, YMap ((k', v') # (k, v) # n)) # (sec, YMap ((k, v) # n)) # m))))"
  using assms by (simp add: update_config_def io_bind.simps io_lift_def io_map_err_def ensure_section_def demo_cli_env_def)

lemma demo_genkey:
  obtains r w' where "genkey_and_register demo_cli_env demo_dkg_lib demo_cli_lib demo_factory demo_sui_codec
    (\<lambda>w. (Ok (\<lparr>kf_enc_sk = 0, kf_enc_pk = 1, kf_signing_sk = 7, kf_signing_pk = 7\<rparr>, [1], [7]), w)) demo_args [] ''u'' ''n'' False
    [''dkg.yaml'' \<mapsto> yaml_print (YMap demo_new_member_map)] = (Ok r, w')"
proof -
  let ?p = "''dkg.yaml''" and ?sec = "''genkey-and-register''" and ?c = "YMap demo_new_member_map"
  let ?w = "[?p \<mapsto> yaml_print ?c]"
  have paths: "derive_paths [] = (?p, ''dkg.key'')" by (simp add: derive_paths_def path_join_def)
  have load: "load_config demo_cli_env ?p ?w = (Ok ?c, ?w)" by (rule demo_config_load) simp
  have "dkg_network_from_str ''testnet'' = Ok DkgTestnet" by code_simp
  then have fields: "get_network demo_cli_env ?c = Ok DkgTestnet" "get_node_url demo_cli_env ?c = None"
      "get_config_field demo_cli_env ?c ?sec k = None" for k
    by (simp_all add: get_network_def get_node_url_def config_str_def get_config_field_def demo_cli_env_def demo_new_member_map_def)
  have trims: "trim ''u'' \<noteq> []" "trim ''n'' \<noteq> []" by (simp_all add: trim_def white_space_def)
  define m1 where "m1 = (?sec, YMap [(''MY_ADDRESS'', YStr (bytes_string [1]))]) # (?sec, YMap []) # demo_new_member_map"
  define w1 where "w1 = ?w(?p \<mapsto> yaml_print (YMap m1))"
  have hex: "hex_encode_with_format demo_cli_env b = bytes_string b" "y_string demo_cli_env s = YStr s" for b s by (simp_all add: demo_cli_env_def)
  have u1: "update_config_bytes_val demo_cli_env ?p ?sec [(''MY_ADDRESS'', [1])] ?w = (Ok (), w1)"
    unfolding update_config_bytes_val_def w1_def m1_def list.map prod.case hex
    by (rule demo_update_new) (simp_all add: demo_new_member_map_def)
  define n2 where "n2 = [(''MY_SERVER_NAME'', yaml_value demo_cli_env ''n''), (''MY_SERVER_URL'', yaml_value demo_cli_env ''u''),
    (''MY_ADDRESS'', YStr (bytes_string [1]))]"
  define m2 where "m2 = (?sec, YMap n2) # (?sec, YMap (tl n2)) # m1"
  define w2 where "w2 = w1(?p \<mapsto> yaml_print (YMap m2))"
  have u2: "update_config_string_val demo_cli_env ?p ?sec [(''MY_SERVER_URL'', ''u''), (''MY_SERVER_NAME'', ''n'')] w1 = (Ok (), w2)"
    unfolding update_config_string_val_def list.map prod.case w2_def m2_def n2_def list.sel
    by (rule demo_update_two) (simp_all add: w1_def m1_def)
  have m2: "w2 ?p = Some (yaml_print (YMap m2))" "map_of m2 ?sec = Some (YMap n2)" 
      "map_of m2 ''publish-and-init'' = Some (YMap [(''COMMITTEE_PKG'', YStr (bytes_string [8])), (''COMMITTEE_ID'', YStr (bytes_string [9]))])"
      "map_of m2 ''init-rotation-params'' = None"
    by (simp_all add: w2_def m2_def m1_def demo_new_member_map_def)
  have load2: "load_config demo_cli_env ?p w2 = (Ok (YMap m2), w2)" by (rule demo_config_load) (rule m2(1))
  have ids: "get_committee_pkg demo_cli_env (YMap m2) = Ok [8]" "get_committee_id demo_cli_env (YMap m2) = Ok [9]"
    using m2(3,4) by (simp_all add: get_committee_pkg_def get_committee_id_def get_address_def committee_id_section_def config_str_def
        get_config_field_def demo_cli_env_def string_bytes_inverse)
  define w3 where "w3 = w2(''dkg.key'' \<mapsto> [])"
  have files: "keys_to_json demo_dkg_lib ks = Ok []" "fs_create_dir_all demo_cli_env d w = (Ok (), w)"
      "write_secret_file demo_cli_env ''dkg.key'' [] w2 = (Ok (), w3)" for ks d w
    by (simp_all add: demo_dkg_lib_def write_secret_file_def io_bind.simps io_map_err_def demo_cli_env_def w3_def)
  obtain w4 where u4: "update_config_bytes_val demo_cli_env ?p ?sec [(''DKG_ENC_PK'', [1]), (''DKG_SIGNING_PK'', [7])] w3 = (Ok (), w4)"
  proof -
    have "w3 ?p = Some (yaml_print (YMap m2))" by (simp add: w3_def m2(1))
    then show thesis
      by (intro that) (simp only: update_config_bytes_val_def list.map prod.case demo_update_two [OF _ m2(2)])
  qed
  have reg: "\<exists>tx. register_tx demo_cli_lib demo_grpc_node demo_sui_codec demo_args net wal a pkg i e s u n w = (Ok tx, w)" for net wal a pkg i e s u n w
    by (simp add: register_tx_def io_bind.simps io_lift_def demo_ptb_committee demo_ptb_step demo_gas)
  then obtain tx where tx: "register_tx demo_cli_lib demo_grpc_node demo_sui_codec demo_args DkgTestnet () [1] [8] [9] [1] [7] ''u'' ''n'' w4 = (Ok tx, w4)"
    by blast
  have "genkey_and_register demo_cli_env demo_dkg_lib demo_cli_lib demo_factory demo_sui_codec
    (\<lambda>w. (Ok (\<lparr>kf_enc_sk = 0, kf_enc_pk = 1, kf_signing_sk = 7, kf_signing_pk = 7\<rparr>, [1], [7]), w)) demo_args [] ''u'' ''n'' False ?w = (Ok (Executed tx), demo_executed w4)"
    unfolding genkey_and_register_def paths prod.case Let_def
    by (simp only: io_bind.simps io_lift_def io_map_err_def load fields trims demo_wallet demo_sender u1 u2 load2 ids files u4 demo_connect tx
        demo_execute_or_print map_err.simps prod.case res.case fst_conv snd_conv if_False if_True simp_thms)
  then show ?thesis by (rule that)
qed

theorem genkey_once_witness:
  "\<exists>w'. genkey_and_register demo_cli_env demo_dkg_lib demo_cli_lib demo_factory demo_sui_codec
    (\<lambda>w. (Ok (\<lparr>kf_enc_sk = 0, kf_enc_pk = 1, kf_signing_sk = 7, kf_signing_pk = 7\<rparr>, [1], [7]), w)) demo_args [] ''u'' ''n'' True w' =
    (Ok AlreadyDone, w')"
proof (rule demo_genkey)
  fix r w'
  assume run: "genkey_and_register demo_cli_env demo_dkg_lib demo_cli_lib demo_factory demo_sui_codec
    (\<lambda>w. (Ok (\<lparr>kf_enc_sk = 0, kf_enc_pk = 1, kf_signing_sk = 7, kf_signing_pk = 7\<rparr>, [1], [7]), w)) demo_args [] ''u'' ''n'' False
    [''dkg.yaml'' \<mapsto> yaml_print (YMap demo_new_member_map)] = (Ok r, w')"
  have keep: "outside_keeps demo_cli_env demo_cli_lib demo_factory (path_join [] ''dkg.yaml'')"
    by (rule demo_outside_keeps) (simp add: path_join_def)
  show ?thesis using genkey_once [OF demo_yaml_laws demo_fs_laws_dir keep run] by blast
qed

end
