(* ===== verification/SealCli.thy ===== *)
theory SealCli
  imports DkgConfig Sdk "HOL-Library.Sublist"
begin

text \<open>
  \<^verbatim>\<open>crates/seal-cli/src/main.rs\<close>: the command line tool around the crypto crate. A command takes
  parsed arguments and prints a string; two commands read the key server objects on chain, one
  also sends a request to the servers.

  Hex, BCS and JSON codecs, the node and the HTTP client are third-party and are the record
  \<open>seal_cli_lib\<close>. A BCS codec is a pair of functions; \<open>codec_ok\<close> says that decoding inverts encoding.
  The random number generator of the thread is \<open>R\<close> with its state. What the tool prints on its way is
  left out; the result of a command is the string printed at its end.
\<close>

subsection \<open>Third-party operations\<close>

datatype json =
    JNull
  | JBool bool
  | JInt int
  | JFloat string
  | JString string
  | JArray "json list"
  | JObject "(string \<times> json) list"

fun json_get :: "json \<Rightarrow> string \<Rightarrow> json option" where
  "json_get (JObject entries) k = map_of entries k"
| "json_get _ k = None"

fun json_as_u64 :: "json \<Rightarrow> u64 option" where
  "json_as_u64 (JInt i) = (if 0 \<le> i \<and> i < 2 ^ 64 then Some (of_int i) else None)"
| "json_as_u64 _ = None"

definition u8_try_from :: "u64 \<Rightarrow> u8 option" where
  "u8_try_from n = (if unat n < 256 then Some (ucast n) else None)"

record 'a bcs_codec =
  bcs_to :: "'a \<Rightarrow> (bytes, string) res"
  bcs_from :: "bytes \<Rightarrow> ('a, string) res"

definition codec_ok :: "'a bcs_codec \<Rightarrow> bool" where
  "codec_ok c \<longleftrightarrow> (\<forall>x b. bcs_to c x = Ok b \<longrightarrow> bcs_from c b = Ok x)"

text \<open>The answer of a node for a dynamic field: the object may be missing, its content may be
  missing, and the content may be a package.\<close>

datatype 'f parsed_data = ParsedMoveObject 'f | ParsedPackage

record 'f object_data =
  od_content :: "'f parsed_data option"

record http_response =
  hr_status :: u16
  hr_bytes :: "(bytes, string) res"

record ('s, 'g1, 'g2, 'f, 'c, 'w) seal_cli_lib =
  hex_plain :: "bytes \<Rightarrow> string"
  hex_prefixed :: "bytes \<Rightarrow> string"
  hex_decode_any :: "string \<Rightarrow> (bytes, fc_error) res"
  show_fc_error :: "fc_error \<Rightarrow> string"
  show_object_id :: "object_id \<Rightarrow> string"
  bcs_scalar :: "'s bcs_codec"
  bcs_g1_element :: "'g1 bcs_codec"
  bcs_g2_element :: "'g2 bcs_codec"
  bcs_object :: "'g2 encrypted_object bcs_codec"
  bcs_fetch_request :: "('g1, 'g2) fetch_key_request bcs_codec"
  bcs_responses :: "(object_id \<times> 'g1 fetch_key_response) list bcs_codec"
  g2_from_byte_array :: "bytes \<Rightarrow> ('g2, fc_error) res"
  g2_length :: nat
  mainnet_rpc_url :: string
  testnet_rpc_url :: string
  sui_client_build :: "string \<Rightarrow> ('w, string, 'c) io"
  get_dynamic_field_object :: "'c \<Rightarrow> object_id \<Rightarrow> type_tag \<Rightarrow> json \<Rightarrow> ('w, string, 'f object_data option) io"
  fields_to_value :: "'f \<Rightarrow> (json, string) res"
  json_of_enc_key :: "'g1 public_key \<Rightarrow> json"
  json_of_vk :: "'g2 verification_key \<Rightarrow> json"
  json_of_signature :: "bytes \<Rightarrow> json"
  json_of_user :: "object_id \<Rightarrow> json"
  json_of_session_vk :: "bytes \<Rightarrow> json"
  user_signature_to_base64 :: "bytes \<Rightarrow> string"
  json_to_string :: "json \<Rightarrow> (string, string) res"
  response_from_json :: "bytes \<Rightarrow> ('g1 fetch_key_response, string) res"
  http_post :: "string \<Rightarrow> (string \<times> string) list \<Rightarrow> string \<Rightarrow> ('w, string, http_response) io"

subsection \<open>Arguments\<close>

definition KEY_LENGTH :: nat where
  "KEY_LENGTH = 32"

definition encoded_bytes_from_str where
  "encoded_bytes_from_str X s = hex_decode_any X s"

definition encoded_byte_array_from_str where
  "encoded_byte_array_from_str X N s =
     and_then (map_err (\<lambda>_. InvalidInput) (hex_decode_any X s)) (\<lambda>bytes.
       if length bytes \<noteq> N then Err (InputLengthWrong N) else Ok bytes)"

definition parse_serializable where
  "parse_serializable X codec s =
     and_then (map_err (show_fc_error X) (hex_decode_any X s)) (\<lambda>bytes. bcs_from codec bytes)"

definition serializable_to_string where
  "serializable_to_string X codec t = (and_then :: _ \<Rightarrow> _ \<Rightarrow> (string, fc_error) res) (expect (bcs_to codec t)) (\<lambda>b. Ok (hex_prefixed X b))"

datatype ('s, 'g1, 'g2) cli_command =
    Genkey
  | GenSeed
  | DeriveKey bytes u64
  | Extract object_id bytes 's
  | Verify object_id bytes 'g1 'g2
  | Plain object_id bytes u8 "'g2 list" "object_id list"
  | EncryptAes bytes "bytes option" object_id bytes u8 "'g2 list" "object_id list"
  | EncryptHmac bytes "bytes option" object_id bytes u8 "'g2 list" "object_id list"
  | Decrypt "'g2 encrypted_object" "'g1 list" "object_id list"
  | Parse "'g2 encrypted_object"
  | SymmetricDecrypt "'g2 encrypted_object" bytes
  | Encrypt bytes bytes object_id "object_id list" u8 dkg_network "string option"
  | FetchKeys bytes "object_id list" u8 dkg_network "string option"

subsection \<open>Output\<close>

abbreviation (input) nl :: string where
  "nl \<equiv> [CHR 0x0A]"

definition genkey_output where
  "genkey_output X kp =
     and_then (serializable_to_string X (bcs_scalar X) (fst kp)) (\<lambda>master_key.
     and_then (serializable_to_string X (bcs_g2_element X) (snd kp)) (\<lambda>public_key.
       Ok (''Master key: '' @ master_key @ nl @ ''Public key: '' @ public_key)))"

definition gen_seed_output where
  "gen_seed_output X seed = ''Seed: '' @ hex_prefixed X seed"

definition extract_output where
  "extract_output X usk =
     and_then (serializable_to_string X (bcs_g1_element X) usk) (\<lambda>s. Ok (''User secret key: '' @ s))"

definition verify_output :: "(unit, fc_error) res \<Rightarrow> string" where
  "verify_output r = (if is_ok r then ''Verification successful'' else ''Verification failed'')"

definition encryption_output ::
  "('s, 'g1, 'g2, 'f, 'c, 'w) seal_cli_lib \<Rightarrow> 'g2 encrypted_object \<times> bytes \<Rightarrow> (string, fc_error) res" where
  "encryption_output X r =
     and_then (expect (bcs_to (bcs_object X) (fst r))) (\<lambda>b.
       Ok (''Encrypted object (bcs): '' @ hex_prefixed X b @ nl @ ''Symmetric key: '' @ hex_prefixed X (snd r)))"

definition decryption_output where
  "decryption_output X message = ''Decrypted message: '' @ hex_prefixed X message"

definition symmetric_decrypt_output where
  "symmetric_decrypt_output X message = ''Decrypted message: '' @ hex_prefixed X message @ nl"

definition aad_output where
  "aad_output X aad = (case aad of None \<Rightarrow> ''None'' | Some a \<Rightarrow> hex_prefixed X a)"

fun ciphertext_output where
  "ciphertext_output X (CtAes256Gcm blob aad) =
     ''  Type: AES-256-GCM'' @ nl @ ''  Blob: '' @ hex_prefixed X blob @ nl @ ''  AAD: '' @ aad_output X aad @ nl @ nl"
| "ciphertext_output X (CtHmac256Ctr blob aad mac) =
     ''  Type: HMAC-256-CTR'' @ nl @ ''  Blob: '' @ hex_prefixed X blob @ nl @ ''  AAD: '' @ aad_output X aad @ nl @
     ''  MAC: '' @ hex_prefixed X mac @ nl"
| "ciphertext_output X CtPlain = ''  Type: Plain'' @ nl"

definition parse_output where
  "parse_output X obj =
     and_then (serializable_to_string X (bcs_g2_element X) (ie_nonce (eo_encrypted_shares obj))) (\<lambda>encapsulation.
       Ok (''Version: '' @ decimal (unat (eo_version obj)) @ nl @
           ''Package ID: '' @ show_object_id X (eo_package_id obj) @ nl @
           ''ID: '' @ hex_prefixed X (eo_id obj) @ nl @
           ''Services: share index:'' @ nl @
           concat (map (\<lambda>(i, share_index). ''  '' @ show_object_id X i @ '': '' @ decimal (unat share_index) @ nl) (eo_services obj)) @
           ''Threshold: '' @ decimal (unat (eo_threshold obj)) @ nl @
           ''Ciphertext:'' @ nl @
           ciphertext_output X (eo_ciphertext obj) @
           ''Encrypted shares:'' @ nl @
           ''  Type: Boneh-Franklin BLS12-381'' @ nl @
           ''  Shares:'' @ nl @
           concat (map (\<lambda>share. ''    '' @ hex_prefixed X share @ nl) (ie_encrypted_shares (eo_encrypted_shares obj))) @
           ''  Encapsulation: '' @ encapsulation))"
subsection \<open>Key server objects\<close>

record key_server_info =
  ki_object_id :: object_id
  ki_name :: string
  ki_url :: string
  ki_public_key :: string

definition name_field :: "json \<Rightarrow> string" where
  "name_field value_fields =
     (case json_get value_fields ''name'' of Some (JString s) \<Rightarrow> s | _ \<Rightarrow> ''Unknown'')"

definition pk_field where
  "pk_field X value_fields =
     Option.bind (json_get value_fields ''pk'') (\<lambda>v.
       case v of
         JArray arr \<Rightarrow> map_option (hex_plain X) (those (map (\<lambda>n. Option.bind (json_as_u64 n) u8_try_from) arr))
       | JString s \<Rightarrow> Some s
       | _ \<Rightarrow> None)"

definition url_field :: "json \<Rightarrow> string option" where
  "url_field value_fields =
     Option.bind (json_get value_fields ''url'') (\<lambda>v. case v of JString s \<Rightarrow> Some s | _ \<Rightarrow> None)"

definition parse_key_server where
  "parse_key_server X object_id fields_json =
     (let shown = show_object_id X object_id in
      and_then (ok_or (GeneralError (''Missing 'value' field for object '' @ shown)) (json_get fields_json ''value'')) (\<lambda>value_struct.
      and_then (ok_or (GeneralError (''Missing 'fields' in value struct for object '' @ shown)) (json_get value_struct ''fields'')) (\<lambda>value_fields.
      and_then (ok_or (GeneralError (''Missing or invalid 'url' field in value fields for object '' @ shown)) (url_field value_fields)) (\<lambda>url.
      let name = name_field value_fields in
      and_then (ok_or (GeneralError (''Missing or invalid 'pk' field in value fields for object '' @ shown)) (pk_field X value_fields)) (\<lambda>public_key.
        Ok \<lparr>ki_object_id = object_id, ki_name = name, ki_url = url, ki_public_key = public_key\<rparr>)))))"

definition key_server_of_data ::
  "('s, 'g1, 'g2, 'f, 'c, 'w) seal_cli_lib \<Rightarrow> object_id \<Rightarrow> 'f object_data option \<Rightarrow> (key_server_info, fc_error) res" where
  "key_server_of_data X object_id data =
     (case data of
        None \<Rightarrow> Err (GeneralError (''Object '' @ show_object_id X object_id @ '' not found''))
      | Some object_data \<Rightarrow>
          (case od_content object_data of
             None \<Rightarrow> Err (GeneralError (''No content found for object '' @ show_object_id X object_id))
           | Some ParsedPackage \<Rightarrow> Err (GeneralError (''Unexpected content type for object '' @ show_object_id X object_id))
           | Some (ParsedMoveObject fs) \<Rightarrow>
               and_then (map_err (\<lambda>e. GeneralError (''Failed to serialize fields: '' @ e)) (fields_to_value X fs)) (\<lambda>fields_json.
                 parse_key_server X object_id fields_json)))"

definition fetch_key_server where
  "fetch_key_server X sui_client object_id key_servers =
     io_bind (io_map_err (\<lambda>e. GeneralError (''Failed to fetch dynamic field for object '' @ show_object_id X object_id @ '': '' @ e))
         (get_dynamic_field_object X sui_client object_id TagU64 (JString ''1''))) (\<lambda>data.
     io_bind (io_lift (key_server_of_data X object_id data)) (\<lambda>info.
       io_lift (Ok (key_servers @ [info]))))"

definition fetch_key_server_urls where
  "fetch_key_server_urls X network key_server_ids custom_rpc_url =
     (let sui_rpc = (case custom_rpc_url of Some u \<Rightarrow> u | None \<Rightarrow> default_rpc_url (mainnet_rpc_url X) (testnet_rpc_url X) network) in
      io_bind (io_map_err (\<lambda>e. GeneralError (''Failed to build Sui client: '' @ e)) (sui_client_build X sui_rpc)) (\<lambda>sui_client.
        io_fold (fetch_key_server X sui_client) key_server_ids []))"

subsection \<open>Requests to the servers\<close>

definition to_json_string where
  "to_json_string X request =
     (let certificate = fkr_certificate request;
          sig_base64 = user_signature_to_base64 X (cert_signature certificate)
      in json_to_string X (JObject
           [(''ptb'', JString (fkr_ptb request)),
            (''enc_key'', json_of_enc_key X (fkr_enc_key request)),
            (''enc_verification_key'', json_of_vk X (fkr_enc_verification_key request)),
            (''request_signature'', json_of_signature X (fkr_request_signature request)),
            (''certificate'', JObject
               [(''user'', json_of_user X (cert_user certificate)),
                (''session_vk'', json_of_session_vk X (cert_session_vk certificate)),
                (''creation_time'', JInt (uint (cert_creation_time certificate))),
                (''ttl_min'', JInt (uint (cert_ttl_min certificate))),
                (''signature'', JString sig_base64),
                (''mvr_name'', case cert_mvr_name certificate of None \<Rightarrow> JNull | Some name \<Rightarrow> JString name)])]))"

definition is_success :: "u16 \<Rightarrow> bool" where
  "is_success status \<longleftrightarrow> 200 \<le> status \<and> status < 300"

definition request_headers :: "(string \<times> string) list" where
  "request_headers = [(''Client-Sdk-Type'', ''rust''), (''Client-Sdk-Version'', ''0.0.0''), (''Content-Type'', ''application/json'')]"

text \<open>One server: the new entry if its answer is a success. A success whose body cannot be read or
  parsed panics.\<close>

definition answer_of ::
  "('s, 'g1, 'g2, 'f, 'c, 'w) seal_cli_lib \<Rightarrow> key_server_info \<Rightarrow> http_response \<Rightarrow>
   ((object_id \<times> 'g1 fetch_key_response) list, fc_error) res" where
  "answer_of X server response =
     (if is_success (hr_status response) then
        and_then (expect (hr_bytes response)) (\<lambda>response_bytes.
        and_then (expect (response_from_json X response_bytes)) (\<lambda>r.
          Ok [(ki_object_id server, r)]))
      else Ok [])"

definition post_request ::
  "('s, 'g1, 'g2, 'f, 'c, 'w) seal_cli_lib \<Rightarrow> ('g1, 'g2) fetch_key_request \<Rightarrow> key_server_info \<Rightarrow>
   ('w, fc_error, (object_id \<times> 'g1 fetch_key_response) list) io" where
  "post_request X request server =
     io_bind (io_lift (expect (to_json_string X request))) (\<lambda>body w.
       case http_post X (ki_url server @ ''/v1/fetch_key'') request_headers body w of
         (Ok response, w') \<Rightarrow> (answer_of X server response, w')
       | (Err e, w') \<Rightarrow> (Ok [], w')
       | (Panic, w') \<Rightarrow> (Panic, w'))"

fun fetch_from_servers ::
  "('s, 'g1, 'g2, 'f, 'c, 'w) seal_cli_lib \<Rightarrow> ('g1, 'g2) fetch_key_request \<Rightarrow> u8 \<Rightarrow> key_server_info list \<Rightarrow>
   (object_id \<times> 'g1 fetch_key_response) list \<Rightarrow> ('w, fc_error, (object_id \<times> 'g1 fetch_key_response) list) io" where
  "fetch_from_servers X request threshold [] seal_responses = io_lift (Ok seal_responses)"
| "fetch_from_servers X request threshold (server # servers) seal_responses =
     io_bind (post_request X request server) (\<lambda>answer.
       let seal_responses = seal_responses @ answer in
       if unat threshold \<le> length seal_responses then io_lift (Ok seal_responses)
       else fetch_from_servers X request threshold servers seal_responses)"

subsection \<open>The commands\<close>

definition seal_encrypt_command where
  "seal_encrypt_command X B D R rng package inner threshold public_keys object_ids input =
     and_then (seal_encrypt B D R rng package inner object_ids (BonehFranklinPublicKeys public_keys) threshold input)
       (encryption_output X)"

definition decrypt_command where
  "decrypt_command X B D encrypted_object secret_keys object_ids =
     and_then (seal_decrypt B D encrypted_object
         (BonehFranklinUserSecretKeys (map_of (rev (zip object_ids secret_keys)))) None) (\<lambda>message.
       Ok (decryption_output X message))"

definition symmetric_decrypt where
  "symmetric_decrypt X D encrypted_object key =
     and_then (case eo_ciphertext encrypted_object of
         CtAes256Gcm blob aad \<Rightarrow> aes256gcm_decrypt D blob (unwrap_or aad []) key
       | CtHmac256Ctr blob aad mac \<Rightarrow> hmac256ctr_decrypt D blob mac (unwrap_or aad []) key
       | CtPlain \<Rightarrow> Err InvalidInput) (\<lambda>message.
       Ok (symmetric_decrypt_output X message))"

definition parse_public_key where
  "parse_public_key X info =
     and_then (map_err (\<lambda>e. GeneralError (''Invalid public key hex: '' @ show_fc_error X e)) (hex_decode_any X (ki_public_key info))) (\<lambda>bytes.
       if length bytes \<noteq> g2_length X then Err (GeneralError ''Invalid public key length'')
       else g2_from_byte_array X bytes)"

definition encrypt_command where
  "encrypt_command X B D R rng secret inner package key_server_ids threshold network rpc_url =
     io_bind (io_map_err (\<lambda>e. GeneralError (''Failed to fetch key server info: '' @ show_fc_error X e))
         (fetch_key_server_urls X network key_server_ids rpc_url)) (\<lambda>key_server_infos.
     io_lift (
       and_then (collect_res (parse_public_key X) key_server_infos) (\<lambda>pks.
       and_then (map_err (\<lambda>e. GeneralError (''Encryption failed: '' @ show_fc_error X e))
           (seal_encrypt B D R rng package inner key_server_ids (BonehFranklinPublicKeys pks) threshold
             (InAes256Gcm secret None))) (\<lambda>(encrypted_object, _).
       and_then (expect (bcs_to (bcs_object X) encrypted_object)) (\<lambda>b.
         Ok (''Encoded encrypted object:'' @ nl @ hex_plain X b))))))"

definition responses_output :: "nat \<Rightarrow> string \<Rightarrow> string" where
  "responses_output n encoded =
     nl @ '' '' @ decimal n @ '' Encoded seal responses: '' @ [CHR 0x22] @ encoded @ [CHR 0x22]"

definition fetch_keys_command where
  "fetch_keys_command X request key_server_ids threshold network rpc_url =
     io_bind (io_lift (map_err (\<lambda>e. GeneralError (''Failed to parse FetchKeyRequest from BCS: '' @ e))
         (bcs_from (bcs_fetch_request X) request))) (\<lambda>request.
     io_bind (io_map_err (\<lambda>e. GeneralError (''Failed to fetch key server URLs: '' @ show_fc_error X e))
         (fetch_key_server_urls X network key_server_ids rpc_url)) (\<lambda>servers.
     io_bind (fetch_from_servers X request threshold servers []) (\<lambda>seal_responses.
     io_lift (
       if length seal_responses < unat threshold then
         Err (GeneralError (''Failed to get enough responses: '' @ decimal (length seal_responses) @ '' < '' @ decimal (unat threshold)))
       else
         and_then (expect (bcs_to (bcs_responses X) seal_responses)) (\<lambda>b.
           Ok (responses_output (length seal_responses) (hex_plain X b)))))))"

fun seal_cli where
  "seal_cli X B D R rng Genkey = io_lift (genkey_output X (fst (generate_key_pair B rng)))"
| "seal_cli X B D R rng GenSeed = io_lift (Ok (gen_seed_output X (fst (generate_seed R rng))))"
| "seal_cli X B D R rng (DeriveKey seed i) =
     io_lift (if length seed \<noteq> SEED_LENGTH then Err (InputLengthWrong SEED_LENGTH)
       else and_then (derive_master_key B seed i) (\<lambda>master_key. genkey_output X (into_key_pair B master_key)))"
| "seal_cli X B D R rng (Extract package inner master_key) =
     io_lift (extract_output X (ibe_extract B master_key (create_full_id package inner)))"
| "seal_cli X B D R rng (Verify package inner user_secret_key public_key) =
     io_lift (Ok (verify_output (verify_user_secret_key B user_secret_key (create_full_id package inner) public_key)))"
| "seal_cli X B D R rng (Plain package inner threshold public_keys object_ids) =
     io_lift (seal_encrypt_command X B D R rng package inner threshold public_keys object_ids InPlain)"
| "seal_cli X B D R rng (EncryptAes message aad package inner threshold public_keys object_ids) =
     io_lift (seal_encrypt_command X B D R rng package inner threshold public_keys object_ids (InAes256Gcm message aad))"
| "seal_cli X B D R rng (EncryptHmac message aad package inner threshold public_keys object_ids) =
     io_lift (seal_encrypt_command X B D R rng package inner threshold public_keys object_ids (InHmac256Ctr message aad))"
| "seal_cli X B D R rng (Decrypt encrypted_object secret_keys object_ids) =
     io_lift (decrypt_command X B D encrypted_object secret_keys object_ids)"
| "seal_cli X B D R rng (Parse encrypted_object) = io_lift (parse_output X encrypted_object)"
| "seal_cli X B D R rng (SymmetricDecrypt encrypted_object key) = io_lift (symmetric_decrypt X D encrypted_object key)"
| "seal_cli X B D R rng (Encrypt secret inner package key_server_ids threshold network rpc_url) =
     encrypt_command X B D R rng secret inner package key_server_ids threshold network rpc_url"
| "seal_cli X B D R rng (FetchKeys request key_server_ids threshold network rpc_url) =
     fetch_keys_command X request key_server_ids threshold network rpc_url"

subsection \<open>Codecs\<close>

definition cli_codecs_ok where
  "cli_codecs_ok X \<longleftrightarrow>
     (\<forall>b. hex_decode_any X (hex_prefixed X b) = Ok b \<and> hex_decode_any X (hex_plain X b) = Ok b) \<and>
     codec_ok (bcs_scalar X) \<and> codec_ok (bcs_g1_element X) \<and> codec_ok (bcs_g2_element X) \<and>
     codec_ok (bcs_object X) \<and> codec_ok (bcs_responses X)"

lemma collect_res_nth:
  "length ys = length xs \<Longrightarrow> (\<And>k. k < length xs \<Longrightarrow> f (xs ! k) = Ok (ys ! k)) \<Longrightarrow> collect_res f xs = Ok ys"
proof (induction xs arbitrary: ys)
  case (Cons x xs)
  then obtain y ys' where ys: "ys = y # ys'" by (cases ys) auto
  have "f x = Ok y" using Cons.prems(2) [of 0] ys by simp
  moreover have "collect_res f xs = Ok ys'"
    by (rule Cons.IH) (use Cons.prems(1) Cons.prems(2) [of "Suc _"] ys in auto)
  ultimately show ?case by (simp add: ys)
qed simp

lemma hex_inverse:
  "cli_codecs_ok X \<Longrightarrow> hex_decode_any X (hex_prefixed X b) = Ok b"
  "cli_codecs_ok X \<Longrightarrow> hex_decode_any X (hex_plain X b) = Ok b"
  by (simp_all add: cli_codecs_ok_def)

lemma serializable_parses:
  assumes "serializable_to_string X codec x = Ok s" and "codec_ok codec" and "cli_codecs_ok X"
  shows "parse_serializable X codec s = Ok x"
  using assms by (auto simp: serializable_to_string_def parse_serializable_def res_simps hex_inverse codec_ok_def)

lemma encryption_output_Ok:
  assumes "encryption_output X (obj, key) = Ok out" and "cli_codecs_ok X" and "length key = KEY_LENGTH"
  obtains obj_hex key_hex where "out = ''Encrypted object (bcs): '' @ obj_hex @ nl @ ''Symmetric key: '' @ key_hex"
    "parse_serializable X (bcs_object X) obj_hex = Ok obj" "encoded_byte_array_from_str X KEY_LENGTH key_hex = Ok key"
proof -
  from assms(1) obtain b where b: "bcs_to (bcs_object X) obj = Ok b"
    and out: "out = ''Encrypted object (bcs): '' @ hex_prefixed X b @ nl @ ''Symmetric key: '' @ hex_prefixed X key"
    by (auto simp: encryption_output_def res_simps)
  have "parse_serializable X (bcs_object X) (hex_prefixed X b) = Ok obj"
    using b assms(2) by (intro serializable_parses) (auto simp: serializable_to_string_def cli_codecs_ok_def)
  then show thesis
    using that [OF out] assms(2,3) by (simp add: encoded_byte_array_from_str_def hex_inverse)
qed

lemma seal_encrypt_key_length:
  assumes "bls_laws B" and "rng_fills R"
    and "seal_encrypt B D R rng package inner servers (BonehFranklinPublicKeys pks) threshold input = Ok (obj, key)"
  shows "length key = KEY_LENGTH" "eo_ciphertext obj = dem_encrypt D input key"
proof -
  obtain Q r rk where "honest_object B D input obj key pks package inner servers threshold Q r rk"
    using seal_encrypt_honest [OF assms] by blast
  note h = this [unfolded honest_object_def]
  then show "eo_ciphertext obj = dem_encrypt D input key" by blast
  from h have "derive_key B DEM (deal KEY_SIZE Q 0) (ie_encrypted_shares (eo_encrypted_shares obj)) threshold servers = Ok key" by blast
  then show "length key = KEY_LENGTH"
    using derive_key_length [OF assms(1)] by (simp add: KEY_LENGTH_def KEY_SIZE_def)
qed

subsection \<open>Decryption with a selection of keys\<close>

lemma selected_keys:
  assumes "distinct servers" and "length keys = length servers" and "\<forall>j \<in> set sel. j < length servers"
  shows "map_of (rev (zip (map ((!) servers) sel) (map ((!) keys) sel))) =
    (\<lambda>s. if s \<in> (!) servers ` set sel then map_of (zip servers keys) s else None)"
proof -
  have val: "map_of (zip servers keys) (servers ! j) = Some (keys ! j)" if "j < length servers" for j
    using assms(1,2) that by (simp add: map_of_zip_nth)
  have "zip (map ((!) servers) sel) (map ((!) keys) sel) = map (\<lambda>j. (servers ! j, keys ! j)) sel"
    by (simp add: zip_map_map zip_same_conv_map)
  also have "\<dots> = map (\<lambda>s. (s, the (map_of (zip servers keys) s))) (map ((!) servers) sel)"
    using assms(3) val by simp
  finally show ?thesis
    using assms(3) val by (auto simp: rev_map map_of_map_restrict restrict_map_def fun_eq_iff simp del: map_map)
qed

lemma decrypt_selection:
  assumes B: "bls_laws B" and R: "rng_fills R" and D: "hmac_len D" "aes_correct D"
    and enc: "seal_encrypt B D R rng package inner servers
        (BonehFranklinPublicKeys (map (public_key_from_master_key B) msks)) threshold input = Ok (obj, key)"
    and sel: "distinct servers" "\<forall>j \<in> set sel. j < length servers" "unat threshold \<le> card (set sel)"
  shows "decrypt_command X B D obj (map (\<lambda>j. ibe_extract B (msks ! j) (package @ inner)) sel) (map ((!) servers) sel) =
    Ok (decryption_output X (plaintext input key))"
proof -
  have len: "length msks = length servers" using honest_services(5) [OF B R enc] by simp
  let ?usk = "\<lambda>j. ibe_extract B (msks ! j) (package @ inner)"
  let ?keys = "map ?usk [0..<length servers]"
  have eq: "map ?usk sel = map ((!) ?keys) sel" using sel(2) by simp
  let ?m = "\<lambda>s. if s \<in> (!) servers ` set sel then map_of (zip servers ?keys) s else None"
  have val: "map_of (zip servers ?keys) (servers ! j) = Some (?usk j)" if "j < length servers" for j
    using sel(1) that map_of_zip_nth [of servers ?keys j] by simp
  have "inj_on ((!) servers) (set sel)" using sel(1,2) by (auto simp: inj_on_def nth_eq_iff_index_eq)
  then have "card (set sel) = card ((!) servers ` set sel)" by (simp add: card_image)
  also have "(!) servers ` set sel = set (filter (\<lambda>s. ?m s \<noteq> None) servers)"
    using sel(2) val by (auto split: if_splits)
  also have "card (set (filter (\<lambda>s. ?m s \<noteq> None) servers)) = length (filter (\<lambda>s. ?m s \<noteq> None) servers)"
    by (rule distinct_card) (simp add: sel(1))
  finally have enough: "unat threshold \<le> length (filter (\<lambda>s. ?m s \<noteq> None) servers)" using sel(3) by simp
  have right: "list_all (\<lambda>i. case ?m (servers ! i) of None \<Rightarrow> True
        | Some u \<Rightarrow> u = ibe_extract B (msks ! i) (package @ inner)) [0..<length servers]"
    by (simp add: list_all_iff val)
  show ?thesis unfolding decrypt_command_def eq selected_keys [of servers ?keys sel, OF sel(1) _ sel(2), simplified]
    using seal_decrypt_honest(1) [OF B R D enc right enough] by simp
qed

subsection \<open>Reading the key servers\<close>

text \<open>What a key server object must show for the tool: version 1 of it has a URL and the public key as
  a list of byte values.\<close>

definition shows_key_server where
  "shows_key_server X sui_client i url pk w \<longleftrightarrow>
     (\<exists>fs j v vf. get_dynamic_field_object X sui_client i TagU64 (JString ''1'') w = (Ok (Some \<lparr>od_content = Some (ParsedMoveObject fs)\<rparr>), w) \<and>
        fields_to_value X fs = Ok j \<and> json_get j ''value'' = Some v \<and> json_get v ''fields'' = Some vf \<and>
        json_get vf ''url'' = Some (JString url) \<and> json_get vf ''pk'' = Some (JArray (map (\<lambda>b. JInt (uint b)) pk)))"

lemma json_byte: "Option.bind (json_as_u64 (JInt (uint (b :: u8)))) u8_try_from = Some b"
proof -
  have "uint b < 2 ^ 8" using uint_lt2p [of b] by simp
  moreover have eq: "(of_int (uint b) :: u64) = ucast b" by simp
  moreover have "unat (ucast b :: u64) < 256" using unat_u8_less [of b] by (simp add: unsigned_ucast_eq take_bit_nat_eq_self)
  moreover have "ucast (ucast b :: u64) = b" by transfer simp
  ultimately show ?thesis by (simp add: u8_try_from_def)
qed

lemma pk_field_bytes:
  "json_get vf ''pk'' = Some (JArray (map (\<lambda>b. JInt (uint b)) pk)) \<Longrightarrow> pk_field X vf = Some (hex_plain X pk)"
proof -
  have "those (map (\<lambda>n. Option.bind (json_as_u64 n) u8_try_from) (map (\<lambda>b. JInt (uint b)) pk)) = Some pk"
    by (induction pk) (simp_all add: json_byte del: json_as_u64.simps)
  then show "json_get vf ''pk'' = Some (JArray (map (\<lambda>b. JInt (uint b)) pk)) \<Longrightarrow> ?thesis"
    by (simp add: pk_field_def del: map_map)
qed

lemma fetch_key_server_shown:
  assumes "shows_key_server X c i url pk w"
  obtains info where "\<And>acc. fetch_key_server X c i acc w = (Ok (acc @ [info]), w)"
    "ki_object_id info = i" "ki_url info = url" "ki_public_key info = hex_plain X pk"
proof -
  obtain fs j v vf where *: "get_dynamic_field_object X c i TagU64 (JString ''1'') w = (Ok (Some \<lparr>od_content = Some (ParsedMoveObject fs)\<rparr>), w)"
    "fields_to_value X fs = Ok j" "json_get j ''value'' = Some v" "json_get v ''fields'' = Some vf"
    "json_get vf ''url'' = Some (JString url)" "json_get vf ''pk'' = Some (JArray (map (\<lambda>b. JInt (uint b)) pk))"
    using assms by (auto simp: shows_key_server_def)
  let ?info = "\<lparr>ki_object_id = i, ki_name = name_field vf, ki_url = url, ki_public_key = hex_plain X pk\<rparr>"
  have "parse_key_server X i j = Ok ?info"
    by (simp add: parse_key_server_def * url_field_def pk_field_bytes [OF *(6)] Let_def ok_or_simps)
  then have "fetch_key_server X c i acc w = (Ok (acc @ [?info]), w)" for acc
    by (simp add: fetch_key_server_def key_server_of_data_def io_bind.simps io_map_err_def io_lift_def *(1,2))
  then show thesis by (rule that) simp_all
qed

lemma fetch_all_shown:
  assumes "length pks = length ids" and "\<forall>k < length ids. \<exists>url. shows_key_server X c (ids ! k) url (pks ! k) w"
  shows "\<exists>infos. io_fold (fetch_key_server X c) ids acc w = (Ok (acc @ infos), w) \<and>
    map ki_object_id infos = ids \<and> map ki_public_key infos = map (hex_plain X) pks"
  using assms
proof (induction ids arbitrary: pks acc)
  case (Cons i ids)
  obtain pk pks' where pks: "pks = pk # pks'" using Cons.prems(1) by (cases pks) auto
  obtain url where "shows_key_server X c i url pk w" using Cons.prems(2) pks by force
  then obtain info where info: "\<And>acc. fetch_key_server X c i acc w = (Ok (acc @ [info]), w)"
    "ki_object_id info = i" "ki_url info = url" "ki_public_key info = hex_plain X pk"
    by (rule fetch_key_server_shown) blast
  have "\<forall>k < length ids. \<exists>url. shows_key_server X c (ids ! k) url (pks' ! k) w"
    using Cons.prems(2) pks by force
  then obtain infos where "io_fold (fetch_key_server X c) ids (acc @ [info]) w = (Ok ((acc @ [info]) @ infos), w)"
    "map ki_object_id infos = ids" "map ki_public_key infos = map (hex_plain X) pks'"
    using Cons.IH [of pks' "acc @ [info]"] Cons.prems(1) pks by auto
  then show ?case using info pks by (intro exI [of _ "info # infos"]) simp
qed (simp add: io_lift_def)

lemma fetch_key_server_id:
  assumes "fetch_key_server X c i acc w = (Ok acc', w')"
  shows "map ki_object_id acc' = map ki_object_id acc @ [i]"
proof -
  have *: "ki_object_id info = i" if "parse_key_server X i j = Ok info" for j info
    using that by (auto simp: parse_key_server_def res_simps Let_def)
  have "ki_object_id info = i" if "key_server_of_data X i data = Ok info" for data info
    using that by (auto simp: key_server_of_data_def res_simps dest: * split: option.split_asm parsed_data.split_asm)
  with assms show ?thesis by (auto simp: fetch_key_server_def io_bind_Ok_iff io_lift_Ok_iff)
qed

lemma fetch_key_server_urls_ids:
  assumes "io_fold (fetch_key_server X c) ids acc w = (Ok servers, w')"
  shows "map ki_object_id servers = map ki_object_id acc @ ids"
  using assms
proof (induction ids arbitrary: acc w)
  case (Cons i ids)
  obtain acc' w1 where step: "fetch_key_server X c i acc w = (Ok acc', w1)"
    and rest: "io_fold (fetch_key_server X c) ids acc' w1 = (Ok servers, w')"
    using Cons.prems by (auto simp: io_bind_Ok_iff)
  show ?case using fetch_key_server_id [OF step] Cons.IH [OF rest] by simp
qed (simp add: io_lift_def)

subsection \<open>Collecting answers\<close>

definition answered ::
  "('s, 'g1, 'g2, 'f, 'c, 'w) seal_cli_lib \<Rightarrow> ('g1, 'g2) fetch_key_request \<Rightarrow> key_server_info \<Rightarrow> 'g1 fetch_key_response \<Rightarrow> bool" where
  "answered X request server r \<longleftrightarrow>
     (\<exists>body response b w w'. to_json_string X request = Ok body \<and>
        http_post X (ki_url server @ ''/v1/fetch_key'') request_headers body w = (Ok response, w') \<and>
        is_success (hr_status response) \<and> hr_bytes response = Ok b \<and> response_from_json X b = Ok r)"

lemma post_request_Ok:
  assumes "post_request X request server w = (Ok answer, w')"
  shows "answer = [] \<or> (\<exists>r. answer = [(ki_object_id server, r)] \<and> answered X request server r)"
proof -
  obtain body where body: "to_json_string X request = Ok body"
    and post: "(case http_post X (ki_url server @ ''/v1/fetch_key'') request_headers body w of
        (Ok response, w') \<Rightarrow> (answer_of X server response, w') | (Err e, w') \<Rightarrow> (Ok [], w') | (Panic, w') \<Rightarrow> (Panic, w')) = (Ok answer, w')"
    using assms by (auto simp: post_request_def io_bind_Ok_iff io_lift_Ok_iff expect_Ok_iff)
  then show ?thesis
    by (auto simp: answered_def answer_of_def res_simps split: prod.split_asm res.split_asm if_split_asm)
qed

lemma fetch_from_servers_Ok:
  assumes "fetch_from_servers X request t servers acc w = (Ok rs, w')" and "acc = [] \<or> length acc < unat t"
  shows "\<exists>new. rs = acc @ new \<and> subseq (map fst new) (map ki_object_id servers) \<and>
    length rs \<le> max 1 (unat t) \<and>
    (\<forall>(i, r) \<in> set new. \<exists>server \<in> set servers. ki_object_id server = i \<and> answered X request server r)"
  using assms
proof (induction servers arbitrary: acc w)
  case Nil
  then show ?case by (auto simp: io_lift_def)
next
  case (Cons server servers)
  obtain answer w1 where post: "post_request X request server w = (Ok answer, w1)"
    and rest: "(if unat t \<le> length (acc @ answer) then io_lift (Ok (acc @ answer))
        else fetch_from_servers X request t servers (acc @ answer)) w1 = (Ok rs, w')"
    using Cons.prems(1) unfolding fetch_from_servers.simps io_bind_Ok_iff Let_def by blast
  note answer = post_request_Ok [OF post]
  show ?case
  proof (cases "unat t \<le> length (acc @ answer)")
    case True
    then have "rs = acc @ answer" using rest by (simp add: io_lift_def)
    then show ?thesis using answer Cons.prems(2) by (intro exI [of _ answer]) auto
  next
    case False
    obtain new where new: "rs = (acc @ answer) @ new" "subseq (map fst new) (map ki_object_id servers)"
      "length rs \<le> max 1 (unat t)"
      "\<forall>(i, r) \<in> set new. \<exists>server \<in> set servers. ki_object_id server = i \<and> answered X request server r"
      using Cons.IH [of "acc @ answer" w1] rest False by auto
    then show ?thesis using answer by (intro exI [of _ "answer @ new"]) fastforce
  qed
qed

subsection \<open>Properties\<close>

text \<open>C34: What \<open>plain\<close>, \<open>encrypt-aes\<close> and \<open>encrypt-hmac\<close> print can be decrypted by what the other commands
  take. The two printed strings parse as the encrypted object and the symmetric key.
  \<open>decrypt\<close> on the object with the user secret keys of any selection of at least threshold servers
  prints the message (the key for \<open>plain\<close>), and \<open>symmetric-decrypt\<close> with the printed key
  prints the message, and refuses an object without one.\<close>

theorem cli_encrypt_decrypt:
  assumes "bls_laws B" and "rng_fills R" and "hmac_len D" and "aes_correct D" and "cli_codecs_ok X"
    and "cmd = Plain package inner threshold pks servers \<and> input = InPlain \<or>
      cmd = EncryptAes message aad package inner threshold pks servers \<and> input = InAes256Gcm message aad \<or>
      cmd = EncryptHmac message aad package inner threshold pks servers \<and> input = InHmac256Ctr message aad"
    and "pks = map (public_key_from_master_key B) msks" and "distinct servers"
    and "seal_cli X B D R rng cmd w = (Ok out, w')"
  shows "\<exists>obj_hex key_hex obj key. out = ''Encrypted object (bcs): '' @ obj_hex @ nl @ ''Symmetric key: '' @ key_hex \<and>
    parse_serializable X (bcs_object X) obj_hex = Ok obj \<and> encoded_byte_array_from_str X KEY_LENGTH key_hex = Ok key \<and>
    (\<forall>sel v. (\<forall>j \<in> set sel. j < length servers) \<longrightarrow> unat threshold \<le> card (set sel) \<longrightarrow>
       seal_cli X B D R rng (Decrypt obj (map (\<lambda>j. ibe_extract B (msks ! j) (package @ inner)) sel) (map ((!) servers) sel)) v =
         (Ok (''Decrypted message: '' @ hex_prefixed X (plaintext input key)), v)) \<and>
    (\<forall>v. seal_cli X B D R rng (SymmetricDecrypt obj key) v =
       (if input = InPlain then Err InvalidInput else Ok (''Decrypted message: '' @ hex_prefixed X message @ nl), v))"
proof -
  note laws = assms(1-4)
  obtain obj key where enc: "seal_encrypt B D R rng package inner servers (BonehFranklinPublicKeys pks) threshold input = Ok (obj, key)"
    and out: "encryption_output X (obj, key) = Ok out"
    using assms(6,9) by (auto simp: io_lift_Ok_iff seal_encrypt_command_def res_simps)
  note key = seal_encrypt_key_length [OF laws(1,2) enc]
  obtain obj_hex key_hex where printed: "out = ''Encrypted object (bcs): '' @ obj_hex @ nl @ ''Symmetric key: '' @ key_hex"
    "parse_serializable X (bcs_object X) obj_hex = Ok obj" "encoded_byte_array_from_str X KEY_LENGTH key_hex = Ok key"
    by (rule encryption_output_Ok [OF out assms(5) key(1)])
  have dec: "decrypt_command X B D obj (map (\<lambda>j. ibe_extract B (msks ! j) (package @ inner)) sel) (map ((!) servers) sel) =
      Ok (''Decrypted message: '' @ hex_prefixed X (plaintext input key))"
    if "\<forall>j \<in> set sel. j < length servers" "unat threshold \<le> card (set sel)" for sel
    using decrypt_selection [OF laws _ assms(8) that] enc assms(7) by (simp add: decryption_output_def)
  have "symmetric_decrypt X D obj key =
      (if input = InPlain then Err InvalidInput else Ok (''Decrypted message: '' @ hex_prefixed X message @ nl))"
    using assms(6) dem_roundtrip [OF laws(3,4), of input key]
    by (auto simp: symmetric_decrypt_def key(2) symmetric_decrypt_output_def split: prod.splits)
  then show ?thesis using printed dec by (intro exI [of _ obj_hex] exI [of _ key_hex] exI [of _ obj] exI [of _ key]) (simp add: io_lift_def)
qed

text \<open>Keys on the command line. \<open>genkey\<close> prints a master key and its public key, in a form the
  tool parses back; what \<open>extract\<close> prints for the master key is, parsed back, the user secret key; and
  \<open>verify\<close> accepts exactly this key under the public key.\<close>

theorem cli_keys_verify:
  assumes "bls_laws B" and "pairing_nondegenerate B" and "cli_codecs_ok X"
    and "seal_cli X B D R rng Genkey w = (Ok out, w')"
  shows "\<exists>mk_hex pk_hex mk pk. out = ''Master key: '' @ mk_hex @ nl @ ''Public key: '' @ pk_hex \<and>
    parse_serializable X (bcs_scalar X) mk_hex = Ok mk \<and> parse_serializable X (bcs_g2_element X) pk_hex = Ok pk \<and>
    (\<forall>package inner v out' v'. seal_cli X B D R rng' (Extract package inner mk) v = (Ok out', v') \<longrightarrow>
       (\<exists>usk_hex usk. out' = ''User secret key: '' @ usk_hex \<and> parse_serializable X (bcs_g1_element X) usk_hex = Ok usk \<and>
          (\<forall>u k. seal_cli X B D R rng' (Verify package inner k pk) u =
             (Ok (if k = usk then ''Verification successful'' else ''Verification failed''), u))))"
proof -
  let ?mk = "fst (fst (generate_key_pair B rng))"
  have pk: "snd (fst (generate_key_pair B rng)) = public_key_from_master_key B ?mk"
    by (simp add: generate_key_pair_def into_key_pair_def split: prod.splits)
  obtain m p where mp: "serializable_to_string X (bcs_scalar X) ?mk = Ok m"
    "serializable_to_string X (bcs_g2_element X) (public_key_from_master_key B ?mk) = Ok p"
    and out: "out = ''Master key: '' @ m @ nl @ ''Public key: '' @ p"
    using assms(4) by (auto simp: io_lift_Ok_iff genkey_output_def res_simps pk)
  have parsed: "parse_serializable X (bcs_scalar X) m = Ok ?mk"
    "parse_serializable X (bcs_g2_element X) p = Ok (public_key_from_master_key B ?mk)"
    using mp assms(3) by (auto intro: serializable_parses simp: cli_codecs_ok_def)
  have "\<exists>usk_hex usk. out' = ''User secret key: '' @ usk_hex \<and> parse_serializable X (bcs_g1_element X) usk_hex = Ok usk \<and>
      (\<forall>u k. seal_cli X B D R rng' (Verify package inner k (public_key_from_master_key B ?mk)) u =
         (Ok (if k = usk then ''Verification successful'' else ''Verification failed''), u))"
    if run: "seal_cli X B D R rng' (Extract package inner ?mk) v = (Ok out', v')" for package inner v out' v'
  proof -
    let ?usk = "ibe_extract B ?mk (create_full_id package inner)"
    obtain s where s: "serializable_to_string X (bcs_g1_element X) ?usk = Ok s" "out' = ''User secret key: '' @ s"
      using run by (auto simp: io_lift_Ok_iff extract_output_def res_simps)
    have "parse_serializable X (bcs_g1_element X) s = Ok ?usk"
      using s(1) assms(3) by (auto intro: serializable_parses simp: cli_codecs_ok_def)
    then show ?thesis using s(2) verify_user_secret_key_iff [OF assms(1,2)]
      by (intro exI [of _ s] exI [of _ ?usk]) (simp add: io_lift_def verify_output_def is_ok_iff)
  qed
  with out parsed show ?thesis by blast
qed

text \<open>C35: \<open>encrypt\<close> with the keys from the chain. If the object of each named key server shows the
  encoding of its public key, the number of servers is below 256 and the threshold between one and
  that number, then the command succeeds, and what it prints decodes to an object that the user secret
  keys of any selection of at least threshold servers decrypt to the secret.\<close>

theorem cli_encrypt_from_chain:
  assumes "bls_laws B" and "rng_fills R" and "hmac_len D" and "aes_correct D" and "cli_codecs_ok X"
    and "sui_client_build X (case rpc_url of Some u \<Rightarrow> u | None \<Rightarrow> default_rpc_url (mainnet_rpc_url X) (testnet_rpc_url X) network) w = (Ok c, w1)"
    and "length pks = length servers" and "length msks = length servers"
    and "\<forall>k < length servers. \<exists>url. shows_key_server X c (servers ! k) url (pks ! k) w1"
    and "\<forall>k < length servers. length (pks ! k) = g2_length X \<and> g2_from_byte_array X (pks ! k) = Ok (public_key_from_master_key B (msks ! k))"
    and "\<And>obj. \<exists>b. bcs_to (bcs_object X) obj = Ok b"
    and "threshold \<noteq> 0" and "unat threshold \<le> length servers" and "length servers < 256" and "distinct servers"
  shows "\<exists>obj_hex b obj. seal_cli X B D R rng (Encrypt secret inner package servers threshold network rpc_url) w =
      (Ok (''Encoded encrypted object:'' @ nl @ obj_hex), w1) \<and>
    hex_decode_any X obj_hex = Ok b \<and> bcs_from (bcs_object X) b = Ok obj \<and>
    (\<forall>sel v. (\<forall>j \<in> set sel. j < length servers) \<longrightarrow> unat threshold \<le> card (set sel) \<longrightarrow>
       seal_cli X B D R rng (Decrypt obj (map (\<lambda>j. ibe_extract B (msks ! j) (package @ inner)) sel) (map ((!) servers) sel)) v =
         (Ok (''Decrypted message: '' @ hex_prefixed X secret), v))"
proof -
  note laws = assms(1-4)
  let ?pks = "map (public_key_from_master_key B) msks"
  obtain infos where infos: "io_fold (fetch_key_server X c) servers [] w1 = (Ok infos, w1)"
    "map ki_public_key infos = map (hex_plain X) pks"
    using fetch_all_shown [OF assms(7,9), of "[]"] by auto
  have len: "length infos = length servers" using arg_cong [OF infos(2), of length] assms(7) by simp
  have urls: "fetch_key_server_urls X network servers rpc_url w = (Ok infos, w1)"
    unfolding fetch_key_server_urls_def Let_def by (simp add: io_bind.simps io_map_err_def assms(6) infos(1))
  have "parse_public_key X (infos ! k) = Ok (?pks ! k)" if "k < length servers" for k
  proof -
    have "ki_public_key (infos ! k) = hex_plain X (pks ! k)"
      using arg_cong [OF infos(2), of "\<lambda>l. l ! k"] that len assms(7) by simp
    then show ?thesis using assms(5,8,10) that by (simp add: parse_public_key_def hex_inverse)
  qed
  then have parsed: "collect_res (parse_public_key X) infos = Ok ?pks"
    using len assms(8) by (intro collect_res_nth) simp_all
  obtain obj key where enc: "seal_encrypt B D R rng package inner servers (BonehFranklinPublicKeys ?pks) threshold (InAes256Gcm secret None) = Ok (obj, key)"
    using seal_encrypt_parts [OF laws(1,2) assms(14) _ assms(12,13), of ?pks] assms(8) by (metis length_map)
  obtain b where b: "bcs_to (bcs_object X) obj = Ok b" using assms(11) by blast
  have "seal_cli X B D R rng (Encrypt secret inner package servers threshold network rpc_url) w =
      (Ok (''Encoded encrypted object:'' @ nl @ hex_plain X b), w1)"
    by (simp add: encrypt_command_def io_bind.simps io_map_err_def urls io_lift_def parsed enc b)
  moreover have "bcs_from (bcs_object X) b = Ok obj" using assms(5) b by (simp add: cli_codecs_ok_def codec_ok_def)
  moreover have "decrypt_command X B D obj (map (\<lambda>j. ibe_extract B (msks ! j) (package @ inner)) sel) (map ((!) servers) sel) =
      Ok (''Decrypted message: '' @ hex_prefixed X secret)"
    if "\<forall>j \<in> set sel. j < length servers" "unat threshold \<le> card (set sel)" for sel
    using decrypt_selection [OF laws enc assms(15) that] by (simp add: decryption_output_def)
  ultimately show ?thesis using hex_inverse(2) [OF assms(5)] by (intro exI [of _ "hex_plain X b"] exI [of _ b] exI [of _ obj]) (simp add: io_lift_def)
qed

text \<open>\<open>fetch-keys\<close> prints enough answers, and not more than needed. What it prints decodes to answers
  of different entries of the list of servers, in their order, at least threshold many and
  not more unless the threshold is 0, in which case only the first server is asked; each was
  parsed from a success that the server with that id returned to this request.\<close>

theorem cli_fetch_keys:
  assumes "cli_codecs_ok X" and "seal_cli X B D R rng (FetchKeys request ids threshold network rpc_url) w = (Ok out, w')"
  shows "\<exists>req servers rs_hex b rs. bcs_from (bcs_fetch_request X) request = Ok req \<and>
    out = responses_output (length rs) rs_hex \<and>
    hex_decode_any X rs_hex = Ok b \<and> bcs_from (bcs_responses X) b = Ok rs \<and>
    map ki_object_id servers = ids \<and> subseq (map fst rs) ids \<and>
    unat threshold \<le> length rs \<and> length rs \<le> max 1 (unat threshold) \<and>
    (\<forall>(i, r) \<in> set rs. \<exists>server \<in> set servers. ki_object_id server = i \<and> answered X req server r)"
proof -
  obtain req servers rs b w1 w2 where run: "bcs_from (bcs_fetch_request X) request = Ok req"
    "fetch_key_server_urls X network ids rpc_url w = (Ok servers, w1)"
    "fetch_from_servers X req threshold servers [] w1 = (Ok rs, w2)" "\<not> length rs < unat threshold"
    "bcs_to (bcs_responses X) rs = Ok b"
    and out: "out = responses_output (length rs) (hex_plain X b)"
    using assms(2) unfolding seal_cli.simps fetch_keys_command_def
    by (auto simp: io_Ok_iffs res_simps split: if_split_asm)
  have ids: "map ki_object_id servers = ids"
    using run(2) fetch_key_server_urls_ids [of X _ ids "[]"] by (auto simp: fetch_key_server_urls_def Let_def io_Ok_iffs)
  obtain new where "rs = [] @ new" "subseq (map fst new) (map ki_object_id servers)" "length rs \<le> max 1 (unat threshold)"
    "\<forall>(i, r) \<in> set new. \<exists>server \<in> set servers. ki_object_id server = i \<and> answered X req server r"
    using fetch_from_servers_Ok [OF run(3)] by blast
  moreover have "bcs_from (bcs_responses X) b = Ok rs" using assms(1) run(5) by (simp add: cli_codecs_ok_def codec_ok_def)
  ultimately show ?thesis
    using run(1,4) out hex_inverse(2) [OF assms(1)] ids
    by (intro exI [of _ req] exI [of _ servers] exI [of _ "hex_plain X b"] exI [of _ b] exI [of _ rs] conjI) simp_all
qed

subsection \<open>A concrete library\<close>

text \<open>The field with 256 elements stands for the groups. A value that BCS encodes is written as the unary
  form of its number, a group element as its byte. Every key server object shows the public key for the
  master key that is the first byte of its id, and every server answers with no keys.\<close>

instance gf256 :: countable
  by countable_datatype

instance encryption :: (countable) countable
  by countable_datatype

instance ciphertext :: countable
  by countable_datatype

definition number_codec :: "('a \<Rightarrow> 'b :: countable) \<Rightarrow> ('b \<Rightarrow> 'a) \<Rightarrow> 'a bcs_codec" where
  "number_codec f g = \<lparr>bcs_to = (\<lambda>x. Ok (replicate (to_nat (f x)) 0)), bcs_from = (\<lambda>b. Ok (g (from_nat (length b))))\<rparr>"

lemma number_codec_ok: "(\<And>x. g (f x) = x) \<Longrightarrow> codec_ok (number_codec f g)"
  by (auto simp: codec_ok_def number_codec_def)

definition byte_codec :: "gf256 bcs_codec" where
  "byte_codec = \<lparr>bcs_to = (\<lambda>x. Ok [the_byte x]), bcs_from = (\<lambda>b. Ok (GF256 (hd b)))\<rparr>"

definition object_fields where
  "object_fields obj = (eo_version obj, eo_package_id obj, eo_id obj, eo_services obj, eo_threshold obj,
     ie_nonce (eo_encrypted_shares obj), ie_encrypted_shares (eo_encrypted_shares obj),
     ie_encrypted_randomness (eo_encrypted_shares obj), eo_ciphertext obj)"

definition object_of_fields :: "_ \<Rightarrow> gf256 encrypted_object" where
  "object_of_fields = (\<lambda>(version, package, inner, services, threshold, nonce, shares, randomness, ct).
     \<lparr>eo_version = version, eo_package_id = package, eo_id = inner, eo_services = services, eo_threshold = threshold,
      eo_encrypted_shares = BonehFranklinEncryptions nonce shares randomness, eo_ciphertext = ct\<rparr>)"

definition responses_fields where
  "responses_fields rs = map (\<lambda>(i, r). (i, map (\<lambda>dk. (dk_id dk, dk_encrypted_key dk)) r)) rs"

definition responses_of_fields :: "_ \<Rightarrow> (object_id \<times> gf256 fetch_key_response) list" where
  "responses_of_fields rs = map (\<lambda>(i, r). (i, map (\<lambda>(k, e). \<lparr>dk_id = k, dk_encrypted_key = e\<rparr>) r)) rs"

definition demo_server_json :: "object_id \<Rightarrow> json" where
  "demo_server_json i =
     JObject [(''value'', JObject [(''fields'', JObject
       [(''url'', JString ''u''), (''pk'', JArray [JInt (uint (the_byte (public_key_from_master_key gf_bls (GF256 (hd i)))))])])])]"

definition demo_seal_cli :: "(gf256, gf256, gf256, json, unit, unit) seal_cli_lib" where
  "demo_seal_cli = \<lparr>
     hex_plain = bytes_string, hex_prefixed = bytes_string, hex_decode_any = (\<lambda>s. Ok (string_bytes s)),
     show_fc_error = (\<lambda>_. ''error''), show_object_id = bytes_string,
     bcs_scalar = byte_codec, bcs_g1_element = byte_codec, bcs_g2_element = byte_codec,
     bcs_object = number_codec object_fields object_of_fields,
     bcs_fetch_request = \<lparr>bcs_to = (\<lambda>_. Ok []), bcs_from = (\<lambda>_. Ok \<lparr>fkr_ptb = ''AAAA'', fkr_enc_key = PublicKey (GF256 2),
       fkr_enc_verification_key = VerificationKey (GF256 2), fkr_request_signature = [],
       fkr_certificate = \<lparr>cert_user = [1], cert_session_vk = [], cert_creation_time = 0, cert_ttl_min = 5, cert_signature = [], cert_mvr_name = None\<rparr>\<rparr>)\<rparr>,
     bcs_responses = number_codec responses_fields responses_of_fields,
     g2_from_byte_array = (\<lambda>b. Ok (GF256 (hd b))), g2_length = 1,
     mainnet_rpc_url = ''mainnet'', testnet_rpc_url = ''testnet'',
     sui_client_build = (\<lambda>_ w. (Ok (), w)),
     get_dynamic_field_object = (\<lambda>_ i _ _ w. (Ok (Some \<lparr>od_content = Some (ParsedMoveObject (demo_server_json i))\<rparr>), w)),
     fields_to_value = Ok,
     json_of_enc_key = (\<lambda>_. JNull), json_of_vk = (\<lambda>_. JNull), json_of_signature = (\<lambda>_. JNull), json_of_user = (\<lambda>_. JNull),
     json_of_session_vk = (\<lambda>_. JNull), user_signature_to_base64 = (\<lambda>_. ''''),
     json_to_string = (\<lambda>_. Ok ''request''),
     response_from_json = (\<lambda>_. Ok []),
     http_post = (\<lambda>_ _ _ w. (Ok \<lparr>hr_status = 200, hr_bytes = Ok []\<rparr>, w))\<rparr>"

lemma demo_cli_codecs: "cli_codecs_ok demo_seal_cli"
proof -
  have dk: "map (\<lambda>dk. \<lparr>dk_id = dk_id dk, dk_encrypted_key = dk_encrypted_key dk\<rparr>) r = r" for r :: "gf256 fetch_key_response"
    by (induction r) simp_all
  have "responses_of_fields (responses_fields rs) = rs" for rs
    by (induction rs) (auto simp: responses_of_fields_def responses_fields_def comp_def case_prod_beta dk)
  moreover have "object_of_fields (object_fields obj) = obj" for obj
    by (simp add: object_of_fields_def object_fields_def)
  ultimately show ?thesis
    by (simp add: cli_codecs_ok_def demo_seal_cli_def number_codec_ok string_bytes_inverse) (simp add: codec_ok_def byte_codec_def)
qed

theorem cli_encrypt_decrypt_witness:
  "\<exists>out obj_hex key_hex obj key. seal_cli demo_seal_cli gf_bls demo_prims tape_rng [9, 8, 7] (EncryptHmac [1, 2, 3] None [1] [2] 2
       (map (public_key_from_master_key gf_bls) [GF256 5, GF256 6, GF256 7]) [[11], [12], [13]]) () = (Ok out, ()) \<and>
     out = ''Encrypted object (bcs): '' @ obj_hex @ nl @ ''Symmetric key: '' @ key_hex \<and>
     parse_serializable demo_seal_cli (bcs_object demo_seal_cli) obj_hex = Ok obj \<and>
     seal_cli demo_seal_cli gf_bls demo_prims tape_rng [9, 8, 7]
       (Decrypt obj (map (\<lambda>j. ibe_extract gf_bls ([GF256 5, GF256 6, GF256 7] ! j) ([1] @ [2])) [0, 2]) (map ((!) [[11], [12], [13]]) [0, 2])) () =
       (Ok (''Decrypted message: '' @ hex_prefixed demo_seal_cli [1, 2, 3]), ())"
proof -
  let ?pks = "map (public_key_from_master_key gf_bls) [GF256 5, GF256 6, GF256 7]"
  obtain obj key where enc: "seal_encrypt gf_bls demo_prims tape_rng [9, 8, 7] [1] [2] [[11], [12], [13]]
       (BonehFranklinPublicKeys ?pks) 2 (InHmac256Ctr [1, 2, 3] None) = Ok (obj, key)"
    using demo_encrypts by blast
  have "\<exists>out. encryption_output demo_seal_cli (obj, key) = Ok out"
    by (simp add: encryption_output_def demo_seal_cli_def number_codec_def)
  then obtain out where "encryption_output demo_seal_cli (obj, key) = Ok out" by blast
  then have run: "seal_cli demo_seal_cli gf_bls demo_prims tape_rng [9, 8, 7] (EncryptHmac [1, 2, 3] None [1] [2] 2
       ?pks [[11], [12], [13]]) () = (Ok out, ())"
    using enc by (simp add: seal_encrypt_command_def io_lift_def del: list.map)
  obtain obj_hex key_hex obj' key' where r: "out = ''Encrypted object (bcs): '' @ obj_hex @ nl @ ''Symmetric key: '' @ key_hex"
    "parse_serializable demo_seal_cli (bcs_object demo_seal_cli) obj_hex = Ok obj'"
    "\<forall>sel v. (\<forall>j \<in> set sel. j < length [[11], [12], [13 :: u8]]) \<longrightarrow> unat (2 :: u8) \<le> card (set sel) \<longrightarrow>
       seal_cli demo_seal_cli gf_bls demo_prims tape_rng [9, 8, 7]
         (Decrypt obj' (map (\<lambda>j. ibe_extract gf_bls ([GF256 5, GF256 6, GF256 7] ! j) ([1] @ [2])) sel) (map ((!) [[11], [12], [13]]) sel)) v =
         (Ok (''Decrypted message: '' @ hex_prefixed demo_seal_cli (plaintext (InHmac256Ctr [1, 2, 3] None) key')), v)"
    using cli_encrypt_decrypt [OF gf_bls_laws(1) tape_rng_fills demo_prims_laws(1,3) demo_cli_codecs _ refl _ run,
        where package = "[1]" and inner = "[2]" and threshold = 2 and servers = "[[11], [12], [13]]"
          and input = "InHmac256Ctr [1, 2, 3] None" and message = "[1, 2, 3]" and aad = None]
    by (simp del: seal_cli.simps list.map) blast
  have sel: "\<forall>j \<in> set [0, 2]. j < length [[11], [12], [13 :: u8]]" "unat (2 :: u8) \<le> card (set [0, 2 :: nat])" by simp_all
  have "seal_cli demo_seal_cli gf_bls demo_prims tape_rng [9, 8, 7]
       (Decrypt obj' (map (\<lambda>j. ibe_extract gf_bls ([GF256 5, GF256 6, GF256 7] ! j) ([1] @ [2])) [0, 2]) (map ((!) [[11], [12], [13]]) [0, 2])) () =
       (Ok (''Decrypted message: '' @ hex_prefixed demo_seal_cli [1, 2, 3]), ())"
    using r(3) [THEN spec, THEN spec, THEN mp, THEN mp, OF sel] by (simp only: plaintext.simps)
  with run r(1,2) show ?thesis by blast
qed

theorem cli_keys_verify_witness:
  "\<exists>out mk_hex pk_hex mk. seal_cli demo_seal_cli gf_bls demo_prims tape_rng [5] Genkey () = (Ok out, ()) \<and>
     out = ''Master key: '' @ mk_hex @ nl @ ''Public key: '' @ pk_hex \<and>
     parse_serializable demo_seal_cli byte_codec mk_hex = Ok mk"
proof -
  let ?pair = "fst (generate_key_pair gf_bls [5])"
  have "\<exists>out. genkey_output demo_seal_cli ?pair = Ok out"
    by (simp add: genkey_output_def serializable_to_string_def demo_seal_cli_def byte_codec_def)
  then obtain out where run: "seal_cli demo_seal_cli gf_bls demo_prims tape_rng [5] Genkey () = (Ok out, ())"
    by (auto simp: io_lift_def)
  with cli_keys_verify [OF gf_bls_laws demo_cli_codecs run] show ?thesis
    by (simp add: demo_seal_cli_def del: seal_cli.simps) blast
qed

theorem cli_encrypt_from_chain_witness:
  "\<exists>obj_hex obj b. seal_cli demo_seal_cli gf_bls demo_prims tape_rng [9, 8, 7]
       (Encrypt [1, 2, 3] [2] [1] [[11], [12]] 2 DkgTestnet None) () = (Ok (''Encoded encrypted object:'' @ nl @ obj_hex), ()) \<and>
     hex_decode_any demo_seal_cli obj_hex = Ok b \<and> bcs_from (bcs_object demo_seal_cli) b = Ok obj"
proof -
  let ?msks = "[GF256 11, GF256 12]"
  let ?pks = "map (\<lambda>k. [the_byte (public_key_from_master_key gf_bls k)]) ?msks"
  have shown: "\<forall>k < length [[11], [12]]. \<exists>url. shows_key_server demo_seal_cli () ([[11], [12]] ! k) url (?pks ! k) ()"
    by (auto simp: shows_key_server_def demo_seal_cli_def demo_server_json_def less_Suc_eq numeral_2_eq_2)
  have pk: "\<forall>k < length [[11], [12]]. length (?pks ! k) = g2_length demo_seal_cli \<and>
      g2_from_byte_array demo_seal_cli (?pks ! k) = Ok (public_key_from_master_key gf_bls (?msks ! k))"
    by (auto simp: demo_seal_cli_def less_Suc_eq numeral_2_eq_2)
  have built: "sui_client_build demo_seal_cli (case None of Some u \<Rightarrow> u
      | None \<Rightarrow> default_rpc_url (mainnet_rpc_url demo_seal_cli) (testnet_rpc_url demo_seal_cli) DkgTestnet) () = (Ok (), ())"
    by (simp add: demo_seal_cli_def)
  have codec: "\<exists>b. bcs_to (bcs_object demo_seal_cli) obj = Ok b" for obj
    by (simp add: demo_seal_cli_def number_codec_def)
  show ?thesis
    using cli_encrypt_from_chain [OF gf_bls_laws(1) tape_rng_fills demo_prims_laws(1,3) demo_cli_codecs built _ _ shown pk codec,
        of 2 "[9, 8, 7]" "[1, 2, 3]" "[2]" "[1]"]
    by (simp del: seal_cli.simps) blast
qed

theorem cli_fetch_keys_witness:
  "\<exists>rs_hex b rs. seal_cli demo_seal_cli gf_bls demo_prims tape_rng [] (FetchKeys [] [[11], [12]] 1 DkgTestnet None) () =
       (Ok (responses_output 1 rs_hex), ()) \<and>
     hex_decode_any demo_seal_cli rs_hex = Ok b \<and> bcs_from (bcs_responses demo_seal_cli) b = Ok rs \<and> subseq (map fst rs) [[11], [12]] \<and> length rs = 1"
proof -
  let ?cmd = "FetchKeys [] [[11], [12]] 1 DkgTestnet None"
  have "\<exists>out. seal_cli demo_seal_cli gf_bls demo_prims tape_rng [] ?cmd () = (Ok out, ())"
    by (simp add: fetch_keys_command_def fetch_key_server_urls_def fetch_key_server_def key_server_of_data_def parse_key_server_def
        demo_seal_cli_def demo_server_json_def url_field_def pk_field_bytes [where pk = "[_]"] io_bind.simps io_map_err_def io_lift_def Let_def
        post_request_def answer_of_def is_success_def to_json_string_def number_codec_def ok_or_simps)
  then obtain out where run: "seal_cli demo_seal_cli gf_bls demo_prims tape_rng [] ?cmd () = (Ok out, ())" by blast
  obtain rs_hex b rs where "out = responses_output (length rs) rs_hex"
    "hex_decode_any demo_seal_cli rs_hex = Ok b" "bcs_from (bcs_responses demo_seal_cli) b = Ok rs" "subseq (map fst rs) [[11], [12]]"
    "unat (1 :: u8) \<le> length rs" "length rs \<le> max 1 (unat (1 :: u8))"
    using cli_fetch_keys [OF demo_cli_codecs run] by blast
  with run show ?thesis by (intro exI [of _ rs_hex] exI [of _ b] exI [of _ rs]) (simp del: seal_cli.simps)
qed

end
