(* ===== verification/Proxy.thy ===== *)
theory Proxy
  imports DkgConfig Dem "HOL-Library.Char_ord" "HOL-Library.List_Lexorder" "HOL-Library.Product_Lexorder"
begin

text \<open>
  The way of metrics: \<^verbatim>\<open>crates/key-server/src/metrics_push.rs\<close>, with which a key server or an aggregator
  pushes its metrics, and \<^verbatim>\<open>crates/seal-proxy/src\<close>, the proxy that accepts them from known nodes, labels
  them, keeps histograms for scraping and writes the rest to a time series database.

  Metrics are the protobuf messages of Prometheus. A field that may be absent is an option; 64-bit
  floats are only copied and are their bit patterns; the contents of histograms and summaries are
  only copied and are byte strings. Of the messages of the remote write protocol
  (generated code) only the fields that the proxy sets are modelled. Snappy, JSON, protobuf and the
  HTTP client are the record \<open>proxy_lib\<close>, together with the panic strategy of the build; counters that the proxy keeps
  about itself are left out. The outcome \<open>Panic\<close> of a request ends its connection in a build that unwinds, and the
  whole proxy in one that aborts, as the release profile does.
\<close>

subsection \<open>Messages\<close>

type_synonym f64 = u64

record label_pair =
  lp_name :: "string option"
  lp_value :: "string option"

datatype metric_type = COUNTER | GAUGE | SUMMARY | UNTYPED | HISTOGRAM

record metric =
  m_label :: "label_pair list"
  m_gauge :: "f64 option option"
  m_counter :: "f64 option option"
  m_summary :: "bytes option"
  m_histogram :: "bytes option"
  m_timestamp_ms :: "int option"

record metric_family =
  mf_name :: "string option"
  mf_help :: "string option"
  mf_type :: "metric_type option"
  mf_metric :: "metric list"

definition label_name :: "label_pair \<Rightarrow> string" where
  "label_name l = unwrap_or (lp_name l) ''''"

definition label_value :: "label_pair \<Rightarrow> string" where
  "label_value l = unwrap_or (lp_value l) ''''"

definition timestamp_ms :: "metric \<Rightarrow> int" where
  "timestamp_ms m = unwrap_or (m_timestamp_ms m) 0"

text \<open>Remote write.\<close>

record rw_label =
  rl_name :: string
  rl_value :: string

record rw_sample =
  rs_value :: f64
  rs_timestamp :: int

record time_series =
  ts_labels :: "rw_label list"
  ts_samples :: "rw_sample list"

record write_request =
  wr_timeseries :: "time_series list"

record http_reply =
  rp_status :: u16
  rp_text :: "(string, string) res"

text \<open>The static labels of a push and its encoded metric families.\<close>

record metric_payload =
  mp_labels :: "(string \<times> string) list option"
  mp_buf :: bytes

record 'w proxy_lib =
  pl_panic :: panic_strategy
  pl_env :: "string \<Rightarrow> string option"
  snappy_compress :: "bytes \<Rightarrow> (bytes, string) res"
  snappy_decompress :: "bytes \<Rightarrow> (bytes, string) res"
  payload_to_json :: "metric_payload \<Rightarrow> (bytes, string) res"
  payload_from_json :: "bytes \<Rightarrow> (metric_payload, string) res"
  encode_families :: "metric_family list \<Rightarrow> (bytes, string) res"
  read_raw_varint32 :: "bytes \<Rightarrow> (u32 \<times> bytes, string) res"
  parse_family :: "bytes \<Rightarrow> (metric_family, string) res"
  encode_request :: "write_request \<Rightarrow> (bytes, string) res"
  encode_text :: "metric_family list \<Rightarrow> (string, string) res"
  header_to_str :: "bytes \<Rightarrow> string option"
  pl_hostname :: "(string option, string) res"
  pl_post :: "string \<Rightarrow> (string \<times> string) list \<Rightarrow> (string \<times> string) option \<Rightarrow> bytes \<Rightarrow> ('w, string, http_reply) io"

subsection \<open>Environment variables\<close>

text \<open>\<open>parse\<close> of an integer: an optional sign (only plus for an unsigned type), at least one digit, the
  value in range.\<close>

definition digits :: "string \<Rightarrow> nat option" where
  "digits s = (if s \<noteq> [] \<and> list_all (\<lambda>c. 48 \<le> (of_char c :: nat) \<and> (of_char c :: nat) \<le> 57) s then Some (undecimal s) else None)"

fun parse_usize :: "string \<Rightarrow> nat option" where
  "parse_usize s = Option.bind (digits (case s of c # r \<Rightarrow> if c = CHR ''+'' then r else s | [] \<Rightarrow> s))
     (\<lambda>n. if n < 2 ^ 64 then Some n else None)"

fun parse_i64 :: "string \<Rightarrow> int option" where
  "parse_i64 s =
     (case s of
        c # r \<Rightarrow>
          if c = CHR ''-'' then Option.bind (digits r) (\<lambda>n. if n \<le> 2 ^ 63 then Some (- int n) else None)
          else Option.bind (digits (if c = CHR ''+'' then r else s)) (\<lambda>n. if n < 2 ^ 63 then Some (int n) else None)
      | [] \<Rightarrow> None)"

text \<open>\<open>var!\<close>: a value that does not parse panics.\<close>

definition var :: "(string \<Rightarrow> string option) \<Rightarrow> (string \<Rightarrow> 'a option) \<Rightarrow> string \<Rightarrow> 'a \<Rightarrow> ('a, 'e) res" where
  "var env parse key def =
     (case env key of Some v \<Rightarrow> (case parse v of Some x \<Rightarrow> Ok x | None \<Rightarrow> Panic) | None \<Rightarrow> Ok def)"

subsection \<open>Pushing metrics\<close>

record metrics_push_config =
  mc_bearer_token :: string
  mc_push_url :: string
  mc_push_interval :: nat
  mc_labels :: "(string \<times> string) list option"

definition push_interval_default :: nat where
  "push_interval_default = 10"

definition is_push_interval_default :: "nat \<Rightarrow> bool" where
  "is_push_interval_default duration \<longleftrightarrow> duration = 10"

datatype push_error = EncodeFailed string | SerializeFailed string | CompressFailed string | SendFailed string | PushRejected u16 string

text \<open>\<open>HashMap::insert\<close> on an association list with distinct keys.\<close>

definition label_insert :: "string \<Rightarrow> string \<Rightarrow> (string \<times> string) list \<Rightarrow> (string \<times> string) list" where
  "label_insert k v labels = (k, v) # filter (\<lambda>(k', _). k' \<noteq> k) labels"

definition status_success :: "u16 \<Rightarrow> bool" where
  "status_success s \<longleftrightarrow> 200 \<le> s \<and> s < 300"

definition set_timestamps :: "int \<Rightarrow> metric_family list \<Rightarrow> metric_family list" where
  "set_timestamps now mfs = map (\<lambda>mf. mf\<lparr>mf_metric := map (\<lambda>m. m\<lparr>m_timestamp_ms := Some now\<rparr>) (mf_metric mf)\<rparr>) mfs"

definition hostname_labels :: "'w proxy_lib \<Rightarrow> (string \<times> string) list \<Rightarrow> (string \<times> string) list" where
  "hostname_labels P labels =
     (case pl_hostname P of Ok (Some h) \<Rightarrow> label_insert ''hostname'' h labels | _ \<Rightarrow> labels)"

definition push_body :: "'w proxy_lib \<Rightarrow> metrics_push_config \<Rightarrow> int \<Rightarrow> metric_family list \<Rightarrow> (bytes, push_error) res" where
  "push_body P config now gathered =
     (if 2 ^ 63 \<le> now then Panic
      else
        and_then (map_err EncodeFailed (encode_families P (set_timestamps now gathered))) (\<lambda>buf.
        let labels = hostname_labels P (unwrap_or (mc_labels config) []) in
        and_then (map_err SerializeFailed (payload_to_json P \<lparr>mp_labels = Some labels, mp_buf = buf\<rparr>)) (\<lambda>serialized.
          map_err CompressFailed (snappy_compress P serialized))))"

definition push_metrics :: "'w proxy_lib \<Rightarrow> metrics_push_config \<Rightarrow> int \<Rightarrow> metric_family list \<Rightarrow> ('w, push_error, unit) io" where
  "push_metrics P config now gathered =
     io_bind (io_lift (push_body P config now gathered)) (\<lambda>compressed.
     io_bind (io_map_err SendFailed (pl_post P (mc_push_url config)
         [(''authorization'', ''Bearer '' @ mc_bearer_token config), (''content-encoding'', ''snappy'')] None compressed)) (\<lambda>response.
       io_lift (if status_success (rp_status response) then Ok ()
         else and_then (case rp_text response of Ok t \<Rightarrow> Ok t | Err e \<Rightarrow> Ok (''couldn't decode response body; '' @ e) | Panic \<Rightarrow> Panic) (\<lambda>body.
           Err (PushRejected (rp_status response) body)))))"

text \<open>The labels that the push jobs of the key server and of the aggregator add.\<close>

definition server_push_config :: "(string \<times> string) option \<Rightarrow> metrics_push_config \<Rightarrow> metrics_push_config" where
  "server_push_config params push_config =
     (let labels = unwrap_or (mc_labels push_config) [];
          labels = (case params of
              Some (key_server_obj_id, server_name) \<Rightarrow>
                label_insert ''server_name'' server_name (label_insert ''key_server_object_id'' key_server_obj_id labels)
            | None \<Rightarrow> labels)
      in push_config\<lparr>mc_labels := Some labels\<rparr>)"

definition aggregator_push_config :: "string \<Rightarrow> metrics_push_config \<Rightarrow> metrics_push_config" where
  "aggregator_push_config key_server_object_id push_config =
     push_config\<lparr>mc_labels := Some (label_insert ''key_server_object_id'' key_server_object_id (unwrap_or (mc_labels push_config) []))\<rparr>"

subsection \<open>Known nodes\<close>

record bearer_token_config_item =
  bt_token :: string
  bt_name :: string

definition bearer_tokens :: "bearer_token_config_item list \<Rightarrow> (string \<rightharpoonup> string)" where
  "bearer_tokens config = map_of (rev (map (\<lambda>item. (bt_token item, bt_name item)) config))"

definition get_bearer_token_owner_name :: "(string \<rightharpoonup> string) \<Rightarrow> string \<Rightarrow> string option" where
  "get_bearer_token_owner_name tokens token = tokens token"

definition allowed :: "(string \<rightharpoonup> string) \<Rightarrow> string \<Rightarrow> bool \<times> string" where
  "allowed tokens token = (case tokens token of Some name \<Rightarrow> (True, name) | None \<Rightarrow> (False, ''''))"

subsection \<open>Decoding a push\<close>

text \<open>\<open>ProtobufDecoder::parse\<close>: the loop ends if each length takes at least one byte; otherwise it may run
  forever, which is \<open>None\<close>.\<close>

datatype decode_error = VarintFailed string | UnexpectedEof | ParseFailed string

partial_function (option) parse_delimited ::
  "'w proxy_lib \<Rightarrow> bytes \<Rightarrow> metric_family list \<Rightarrow> (metric_family list, decode_error) res option" where
  "parse_delimited P buf result =
     (if buf = [] then Some (Ok result)
      else case read_raw_varint32 P buf of
          Panic \<Rightarrow> Some Panic
        | Err e \<Rightarrow> Some (Err (VarintFailed e))
        | Ok (len, rest) \<Rightarrow>
            if length rest < unat len then Some (Err UnexpectedEof)
            else case parse_family P (take (unat len) rest) of
                Panic \<Rightarrow> Some Panic
              | Err e \<Rightarrow> Some (Err (ParseFailed e))
              | Ok mf \<Rightarrow> parse_delimited P (drop (unat len) rest) (result @ [mf]))"

declare parse_delimited.simps [code]

definition show_decode_error :: "decode_error \<Rightarrow> string" where
  "show_decode_error e = (case e of VarintFailed s \<Rightarrow> s | UnexpectedEof \<Rightarrow> ''failed to fill whole buffer'' | ParseFailed s \<Rightarrow> s)"

record metric_family_with_static_labels =
  ml_labels :: "(string \<times> string) list option"
  ml_metric_families :: "metric_family list"

type_synonym http_answer = "u16 \<times> string"

record proxy_request =
  pr_header :: "string \<Rightarrow> bytes option"
  pr_bearer :: "(string, http_answer) res"
  pr_content_length :: "(unit, http_answer) res"
  pr_body :: "(bytes, u16 \<times> string) res"
  pr_socket_ip :: "string option"

definition len_delim_protobuf ::
  "'w proxy_lib \<Rightarrow> proxy_request \<Rightarrow> (metric_family_with_static_labels, http_answer) res option" where
  "len_delim_protobuf P req =
     (if pr_header req ''content-encoding'' \<noteq> Some (ascii ''snappy'') then Some (Err (400, ''snappy compression is required''))
      else case pr_body req of
          Panic \<Rightarrow> Some Panic
        | Err (status, e) \<Rightarrow> Some (Err (status, ''error extracting bytes; '' @ e))
        | Ok body \<Rightarrow>
      (case snappy_decompress P body of
          Panic \<Rightarrow> Some Panic
        | Err e \<Rightarrow> Some (Err (400, ''unable to decode snappy encoded protobufs; '' @ e))
        | Ok decompressed \<Rightarrow>
      (case payload_from_json P decompressed of
          Panic \<Rightarrow> Some Panic
        | Err e \<Rightarrow> Some (Err (400, ''unable to deserialize MetricPayload''))
        | Ok metric_payload \<Rightarrow>
            map_option (\<lambda>r. case r of
                Panic \<Rightarrow> Panic
              | Err e \<Rightarrow> Err (400, ''unable to decode len delimited protobufs; '' @ show_decode_error e)
              | Ok metric_families \<Rightarrow> Ok \<lparr>ml_labels = mp_labels metric_payload, ml_metric_families = metric_families\<rparr>)
              (parse_delimited P (mp_buf metric_payload) []))))"

definition extract_client_ip :: "'w proxy_lib \<Rightarrow> proxy_request \<Rightarrow> string" where
  "extract_client_ip P req =
     (let header = (\<lambda>name. Option.bind (pr_header req name) (header_to_str P)) in
      case header ''X-Forwarded-For'' of
        Some s \<Rightarrow> trim (takeWhile (\<lambda>c. c \<noteq> CHR '','') s)
      | None \<Rightarrow>
     (case header ''X-Real-IP'' of
        Some s \<Rightarrow> s
      | None \<Rightarrow>
     (case header ''X-Client-IP'' of
        Some s \<Rightarrow> s
      | None \<Rightarrow>
     (case pr_socket_ip req of
        Some s \<Rightarrow> s
      | None \<Rightarrow> ''unknown''))))"

subsection \<open>Labels\<close>

datatype label_modifier = LabelAdd | LabelRemove

text \<open>A map of label actions; the entries of an action in the order of iteration.\<close>

type_synonym label_actions = "label_modifier \<rightharpoonup> (string \<times> string) list"

definition pair_of :: "string \<times> string \<Rightarrow> label_pair" where
  "pair_of l = \<lparr>lp_name = Some (fst l), lp_value = Some (snd l)\<rparr>"

definition merged_labels :: "string \<Rightarrow> label_actions \<Rightarrow> (string \<times> string) list option \<Rightarrow> string \<Rightarrow> label_pair list" where
  "merged_labels node_name actions node_labels client_ip =
     (let to_add_labels = (case actions LabelAdd of Some add_labels \<Rightarrow> add_labels | None \<Rightarrow> []) in
      map pair_of (to_add_labels @
        filter (\<lambda>label. \<not> list_ex (\<lambda>l. fst l = fst label) to_add_labels) (unwrap_or node_labels [])) @
      [pair_of (''node_name'', node_name), pair_of (''client_ip'', client_ip)])"

definition keep_label :: "label_actions \<Rightarrow> label_pair \<Rightarrow> bool" where
  "keep_label actions label =
     (case actions LabelRemove of Some remove_labels \<Rightarrow> map_of remove_labels (label_name label) = None | None \<Rightarrow> True)"

definition populate_labels ::
  "string \<Rightarrow> label_actions \<Rightarrow> metric_family_with_static_labels \<Rightarrow> string \<Rightarrow> metric_family list" where
  "populate_labels node_name actions data client_ip =
     (let label_pairs = merged_labels node_name actions (ml_labels data) client_ip in
      map (\<lambda>mf. mf\<lparr>mf_metric := map (\<lambda>m. m\<lparr>m_label := filter (keep_label actions) (m_label m @ label_pairs)\<rparr>) (mf_metric mf)\<rparr>)
        (ml_metric_families data))"

subsection \<open>Remote write requests\<close>

definition rw_labels :: "metric \<Rightarrow> rw_label list" where
  "rw_labels m =
     map (\<lambda>l. \<lparr>rl_name = label_name l, rl_value = label_value l\<rparr>)
       (sort_key (\<lambda>l. (label_name l, label_value l)) (m_label m))"

definition sample_of :: "f64 option \<Rightarrow> rw_sample" where
  "sample_of v = \<lparr>rs_value = unwrap_or v 0, rs_timestamp = 0\<rparr>"

definition series_of :: "metric_family \<Rightarrow> metric \<Rightarrow> time_series" where
  "series_of mf m =
     \<lparr>ts_labels = \<lparr>rl_name = ''__name__'', rl_value = unwrap_or (mf_name mf) ''''\<rparr> # rw_labels m,
      ts_samples =
        (case m_counter m of
           Some c \<Rightarrow> [(sample_of c)\<lparr>rs_timestamp := timestamp_ms m\<rparr>]
         | None \<Rightarrow>
        (case m_gauge m of
           Some g \<Rightarrow> [(sample_of g)\<lparr>rs_timestamp := timestamp_ms m\<rparr>]
         | None \<Rightarrow> []))\<rparr>"

definition time_series_of :: "metric_family \<Rightarrow> time_series list" where
  "time_series_of mf = map (series_of mf) (mf_metric mf)"

definition supported :: "metric_family \<Rightarrow> bool" where
  "supported mf = (case unwrap_or (mf_type mf) COUNTER of COUNTER \<Rightarrow> True | GAUGE \<Rightarrow> True | _ \<Rightarrow> False)"

definition mimir_requests :: "'w proxy_lib \<Rightarrow> metric_family list \<Rightarrow> (write_request list, http_answer) res" where
  "mimir_requests P metric_families =
     (let timeseries = concat (map time_series_of (filter supported metric_families)) in
      and_then (var (pl_env P) parse_usize ''MIMIR_MAX_SAMPLE_SIZE'' 500) (\<lambda>n.
        if n = 0 then Panic
        else Ok (map (\<lambda>ts. \<lparr>wr_timeseries = ts\<rparr>) (chunks n timeseries))))"

text \<open>\<open>convert\<close> runs the conversion in a task of its own: if panics unwind, a panic there is an error here; if they
  abort, it ends the process.\<close>

definition convert :: "'w proxy_lib \<Rightarrow> metric_family list \<Rightarrow> (write_request list, http_answer) res" where
  "convert P mfs =
     (case mimir_requests P mfs of
        Ok v \<Rightarrow> Ok v
      | Err e \<Rightarrow> Err e
      | Panic \<Rightarrow>
          (case pl_panic P of
             PanicUnwind \<Rightarrow> Err (500, ''DROPPING METRICS; unable to convert to remote_write'')
           | PanicAbort \<Rightarrow> Panic))"

definition encode_compress :: "'w proxy_lib \<Rightarrow> write_request \<Rightarrow> (bytes, http_answer) res" where
  "encode_compress P request =
     and_then (map_err (\<lambda>_. (500, ''unable to encode prompb to remote_write pb'')) (encode_request P request)) (\<lambda>buf.
       map_err (\<lambda>_. (500, ''unable to compress to snappy block format'')) (snappy_compress P buf))"

fun str_infix :: "string \<Rightarrow> string \<Rightarrow> bool" where
  "str_infix p [] \<longleftrightarrow> p = []"
| "str_infix p (c # cs) \<longleftrightarrow> take (length p) (c # cs) = p \<or> str_infix p cs"

definition check_response :: "http_reply \<Rightarrow> (unit, http_answer) res" where
  "check_response response =
     (if rp_status response = 200 then Ok ()
      else if rp_status response = 400 then
        and_then (case rp_text response of Ok t \<Rightarrow> Ok t | Err _ \<Rightarrow> Ok ''response body cannot be decoded'' | Panic \<Rightarrow> Panic) (\<lambda>body.
          if str_infix ''err-mimir-sample-out-of-order'' body
          then Err (500, ''IGNORING METRICS due to err-mimir-sample-out-of-order'')
          else Err (500, ''unknown bad request error encountered in remote_push''))
      else
        and_then (case rp_text response of Ok t \<Rightarrow> Ok t | Err _ \<Rightarrow> Ok ''response body cannot be decoded'' | Panic \<Rightarrow> Panic) (\<lambda>body.
          Err (500, ''unknown error encountered in remote_push'')))"

record remote_write_config =
  rw_url :: string
  rw_username :: string
  rw_password :: string

definition remote_write_headers :: "(string \<times> string) list" where
  "remote_write_headers =
     [(''content-encoding'', ''snappy''), (''content-type'', ''application/x-protobuf''), (''X-Prometheus-Remote-Write-Version'', ''0.1.0'')]"

definition post_remote_write :: "'w proxy_lib \<Rightarrow> remote_write_config \<Rightarrow> write_request \<Rightarrow> unit \<Rightarrow> ('w, http_answer, unit) io" where
  "post_remote_write P settings request u =
     io_bind (io_lift (encode_compress P request)) (\<lambda>compressed.
     io_bind (io_map_err (\<lambda>_. (500, ''DROPPING METRICS due to post error''))
         (pl_post P (rw_url settings) remote_write_headers (Some (rw_username settings, rw_password settings)) compressed)) (\<lambda>response.
       io_lift (check_response response)))"

definition convert_to_remote_write ::
  "'w proxy_lib \<Rightarrow> remote_write_config \<Rightarrow> metric_family list \<Rightarrow> ('w, http_answer, http_answer) io" where
  "convert_to_remote_write P settings node_metric =
     io_bind (io_lift (convert P node_metric)) (\<lambda>requests.
     io_bind (io_fold (post_remote_write P settings) requests ()) (\<lambda>_.
       io_lift (Ok (201, ''created''))))"

subsection \<open>The histogram relay\<close>

type_synonym relay_queue = "(int \<times> metric_family list) list"

definition histogram_only :: "metric \<Rightarrow> metric option" where
  "histogram_only m =
     (case m_histogram m of
        None \<Rightarrow> None
      | Some h \<Rightarrow> Some \<lparr>m_label = m_label m, m_gauge = None, m_counter = None, m_summary = None, m_histogram = Some h,
          m_timestamp_ms = Some (timestamp_ms m)\<rparr>)"

definition extract_histograms :: "metric_family list \<Rightarrow> metric_family list" where
  "extract_histograms data =
     List.map_filter (\<lambda>mf.
       let only_histograms = List.map_filter histogram_only (mf_metric mf) in
       if only_histograms = [] then None
       else Some \<lparr>mf_name = Some (unwrap_or (mf_name mf) ''''), mf_help = Some (unwrap_or (mf_help mf) ''''),
          mf_type = Some (unwrap_or (mf_type mf) COUNTER), mf_metric = only_histograms\<rparr>) data"

text \<open>\<open>retain\<close> reads the variable once per entry, so an invalid value panics only if the queue has one. The
  clock reading is a number of seconds; it is below \<open>2 ^ 63\<close> or the conversion panics.\<close>

fun retain_young :: "(int, http_answer) res \<Rightarrow> int \<Rightarrow> relay_queue \<Rightarrow> (relay_queue, http_answer) res" where
  "retain_young max_age now [] = Ok []"
| "retain_young max_age now ((t, mfs) # queue) =
     and_then max_age (\<lambda>limit.
     and_then (retain_young max_age now queue) (\<lambda>rest.
       Ok (if now - t < limit then (t, mfs) # rest else rest)))"

definition relay_submit :: "'w proxy_lib \<Rightarrow> nat \<Rightarrow> metric_family list \<Rightarrow> relay_queue \<Rightarrow> (relay_queue, http_answer) res" where
  "relay_submit P now data queue =
     (if 2 ^ 63 \<le> now then Panic
      else and_then (retain_young (var (pl_env P) parse_i64 ''MAX_QUEUE_TIME_SECS'' 300) (int now) queue) (\<lambda>queue.
        Ok (queue @ [(int now, extract_histograms data)])))"

definition relay_export :: "'w proxy_lib \<Rightarrow> relay_queue \<Rightarrow> (string, string) res \<times> relay_queue" where
  "relay_export P queue = (encode_text P (concat (map snd queue)), [])"

definition relay_metrics :: "'w proxy_lib \<Rightarrow> relay_queue \<Rightarrow> (u16 \<times> string, 'e) res \<times> relay_queue" where
  "relay_metrics P queue =
     (case relay_export P queue of
        (Ok expformat, q) \<Rightarrow> (Ok (200, expformat), q)
      | (Err _, q) \<Rightarrow> (Ok (500, ''unable to pop metrics from HistogramRelay''), q)
      | (Panic, q) \<Rightarrow> (Panic, q))"

subsection \<open>The handler\<close>

record proxy_config =
  px_label_actions :: label_actions
  px_remote_write :: remote_write_config
  px_tokens :: "string \<rightharpoonup> string"

text \<open>The outcome of a request: the answer, which is the same for an error, and the queue.\<close>

fun with_queue :: "relay_queue \<Rightarrow> (http_answer, http_answer) res \<times> 'w \<Rightarrow> (http_answer \<times> relay_queue, http_answer) res \<times> 'w" where
  "with_queue queue (Ok answer, w) = (Ok (answer, queue), w)"
| "with_queue queue (Err answer, w) = (Ok (answer, queue), w)"
| "with_queue queue (Panic, w) = (Panic, w)"

definition publish_metrics ::
  "'w proxy_lib \<Rightarrow> proxy_config \<Rightarrow> nat \<Rightarrow> string \<Rightarrow> string \<Rightarrow> metric_family_with_static_labels \<Rightarrow> relay_queue \<Rightarrow>
   ('w, http_answer, http_answer \<times> relay_queue) io" where
  "publish_metrics P C now token client_ip data queue =
     (case get_bearer_token_owner_name (px_tokens C) token of
        None \<Rightarrow> io_lift Panic
      | Some node_name \<Rightarrow>
          let data = populate_labels node_name (px_label_actions C) data client_ip in
          io_bind (io_lift (relay_submit P now data queue)) (\<lambda>queue w.
            with_queue queue (convert_to_remote_write P (px_remote_write C) data w)))"

text \<open>The layers of the route \<^verbatim>\<open>/publish/metrics\<close>, around the rest of the handling of a request; the handler
  reads the same token again, which is passed on here. A body that is never decoded is \<open>None\<close>.\<close>

type_synonym 'w handled = "((http_answer \<times> relay_queue, http_answer) res \<times> 'w) option"

definition expect_valid_bearer_token ::
  "(string \<rightharpoonup> string) \<Rightarrow> proxy_request \<Rightarrow> (string \<Rightarrow> 'w \<Rightarrow> 'w handled) \<Rightarrow> 'w \<Rightarrow> 'w handled" where
  "expect_valid_bearer_token tokens req next_layer w =
     (case pr_bearer req of
        Panic \<Rightarrow> Some (Panic, w)
      | Err a \<Rightarrow> Some (Err a, w)
      | Ok token \<Rightarrow> if fst (allowed tokens token) then next_layer token w else Some (Err (401, ''Unauthorized''), w))"

definition expect_content_length :: "proxy_request \<Rightarrow> ('w \<Rightarrow> 'w handled) \<Rightarrow> 'w \<Rightarrow> 'w handled" where
  "expect_content_length req next_layer w =
     (case pr_content_length req of
        Panic \<Rightarrow> Some (Panic, w)
      | Err a \<Rightarrow> Some (Err a, w)
      | Ok _ \<Rightarrow> next_layer w)"

definition publish_route ::
  "'w proxy_lib \<Rightarrow> proxy_config \<Rightarrow> nat \<Rightarrow> proxy_request \<Rightarrow> relay_queue \<Rightarrow> 'w \<Rightarrow> 'w handled" where
  "publish_route P C now req queue =
     expect_valid_bearer_token (px_tokens C) req (\<lambda>token.
       let client_ip = extract_client_ip P req in
       expect_content_length req (\<lambda>w.
         map_option (\<lambda>data. case data of
             Panic \<Rightarrow> (Panic, w)
           | Err a \<Rightarrow> (Err a, w)
           | Ok d \<Rightarrow> publish_metrics P C now token client_ip d queue w)
           (len_delim_protobuf P req)))"

lemmas publish_route_defs = publish_route_def expect_valid_bearer_token_def expect_content_length_def

subsection \<open>The decoder\<close>

definition varint_consumes :: "'w proxy_lib \<Rightarrow> bool" where
  "varint_consumes P \<longleftrightarrow> (\<forall>b n r. read_raw_varint32 P b = Ok (n, r) \<longrightarrow> length r < length b)"

lemma parse_delimited_returns:
  assumes "varint_consumes P"
  shows "\<exists>r. parse_delimited P buf result = Some r"
proof (induction buf arbitrary: result rule: length_induct)
  case (1 buf)
  have "length (drop (unat n) r) < length buf" if "read_raw_varint32 P buf = Ok (n, r)" for n r
    using assms that by (fastforce simp: varint_consumes_def)
  with 1 show ?case by (subst parse_delimited.simps) (auto split: res.split prod.split)
qed

text \<open>A frame: a length and the message of that length.\<close>

definition framed :: "'w proxy_lib \<Rightarrow> bytes \<Rightarrow> metric_family \<Rightarrow> bool" where
  "framed P b mf \<longleftrightarrow>
     (\<exists>n msg. b \<noteq> [] \<and> unat n = length msg \<and> parse_family P msg = Ok mf \<and>
        (\<forall>rest. read_raw_varint32 P (b @ rest) = Ok (n, msg @ rest)))"

lemma parse_frames:
  assumes "list_all2 (framed P) bs mfs"
  shows "parse_delimited P (concat bs) result = Some (Ok (result @ mfs))"
  using assms
proof (induction arbitrary: result rule: list_all2_induct)
  case Nil
  then show ?case by (subst parse_delimited.simps) simp
next
  case (Cons b bs mf mfs)
  obtain n msg where "b \<noteq> []" "unat n = length msg" "parse_family P msg = Ok mf"
    "\<And>rest. read_raw_varint32 P (b @ rest) = Ok (n, msg @ rest)"
    using Cons.hyps(1) by (auto simp: framed_def)
  then show ?case using Cons.IH by (subst parse_delimited.simps) simp
qed

text \<open>The laws of the codecs. A JSON object keeps the labels as a map, not their order.\<close>

definition push_codec_laws :: "'w proxy_lib \<Rightarrow> bool" where
  "push_codec_laws P \<longleftrightarrow>
     (\<forall>b c. snappy_compress P b = Ok c \<longrightarrow> snappy_decompress P c = Ok b) \<and>
     (\<forall>p j. payload_to_json P p = Ok j \<longrightarrow>
        (\<exists>p'. payload_from_json P j = Ok p' \<and> mp_buf p' = mp_buf p \<and> map_option map_of (mp_labels p') = map_option map_of (mp_labels p))) \<and>
     (\<forall>mfs buf. encode_families P mfs = Ok buf \<longrightarrow> (\<exists>bs. buf = concat bs \<and> list_all2 (framed P) bs mfs))"

lemma map_of_label_insert: "map_of (label_insert k v labels) = (map_of labels)(k \<mapsto> v)"
proof -
  have "map_of (filter (\<lambda>(k', _). k' \<noteq> k) labels) k' = map_of labels k'" if "k' \<noteq> k" for k'
    using that by (induction labels) auto
  then show ?thesis by (auto simp: label_insert_def)
qed

subsection \<open>Labels of published metrics\<close>

lemma merged_labels_set:
  "set (merged_labels node_name actions node_labels client_ip) =
     pair_of ` (set (unwrap_or (actions LabelAdd) []) \<union>
       {l \<in> set (unwrap_or node_labels []). fst l \<notin> fst ` set (unwrap_or (actions LabelAdd) [])} \<union>
       {(''node_name'', node_name), (''client_ip'', client_ip)})"
proof -
  have "(case actions LabelAdd of Some add_labels \<Rightarrow> add_labels | None \<Rightarrow> []) = unwrap_or (actions LabelAdd) []"
    by (cases "actions LabelAdd") simp_all
  moreover have "\<not> list_ex (\<lambda>l. fst l = fst label) adds \<longleftrightarrow> fst label \<notin> fst ` set adds" for label :: "string \<times> string" and adds :: "(string \<times> string) list"
    unfolding list_ex_iff image_iff by metis
  ultimately show ?thesis
    unfolding merged_labels_def Let_def by (simp add: image_Un insert_commute del: list.inject char.inject)
qed

lemma keep_label_iff: "keep_label actions l \<longleftrightarrow> label_name l \<notin> fst ` set (unwrap_or (actions LabelRemove) [])"
  by (cases "actions LabelRemove") (auto simp: keep_label_def map_of_eq_None_iff)

lemma populate_labels_shape:
  "length (populate_labels node_name actions d ip) = length (ml_metric_families d)"
  "i < length (populate_labels node_name actions d ip) \<Longrightarrow> mf_name (populate_labels node_name actions d ip ! i) = mf_name (ml_metric_families d ! i)"
  "i < length (populate_labels node_name actions d ip) \<Longrightarrow>
     length (mf_metric (populate_labels node_name actions d ip ! i)) = length (mf_metric (ml_metric_families d ! i))"
  "i < length (populate_labels node_name actions d ip) \<Longrightarrow> k < length (mf_metric (populate_labels node_name actions d ip ! i)) \<Longrightarrow>
     set (m_label (mf_metric (populate_labels node_name actions d ip ! i) ! k)) =
       {l \<in> set (m_label (mf_metric (ml_metric_families d ! i) ! k)) \<union> set (merged_labels node_name actions (ml_labels d) ip). keep_label actions l}"
  by (auto simp: populate_labels_def Let_def)

lemma publish_route_OkE:
  assumes "publish_route P C now req queue w = Some (Ok r, w')"
  obtains token d where "pr_bearer req = Ok token" "fst (allowed (px_tokens C) token)" "len_delim_protobuf P req = Some (Ok d)"
    "publish_metrics P C now token (extract_client_ip P req) d queue w = (Ok r, w')"
proof -
  obtain token where token: "pr_bearer req = Ok token" "fst (allowed (px_tokens C) token)"
    and rest: "(case pr_content_length req of Panic \<Rightarrow> Some (Panic, w) | Err a \<Rightarrow> Some (Err a, w) | Ok _ \<Rightarrow>
        map_option (\<lambda>data. case data of Panic \<Rightarrow> (Panic, w) | Err a \<Rightarrow> (Err a, w)
          | Ok d \<Rightarrow> publish_metrics P C now token (extract_client_ip P req) d queue w) (len_delim_protobuf P req)) = Some (Ok r, w')"
    using assms by (cases "pr_bearer req") (simp_all add: publish_route_defs Let_def split: if_split_asm)
  obtain data where data: "len_delim_protobuf P req = Some data" "(case data of Panic \<Rightarrow> (Panic, w) | Err a \<Rightarrow> (Err a, w)
          | Ok d \<Rightarrow> publish_metrics P C now token (extract_client_ip P req) d queue w) = (Ok r, w')"
    using rest by (cases "pr_content_length req") auto
  then show thesis using token that by (cases data) simp_all
qed

subsection \<open>Splitting into requests\<close>

lemma concat_chunks: "n \<noteq> 0 \<Longrightarrow> concat (chunks n xs) = xs"
proof (induction n xs rule: chunks.induct)
  case (1 n xs)
  then show ?case by (subst chunks.simps) simp
qed

lemma chunks_length: "c \<in> set (chunks n xs) \<Longrightarrow> n \<noteq> 0 \<Longrightarrow> c \<noteq> [] \<and> length c \<le> n"
proof (induction n xs rule: chunks.induct)
  case (1 n xs)
  then show ?case by (subst (asm) (2) chunks.simps) (auto split: if_splits)
qed

text \<open>A loop over a list succeeds if each step does, from world to world.\<close>

lemma io_fold_worlds:
  assumes "io_fold f xs s w = (Ok s', w')"
  shows "\<exists>ss ws. length ss = Suc (length xs) \<and> length ws = Suc (length xs) \<and> ss ! 0 = s \<and> ws ! 0 = w \<and>
    ss ! length xs = s' \<and> ws ! length xs = w' \<and> (\<forall>i < length xs. f (xs ! i) (ss ! i) (ws ! i) = (Ok (ss ! Suc i), ws ! Suc i))"
  using assms
proof (induction xs arbitrary: s w)
  case Nil
  then show ?case by (intro exI [of _ "[s]"] exI [of _ "[w]"]) (simp add: io_lift_def)
next
  case (Cons x xs)
  obtain s1 w1 where step: "f x s w = (Ok s1, w1)" and rest: "io_fold f xs s1 w1 = (Ok s', w')"
    using Cons.prems by (auto simp: io_bind_Ok_iff)
  obtain ss ws where "length ss = Suc (length xs)" "length ws = Suc (length xs)" "ss ! 0 = s1" "ws ! 0 = w1"
    "ss ! length xs = s'" "ws ! length xs = w'" "\<forall>i < length xs. f (xs ! i) (ss ! i) (ws ! i) = (Ok (ss ! Suc i), ws ! Suc i)"
    using Cons.IH [OF rest] by blast
  then show ?case using step
    by (intro exI [of _ "s # ss"] exI [of _ "w # ws"]) (auto simp: nth_Cons split: nat.split)
qed

subsection \<open>The relay as a state machine\<close>

text \<open>The queue together with the submissions since the last export, in the order in which they took the lock. The
  clock is read before the lock is taken, and it may be set back: the times of the submissions are arbitrary.\<close>

record relay_state =
  rl_queue :: relay_queue
  rl_pending :: "(nat \<times> metric_family list) list"

inductive relay_step :: "'w proxy_lib \<Rightarrow> relay_state \<Rightarrow> relay_state \<Rightarrow> bool" for P where
  submit: "relay_submit P now data (rl_queue s) = Ok q \<Longrightarrow>
     relay_step P s \<lparr>rl_queue = q, rl_pending = rl_pending s @ [(now, data)]\<rparr>"
| export: "relay_export P (rl_queue s) = (r, q) \<Longrightarrow> relay_step P s \<lparr>rl_queue = q, rl_pending = []\<rparr>"

definition relay_init :: "relay_state \<Rightarrow> bool" where
  "relay_init s \<longleftrightarrow> s = \<lparr>rl_queue = [], rl_pending = []\<rparr>"

text \<open>The submissions that were younger than the limit at the time of each later one.\<close>

fun surviving :: "int \<Rightarrow> (nat \<times> 'a) list \<Rightarrow> (nat \<times> 'a) list" where
  "surviving limit [] = []"
| "surviving limit ((t, d) # later) =
     (if list_all (\<lambda>(t', _). int t' - int t < limit) later then [(t, d)] else []) @ surviving limit later"

definition relay_invar :: "int \<Rightarrow> relay_state \<Rightarrow> bool" where
  "relay_invar limit s \<longleftrightarrow> rl_queue s = map (\<lambda>(t, d). (int t, extract_histograms d)) (surviving limit (rl_pending s))"

lemma retain_young_eq:
  "retain_young (Ok limit) now queue = Ok (filter (\<lambda>(t, _). now - t < limit) queue)"
  by (induction queue) auto

lemma surviving_append: "surviving limit (pending @ [(now, d)]) =
    filter (\<lambda>x. int now - int (fst x) < limit) (surviving limit pending) @ [(now, d)]"
  by (induction limit pending rule: surviving.induct) auto

text \<open>The age limit: its default, or what the variable says.\<close>

definition queue_limit :: "'w proxy_lib \<Rightarrow> int \<Rightarrow> bool" where
  "queue_limit P limit \<longleftrightarrow> var (pl_env P) parse_i64 ''MAX_QUEUE_TIME_SECS'' 300 = (Ok limit :: (int, http_answer) res)"

lemma submit_invar:
  assumes "relay_invar limit s" and "queue_limit P limit" and "relay_submit P now data (rl_queue s) = Ok q"
  shows "relay_invar limit \<lparr>rl_queue = q, rl_pending = rl_pending s @ [(now, data)]\<rparr>"
  using assms unfolding relay_submit_def queue_limit_def
  by (auto simp: retain_young_eq relay_invar_def surviving_append filter_map comp_def case_prod_beta split: if_splits)

definition relay_ok :: "'w proxy_lib \<Rightarrow> relay_state \<Rightarrow> bool" where
  "relay_ok P s \<longleftrightarrow> (\<forall>limit. queue_limit P limit \<longrightarrow> relay_invar limit s)"

interpretation relay: invariant_system relay_init "relay_step P" "relay_ok P" for P :: "'w proxy_lib"
proof
  show "relay_ok P s" if "relay_init s" for s
    using that by (simp add: relay_ok_def relay_init_def relay_invar_def)
  show "relay_ok P t" if "relay_ok P s" "relay_step P s t" for s t
    using that(2,1)
  proof cases
    case (submit now data q)
    then show ?thesis using that(1) by (auto simp: relay_ok_def intro: submit_invar)
  next
    case (export r q)
    then show ?thesis by (simp add: relay_ok_def relay_export_def relay_invar_def)
  qed
qed

text \<open>What of a family is exported: its name, help text and type, and each of its metrics that has a histogram, with its
  labels, its histogram and its time, and no other value.\<close>

definition has_histogram :: "metric_family \<Rightarrow> bool" where
  "has_histogram mf \<longleftrightarrow> (\<exists>m \<in> set (mf_metric mf). m_histogram m \<noteq> None)"

definition exported_metric :: "metric \<Rightarrow> metric \<Rightarrow> bool" where
  "exported_metric m m' \<longleftrightarrow> m_histogram m' = m_histogram m \<and> m_label m' = m_label m \<and> m_timestamp_ms m' = Some (timestamp_ms m) \<and>
     m_gauge m' = None \<and> m_counter m' = None \<and> m_summary m' = None"

definition exported_family :: "metric_family \<Rightarrow> metric_family \<Rightarrow> bool" where
  "exported_family mf mf' \<longleftrightarrow>
     unwrap_or (mf_name mf') '''' = unwrap_or (mf_name mf) '''' \<and> unwrap_or (mf_help mf') '''' = unwrap_or (mf_help mf) '''' \<and>
     unwrap_or (mf_type mf') COUNTER = unwrap_or (mf_type mf) COUNTER \<and>
     list_all2 exported_metric (filter (\<lambda>m. m_histogram m \<noteq> None) (mf_metric mf)) (mf_metric mf')"

lemma histogram_only_exact: "list_all2 exported_metric (filter (\<lambda>m. m_histogram m \<noteq> None) ms) (List.map_filter histogram_only ms)"
proof (induction ms)
  case (Cons m ms)
  then show ?case by (cases "m_histogram m") (simp_all add: List.map_filter_simps histogram_only_def exported_metric_def)
qed (simp add: List.map_filter_simps)

lemma histogram_only_Nil: "List.map_filter histogram_only ms = [] \<longleftrightarrow> (\<forall>m \<in> set ms. m_histogram m = None)"
proof (induction ms)
  case (Cons m ms)
  then show ?case by (cases "m_histogram m") (simp_all add: List.map_filter_simps histogram_only_def)
qed (simp add: List.map_filter_simps)

lemma extract_histograms_exact: "list_all2 exported_family (filter has_histogram data) (extract_histograms data)"
proof (induction data)
  case (Cons mf data)
  then show ?case using histogram_only_exact [of "mf_metric mf"]
    by (auto simp: extract_histograms_def List.map_filter_simps Let_def has_histogram_def histogram_only_Nil exported_family_def)
qed (simp add: extract_histograms_def List.map_filter_simps)

lemma concat_histograms_exact:
  "list_all2 exported_family (filter has_histogram (concat ds)) (concat (map extract_histograms ds))"
  by (induction ds) (auto intro: list_all2_appendI extract_histograms_exact)

subsection \<open>Properties\<close>

text \<open>C37: What a node pushes is what the proxy decodes. The body that \<open>push_metrics\<close> sends, in a request with
  its content encoding, is decoded to the gathered metric families with the time of the push,
  and to the labels of the configuration with the host name.\<close>

theorem push_received:
  assumes "push_codec_laws P" and "push_body P config now gathered = Ok body"
    and "pr_header req ''content-encoding'' = Some (ascii ''snappy'')" and "pr_body req = Ok body"
  shows "\<exists>labels. len_delim_protobuf P req = Some (Ok \<lparr>ml_labels = Some labels, ml_metric_families = set_timestamps now gathered\<rparr>) \<and>
    map_of labels = (case pl_hostname P of
        Ok (Some h) \<Rightarrow> (map_of (unwrap_or (mc_labels config) []))(''hostname'' \<mapsto> h)
      | _ \<Rightarrow> map_of (unwrap_or (mc_labels config) []))"
proof -
  let ?labels = "hostname_labels P (unwrap_or (mc_labels config) [])"
  obtain buf serialized where sent: "encode_families P (set_timestamps now gathered) = Ok buf"
    "payload_to_json P \<lparr>mp_labels = Some ?labels, mp_buf = buf\<rparr> = Ok serialized" "snappy_compress P serialized = Ok body"
    using assms(2) by (auto simp: push_body_def Let_def res_simps split: if_splits)
  obtain bs where bs: "buf = concat bs" "list_all2 (framed P) bs (set_timestamps now gathered)"
    using assms(1) sent(1) unfolding push_codec_laws_def by blast
  have snappy: "snappy_decompress P body = Ok serialized" using assms(1) sent(3) by (simp add: push_codec_laws_def)
  obtain p labels where p: "payload_from_json P serialized = Ok p" "mp_buf p = buf" "mp_labels p = Some labels" "map_of labels = map_of ?labels"
    using assms(1) sent(2) by (fastforce simp: push_codec_laws_def)
  have "len_delim_protobuf P req = Some (Ok \<lparr>ml_labels = Some labels, ml_metric_families = set_timestamps now gathered\<rparr>)"
    using parse_frames [OF bs(2), of "[]"] by (simp add: len_delim_protobuf_def assms(3,4) snappy p(1-3) bs(1))
  moreover have "map_of ?labels = (case pl_hostname P of
        Ok (Some h) \<Rightarrow> (map_of (unwrap_or (mc_labels config) []))(''hostname'' \<mapsto> h)
      | _ \<Rightarrow> map_of (unwrap_or (mc_labels config) []))"
    by (simp add: hostname_labels_def map_of_label_insert split: res.split option.split)
  ultimately show ?thesis using p(4) by simp
qed

text \<open>C38: Labels of what is published. A request that presents an unknown token gets 401 and changes nothing. A
  request that is served comes from the owner of its token, and in the metrics
  that the proxy relays and writes, each metric has exactly the labels that are not configured to be removed, among:
  its own, the configured ones, those of the node whose names are not configured, the name of the owner
  and the address of the client. The handler never panics for want of the owner's name.\<close>

theorem proxy_labels:
  shows "(pr_bearer req = Ok token \<and> px_tokens C token = None \<longrightarrow> publish_route P C now req queue w = Some (Err (401, ''Unauthorized''), w)) \<and>
    (publish_route P C now req queue w = Some (Ok (answer, queue'), w') \<longrightarrow>
      (\<exists>token owner d. pr_bearer req = Ok token \<and> px_tokens C token = Some owner \<and> len_delim_protobuf P req = Some (Ok d) \<and>
        (let ip = extract_client_ip P req; actions = px_label_actions C; mfs = populate_labels owner actions d ip in
          relay_submit P now mfs queue = Ok queue' \<and> convert_to_remote_write P (px_remote_write C) mfs w \<in> {(Ok answer, w'), (Err answer, w')} \<and>
          length mfs = length (ml_metric_families d) \<and>
          (\<forall>i < length mfs. mf_name (mfs ! i) = mf_name (ml_metric_families d ! i) \<and>
             length (mf_metric (mfs ! i)) = length (mf_metric (ml_metric_families d ! i)) \<and>
             (\<forall>k < length (mf_metric (mfs ! i)).
                set (m_label (mf_metric (mfs ! i) ! k)) =
                {l \<in> set (m_label (mf_metric (ml_metric_families d ! i) ! k)) \<union>
                   pair_of ` (set (unwrap_or (actions LabelAdd) []) \<union>
                     {l \<in> set (unwrap_or (ml_labels d) []). fst l \<notin> fst ` set (unwrap_or (actions LabelAdd) [])} \<union>
                     {(''node_name'', owner), (''client_ip'', ip)}).
                 label_name l \<notin> fst ` set (unwrap_or (actions LabelRemove) [])})))))"
    (is "?A \<and> (?B \<longrightarrow> ?C)")
proof (intro conjI impI)
  show "publish_route P C now req queue w = Some (Err (401, ''Unauthorized''), w)" if "pr_bearer req = Ok token \<and> px_tokens C token = None"
    using that by (simp add: publish_route_defs allowed_def)
  assume ?B
  then obtain token d where token: "pr_bearer req = Ok token" "fst (allowed (px_tokens C) token)"
    and d: "len_delim_protobuf P req = Some (Ok d)"
    and run: "publish_metrics P C now token (extract_client_ip P req) d queue w = (Ok (answer, queue'), w')"
    by (rule publish_route_OkE)
  obtain owner where owner: "px_tokens C token = Some owner"
    using token(2) by (auto simp: allowed_def split: option.splits)
  let ?mfs = "populate_labels owner (px_label_actions C) d (extract_client_ip P req)"
  obtain q where q: "relay_submit P now ?mfs queue = Ok q" "with_queue q (convert_to_remote_write P (px_remote_write C) ?mfs w) = (Ok (answer, queue'), w')"
    using run unfolding publish_metrics_def get_bearer_token_owner_name_def owner option.case Let_def io_bind_Ok_iff io_lift_Ok_iff by blast
  obtain r1 w1 where conv: "convert_to_remote_write P (px_remote_write C) ?mfs w = (r1, w1)" by (cases "convert_to_remote_write P (px_remote_write C) ?mfs w")
  have sent: "relay_submit P now ?mfs queue = Ok queue' \<and> convert_to_remote_write P (px_remote_write C) ?mfs w \<in> {(Ok answer, w'), (Err answer, w')}"
    using q by (cases r1) (auto simp: conv)
  show ?C unfolding Let_def
  proof (rule exI [of _ token], rule exI [of _ owner], rule exI [of _ d], intro conjI allI impI)
    fix i k
    assume i: "i < length ?mfs" and k: "k < length (mf_metric (?mfs ! i))"
    from populate_labels_shape(4) [OF i k] show "set (m_label (mf_metric (?mfs ! i) ! k)) = {l \<in> set (m_label (mf_metric (ml_metric_families d ! i) ! k)) \<union>
        pair_of ` (set (unwrap_or (px_label_actions C LabelAdd) []) \<union>
          {l \<in> set (unwrap_or (ml_labels d) []). fst l \<notin> fst ` set (unwrap_or (px_label_actions C LabelAdd) [])} \<union>
          {(''node_name'', owner), (''client_ip'', extract_client_ip P req)}).
        label_name l \<notin> fst ` set (unwrap_or (px_label_actions C LabelRemove) [])}"
      unfolding merged_labels_set [symmetric] keep_label_iff [symmetric] .
  qed (use token(1) owner d sent populate_labels_shape in \<open>simp_all only:\<close>)
qed

text \<open>Writing to the database. The series of the supported families are split, in order and without loss,
  into requests of at least one and at most the configured number of series. If the proxy answers 201,
  the requests were posted one after the other and each was answered with 200.\<close>

theorem remote_write_exact:
  assumes "convert_to_remote_write P settings mfs w = (Ok answer, w')"
  shows "answer = (201, ''created'') \<and> (\<exists>n requests. var (pl_env P) parse_usize ''MIMIR_MAX_SAMPLE_SIZE'' 500 = (Ok n :: (nat, http_answer) res) \<and>
    concat (map wr_timeseries requests) = concat (map time_series_of (filter supported mfs)) \<and>
    (\<forall>r \<in> set requests. 1 \<le> length (wr_timeseries r) \<and> length (wr_timeseries r) \<le> n) \<and>
    (\<exists>ws. length ws = Suc (length requests) \<and> ws ! 0 = w \<and> ws ! length requests = w' \<and>
      (\<forall>i < length requests. \<exists>body reply. encode_compress P (requests ! i) = Ok body \<and>
         pl_post P (rw_url settings) remote_write_headers (Some (rw_username settings, rw_password settings)) body (ws ! i) =
           (Ok reply, ws ! Suc i) \<and> rp_status reply = 200)))"
proof -
  obtain requests where requests: "convert P mfs = Ok requests" "io_fold (post_remote_write P settings) requests () w = (Ok (), w')"
    and answer: "answer = (201, ''created'')"
    using assms unfolding convert_to_remote_write_def by (auto simp: io_bind_Ok_iff io_lift_Ok_iff)
  let ?series = "concat (map time_series_of (filter supported mfs))"
  obtain n where n: "var (pl_env P) parse_usize ''MIMIR_MAX_SAMPLE_SIZE'' 500 = (Ok n :: (nat, http_answer) res)" "n \<noteq> 0"
    and eq: "requests = map (\<lambda>ts. \<lparr>wr_timeseries = ts\<rparr>) (chunks n ?series)"
    using requests(1) by (auto simp: convert_def mimir_requests_def res_simps split: res.splits panic_strategy.splits if_splits)
  have parts: "concat (map wr_timeseries requests) = ?series"
    "\<forall>r \<in> set requests. 1 \<le> length (wr_timeseries r) \<and> length (wr_timeseries r) \<le> n"
    using n(2) by (auto simp: eq comp_def concat_chunks Suc_le_eq dest: chunks_length)
  have post: "\<exists>body reply. encode_compress P r = Ok body \<and>
      pl_post P (rw_url settings) remote_write_headers (Some (rw_username settings, rw_password settings)) body v = (Ok reply, v') \<and> rp_status reply = 200"
    if "post_remote_write P settings r u v = (Ok u', v')" for r u u' v v'
    using that unfolding post_remote_write_def
    by (auto simp: io_Ok_iffs check_response_def res_simps split: if_splits)
  obtain ss ws where ws: "length ws = Suc (length requests)" "ws ! 0 = w" "ws ! length requests = w'"
    "\<forall>i < length requests. post_remote_write P settings (requests ! i) (ss ! i) (ws ! i) = (Ok (ss ! Suc i), ws ! Suc i)"
    using io_fold_worlds [OF requests(2)] by blast
  then have "\<exists>ws. length ws = Suc (length requests) \<and> ws ! 0 = w \<and> ws ! length requests = w' \<and>
      (\<forall>i < length requests. \<exists>body reply. encode_compress P (requests ! i) = Ok body \<and>
         pl_post P (rw_url settings) remote_write_headers (Some (rw_username settings, rw_password settings)) body (ws ! i) =
           (Ok reply, ws ! Suc i) \<and> rp_status reply = 200)"
    using post by (intro exI [of _ ws]) blast
  with n(1) parts answer show ?thesis by blast
qed

text \<open>C39: Histograms wait for the next scrape. After any submissions and exports, whatever the clock read, an export
  empties the queue and gives, in their order, the families of exactly those submissions since the last export that
  were younger than the limit at the time of each later submission. Of these families, the ones with a histogram are given,
  each with its name, help text and type and with exactly its metrics that have a histogram: their labels, histogram
  and time, and no other value.\<close>

theorem relay_exports:
  assumes "queue_limit P limit" and "relay_init s" and "(relay_step P)\<^sup>*\<^sup>* s t"
  shows "\<exists>mfs. relay_export P (rl_queue t) = (encode_text P mfs, []) \<and>
    list_all2 exported_family (filter has_histogram (concat (map snd (surviving limit (rl_pending t))))) mfs"
proof -
  have "relay_invar limit t" using relay.reachable_invar [OF assms(2,3)] assms(1) by (simp add: relay_ok_def)
  then have "map snd (rl_queue t) = map extract_histograms (map snd (surviving limit (rl_pending t)))"
    by (simp add: relay_invar_def comp_def case_prod_beta)
  then have "relay_export P (rl_queue t) = (encode_text P (concat (map extract_histograms (map snd (surviving limit (rl_pending t))))), [])"
    by (simp only: relay_export_def)
  then show ?thesis using concat_histograms_exact by blast
qed

subsection \<open>Concrete runs\<close>

text \<open>One counter, one frame, a database that accepts everything. The world is the list of posted bodies.\<close>

definition demo_family :: "int option \<Rightarrow> metric_family" where
  "demo_family t = \<lparr>mf_name = Some ''total_requests'', mf_help = None, mf_type = Some COUNTER,
     mf_metric = [\<lparr>m_label = [], m_gauge = None, m_counter = Some (Some 3), m_summary = None, m_histogram = None, m_timestamp_ms = t\<rparr>]\<rparr>"

definition demo_proxy :: "bytes list proxy_lib" where
  "demo_proxy = \<lparr>pl_panic = PanicAbort, pl_env = (\<lambda>_. None), snappy_compress = Ok, snappy_decompress = Ok,
     payload_to_json = (\<lambda>p. if mp_labels p = Some [(''hostname'', ''h'')] then Ok (mp_buf p) else Err ''labels''),
     payload_from_json = (\<lambda>j. Ok \<lparr>mp_labels = Some [(''hostname'', ''h'')], mp_buf = j\<rparr>),
     encode_families = (\<lambda>mfs. if list_all (\<lambda>mf. mf = demo_family (Some 5)) mfs then Ok (concat (map (\<lambda>_. [1, 7]) mfs)) else Err ''family''),
     read_raw_varint32 = (\<lambda>b. case b of [] \<Rightarrow> Err ''eof'' | x # r \<Rightarrow> Ok (ucast x, r)),
     parse_family = (\<lambda>_. Ok (demo_family (Some 5))),
     encode_request = (\<lambda>r. Ok (replicate (length (wr_timeseries r)) 0)),
     encode_text = (\<lambda>mfs. Ok (concat (map (\<lambda>mf. unwrap_or (mf_name mf) '''') mfs))),
     header_to_str = (\<lambda>b. Some (bytes_string b)),
     pl_hostname = Ok (Some ''h''),
     pl_post = (\<lambda>_ _ _ body w. (Ok \<lparr>rp_status = 200, rp_text = Ok ''''\<rparr>, w @ [body]))\<rparr>"

lemma demo_frame: "framed demo_proxy [1, 7] (demo_family (Some 5))"
  unfolding framed_def by (intro exI [of _ 1] exI [of _ "[7]"]) (simp add: demo_proxy_def)

lemma demo_push_laws: "push_codec_laws demo_proxy"
proof -
  have "\<exists>bs. concat (map (\<lambda>_. [1, 7]) mfs) = concat bs \<and> list_all2 (framed demo_proxy) bs mfs"
    if "list_all (\<lambda>mf. mf = demo_family (Some 5)) mfs" for mfs
    using that demo_frame by (intro exI [of _ "map (\<lambda>_. [1, 7]) mfs"]) (auto simp: list.rel_map list_all_iff intro: list.rel_refl_strong)
  then show ?thesis by (auto simp: push_codec_laws_def demo_proxy_def split: if_splits)
qed

definition demo_push_request :: proxy_request where
  "demo_push_request = \<lparr>pr_header = [''content-encoding'' \<mapsto> ascii ''snappy''], pr_bearer = Ok ''t'', pr_content_length = Ok (),
     pr_body = Ok [1, 7], pr_socket_ip = Some ''10.0.0.1''\<rparr>"

definition demo_proxy_config :: proxy_config where
  "demo_proxy_config = \<lparr>px_label_actions = [LabelAdd \<mapsto> [(''network'', ''testnet'')]],
     px_remote_write = \<lparr>rw_url = ''u'', rw_username = ''n'', rw_password = ''p''\<rparr>, px_tokens = [''t'' \<mapsto> ''node'']\<rparr>"

abbreviation demo_push_config :: metrics_push_config where
  "demo_push_config \<equiv> \<lparr>mc_bearer_token = ''t'', mc_push_url = ''u'', mc_push_interval = 10, mc_labels = None\<rparr>"

lemma demo_push_body: "push_body demo_proxy demo_push_config 5 [demo_family None] = Ok [1, 7]"
  by (simp add: push_body_def demo_proxy_def hostname_labels_def label_insert_def set_timestamps_def demo_family_def Let_def)

lemma demo_decoded:
  "len_delim_protobuf demo_proxy demo_push_request = Some (Ok \<lparr>ml_labels = Some [(''hostname'', ''h'')], ml_metric_families = [demo_family (Some 5)]\<rparr>)"
  using parse_frames [of demo_proxy "[[1, 7]]" "[demo_family (Some 5)]" "[]"] demo_frame
  by (simp add: len_delim_protobuf_def demo_push_request_def) (simp add: demo_proxy_def)

theorem push_received_witness:
  "push_body demo_proxy demo_push_config 5 [demo_family None] = Ok [1, 7] \<and>
   (\<exists>labels. len_delim_protobuf demo_proxy demo_push_request = Some (Ok \<lparr>ml_labels = Some labels, ml_metric_families = set_timestamps 5 [demo_family None]\<rparr>) \<and>
      map_of labels ''hostname'' = Some ''h'')"
proof -
  have "pr_header demo_push_request ''content-encoding'' = Some (ascii ''snappy'')" "pr_body demo_push_request = Ok [1, 7]"
    by (simp_all add: demo_push_request_def)
  from push_received [OF demo_push_laws demo_push_body this]
  have "\<exists>labels. len_delim_protobuf demo_proxy demo_push_request = Some (Ok \<lparr>ml_labels = Some labels, ml_metric_families = set_timestamps 5 [demo_family None]\<rparr>) \<and>
      map_of labels ''hostname'' = Some ''h''"
    by (auto simp: demo_proxy_def)
  with demo_push_body show ?thesis by blast
qed

lemma demo_written:
  assumes "time_series_of mf = [ts]" and "supported mf"
  shows "convert_to_remote_write demo_proxy settings [mf] w = (Ok (201, ''created''), w @ [[0]])"
proof -
  have "chunks 500 [ts] = [[ts]]" by (simp add: chunks.simps)
  then have "convert demo_proxy [mf] = Ok [\<lparr>wr_timeseries = [ts]\<rparr>]"
    using assms by (simp add: convert_def mimir_requests_def var_def demo_proxy_def)
  then show ?thesis
    by (simp add: convert_to_remote_write_def io_bind.simps io_lift_def post_remote_write_def io_map_err_def encode_compress_def
        check_response_def demo_proxy_def)
qed

theorem remote_write_exact_witness:
  "convert_to_remote_write demo_proxy (px_remote_write demo_proxy_config) [demo_family (Some 5)] [] = (Ok (201, ''created''), [[0]]) \<and>
   (\<exists>n (requests :: write_request list). var (pl_env demo_proxy) parse_usize ''MIMIR_MAX_SAMPLE_SIZE'' 500 = (Ok n :: (nat, http_answer) res) \<and>
      concat (map wr_timeseries requests) = concat (map time_series_of (filter supported [demo_family (Some 5)])))"
proof -
  have "time_series_of (demo_family (Some 5)) = [series_of (demo_family (Some 5)) (hd (mf_metric (demo_family (Some 5))))]"
    "supported (demo_family (Some 5))"
    by (simp_all add: time_series_of_def supported_def demo_family_def)
  then have run: "convert_to_remote_write demo_proxy (px_remote_write demo_proxy_config) [demo_family (Some 5)] [] = (Ok (201, ''created''), [[0]])"
    using demo_written [of "demo_family (Some 5)" _ _ "[]"] by simp
  from remote_write_exact [OF run] run show ?thesis by blast
qed

theorem proxy_labels_witness:
  "publish_route demo_proxy demo_proxy_config 7 (demo_push_request\<lparr>pr_bearer := Ok ''x''\<rparr>) [] [] = Some (Err (401, ''Unauthorized''), []) \<and>
   (\<exists>answer queue' w'. publish_route demo_proxy demo_proxy_config 7 demo_push_request [] [] = Some (Ok (answer, queue'), w') \<and>
      (\<exists>owner d. px_tokens demo_proxy_config ''t'' = Some owner \<and> len_delim_protobuf demo_proxy demo_push_request = Some (Ok d) \<and>
        relay_submit demo_proxy 7 (populate_labels owner (px_label_actions demo_proxy_config) d (extract_client_ip demo_proxy demo_push_request)) [] = Ok queue'))"
proof -
  let ?d = "\<lparr>ml_labels = Some [(''hostname'', ''h'')], ml_metric_families = [demo_family (Some 5)]\<rparr>"
  let ?mfs = "populate_labels ''node'' (px_label_actions demo_proxy_config) ?d (extract_client_ip demo_proxy demo_push_request)"
  obtain mf where mf: "?mfs = [mf]" "\<exists>ts. time_series_of mf = [ts]" "supported mf"
    by (simp add: populate_labels_def demo_family_def Let_def time_series_of_def supported_def)
  obtain q where q: "relay_submit demo_proxy 7 ?mfs [] = Ok q" by (simp add: relay_submit_def)
  have written: "convert_to_remote_write demo_proxy (px_remote_write demo_proxy_config) ?mfs [] = (Ok (201, ''created''), [[0]])"
    using demo_written [OF _ mf(3)] mf(1,2) by auto
  have "publish_metrics demo_proxy demo_proxy_config 7 ''t'' (extract_client_ip demo_proxy demo_push_request) ?d [] [] = (Ok ((201, ''created''), q), [[0]])"
    unfolding publish_metrics_def Let_def get_bearer_token_owner_name_def
    using q written by (simp add: demo_proxy_config_def io_bind.simps io_lift_def)
  moreover have "pr_bearer demo_push_request = Ok ''t''" "fst (allowed (px_tokens demo_proxy_config) ''t'')" "pr_content_length demo_push_request = Ok ()"
    by (simp_all add: demo_push_request_def allowed_def demo_proxy_config_def)
  ultimately have run: "publish_route demo_proxy demo_proxy_config 7 demo_push_request [] [] = Some (Ok ((201, ''created''), q), [[0]])"
    by (simp add: publish_route_defs demo_decoded)
  have unknown: "pr_bearer (demo_push_request\<lparr>pr_bearer := Ok ''x''\<rparr>) = Ok ''x'' \<and> px_tokens demo_proxy_config ''x'' = None"
    by (simp add: demo_proxy_config_def)
  have "publish_route demo_proxy demo_proxy_config 7 (demo_push_request\<lparr>pr_bearer := Ok ''x''\<rparr>) [] [] = Some (Err (401, ''Unauthorized''), [])"
    by (rule proxy_labels [THEN conjunct1, THEN mp, OF unknown])
  moreover have "\<exists>owner d. px_tokens demo_proxy_config ''t'' = Some owner \<and> len_delim_protobuf demo_proxy demo_push_request = Some (Ok d) \<and>
        relay_submit demo_proxy 7 (populate_labels owner (px_label_actions demo_proxy_config) d (extract_client_ip demo_proxy demo_push_request)) [] = Ok q"
    using proxy_labels [THEN conjunct2, THEN mp, OF run] by (auto simp: Let_def demo_push_request_def)
  ultimately show ?thesis using run by blast
qed

text \<open>Three submissions, the second with an earlier time than the first. At the third the first is 295 seconds old, and
  the second 305. The counter of the last one is not exported.\<close>

definition demo_histogram :: "string \<Rightarrow> metric_family" where
  "demo_histogram name = \<lparr>mf_name = Some name, mf_help = None, mf_type = Some HISTOGRAM,
     mf_metric = [\<lparr>m_label = [], m_gauge = None, m_counter = None, m_summary = None, m_histogram = Some [4], m_timestamp_ms = Some 5\<rparr>]\<rparr>"

abbreviation demo_submissions :: "(nat \<times> metric_family list) list" where
  "demo_submissions \<equiv> [(100, [demo_histogram ''a'']), (90, [demo_histogram ''b'']), (395, [demo_histogram ''c'', demo_family None])]"

lemma relay_submissions:
  assumes "queue_limit P limit" and "\<forall>(now, data) \<in> set subs. now < 2 ^ 63"
  shows "\<exists>q. (relay_step P)\<^sup>*\<^sup>* s \<lparr>rl_queue = q, rl_pending = rl_pending s @ subs\<rparr>"
  using assms(2)
proof (induction subs arbitrary: s)
  case Nil
  have "s = \<lparr>rl_queue = rl_queue s, rl_pending = rl_pending s @ []\<rparr>" by simp
  then show ?case by (metis rtranclp.rtrancl_refl)
next
  case (Cons sub subs)
  obtain now data where sub: "sub = (now, data)" by (cases sub)
  obtain q where "relay_submit P now data (rl_queue s) = Ok q"
    using assms(1) Cons.prems sub by (simp add: relay_submit_def queue_limit_def retain_young_eq)
  then have step: "relay_step P s \<lparr>rl_queue = q, rl_pending = rl_pending s @ [sub]\<rparr>" using sub by (auto intro: relay_step.submit)
  obtain q' where "(relay_step P)\<^sup>*\<^sup>* \<lparr>rl_queue = q, rl_pending = rl_pending s @ [sub]\<rparr> \<lparr>rl_queue = q', rl_pending = (rl_pending s @ [sub]) @ subs\<rparr>"
    using Cons.IH [of "\<lparr>rl_queue = q, rl_pending = rl_pending s @ [sub]\<rparr>"] Cons.prems by auto
  then have "(relay_step P)\<^sup>*\<^sup>* s \<lparr>rl_queue = q', rl_pending = rl_pending s @ sub # subs\<rparr>"
    using step by (simp add: converse_rtranclp_into_rtranclp)
  then show ?case by blast
qed

theorem relay_exports_witness:
  "\<exists>s t. relay_init s \<and> (relay_step demo_proxy)\<^sup>*\<^sup>* s t \<and> rl_pending t = demo_submissions \<and>
     relay_export demo_proxy (rl_queue t) = (Ok ''ac'', [])"
proof -
  let ?s = "\<lparr>rl_queue = [], rl_pending = []\<rparr>"
  have limit: "queue_limit demo_proxy 300" by (simp add: queue_limit_def var_def demo_proxy_def)
  have init: "relay_init ?s" by (simp add: relay_init_def)
  obtain q where steps: "(relay_step demo_proxy)\<^sup>*\<^sup>* ?s \<lparr>rl_queue = q, rl_pending = demo_submissions\<rparr>"
    using relay_submissions [OF limit, of demo_submissions ?s] by auto
  have "filter has_histogram (concat (map snd (surviving 300 demo_submissions))) = [demo_histogram ''a'', demo_histogram ''c'']"
    by (simp add: has_histogram_def demo_histogram_def demo_family_def)
  then obtain mfs where mfs: "relay_export demo_proxy q = (encode_text demo_proxy mfs, [])"
    "list_all2 exported_family [demo_histogram ''a'', demo_histogram ''c''] mfs"
    using relay_exports [OF limit init steps] by auto
  then have "encode_text demo_proxy mfs = Ok ''ac''"
    by (auto simp: list_all2_Cons1 exported_family_def demo_histogram_def demo_proxy_def)
  with mfs(1) init steps show ?thesis
    by (intro exI [of _ ?s] exI [of _ "\<lparr>rl_queue = q, rl_pending = demo_submissions\<rparr>"]) simp
qed

end
