(* ===== verification/Metrics.thy ===== *)
theory Metrics
  imports Prelude "HOL-Library.Multiset"
begin

text \<open>
  The HTTP metrics of \<^verbatim>\<open>crates/key-server/src/metrics.rs\<close>: \<open>normalize_route\<close>, which bounds the labels, and
  \<open>metrics_middleware\<close>, which counts the requests around the handler (the middleware of the aggregator is the
  same code on its own metrics). The middleware awaits the handler, so requests interleave: its halves before
  and after the handler are two operations, and the service is a state machine. A handler that panics, or whose
  future is dropped since the client has gone, never reaches the second half.

  Gauges and counters are unbounded integers; a duration is a number of milliseconds. The other counters of the
  file are only incremented where the handlers do and are left out.
\<close>

subsection \<open>Routes\<close>

definition KNOWN_ROUTES :: "string list" where
  "KNOWN_ROUTES = [''/v1/fetch_key'', ''/v1/service'', ''/v1/debug/committee_partial_pk'', ''/health'']"

fun first_route :: "string list \<Rightarrow> string \<Rightarrow> string" where
  "first_route [] path = ''unknown''"
| "first_route (route # routes) path = (if path = route then route else first_route routes path)"

definition normalize_route :: "string \<Rightarrow> string" where
  "normalize_route path = first_route KNOWN_ROUTES path"

lemma first_route_eq: "first_route routes path = (if path \<in> set routes then path else ''unknown'')"
  by (induction routes) auto

lemma normalize_route_eq: "normalize_route path = (if path \<in> set KNOWN_ROUTES then path else ''unknown'')"
  by (simp add: normalize_route_def first_route_eq)

lemma normalize_route_known: "normalize_route path \<in> insert ''unknown'' (set KNOWN_ROUTES)"
  by (simp add: normalize_route_eq)

subsection \<open>The middleware\<close>

record http_metrics =
  http_request_duration_millis :: "string \<times> u16 \<Rightarrow> nat list"
  http_requests_total :: "string \<times> u16 \<Rightarrow> nat"
  http_request_in_flight :: "string \<Rightarrow> int"

definition request_started :: "string \<Rightarrow> http_metrics \<Rightarrow> http_metrics" where
  "request_started path metrics =
     (let route = normalize_route path in
      metrics\<lparr>http_request_in_flight := (http_request_in_flight metrics)(route := http_request_in_flight metrics route + 1)\<rparr>)"

definition request_finished :: "string \<Rightarrow> u16 \<Rightarrow> nat \<Rightarrow> http_metrics \<Rightarrow> http_metrics" where
  "request_finished path status duration metrics =
     (let route = normalize_route path;
          metrics = metrics\<lparr>http_request_in_flight := (http_request_in_flight metrics)(route := http_request_in_flight metrics route - 1)\<rparr>;
          metrics = metrics\<lparr>http_request_duration_millis := (http_request_duration_millis metrics)
            ((route, status) := http_request_duration_millis metrics (route, status) @ [duration])\<rparr>
      in metrics\<lparr>http_requests_total := (http_requests_total metrics)((route, status) := http_requests_total metrics (route, status) + 1)\<rparr>)"

text \<open>The service: requests that are being handled, that were abandoned, and that were answered.\<close>

record service =
  se_metrics :: http_metrics
  se_running :: "string multiset"
  se_abandoned :: "string multiset"
  se_answered :: "(string \<times> u16) multiset"

inductive service_step :: "service \<Rightarrow> service \<Rightarrow> bool" where
  arrives: "service_step s (s\<lparr>se_metrics := request_started path (se_metrics s), se_running := add_mset path (se_running s)\<rparr>)"
| answers: "path \<in># se_running s \<Longrightarrow>
     service_step s (s\<lparr>se_metrics := request_finished path status duration (se_metrics s),
       se_running := se_running s - {#path#}, se_answered := add_mset (path, status) (se_answered s)\<rparr>)"
| abandons: "path \<in># se_running s \<Longrightarrow>
     service_step s (s\<lparr>se_running := se_running s - {#path#}, se_abandoned := add_mset path (se_abandoned s)\<rparr>)"

definition service_init :: "service \<Rightarrow> bool" where
  "service_init s \<longleftrightarrow>
     s = \<lparr>se_metrics = \<lparr>http_request_duration_millis = (\<lambda>_. []), http_requests_total = (\<lambda>_. 0), http_request_in_flight = (\<lambda>_. 0)\<rparr>,
          se_running = {#}, se_abandoned = {#}, se_answered = {#}\<rparr>"

inductive_cases service_stepE [elim]: "service_step s t"

subsection \<open>Invariant\<close>

definition on_route :: "string \<Rightarrow> string multiset \<Rightarrow> nat" where
  "on_route route paths = count (image_mset normalize_route paths) route"

definition answered_on :: "string \<times> u16 \<Rightarrow> (string \<times> u16) multiset \<Rightarrow> nat" where
  "answered_on l answers = count (image_mset (\<lambda>(path, status). (normalize_route path, status)) answers) l"

definition service_invar :: "service \<Rightarrow> bool" where
  "service_invar s \<longleftrightarrow>
     (\<forall>route. http_request_in_flight (se_metrics s) route = int (on_route route (se_running s)) + int (on_route route (se_abandoned s))) \<and>
     (\<forall>l. http_requests_total (se_metrics s) l = answered_on l (se_answered s) \<and>
          length (http_request_duration_millis (se_metrics s) l) = http_requests_total (se_metrics s) l)"

lemma on_route_add [simp]: "on_route route (add_mset path M) = on_route route M + of_bool (normalize_route path = route)"
  by (simp add: on_route_def)

lemma on_route_remove:
  assumes "path \<in># M"
  shows "int (on_route route (M - {#path#})) = int (on_route route M) - of_bool (normalize_route path = route)"
proof -
  obtain M' where "M = add_mset path M'" using assms by (rule mset_add)
  then show ?thesis by simp
qed

lemma answered_on_add [simp]:
  "answered_on l (add_mset (path, status) M) = answered_on l M + of_bool ((normalize_route path, status) = l)"
  by (simp add: answered_on_def)

interpretation http_service: invariant_system service_init service_step service_invar
proof
  show "service_invar s" if "service_init s" for s
    using that by (simp add: service_init_def service_invar_def on_route_def answered_on_def)
  show "service_invar t" if "service_invar s" "service_step s t" for s t
    using that(2,1) by cases (auto simp: service_invar_def request_started_def request_finished_def Let_def on_route_remove)
qed

lemma on_route_unlabelled: "route \<notin> insert ''unknown'' (set KNOWN_ROUTES) \<Longrightarrow> on_route route M = 0"
  using normalize_route_known by (induction M) (auto simp: on_route_def)

lemma answered_on_unlabelled: "route \<notin> insert ''unknown'' (set KNOWN_ROUTES) \<Longrightarrow> answered_on (route, status) M = 0"
  using normalize_route_known by (induction M) (auto simp: answered_on_def)

subsection \<open>Properties\<close>

text \<open>C40: What the HTTP metrics say. After any interleaving of requests, the gauge of a route is
  the number of requests being handled on it plus the number ever abandoned on it (so a
  request whose handler panicked or whose client left is in flight for ever), the total of a route and status is
  the number of requests answered so, with one duration each; and only the known routes and
  \<open>unknown\<close> have values, whatever paths are requested.\<close>

theorem http_metrics_exact:
  assumes "service_init s0" and "service_step\<^sup>*\<^sup>* s0 s"
  shows "http_request_in_flight (se_metrics s) route = int (on_route route (se_running s)) + int (on_route route (se_abandoned s)) \<and>
    http_requests_total (se_metrics s) (route, status) = answered_on (route, status) (se_answered s) \<and>
    length (http_request_duration_millis (se_metrics s) (route, status)) = answered_on (route, status) (se_answered s) \<and>
    (route \<notin> insert ''unknown'' (set KNOWN_ROUTES) \<longrightarrow>
       http_request_in_flight (se_metrics s) route = 0 \<and> http_requests_total (se_metrics s) (route, status) = 0)"
proof -
  have "service_invar s" by (rule http_service.reachable_invar [OF assms])
  then show ?thesis by (simp add: service_invar_def on_route_unlabelled answered_on_unlabelled)
qed

theorem http_metrics_exact_witness:
  "\<exists>s0 s. service_init s0 \<and> service_step\<^sup>*\<^sup>* s0 s \<and> se_running s = {#} \<and> http_request_in_flight (se_metrics s) ''/v1/fetch_key'' = 1"
proof -
  let ?s0 = "\<lparr>se_metrics = \<lparr>http_request_duration_millis = (\<lambda>_. []), http_requests_total = (\<lambda>_. 0), http_request_in_flight = (\<lambda>_. 0)\<rparr>,
          se_running = {#}, se_abandoned = {#}, se_answered = {#}\<rparr>"
  let ?p = "''/v1/fetch_key''"
  let ?s1 = "?s0\<lparr>se_metrics := request_started ?p (se_metrics ?s0), se_running := add_mset ?p (se_running ?s0)\<rparr>"
  let ?s2 = "?s1\<lparr>se_running := se_running ?s1 - {#?p#}, se_abandoned := add_mset ?p (se_abandoned ?s1)\<rparr>"
  have init: "service_init ?s0" by (simp add: service_init_def)
  have "service_step ?s0 ?s1" by (rule service_step.arrives)
  moreover have "service_step ?s1 ?s2" by (rule service_step.abandons) simp
  ultimately have steps: "service_step\<^sup>*\<^sup>* ?s0 ?s2" by (meson converse_rtranclp_into_rtranclp rtranclp.rtrancl_refl)
  have "normalize_route ?p = ?p" by (simp add: normalize_route_def KNOWN_ROUTES_def)
  then have "on_route ?p (se_running ?s2) = 0" "on_route ?p (se_abandoned ?s2) = 1" by (simp_all add: on_route_def)
  then have "http_request_in_flight (se_metrics ?s2) ?p = 1" using http_metrics_exact [OF init steps, of ?p 0] by simp
  moreover have "se_running ?s2 = {#}" by simp
  ultimately show ?thesis using init steps by blast
qed

end
