(* ===== verification/Spec2Isabelle.thy ===== *)
theory Spec2Isabelle
  imports SealCrypto Supervisor Aggregator DkgCli SealCli Proxy Metrics
begin

text \<open>
  \<^bold>\<open>Seal\<close> is a service for decentralised secrets. A client encrypts a message to an identity, which
  is a package on the Sui chain and an id, for several key servers and a threshold; whoever the package's
  policy lets pass gets user secret keys from the servers and decrypts. A key server can be a
  committee, whose members hold shares of one master key behind an aggregator; a committee gets
  its shares by a distributed key generation that the members run with a command line tool and
  settle on chain. This development models the Rust crates of the repository.

  \<^bold>\<open>Theories and sources\<close> (paths below \<^verbatim>\<open>src/crates\<close>):

  \<^item> \<open>Prelude\<close>: \<open>res\<close>, the outcome of a Rust call (\<open>Ok\<close>, \<open>Err\<close> or \<open>Panic\<close>), machine integers,
    iterator functions, polynomials as coefficient lists, the locales \<open>invariant_system\<close> and
    \<open>stable_system\<close> for step relations.
  \<^item> \<open>GF256\<close>, \<open>Polynomials\<close>, \<open>Utils\<close>, \<open>Tss\<close>, \<open>Dem\<close>, \<open>Elgamal\<close>, \<open>Ibe\<close>, \<open>SealCrypto\<close>:
    \<^verbatim>\<open>crypto/src\<close>, one theory per module. The field is proved to be a field (an instance of the
    class), multiplication by tables equals shift-and-add, secret sharing reconstructs and is
    perfectly secret, \<open>combine\<close> and \<open>interpolate\<close> share the locale \<open>reconstruction\<close>, and
    \<open>seal_decrypt\<close> undoes \<open>seal_encrypt\<close>, never panics, and with the share check gives all
    holders of enough keys the same message.
  \<^item> \<open>Errors\<close>, \<open>Ptb\<close>, \<open>Rpc\<close>, \<open>RpcClient\<close>, \<open>Options\<close>, \<open>MasterKeys\<close>, \<open>Externals\<close>,
    \<open>Monitors\<close>, \<open>Server\<close>: \<^verbatim>\<open>key-server/src\<close>. Validation of transactions and configurations is
    characterised exactly; a request gets keys exactly if all checks pass; the rotation of a
    committee member is a step relation whose reachable states always serve the share of the
    version on chain; retries are bounded.
  \<^item> \<open>Sdk\<close>: \<^verbatim>\<open>seal-sdk/src\<close>, the client. The locale \<open>key_service\<close> is the contract between it and
    a service that answers requests; it is interpreted on the key server (in \<open>Server\<close>) and on
    the aggregator (in \<open>Aggregator\<close>).
  \<^item> \<open>SealCommittee\<close>: \<^verbatim>\<open>seal-committee/src\<close>, the objects of a committee on chain and the queries
    for them.
  \<^item> \<open>Aggregator\<close>: \<^verbatim>\<open>key-server/src/aggregator\<close>. Answers of members arrive in any order; only
    verified shares are aggregated, and the answer decrypts to the committee's key.
  \<^item> \<open>DkgConfig\<close>, \<open>DkgParty\<close>, \<open>DkgCli\<close>: \<^verbatim>\<open>seal-committee-cli/src\<close>, the tool for key generation:
    its configuration file, the state and messages of one member, and its seventeen commands
    with the transactions they send. The state of a member agrees with the chain, in a rotation also with the old
    committee and its key server object. A proposal on chain is the outcome of authentic messages
    of registered members, each argument of its Move call is what it should be, and the master share is stored before it is
    made; with \<^verbatim>\<open>--unsigned\<close> nothing is executed.
  \<^item> \<open>Supervisor\<close>: the start and the supervision of the background tasks in \<^verbatim>\<open>key-server/src/server.rs\<close>
    as a state machine, for both panic strategies. The process exits only after a part it watches has ended, and then it
    can; it aborts exactly if panics abort and some task has panicked.
  \<^item> \<open>SealCli\<close>: \<^verbatim>\<open>seal-cli/src\<close>, the command line tool around the crypto crate. What its commands
    print is what its other commands take; encryption with keys from the chain succeeds and
    decrypts; keys are fetched from the servers until the threshold.
  \<^item> \<open>Proxy\<close>: \<^verbatim>\<open>key-server/src/metrics_push.rs\<close> and \<^verbatim>\<open>seal-proxy/src\<close>, the way of metrics from a
    server to a database. A push is decoded to what was gathered, labels are exactly those
    configured, series are written without loss, and the histogram relay exports the histograms of what is young.
  \<^item> \<open>Metrics\<close>: \<^verbatim>\<open>key-server/src/metrics.rs\<close>, the middleware that counts requests, over
    interleaved requests.
  \<^item> This theory: the composition. A message encrypted to a key server and a committee is
    recovered by the client from the answers of the server and the aggregator.

  \<^bold>\<open>State and effects.\<close> A function with effects takes and returns its state: the random number
  generator, the caches, the master keys, or (in \<open>RpcClient\<close>, \<open>SealCommittee\<close> and the tool) a world
  \<open>'w\<close> of files, chain and wallet, of which the model only assumes what the named laws say
  (\<open>fs_laws\<close>, \<open>yaml_laws\<close>, \<open>tx_codec_laws\<close>, \<open>chain_laws\<close> and others). Tasks that run beside the handlers are
  steps; errors are constructors of datatypes and carry the values that the messages of the code show.

  \<^bold>\<open>Builds.\<close> The release profile, from which the images and binaries are made, has wrapping arithmetic and
  \<open>panic = 'abort'\<close>. Arithmetic is modelled as it is there. A panic is the outcome \<open>Panic\<close> of a call; where the
  code relies on panics to unwind, in the supervision of tasks and in the conversion of metrics, \<open>panic_strategy\<close> (in
  \<open>Prelude\<close>) is a parameter and both strategies are covered.

  \<^bold>\<open>Parameters.\<close> Code outside the repository is an argument: the curve BLS12-381 with its laws
  (\<open>bls_laws\<close>), hash functions, AES-GCM, BCS, Base64 and YAML codecs, the gRPC transport, the
  wallet, the Move compiler, the key generation protocol of fastcrypto-tbls, JSON, protobuf, snappy and
  the HTTP clients. Every
  property that assumes laws of a parameter has a witness with a concrete instance.

  \<^bold>\<open>Bounds.\<close> There is no fuel. The retry loop recurses on the attempts left, the other loops on lists; the decoder of
  length-delimited messages in \<open>Proxy\<close> is partial, since it ends only if reading a length consumes input, and is proved
  to return under that law (\<open>parse_delimited_returns\<close>). Integers keep their width where the code computes with them
  (\<open>u8\<close> thresholds and indices, \<open>u16\<close> durations and party ids, \<open>u64\<close> times).

  \<^bold>\<open>Not modelled.\<close> Logging and console output; HTTP routing other than the layers of the proxy's publish route;
  command line parsing by clap; the Prometheus counters that no code of the repository reads, with their
  registration, histogram buckets (floating point) and the liveness probe of the proxy; generated
  messages of the remote write protocol that are never filled; timeouts of HTTP clients; the \<open>main\<close>
  functions of the aggregator and the proxy, which wire modelled parts together; tests; and the Move packages,
  examples and documentation, which are not part of the Rust program.
\<close>

section \<open>The composition\<close>

lemma server_answers_ids:
  assumes "server_answers B S F K M options mk mk' client mainnet now gas_price req_id rng req cs sk key resp"
    and "fst (get_expected_full_ids K client (pkg_cache cs) (fkr_ptb req)) = Ok ids"
  shows "dk_id ` set resp = ids"
proof -
  from server_answers_keys(2) [OF assms(1)] obtain v inner pkg first where v: "try_from_base64 K (fkr_ptb req) = Ok v"
    and i: "inner_ids K v = Ok inner" and p: "pkg_id v = Ok pkg" and f: "fst (fetch_first_pkg_id client (pkg_cache cs) pkg) = Ok first"
    and m: "map dk_id resp = map (\<lambda>i. first @ i) inner" by blast
  have "ids = set (map (\<lambda>i. first @ i) inner)"
    using assms(2) v p f i by (auto simp: get_expected_full_ids_def case_prod_beta Let_def full_ids_def create_full_id_def)
  then show ?thesis by (simp flip: m)
qed

text \<open>
  C1: A message encrypted to a key server and to a committee, with threshold two. A client sends one
  request to the server and to the committee's aggregator. If both answer, and the transaction
  asks for the identity of the message, the client accepts both answers and recovers the
  message, although no single party ever held the committee's key.
\<close>

theorem end_to_end:
  assumes "rng_fills R" and "hmac_len D" and "aes_correct D" and "s1 \<noteq> s2"
    and enc: "seal_encrypt B D R rng0 pkg inner [s1, s2]
      (BonehFranklinPublicKeys (map (public_key_from_master_key B) [k1, k2])) 2 input = Ok (obj, key)"
    and srv: "server_answers B S F K M options mk mk' client mainnet now gas_price req_id rng req cs (SecretKey sk) k1 r1"
    and agg: "aggregator_answers B A recover_c0 K client' http completion state headers req cache sk k2 r2"
    and "fst (get_expected_full_ids K client (pkg_cache cs) (fkr_ptb req)) = Ok ids1" and "pkg @ inner \<in> ids1"
    and "fst (get_expected_full_ids K client' cache (fkr_ptb req)) = Ok ids2" and "pkg @ inner \<in> ids2"
  shows "\<exists>cached_keys. decrypt_seal_responses B F (SecretKey sk) [(s1, r1), (s2, r2)]
      [s1 \<mapsto> public_key_from_master_key B k1, s2 \<mapsto> public_key_from_master_key B k2] Map.empty = Ok cached_keys \<and>
    seal_decrypt_object B D F obj cached_keys
      [s1 \<mapsto> public_key_from_master_key B k1, s2 \<mapsto> public_key_from_master_key B k2] = Ok (plaintext input key)"
proof -
  let ?pks = "[s1 \<mapsto> public_key_from_master_key B k1, s2 \<mapsto> public_key_from_master_key B k2]"
  let ?id = "pkg @ inner"
  obtain c1 where c1: "decrypt_response B (SecretKey sk) s1 (public_key_from_master_key B k1) r1 Map.empty = Ok c1"
    "\<And>fid s. cached_key c1 fid s = (if s = s1 \<and> fid \<in> dk_id ` set r1 then Some (ibe_extract B k1 fid) else cached_key Map.empty fid s)"
    using key_server.client_accepts [OF srv] by blast
  obtain c2 where c2: "decrypt_response B (SecretKey sk) s2 (public_key_from_master_key B k2) r2 c1 = Ok c2"
    "\<And>fid s. cached_key c2 fid s = (if s = s2 \<and> fid \<in> dk_id ` set r2 then Some (ibe_extract B k2 fid) else cached_key c1 fid s)"
    using committee.client_accepts [OF agg] by blast
  have run: "decrypt_seal_responses B F (SecretKey sk) [(s1, r1), (s2, r2)] ?pks Map.empty = Ok c2"
    using c1(1) c2(1) assms(4) by (simp add: lookup_server_pk_def)
  have ids: "?id \<in> dk_id ` set r1" "?id \<in> dk_id ` set r2"
    using server_answers_ids [OF srv assms(8)] aggregator_answers_keys(2) [OF agg] assms(9-11) by auto
  have "cached_key c2 ?id s1 = Some (ibe_extract B k1 ?id)" "cached_key c2 ?id s2 = Some (ibe_extract B k2 ?id)"
    using ids assms(4) by (simp_all add: c1(2) c2(2))
  then obtain ks where ks: "c2 ?id = Some ks" "ks s1 = Some (ibe_extract B k1 ?id)" "ks s2 = Some (ibe_extract B k2 ?id)"
    by (auto simp: cached_key_def bind_eq_Some_conv)
  have B: "bls_laws B" using srv by (simp add: server_answers_def)
  have "seal_decrypt_object B D F obj c2 ?pks = Ok (plaintext input key)"
    using seal_decrypt_object_cached [OF B assms(1-3) enc, of c2 ks ?pks F] ks assms(4)
    by (simp add: upt_conv_Cons)
  then show ?thesis using run by blast
qed

theorem end_to_end_witness:
  "\<exists>obj key r1 r2 cached_keys. demo_handle = Ok r1 \<and>
     fst (agg_handle_fetch_key gf_bls demo_agg gf_recover_c0 demo_server_codec demo_client demo_http rev
       demo_app_state demo_headers demo_request Map.empty) = Ok r2 \<and>
     seal_encrypt gf_bls demo_prims tape_rng [9, 8, 7] [9] [7, 8] [[11], [12]]
       (BonehFranklinPublicKeys (map (public_key_from_master_key gf_bls) [GF256 3, GF256 5])) 2
       (InHmac256Ctr [1, 2, 3] None) = Ok (obj, key) \<and>
     seal_decrypt_object gf_bls demo_prims demo_sdk obj cached_keys
       [[11] \<mapsto> public_key_from_master_key gf_bls (GF256 3), [12] \<mapsto> public_key_from_master_key gf_bls (GF256 5)] = Ok [1, 2, 3]"
proof -
  obtain obj key where enc: "seal_encrypt gf_bls demo_prims tape_rng [9, 8, 7] [9] [7, 8] [[11], [12]]
       (BonehFranklinPublicKeys (map (public_key_from_master_key gf_bls) [GF256 3, GF256 5])) 2
       (InHmac256Ctr [1, 2, 3] None) = Ok (obj, key)"
    by (rule seal_encrypt_parts [OF gf_bls_laws(1) tape_rng_fills, of "[[11], [12]]"
        "map (public_key_from_master_key gf_bls) [GF256 3, GF256 5]" 2 "[9]" "[7, 8]"
        demo_prims "[9, 8, 7]" "InHmac256Ctr [1, 2, 3] None"]) (simp, simp, simp, simp, blast)
  obtain r1 where r1: "demo_handle = Ok r1" using demo_handle_Ok by blast
  have "is_ok (fst (agg_handle_fetch_key gf_bls demo_agg gf_recover_c0 demo_server_codec demo_client demo_http rev
       demo_app_state demo_headers demo_request Map.empty))"
    by (subst demo_agg_live, simp add: demo_task_results, simp add: demo_app_state_def)
  then obtain r2 where r2: "fst (agg_handle_fetch_key gf_bls demo_agg gf_recover_c0 demo_server_codec demo_client demo_http rev
       demo_app_state demo_headers demo_request Map.empty) = Ok r2" by (auto simp: is_ok_iff)
  have g: "genkey (g1 gf_bls) (g2 gf_bls) [2] = ((SecretKey (GF256 2), fkr_enc_key demo_request, VerificationKey (GF256 2)), [])"
    by code_simp
  have first: "pkg_id (ValidPtb demo_ptb) = Ok [1]" "fkr_ptb demo_request = []" by code_simp+
  have srv: "server_answers gf_bls demo_server_ops demo_sdk demo_server_codec demo_mvr (demo_options (ModeOpen [1]))
      (OpenKeys (GF256 3)) (OpenKeys (GF256 3)) demo_client demo_mainnet 1000 1 [] [7] demo_request
      \<lparr>pkg_cache = Map.empty, mvr_cache = Map.empty\<rparr> (SecretKey (GF256 2)) (GF256 3) r1"
    unfolding server_answers_def r1 [unfolded demo_handle_def] first(2) demo_ptb_decoded
    using gf_bls_laws(1) g first(1) by (auto simp: fetch_first_pkg_id_def demo_client_def get_key_for_package_def)
  have agg: "aggregator_answers gf_bls demo_agg gf_recover_c0 demo_server_codec demo_client demo_http rev demo_app_state demo_headers
      demo_request Map.empty (GF256 2) (GF256 5) r2"
    unfolding aggregator_answers_def r2 demo_vk
    using gf_bls_laws demo_rest(5) rev_permutes demo_committee_key gf_recover_law demo_agg_returns by fastforce
  from end_to_end [OF tape_rng_fills demo_prims_laws(1,3) _ enc srv agg] demo_expected
  obtain cached_keys where "seal_decrypt_object gf_bls demo_prims demo_sdk obj cached_keys
       [[11] \<mapsto> public_key_from_master_key gf_bls (GF256 3), [12] \<mapsto> public_key_from_master_key gf_bls (GF256 5)] = Ok [1, 2, 3]"
    by (auto)
  then show ?thesis using r1 r2 enc by blast
qed

end
